(* ===== verification/Rauha_Prelude.thy ===== *)
theory Rauha_Prelude
  imports Main "HOL-Library.Word" "HOL-Library.Sublist"
begin

text \<open>
  What the components share: the result type of a fallible function, the error type of
  the \<open>rauha-common\<close> crate, the operations of Rust's standard library on strings,
  numbers and vectors that the sources call, and the reachability closure used by the
  state machines. A Rust \<open>String\<close> or \<open>[u8]\<close> is a list of 8-bit characters, so
  \<open>len()\<close> is the number of bytes.
\<close>

unbundle bit_operations_syntax

named_theorems result_simps "case analysis on results"

type_synonym u8 = "8 word"
type_synonym u16 = "16 word"
type_synonym u32 = "32 word"
type_synonym u64 = "64 word"
type_synonym i32 = "32 word"

text \<open>A \<open>Result\<close> is a sum, the error on the left; \<open>and_then\<close> is the question mark operator.\<close>

fun and_then :: "'e + 'a \<Rightarrow> ('a \<Rightarrow> 'e + 'b) \<Rightarrow> 'e + 'b" where
  "and_then (Inl e) f = Inl e"
| "and_then (Inr x) f = f x"

fun map_err :: "('e \<Rightarrow> 'f) \<Rightarrow> 'e + 'a \<Rightarrow> 'f + 'a" where
  "map_err f (Inl e) = Inl (f e)"
| "map_err f (Inr x) = Inr x"

fun ok_or :: "'e \<Rightarrow> 'a option \<Rightarrow> 'e + 'a" where
  "ok_or e None = Inl e"
| "ok_or e (Some x) = Inr x"

fun is_ok :: "'e + 'a \<Rightarrow> bool" where
  "is_ok (Inl e) = False"
| "is_ok (Inr x) = True"

lemma and_then_Inr [result_simps]:
  "and_then r f = Inr y \<longleftrightarrow> (\<exists>x. r = Inr x \<and> f x = Inr y)"
  by (cases r) auto

lemma and_then_Inl [result_simps]:
  "and_then r f = Inl e \<longleftrightarrow> r = Inl e \<or> (\<exists>x. r = Inr x \<and> f x = Inl e)"
  by (cases r) auto

lemma map_err_Inr [result_simps]: "map_err f r = Inr y \<longleftrightarrow> r = Inr y"
  by (cases r) auto

lemma ok_or_Inr [result_simps]: "ok_or e m = Inr y \<longleftrightarrow> m = Some y"
  by (cases m) auto

lemma ok_or_Inl [result_simps]: "ok_or e m = Inl e' \<longleftrightarrow> m = None \<and> e' = e"
  by (cases m) auto

lemma is_ok_iff [result_simps]: "is_ok r \<longleftrightarrow> (\<exists>x. r = Inr x)"
  by (cases r) auto

text \<open>\<open>iter().map(f).collect::<Result<Vec<_>, _>>()\<close>: the first error wins.\<close>

fun collect_results :: "('a \<Rightarrow> 'e + 'b) \<Rightarrow> 'a list \<Rightarrow> 'e + 'b list" where
  "collect_results f [] = Inr []"
| "collect_results f (x # xs) =
     and_then (f x) (\<lambda>y. and_then (collect_results f xs) (\<lambda>ys. Inr (y # ys)))"

lemma collect_results_Inr [result_simps]:
  "collect_results f xs = Inr ys \<longleftrightarrow> list_all2 (\<lambda>x y. f x = Inr y) xs ys"
  by (induction xs arbitrary: ys) (auto simp: result_simps list_all2_Cons1)

text \<open>The error type of \<open>rauha-common/src/error.rs\<close>. A UUID is a string.\<close>

datatype RauhaError =
    ZoneNotFound string
  | ZoneAlreadyExists string
  | ContainerNotFound string
  | ContainerAlreadyExists string string
  | ZoneNotEmpty nat
  | InvalidInput string
  | InvalidPolicy string
  | BackendError string
  | ImageNotFound string
  | MetadataError string
  | ImageError string
  | PermissionDenied string
  | CrossZoneAccessDenied string string
  | UnsupportedPlatform string
  | EbpfError string string
  | CgroupError string string
  | NamespaceError string string
  | NetworkError string string
  | ImagePullError string string
  | ContentError string
  | ShimError string string
  | RootfsError string
  | ContainerExecError string string
  | KernelTooOld string string
  | Io string
  | Other string

type_synonym 'a rresult = "RauhaError + 'a"

text \<open>The wire budget of a task result (\<open>rauha-common/src/sandbox.rs\<close>).\<close>

definition MAX_RESULT_BYTES :: nat where "MAX_RESULT_BYTES = 4 * 1024 * 1024"

subsection \<open>Strings\<close>

definition newline :: char where "newline = CHR 0x0A"

text \<open>The UTF-8 bytes of an em dash, as the program's messages have it.\<close>

definition em_dash :: string where "em_dash = [CHR 0xE2, CHR 0x80, CHR 0x94]"

definition starts_with :: "string \<Rightarrow> string \<Rightarrow> bool" where
  "starts_with s p = (take (length p) s = p)"

definition strip_prefix :: "string \<Rightarrow> string \<Rightarrow> string option" where
  "strip_prefix s p = (if starts_with s p then Some (drop (length p) s) else None)"

fun str_contains :: "string \<Rightarrow> string \<Rightarrow> bool" where
  "str_contains [] p = (p = [])"
| "str_contains (c # s) p = (starts_with (c # s) p \<or> str_contains s p)"

text \<open>\<open>str::split(c)\<close>: one piece more than there are separators.\<close>

fun split_on :: "char \<Rightarrow> string \<Rightarrow> string list" where
  "split_on c [] = [[]]"
| "split_on c (x # xs) =
     (if x = c then [] # split_on c xs
      else (case split_on c xs of [] \<Rightarrow> [[x]] | p # ps \<Rightarrow> (x # p) # ps))"

fun split_once :: "char \<Rightarrow> string \<Rightarrow> (string \<times> string) option" where
  "split_once c [] = None"
| "split_once c (x # xs) =
     (if x = c then Some ([], xs)
      else (case split_once c xs of None \<Rightarrow> None | Some (a, b) \<Rightarrow> Some (x # a, b)))"

definition rsplit_once :: "char \<Rightarrow> string \<Rightarrow> (string \<times> string) option" where
  "rsplit_once c s =
     (case split_once c (rev s) of None \<Rightarrow> None | Some (a, b) \<Rightarrow> Some (rev b, rev a))"

fun join :: "string \<Rightarrow> string list \<Rightarrow> string" where
  "join sep [] = []"
| "join sep [x] = x"
| "join sep (x # y # ys) = x @ sep @ join sep (y # ys)"

definition replace_char :: "char \<Rightarrow> char \<Rightarrow> string \<Rightarrow> string" where
  "replace_char a b s = map (\<lambda>c. if c = a then b else c) s"

lemma split_on_not_Nil [simp]: "split_on c s \<noteq> []"
  by (induction s) (auto split: list.splits)

lemma starts_with_append [simp]: "starts_with (p @ s) p"
  by (simp add: starts_with_def)

lemma starts_with_iff: "starts_with s p \<longleftrightarrow> (\<exists>t. s = p @ t)"
  by (metis append_take_drop_id starts_with_append starts_with_def)

lemma strip_prefix_Some: "strip_prefix s p = Some t \<longleftrightarrow> s = p @ t"
  by (auto simp: strip_prefix_def starts_with_iff)

lemma split_once_Some:
  "split_once c s = Some (a, b) \<longleftrightarrow> s = a @ c # b \<and> c \<notin> set a"
proof (induction s arbitrary: a)
  case (Cons x xs)
  note IH = Cons.IH
  show ?case
  proof (cases a)
    case Nil
    then show ?thesis by (auto split: option.splits)
  next
    case (Cons y ys)
    then show ?thesis using IH [of ys] by (auto split: option.splits)
  qed
qed simp

lemma split_once_None: "split_once c s = None \<longleftrightarrow> c \<notin> set s"
  by (induction s) (auto split: option.splits)

lemma str_contains_iff: "str_contains s p \<longleftrightarrow> (\<exists>a b. s = a @ p @ b)"
proof (induction s)
  case (Cons c s)
  have "(\<exists>a b. c # s = a @ p @ b) \<longleftrightarrow> (\<exists>b. c # s = p @ b) \<or> (\<exists>a b. s = a @ p @ b)"
    (is "?l \<longleftrightarrow> ?r")
  proof
    assume ?l
    then obtain a b where "c # s = a @ p @ b" by blast
    then show ?r by (cases a) auto
  next
    assume ?r
    then show ?l by (metis append_Cons append_Nil)
  qed
  then show ?case using Cons by (simp add: starts_with_iff)
qed auto

text \<open>Rust's ASCII classes and case folding, on bytes.\<close>

definition is_ascii_digit :: "char \<Rightarrow> bool" where
  "is_ascii_digit c = (48 \<le> (of_char c :: nat) \<and> (of_char c :: nat) \<le> 57)"

definition is_ascii_lowercase :: "char \<Rightarrow> bool" where
  "is_ascii_lowercase c = (97 \<le> (of_char c :: nat) \<and> (of_char c :: nat) \<le> 122)"

definition is_ascii_uppercase :: "char \<Rightarrow> bool" where
  "is_ascii_uppercase c = (65 \<le> (of_char c :: nat) \<and> (of_char c :: nat) \<le> 90)"

definition is_ascii_alphanumeric :: "char \<Rightarrow> bool" where
  "is_ascii_alphanumeric c = (is_ascii_digit c \<or> is_ascii_lowercase c \<or> is_ascii_uppercase c)"

definition to_ascii_upper :: "char \<Rightarrow> char" where
  "to_ascii_upper c = (if is_ascii_lowercase c then char_of ((of_char c :: nat) - 32) else c)"

definition is_whitespace :: "char \<Rightarrow> bool" where
  "is_whitespace c = ((of_char c :: nat) \<in> {9, 10, 11, 12, 13, 32})"

definition trim :: "string \<Rightarrow> string" where
  "trim s = rev (dropWhile is_whitespace (rev (dropWhile is_whitespace s)))"

text \<open>\<open>str::lines\<close>: a final empty piece is dropped, and a carriage return before a line
  feed is not part of the line.\<close>

definition strip_cr :: "string \<Rightarrow> string" where
  "strip_cr s = (if s \<noteq> [] \<and> last s = CHR 0x0D then butlast s else s)"

definition lines :: "string \<Rightarrow> string list" where
  "lines s =
    (let ps = split_on CHR 0x0A s
     in map strip_cr (butlast ps) @ (if last ps = [] then [] else [last ps]))"

definition split_whitespace :: "string \<Rightarrow> string list" where
  "split_whitespace s =
    filter (\<lambda>w. w \<noteq> []) (split_on CHR '' '' (map (\<lambda>c. if is_whitespace c then CHR '' '' else c) s))"

definition strip_suffix :: "string \<Rightarrow> string \<Rightarrow> string option" where
  "strip_suffix s p =
    (if length p \<le> length s \<and> drop (length s - length p) s = p
     then Some (take (length s - length p) s) else None)"

lemma strip_suffix_Some: "strip_suffix s p = Some t \<longleftrightarrow> s = t @ p"
proof
  assume "strip_suffix s p = Some t"
  then show "s = t @ p"
    by (auto simp: strip_suffix_def split: if_splits) (metis append_take_drop_id)
qed (simp add: strip_suffix_def)

definition trim_start_matches :: "char \<Rightarrow> string \<Rightarrow> string" where
  "trim_start_matches c s = dropWhile (\<lambda>x. x = c) s"

lemma trim_id: "s \<noteq> [] \<Longrightarrow> \<not> is_whitespace (hd s) \<Longrightarrow> \<not> is_whitespace (last s) \<Longrightarrow> trim s = s"
proof -
  assume a: "s \<noteq> []" "\<not> is_whitespace (hd s)" "\<not> is_whitespace (last s)"
  then have "dropWhile is_whitespace s = s" by (cases s) auto
  moreover have "dropWhile is_whitespace (rev s) = rev s"
    using a by (cases "rev s") (auto simp: last_rev hd_rev [symmetric] split: if_splits)
  ultimately show ?thesis by (simp add: trim_def)
qed

lemma digit_not_whitespace: "is_ascii_digit c \<Longrightarrow> \<not> is_whitespace c"
  by (auto simp: is_ascii_digit_def is_whitespace_def)

lemma trim_no_space: "list_all (\<lambda>c. \<not> is_whitespace c) s \<Longrightarrow> trim s = s"
  by (cases "s = []") (simp add: trim_def, simp add: trim_id list_all_iff)

lemma split_on_append_sep: "c \<notin> set a \<Longrightarrow> split_on c (a @ c # s) = a # split_on c s"
  by (induction a) auto

lemma split_on_none: "c \<notin> set s \<Longrightarrow> split_on c s = [s]"
  by (induction s) auto

lemma split_on_unlines:
  "list_all (\<lambda>l. CHR 0x0A \<notin> set l) ls \<Longrightarrow>
   split_on CHR 0x0A (concat (map (\<lambda>l. l @ [CHR 0x0A]) ls)) = ls @ [[]]"
  by (induction ls) (simp_all add: split_on_append_sep)

lemma lines_unlines:
  assumes "list_all (\<lambda>l. CHR 0x0A \<notin> set l \<and> strip_cr l = l) ls"
  shows "lines (concat (map (\<lambda>l. l @ [CHR 0x0A]) ls)) = ls"
proof -
  have "split_on CHR 0x0A (concat (map (\<lambda>l. l @ [CHR 0x0A]) ls)) = ls @ [[]]"
    using assms by (intro split_on_unlines) (simp add: list_all_iff)
  moreover have "map strip_cr ls = ls" using assms by (simp add: list_all_iff map_idI)
  ultimately show ?thesis by (simp add: lines_def)
qed

text \<open>\<open>str::find\<close> and \<open>str::rfind\<close>: the byte index of the first and last occurrence.\<close>

fun find_str :: "string \<Rightarrow> string \<Rightarrow> nat option" where
  "find_str [] p = (if p = [] then Some 0 else None)"
| "find_str (c # s) p = (if starts_with (c # s) p then Some 0 else map_option Suc (find_str s p))"

fun rfind_str :: "string \<Rightarrow> string \<Rightarrow> nat option" where
  "rfind_str [] p = (if p = [] then Some 0 else None)"
| "rfind_str (c # s) p =
     (case rfind_str s p of
        Some n \<Rightarrow> Some (Suc n)
      | None \<Rightarrow> if starts_with (c # s) p then Some 0 else None)"

text \<open>\<open>s.get(..s.len().min(n))\<close>: there is no result where the cut falls inside a character.\<close>

definition str_cut :: "nat \<Rightarrow> string \<Rightarrow> string option" where
  "str_cut n s =
    (let m = min (length s) n in
     if m < length s \<and> (of_char (s ! m) :: nat) div 64 = 2 then None else Some (take m s))"

subsection \<open>Paths\<close>

text \<open>\<open>Path::join\<close>: an absolute argument replaces the base.\<close>

definition path_join :: "string \<Rightarrow> string \<Rightarrow> string" where
  "path_join base p =
    (if starts_with p ''/'' then p
     else if base = [] \<or> last base = CHR ''/'' then base @ p
     else base @ ''/'' @ p)"

text \<open>A reversed path without trailing slashes and trailing \<open>.\<close> components.\<close>

function trim_rpath :: "string \<Rightarrow> string" where
  "trim_rpath r =
    (if r = ''/'' \<or> r = [] then r
     else if hd r = CHR ''/'' then trim_rpath (tl r)
     else if starts_with r ''./'' then trim_rpath (tl r)
     else r)"
  by pat_completeness auto
termination by (relation "measure length") (auto simp: neq_Nil_conv)

declare trim_rpath.simps [simp del]

definition path_file_name :: "string \<Rightarrow> string option" where
  "path_file_name p =
    (let n = rev (takeWhile (\<lambda>c. c \<noteq> CHR ''/'') (trim_rpath (rev p)))
     in if n \<in> {[], ''.'', ''..''} then None else Some n)"

definition path_parent :: "string \<Rightarrow> string" where
  "path_parent p = rev (trim_rpath (dropWhile (\<lambda>c. c \<noteq> CHR ''/'') (trim_rpath (rev p))))"

definition with_file_name :: "string \<Rightarrow> string \<Rightarrow> string" where
  "with_file_name p name =
    (if path_file_name p \<noteq> None then path_join (path_parent p) name else path_join p name)"

subsection \<open>Numbers as text\<close>

definition digit_char :: "nat \<Rightarrow> char" where
  "digit_char d = char_of (48 + d mod 10)"

fun dec :: "nat \<Rightarrow> string" where
  "dec n = (if n < 10 then [digit_char n] else dec (n div 10) @ [digit_char n])"

declare dec.simps [simp del]

definition digit_val :: "char \<Rightarrow> nat" where
  "digit_val c = of_char c - 48"

definition digits_val :: "string \<Rightarrow> nat" where
  "digits_val s = foldl (\<lambda>n c. 10 * n + digit_val c) 0 s"

text \<open>\<open>str::parse::<uN>()\<close>: an optional plus sign, then at least one digit; the first
  offending digit or overflow from the left is the error.\<close>

datatype IntErrorKind = EmptyInt | InvalidDigit | PosOverflow

fun parse_digits :: "nat \<Rightarrow> nat \<Rightarrow> string \<Rightarrow> IntErrorKind + nat" where
  "parse_digits limit acc [] = Inr acc"
| "parse_digits limit acc (c # cs) =
     (if \<not> is_ascii_digit c then Inl InvalidDigit
      else if 10 * acc + digit_val c > limit then Inl PosOverflow
      else parse_digits limit (10 * acc + digit_val c) cs)"

definition parse_int :: "nat \<Rightarrow> string \<Rightarrow> IntErrorKind + nat" where
  "parse_int limit s =
    (if s = [] then Inl EmptyInt
     else if s = ''+'' then Inl InvalidDigit
     else parse_digits limit 0 (if starts_with s ''+'' then drop 1 s else s))"

fun int_error :: "IntErrorKind \<Rightarrow> string" where
  "int_error EmptyInt = ''cannot parse integer from empty string''"
| "int_error InvalidDigit = ''invalid digit found in string''"
| "int_error PosOverflow = ''number too large to fit in target type''"

definition parse_uint :: "nat \<Rightarrow> string \<Rightarrow> nat option" where
  "parse_uint limit s = (case parse_int limit s of Inl e \<Rightarrow> None | Inr n \<Rightarrow> Some n)"

abbreviation parse_u8 :: "string \<Rightarrow> IntErrorKind + nat" where "parse_u8 \<equiv> parse_int (2 ^ 8 - 1)"
abbreviation parse_u16 :: "string \<Rightarrow> IntErrorKind + nat" where "parse_u16 \<equiv> parse_int (2 ^ 16 - 1)"
abbreviation parse_u64 :: "string \<Rightarrow> IntErrorKind + nat" where "parse_u64 \<equiv> parse_int (2 ^ 64 - 1)"

lemma of_char_char_of_small: "n < 256 \<Longrightarrow> (of_char (char_of (n::nat)) :: nat) = n"
  by simp

lemma of_char_digit_char [simp]: "(of_char (digit_char d) :: nat) = 48 + d mod 10"
proof -
  have "48 + d mod 10 < (256::nat)" by (simp add: trans_less_add1 less_trans [of _ 10])
  then show ?thesis unfolding digit_char_def by (rule of_char_char_of_small)
qed

lemma is_ascii_digit_digit_char [simp]: "is_ascii_digit (digit_char d)"
proof -
  have "d mod 10 < 10" by simp
  then show ?thesis by (simp add: is_ascii_digit_def)
qed

lemma digit_val_digit_char [simp]: "digit_val (digit_char d) = d mod 10"
  by (simp add: digit_val_def)

lemma digits_val_snoc [simp]: "digits_val (s @ [c]) = 10 * digits_val s + digit_val c"
  by (simp add: digits_val_def)

lemma digits_val_Nil [simp]: "digits_val [] = 0"
  by (simp add: digits_val_def)

lemma dec_not_Nil [simp]: "dec n \<noteq> []"
  by (subst dec.simps) simp

lemma dec_digits: "list_all is_ascii_digit (dec n)"
  by (induction n rule: dec.induct) (subst dec.simps, simp)

lemma digits_val_dec: "digits_val (dec n) = n"
proof (induction n rule: dec.induct)
  case (1 n)
  show ?case
  proof (cases "n < 10")
    case True
    then have "dec n = [] @ [digit_char n]" by (subst dec.simps) simp
    then show ?thesis using True by (simp only: digits_val_snoc) simp
  next
    case False
    then have "dec n = dec (n div 10) @ [digit_char n]" by (subst dec.simps) simp
    then show ?thesis using 1 False by simp
  qed
qed

lemma dec_inj: "dec m = dec n \<Longrightarrow> m = n"
  by (metis digits_val_dec)

lemma dec_no_plus: "\<not> starts_with (dec n) ''+''"
proof
  assume "starts_with (dec n) ''+''"
  then obtain t where "dec n = CHR ''+'' # t" by (auto simp: starts_with_iff)
  then have "is_ascii_digit CHR ''+''" using dec_digits [of n] by simp
  then show False by (simp add: is_ascii_digit_def)
qed

lemma foldl_digits_mono: "acc \<le> foldl (\<lambda>n c. 10 * n + digit_val c) acc s"
proof (induction s arbitrary: acc)
  case (Cons c s)
  have "acc \<le> 10 * acc + digit_val c" by simp
  also have "\<dots> \<le> foldl (\<lambda>n c. 10 * n + digit_val c) (10 * acc + digit_val c) s" by (rule Cons)
  finally show ?case by simp
qed simp

lemma parse_digits_ok:
  "\<lbrakk>list_all is_ascii_digit s; foldl (\<lambda>n c. 10 * n + digit_val c) acc s \<le> limit\<rbrakk> \<Longrightarrow>
   parse_digits limit acc s = Inr (foldl (\<lambda>n c. 10 * n + digit_val c) acc s)"
proof (induction s arbitrary: acc)
  case (Cons c s)
  then show ?case
    using foldl_digits_mono [of "10 * acc + digit_val c" s] by auto
qed simp

lemma parse_digits_bound: "parse_digits limit acc s = Inr n \<Longrightarrow> acc \<le> limit \<Longrightarrow> n \<le> limit"
  by (induction s arbitrary: acc) (auto split: if_splits)

lemma parse_int_dec: "n \<le> limit \<Longrightarrow> parse_int limit (dec n) = Inr n"
proof -
  assume "n \<le> limit"
  then have "parse_digits limit 0 (dec n) = Inr n"
    using parse_digits_ok [OF dec_digits, of 0 n limit] digits_val_dec [of n] by (simp add: digits_val_def)
  moreover have "dec n \<noteq> ''+''" using dec_no_plus [of n] by (metis append_Nil2 starts_with_append)
  ultimately show ?thesis by (simp add: parse_int_def dec_no_plus)
qed

lemma parse_int_bound: "parse_int limit s = Inr n \<Longrightarrow> n \<le> limit"
  using parse_digits_bound by (auto simp: parse_int_def split: if_splits)

lemma parse_uint_dec: "n \<le> limit \<Longrightarrow> parse_uint limit (dec n) = Some n"
  by (simp add: parse_uint_def parse_int_dec)

lemma parse_uint_bound: "parse_uint limit s = Some n \<Longrightarrow> n \<le> limit"
  using parse_int_bound by (auto simp: parse_uint_def split: sum.splits)

text \<open>How an error prints.\<close>

fun show_error :: "RauhaError \<Rightarrow> string" where
  "show_error (ZoneNotFound z) = ''zone not found: '' @ z"
| "show_error (ZoneAlreadyExists z) = ''zone already exists: '' @ z"
| "show_error (ContainerNotFound c) = ''container not found: '' @ c"
| "show_error (ContainerAlreadyExists name zone) =
     ''container already exists in zone: '' @ name @ '' in '' @ zone"
| "show_error (ZoneNotEmpty n) = ''zone is not empty, contains '' @ dec n @ '' container(s)''"
| "show_error (InvalidInput m) = ''invalid input: '' @ m"
| "show_error (InvalidPolicy m) = ''invalid policy: '' @ m"
| "show_error (BackendError m) = ''isolation backend error: '' @ m"
| "show_error (ImageNotFound m) = ''image not found: '' @ m"
| "show_error (MetadataError m) = ''metadata store error: '' @ m"
| "show_error (ImageError m) = ''image error: '' @ m"
| "show_error (PermissionDenied m) = ''permission denied: '' @ m"
| "show_error (CrossZoneAccessDenied src dst) = ''cross-zone access denied: '' @ src @ '' -> '' @ dst"
| "show_error (UnsupportedPlatform m) = ''unsupported platform: '' @ m"
| "show_error (EbpfError m hint) = ''eBPF error: '' @ m"
| "show_error (CgroupError m hint) = ''cgroup error: '' @ m"
| "show_error (NamespaceError m hint) = ''namespace error: '' @ m"
| "show_error (NetworkError m hint) = ''network error: '' @ m"
| "show_error (ImagePullError r m) = ''image pull error: '' @ r @ '': '' @ m"
| "show_error (ContentError m) = ''content store error: '' @ m"
| "show_error (ShimError z m) = ''shim error for zone '' @ z @ '': '' @ m"
| "show_error (RootfsError m) = ''rootfs error: '' @ m"
| "show_error (ContainerExecError c m) = ''container exec error for '' @ c @ '': '' @ m"
| "show_error (KernelTooOld required found) = ''kernel too old: requires '' @ required @ '', found '' @ found"
| "show_error (Io m) = m"
| "show_error (Other m) = m"

subsection \<open>Reachability\<close>

inductive star :: "('s \<Rightarrow> 's \<Rightarrow> bool) \<Rightarrow> 's \<Rightarrow> 's \<Rightarrow> bool" for step where
  star_refl [intro]: "star step s s"
| star_step: "star step s t \<Longrightarrow> step t u \<Longrightarrow> star step s u"

lemma star_invariant:
  assumes "star step s t" and "P s" and "\<And>a b. P a \<Longrightarrow> step a b \<Longrightarrow> P b"
  shows "P t"
  using assms by (induction rule: star.induct) auto

end
