(* ===== verification/Run_Protocol.thy ===== *)
theory Run_Protocol
  imports Rauha_Prelude
begin

text \<open>
  The Run Protocol v0 lifecycle reducer, \<open>rauha-common/src/run.rs\<close>: its states, its
  emitters and \<open>reduce\<close>. The transition table of \<open>docs/run-protocol-v0.md\<close> is the
  inductive relation \<open>lifecycle\<close>; the lemmas show that \<open>reduce\<close> implements it, that
  terminal states stay terminal, and what every history of an accepted Run contains.
\<close>

datatype RunState =
  Preparing | Running | Waiting | Frozen | Delegated | Proving | Review | Accepted | Discarded

datatype Emitter = Supervisor | Custodian | Broker | Reducer

record Reduction =
  red_state :: "RunState option"
  unknown_event :: "string option"

record ProtocolError =
  pe_state :: "RunState option"
  pe_kind :: string
  pe_emitter :: Emitter

text \<open>The or-patterns of the match in \<open>reduce\<close>, in its order.\<close>

definition lifecycle_kinds :: "string list" where
  "lifecycle_kinds =
     [''run.created'', ''sandbox.ready'', ''run.waiting'', ''run.resumed'', ''run.frozen'',
      ''run.delegated'', ''proof.started'', ''proof.finished'', ''run.accepted'', ''run.discarded'']"

definition custodian_kinds :: "string list" where
  "custodian_kinds =
     [''supervisor.claimed'', ''supervisor.released'', ''sandbox.materialized'',
      ''sandbox.destroyed'', ''capability.granted'', ''capability.revoked'',
      ''checkpoint.sealed'', ''witness.attached'', ''witness.observation'', ''witness.loss'',
      ''receipt.sealed'', ''journal.compacted'']"

definition broker_kinds :: "string list" where
  "broker_kinds =
     [''effect.requested'', ''effect.executing'', ''effect.succeeded'', ''effect.failed'',
      ''effect.uncertain'', ''effect.reconciled'']"

definition supervisor_kinds :: "string list" where
  "supervisor_kinds =
     [''effect.authorized'', ''child.finished'', ''human.asked'', ''human.answered'']"

text \<open>The three ways the match on the kind ends: a source and a next state, the early
  refusal, and the early return for an unknown kind.\<close>

definition terminal_kinds :: "string set" where
  "terminal_kinds = {''receipt.sealed'', ''journal.compacted''}"

datatype catalogue_row = Row Emitter "RunState option" | Refuse | Unknown

definition catalogue :: "RunState option \<Rightarrow> string \<Rightarrow> catalogue_row" where
  "catalogue state kind =
    (if kind = ''run.created'' \<and> state = None then Row Supervisor (Some Preparing)
     else if kind = ''sandbox.ready'' \<and> state = Some Preparing then Row Custodian (Some Running)
     else if kind = ''run.waiting'' \<and> state = Some Running then Row Supervisor (Some Waiting)
     else if kind = ''run.resumed'' \<and> state \<in> {Some Waiting, Some Frozen, Some Delegated}
       then Row Supervisor (Some Running)
     else if kind = ''run.frozen'' \<and>
         state \<in> {Some Preparing, Some Running, Some Waiting, Some Delegated, Some Proving}
       then Row Custodian (Some Frozen)
     else if kind = ''run.delegated'' \<and> state \<in> {Some Running, Some Waiting}
       then Row Supervisor (Some Delegated)
     else if kind = ''proof.started'' \<and> state \<in> {Some Running, Some Waiting, Some Delegated}
       then Row Supervisor (Some Proving)
     else if kind = ''proof.finished'' \<and> state = Some Proving then Row Supervisor (Some Review)
     else if kind = ''run.accepted'' \<and> state = Some Review then Row Supervisor (Some Accepted)
     else if kind = ''run.discarded'' \<and> state \<noteq> None then Row Supervisor (Some Discarded)
     else if kind \<in> set lifecycle_kinds then Refuse
     else if kind \<in> set custodian_kinds then Row Custodian state
     else if kind \<in> set broker_kinds then Row Broker state
     else if kind \<in> set supervisor_kinds then Row Supervisor state
     else if kind = ''journal.unknown_event'' then Row Reducer state
     else Unknown)"

definition reduce :: "RunState option \<Rightarrow> string \<Rightarrow> Emitter \<Rightarrow> ProtocolError + Reduction" where
  "reduce state kind emitter =
    (let refuse = \<lparr>pe_state = state, pe_kind = kind, pe_emitter = emitter\<rparr> in
     if state \<in> {Some Accepted, Some Discarded}
        \<and> kind \<notin> terminal_kinds then Inl refuse
     else case catalogue state kind of
       Refuse \<Rightarrow> Inl refuse
     | Unknown \<Rightarrow> Inr \<lparr>red_state = state, unknown_event = Some kind\<rparr>
     | Row source next \<Rightarrow>
         if emitter \<noteq> source \<or> (state = None \<and> kind \<noteq> ''run.created'') then Inl refuse
         else Inr \<lparr>red_state = next, unknown_event = None\<rparr>)"

subsection \<open>The transition table\<close>

text \<open>The documented rules: event, emitter, prior state and next state.\<close>

inductive lifecycle :: "RunState option \<Rightarrow> string \<Rightarrow> Emitter \<Rightarrow> RunState \<Rightarrow> bool" where
  created: "lifecycle None ''run.created'' Supervisor Preparing"
| ready: "lifecycle (Some Preparing) ''sandbox.ready'' Custodian Running"
| waiting: "lifecycle (Some Running) ''run.waiting'' Supervisor Waiting"
| resumed: "s \<in> {Waiting, Frozen, Delegated} \<Longrightarrow>
    lifecycle (Some s) ''run.resumed'' Supervisor Running"
| frozen: "s \<in> {Preparing, Running, Waiting, Delegated, Proving} \<Longrightarrow>
    lifecycle (Some s) ''run.frozen'' Custodian Frozen"
| delegated: "s \<in> {Running, Waiting} \<Longrightarrow> lifecycle (Some s) ''run.delegated'' Supervisor Delegated"
| started: "s \<in> {Running, Waiting, Delegated} \<Longrightarrow>
    lifecycle (Some s) ''proof.started'' Supervisor Proving"
| finished: "lifecycle (Some Proving) ''proof.finished'' Supervisor Review"
| accepted: "lifecycle (Some Review) ''run.accepted'' Supervisor Accepted"
| discarded: "s \<notin> {Accepted, Discarded} \<Longrightarrow>
    lifecycle (Some s) ''run.discarded'' Supervisor Discarded"

text \<open>Who owns an event that leaves the state alone.\<close>

definition observer_of :: "string \<Rightarrow> Emitter option" where
  "observer_of kind =
    (if kind \<in> set custodian_kinds then Some Custodian
     else if kind \<in> set broker_kinds then Some Broker
     else if kind \<in> set supervisor_kinds then Some Supervisor
     else if kind = ''journal.unknown_event'' then Some Reducer
     else None)"

lemma observer_of_lifecycle: "kind \<in> set lifecycle_kinds \<Longrightarrow> observer_of kind = None"
proof -
  have "\<forall>kind \<in> set lifecycle_kinds. observer_of kind = None"
    unfolding lifecycle_kinds_def list.set ball_simps
    by (simp add: observer_of_def custodian_kinds_def broker_kinds_def supervisor_kinds_def)
  then show "kind \<in> set lifecycle_kinds \<Longrightarrow> observer_of kind = None" by blast
qed

lemma lifecycle_kind: "lifecycle s k e s' \<Longrightarrow> k \<in> set lifecycle_kinds"
  by (induction rule: lifecycle.induct) (simp_all add: lifecycle_kinds_def)

text \<open>The table and the catalogue, one lifecycle kind at a time.\<close>

inductive_simps lifecycle_of_kind:
  "lifecycle s ''run.created'' e t"
  "lifecycle s ''sandbox.ready'' e t"
  "lifecycle s ''run.waiting'' e t"
  "lifecycle s ''run.resumed'' e t"
  "lifecycle s ''run.frozen'' e t"
  "lifecycle s ''run.delegated'' e t"
  "lifecycle s ''proof.started'' e t"
  "lifecycle s ''proof.finished'' e t"
  "lifecycle s ''run.accepted'' e t"
  "lifecycle s ''run.discarded'' e t"

lemma catalogue_of_kind:
  "catalogue s ''run.created'' =
     (if s = None then Row Supervisor (Some Preparing) else Refuse)"
  "catalogue s ''sandbox.ready'' =
     (if s = Some Preparing then Row Custodian (Some Running) else Refuse)"
  "catalogue s ''run.waiting'' =
     (if s = Some Running then Row Supervisor (Some Waiting) else Refuse)"
  "catalogue s ''run.resumed'' =
     (if s \<in> {Some Waiting, Some Frozen, Some Delegated} then Row Supervisor (Some Running) else Refuse)"
  "catalogue s ''run.frozen'' =
     (if s \<in> {Some Preparing, Some Running, Some Waiting, Some Delegated, Some Proving} then Row Custodian (Some Frozen) else Refuse)"
  "catalogue s ''run.delegated'' =
     (if s \<in> {Some Running, Some Waiting} then Row Supervisor (Some Delegated) else Refuse)"
  "catalogue s ''proof.started'' =
     (if s \<in> {Some Running, Some Waiting, Some Delegated} then Row Supervisor (Some Proving) else Refuse)"
  "catalogue s ''proof.finished'' =
     (if s = Some Proving then Row Supervisor (Some Review) else Refuse)"
  "catalogue s ''run.accepted'' =
     (if s = Some Review then Row Supervisor (Some Accepted) else Refuse)"
  "catalogue s ''run.discarded'' =
     (if s \<noteq> None then Row Supervisor (Some Discarded) else Refuse)"
  by (simp_all add: catalogue_def lifecycle_kinds_def)

lemma catalogue_lifecycle:
  assumes "kind \<in> set lifecycle_kinds" and "s \<notin> {Some Accepted, Some Discarded}"
  shows "catalogue s kind = Row e t \<longleftrightarrow> (\<exists>t'. t = Some t' \<and> lifecycle s kind e t')"
proof -
  have "\<forall>kind \<in> set lifecycle_kinds. catalogue s kind = Row e t \<longleftrightarrow>
      (\<exists>t'. t = Some t' \<and> lifecycle s kind e t')"
    unfolding lifecycle_kinds_def list.set ball_simps catalogue_of_kind lifecycle_of_kind
    using assms(2) by (intro conjI TrueI; auto)
  then show ?thesis using assms(1) by blast
qed

lemma catalogue_lifecycle_Unknown: "kind \<in> set lifecycle_kinds \<Longrightarrow> catalogue s kind \<noteq> Unknown"
  by (simp add: catalogue_def)

lemma catalogue_observer:
  assumes "kind \<notin> set lifecycle_kinds"
  shows "catalogue s kind = (case observer_of kind of None \<Rightarrow> Unknown | Some e \<Rightarrow> Row e s)"
proof -
  have "catalogue s kind =
    (if kind \<in> set custodian_kinds then Row Custodian s
     else if kind \<in> set broker_kinds then Row Broker s
     else if kind \<in> set supervisor_kinds then Row Supervisor s
     else if kind = ''journal.unknown_event'' then Row Reducer s else Unknown)"
    using assms by (simp add: catalogue_def lifecycle_kinds_def)
  then show ?thesis by (simp add: observer_of_def)
qed

text \<open>The observing kinds of terminal Runs.\<close>

lemma observer_terminal: "k \<in> terminal_kinds \<Longrightarrow> observer_of k = Some Custodian"
  by (auto simp: terminal_kinds_def observer_of_def custodian_kinds_def)

lemma terminal_kinds_not_lifecycle: "k \<in> terminal_kinds \<Longrightarrow> k \<notin> set lifecycle_kinds"
  by (auto simp: terminal_kinds_def lifecycle_kinds_def)

lemma run_created_lifecycle: "''run.created'' \<in> set lifecycle_kinds"
  by (simp add: lifecycle_kinds_def)

text \<open>What \<open>reduce\<close> does in each of its three regions.\<close>

lemma reduce_terminal:
  assumes "s \<in> {Some Accepted, Some Discarded}"
  shows "reduce s k e =
    (if k \<in> terminal_kinds \<and> e = Custodian
     then Inr \<lparr>red_state = s, unknown_event = None\<rparr>
     else Inl \<lparr>pe_state = s, pe_kind = k, pe_emitter = e\<rparr>)"
proof (cases "k \<in> terminal_kinds")
  case True
  then have "catalogue s k = Row Custodian s"
    by (simp add: catalogue_observer terminal_kinds_not_lifecycle observer_terminal)
  then show ?thesis using True assms by (auto simp: reduce_def)
next
  case False
  then show ?thesis using assms by (simp add: reduce_def)
qed

lemma reduce_lifecycle:
  assumes "k \<in> set lifecycle_kinds" and "s \<notin> {Some Accepted, Some Discarded}"
  shows "reduce s k e = Inr r \<longleftrightarrow>
    (\<exists>t. lifecycle s k e t \<and> r = \<lparr>red_state = Some t, unknown_event = None\<rparr>)"
proof -
  have created: "k = ''run.created''" if "lifecycle None k e' t" for e' t
    using that by (cases rule: lifecycle.cases) simp
  show ?thesis
  proof (cases "catalogue s k")
    case (Row e' t)
    then obtain t' where t': "t = Some t'" "lifecycle s k e' t'"
      using catalogue_lifecycle [OF assms] by blast
    have uniq: "e'' = e' \<and> u = t'" if "lifecycle s k e'' u" for e'' u
      using that Row t' catalogue_lifecycle [OF assms, of e'' "Some u"] by simp
    have "s = None \<Longrightarrow> k = ''run.created''" using created t'(2) by blast
    then have "reduce s k e =
      (if e = e' then Inr \<lparr>red_state = Some t', unknown_event = None\<rparr>
       else Inl \<lparr>pe_state = s, pe_kind = k, pe_emitter = e\<rparr>)"
      using Row t' assms(2) by (auto simp: reduce_def)
    then show ?thesis using t'(2) by (auto dest: uniq)
  next
    case Refuse
    then have "\<not> lifecycle s k e t" for t using catalogue_lifecycle [OF assms, of e "Some t"] by simp
    then show ?thesis using Refuse assms(2) by (simp add: reduce_def)
  next
    case Unknown
    then show ?thesis using catalogue_lifecycle_Unknown assms(1) by blast
  qed
qed

lemma reduce_observer:
  assumes "k \<notin> set lifecycle_kinds" and "s \<notin> {Some Accepted, Some Discarded}"
  shows "reduce s k e =
    (case observer_of k of
       None \<Rightarrow> Inr \<lparr>red_state = s, unknown_event = Some k\<rparr>
     | Some src \<Rightarrow>
         if e = src \<and> s \<noteq> None then Inr \<lparr>red_state = s, unknown_event = None\<rparr>
         else Inl \<lparr>pe_state = s, pe_kind = k, pe_emitter = e\<rparr>)"
proof -
  have "k \<noteq> ''run.created''" using assms(1) run_created_lifecycle by blast
  then show ?thesis
    using assms(2) by (simp add: reduce_def catalogue_observer [OF assms(1)] split: option.split)
qed

subsection \<open>The protocol and histories\<close>

text \<open>The whole contract: move along the table, note a catalogued event, seal a finished Run,
  surface an unknown kind.\<close>

inductive protocol :: "RunState option \<Rightarrow> string \<Rightarrow> Emitter \<Rightarrow> Reduction \<Rightarrow> bool" where
  move: "lifecycle s k e t \<Longrightarrow> protocol s k e \<lparr>red_state = Some t, unknown_event = None\<rparr>"
| note_event: "\<lbrakk>observer_of k = Some e; s \<notin> {None, Some Accepted, Some Discarded}\<rbrakk> \<Longrightarrow>
    protocol s k e \<lparr>red_state = s, unknown_event = None\<rparr>"
| seal: "\<lbrakk>k \<in> terminal_kinds; s \<in> {Some Accepted, Some Discarded}\<rbrakk> \<Longrightarrow>
    protocol s k Custodian \<lparr>red_state = s, unknown_event = None\<rparr>"
| surface: "\<lbrakk>k \<notin> set lifecycle_kinds; observer_of k = None; s \<notin> {Some Accepted, Some Discarded}\<rbrakk> \<Longrightarrow>
    protocol s k e \<lparr>red_state = s, unknown_event = Some k\<rparr>"

lemma lifecycle_not_terminal: "lifecycle s k e t \<Longrightarrow> s \<notin> {Some Accepted, Some Discarded}"
  by (cases rule: lifecycle.cases) auto

text \<open>A history is a list of authenticated events; a Run's state is what the reducer makes of it.\<close>

fun replay :: "RunState option \<Rightarrow> (string \<times> Emitter) list \<Rightarrow> ProtocolError + RunState option" where
  "replay s [] = Inr s"
| "replay s ((k, e) # es) = and_then (reduce s k e) (\<lambda>r. replay (red_state r) es)"

text \<open>The events every history must contain to be in a state.\<close>

fun needed :: "RunState option \<Rightarrow> (string \<times> Emitter) list" where
  "needed None = []"
| "needed (Some Proving) = [(''run.created'', Supervisor), (''proof.started'', Supervisor)]"
| "needed (Some Review) =
     [(''run.created'', Supervisor), (''proof.started'', Supervisor), (''proof.finished'', Supervisor)]"
| "needed (Some Accepted) =
     [(''run.created'', Supervisor), (''proof.started'', Supervisor), (''proof.finished'', Supervisor),
      (''run.accepted'', Supervisor)]"
| "needed (Some _) = [(''run.created'', Supervisor)]"

lemma needed_Some: "\<exists>xs. needed (Some s) = (''run.created'', Supervisor) # xs"
  by (cases s) simp_all

lemma subseq_append_right: "subseq xs (xs @ ys)"
  by (simp add: prefix_imp_subseq)

lemma needed_lifecycle: "lifecycle s k e t \<Longrightarrow> subseq (needed (Some t)) (needed s @ [(k, e)])"
proof (induction rule: lifecycle.induct)
  case (discarded s)
  obtain xs where "needed (Some s) = (''run.created'', Supervisor) # xs" using needed_Some by blast
  then show ?case by simp
qed auto

lemma protocol_needed:
  "protocol s k e r \<Longrightarrow> subseq (needed (red_state r)) (needed s @ [(k, e)])"
  by (induction rule: protocol.induct)
    (simp_all only: needed_lifecycle subseq_append_right Reduction.simps)

lemma protocol_terminal:
  assumes "s \<in> {Some Accepted, Some Discarded}"
  shows "protocol s k e r \<longleftrightarrow>
    k \<in> terminal_kinds \<and> e = Custodian \<and> r = \<lparr>red_state = s, unknown_event = None\<rparr>"
  using assms lifecycle_not_terminal by (subst protocol.simps) auto

lemma protocol_lifecycle:
  assumes "k \<in> set lifecycle_kinds" and "s \<notin> {Some Accepted, Some Discarded}"
  shows "protocol s k e r \<longleftrightarrow>
    (\<exists>t. lifecycle s k e t \<and> r = \<lparr>red_state = Some t, unknown_event = None\<rparr>)"
  using assms observer_of_lifecycle by (subst protocol.simps) auto

lemma protocol_observer:
  assumes "k \<notin> set lifecycle_kinds" and "s \<notin> {Some Accepted, Some Discarded}"
  shows "protocol s k e r \<longleftrightarrow>
    (case observer_of k of
       None \<Rightarrow> r = \<lparr>red_state = s, unknown_event = Some k\<rparr>
     | Some src \<Rightarrow> e = src \<and> s \<noteq> None \<and> r = \<lparr>red_state = s, unknown_event = None\<rparr>)"
  using assms lifecycle_kind by (subst protocol.simps) (auto split: option.splits)

lemma reduce_protocol: "reduce s k e = Inr r \<longleftrightarrow> protocol s k e r"
proof (cases "s \<in> {Some Accepted, Some Discarded}")
  case True
  then show ?thesis by (auto simp: reduce_terminal protocol_terminal)
next
  case False
  then show ?thesis
    by (cases "k \<in> set lifecycle_kinds")
      (auto simp: reduce_lifecycle protocol_lifecycle reduce_observer protocol_observer
        split: option.splits)
qed

lemma replay_needed:
  "\<lbrakk>replay s es = Inr t; subseq (needed s) hist\<rbrakk> \<Longrightarrow> subseq (needed t) (hist @ es)"
proof (induction s es arbitrary: hist rule: replay.induct)
  case (2 s k e es)
  then obtain r where r: "reduce s k e = Inr r" "replay (red_state r) es = Inr t"
    by (auto simp: result_simps)
  have "subseq (needed s @ [(k, e)]) (hist @ [(k, e)])"
    using "2.prems"(2) by (simp add: list_emb_append_mono)
  then have "subseq (needed (red_state r)) (hist @ [(k, e)])"
    using protocol_needed r(1) reduce_protocol subseq_order.trans by blast
  from "2.IH" [OF r(2) this] show ?case by simp
qed simp

text \<open>C23: the reducer accepts exactly the events the protocol lets happen, from the emitter
  the protocol names, and its result is the protocol's.\<close>

theorem reduce_iff_protocol: "reduce s k e = Inr r \<longleftrightarrow> protocol s k e r"
  by (rule reduce_protocol)

text \<open>A Run whose history ends in \<open>Accepted\<close> was created, had a proof started and finished
  and was then accepted, in this order and each time by the supervisor.\<close>

lemma accepted_history:
  assumes "replay None es = Inr (Some Accepted)"
  shows "subseq [(''run.created'', Supervisor), (''proof.started'', Supervisor),
    (''proof.finished'', Supervisor), (''run.accepted'', Supervisor)] es"
  using replay_needed [OF assms, of "[]"] by simp

text \<open>Once a Run is accepted or discarded its state never changes again, and the only
  events it takes are the custodian's \<open>receipt.sealed\<close> and \<open>journal.compacted\<close> (RP-3).\<close>

lemma terminal_is_final:
  assumes "s \<in> {Accepted, Discarded}" and "replay (Some s) es = Inr t"
  shows "t = Some s \<and> set es \<subseteq> {(''receipt.sealed'', Custodian), (''journal.compacted'', Custodian)}"
  using assms(2)
proof (induction es)
  case (Cons ke es)
  obtain k e where ke: "ke = (k, e)" by (cases ke)
  have "k \<in> terminal_kinds \<and> e = Custodian \<and> replay (Some s) es = Inr t"
    using Cons.prems assms(1) ke
    by (auto simp: result_simps reduce_terminal split: if_splits)
  then show ?case using Cons.IH ke by (auto simp: terminal_kinds_def)
qed simp

end
