(* ===== verification/Ebpf_Types.thy ===== *)
theory Ebpf_Types
  imports Rauha_Prelude
begin

text \<open>
  The types the kernel programs and userspace share, \<open>rauha-ebpf-common/src/types.rs\<close>:
  the values and keys of the BPF maps, the flag, program, hook and decision constants,
  the capability table and the conversion of capability names to the kernel mask.
\<close>

definition MAX_ZONES :: nat where "MAX_ZONES = 4096"
definition MAX_CGROUPS :: nat where "MAX_CGROUPS = 65536"
definition MAX_INODES :: nat where "MAX_INODES = 262144"

record ZoneInfoKernel =
  zi_zone_id :: u32
  zi_flags :: u32

record ZonePolicyKernel =
  caps_mask :: u64
  zp_flags :: u32
  zp_pad :: u32

record ZoneCommKey =
  src_zone :: u32
  dst_zone :: u32

definition ZONE_FLAG_PRIVILEGED :: u32 where "ZONE_FLAG_PRIVILEGED = push_bit 0 1"
definition ZONE_FLAG_GLOBAL :: u32 where "ZONE_FLAG_GLOBAL = push_bit 1 1"
definition POLICY_FLAG_ALLOW_PTRACE :: u32 where "POLICY_FLAG_ALLOW_PTRACE = push_bit 0 1"
definition POLICY_FLAG_ALLOW_HOST_NET :: u32 where "POLICY_FLAG_ALLOW_HOST_NET = push_bit 1 1"

record SelfTestResult =
  helper_cgroup_id :: u64
  offset_cgroup_id :: u64

record EnforcementCounters =
  cnt_allow :: u64
  cnt_deny :: u64
  cnt_error :: u64

definition PROG_FILE_OPEN :: u32 where "PROG_FILE_OPEN = 0"
definition PROG_BPRM_CHECK :: u32 where "PROG_BPRM_CHECK = 1"
definition PROG_PTRACE_CHECK :: u32 where "PROG_PTRACE_CHECK = 2"
definition PROG_TASK_KILL :: u32 where "PROG_TASK_KILL = 3"
definition PROG_CGROUP_ATTACH :: u32 where "PROG_CGROUP_ATTACH = 4"
definition PROG_CAPABLE :: u32 where "PROG_CAPABLE = 5"
definition PROG_SOCKET_CONNECT :: u32 where "PROG_SOCKET_CONNECT = 6"
definition ENFORCEMENT_COUNTER_ENTRIES :: u32 where "ENFORCEMENT_COUNTER_ENTRIES = 7"

definition HOOK_FILE_OPEN :: u8 where "HOOK_FILE_OPEN = 0"
definition HOOK_BPRM_CHECK :: u8 where "HOOK_BPRM_CHECK = 1"
definition HOOK_PTRACE_CHECK :: u8 where "HOOK_PTRACE_CHECK = 2"
definition HOOK_TASK_KILL :: u8 where "HOOK_TASK_KILL = 3"
definition HOOK_CGROUP_ATTACH :: u8 where "HOOK_CGROUP_ATTACH = 4"
definition HOOK_CAPABLE :: u8 where "HOOK_CAPABLE = 5"
definition HOOK_SOCKET_CONNECT :: u8 where "HOOK_SOCKET_CONNECT = 6"

definition DECISION_ALLOW :: u8 where "DECISION_ALLOW = 0"
definition DECISION_ERROR :: u8 where "DECISION_ERROR = 2"
definition DECISION_DENY :: u8 where "DECISION_DENY = 1"

lemmas prog_defs = PROG_FILE_OPEN_def PROG_BPRM_CHECK_def PROG_PTRACE_CHECK_def PROG_TASK_KILL_def
  PROG_CGROUP_ATTACH_def PROG_CAPABLE_def PROG_SOCKET_CONNECT_def

text \<open>The reserved words of the event are zero and left out.\<close>

record EnforcementEvent =
  timestamp_ns :: u64
  ev_pid :: u32
  ev_hook :: u8
  ev_decision :: u8
  caller_zone :: u32
  target_zone :: u32
  ev_context :: u64

definition CAPS :: "string list" where
  "CAPS =
    [''CAP_CHOWN'', ''CAP_DAC_OVERRIDE'', ''CAP_DAC_READ_SEARCH'', ''CAP_FOWNER'', ''CAP_FSETID'',
     ''CAP_KILL'', ''CAP_SETGID'', ''CAP_SETUID'', ''CAP_SETPCAP'', ''CAP_LINUX_IMMUTABLE'',
     ''CAP_NET_BIND_SERVICE'', ''CAP_NET_BROADCAST'', ''CAP_NET_ADMIN'', ''CAP_NET_RAW'',
     ''CAP_IPC_LOCK'', ''CAP_IPC_OWNER'', ''CAP_SYS_MODULE'', ''CAP_SYS_RAWIO'', ''CAP_SYS_CHROOT'',
     ''CAP_SYS_PTRACE'', ''CAP_SYS_PACCT'', ''CAP_SYS_ADMIN'', ''CAP_SYS_BOOT'', ''CAP_SYS_NICE'',
     ''CAP_SYS_RESOURCE'', ''CAP_SYS_TIME'', ''CAP_SYS_TTY_CONFIG'', ''CAP_MKNOD'', ''CAP_LEASE'',
     ''CAP_AUDIT_WRITE'', ''CAP_AUDIT_CONTROL'', ''CAP_SETFCAP'', ''CAP_MAC_OVERRIDE'',
     ''CAP_MAC_ADMIN'', ''CAP_SYSLOG'', ''CAP_WAKE_ALARM'', ''CAP_BLOCK_SUSPEND'', ''CAP_AUDIT_READ'',
     ''CAP_PERFMON'', ''CAP_BPF'', ''CAP_CHECKPOINT_RESTORE'']"

text \<open>\<open>slice.iter().position(|x| x == y)\<close>.\<close>

fun position :: "'a \<Rightarrow> 'a list \<Rightarrow> nat option" where
  "position x [] = None"
| "position x (y # ys) =
     (if x = y then Some 0 else (case position x ys of None \<Rightarrow> None | Some i \<Rightarrow> Some (Suc i)))"

text \<open>The normalised name that \<open>caps_to_mask\<close> looks up.\<close>

definition cap_name :: "string \<Rightarrow> string" where
  "cap_name cap =
    (let name = map to_ascii_upper cap
     in if starts_with name ''CAP_'' then name else ''CAP_'' @ name)"

fun caps_to_mask_from :: "u64 \<Rightarrow> string list \<Rightarrow> u64" where
  "caps_to_mask_from m [] = m"
| "caps_to_mask_from m (cap # caps) =
     caps_to_mask_from
       (case position (cap_name cap) CAPS of None \<Rightarrow> m | Some pos \<Rightarrow> m OR push_bit pos 1)
       caps"

definition caps_to_mask :: "string list \<Rightarrow> u64" where
  "caps_to_mask caps = caps_to_mask_from 0 caps"

definition from_caps :: "string list \<Rightarrow> bool \<Rightarrow> bool \<Rightarrow> ZonePolicyKernel" where
  "from_caps caps allow_ptrace allow_host_net =
    (let flags = 0;
         flags = (if allow_ptrace then flags OR POLICY_FLAG_ALLOW_PTRACE else flags);
         flags = (if allow_host_net then flags OR POLICY_FLAG_ALLOW_HOST_NET else flags)
     in \<lparr>caps_mask = caps_to_mask caps, zp_flags = flags, zp_pad = 0\<rparr>)"

subsection \<open>The capability mask\<close>

lemma position_Some: "position x xs = Some i \<Longrightarrow> i < length xs \<and> xs ! i = x"
  by (induction xs arbitrary: i) (auto split: if_splits option.splits)

lemma position_None: "position x xs = None \<longleftrightarrow> x \<notin> set xs"
  by (induction xs) (auto split: option.splits)

lemma position_distinct: "distinct xs \<Longrightarrow> i < length xs \<Longrightarrow> position x xs = Some i \<longleftrightarrow> x = xs ! i"
proof
  assume d: "distinct xs" "i < length xs" and x: "x = xs ! i"
  then have "position x xs \<noteq> None" by (simp add: position_None)
  then obtain j where "position x xs = Some j" by blast
  then show "position x xs = Some i" using d x position_Some nth_eq_iff_index_eq by metis
qed (use position_Some in metis)

lemma length_CAPS [simp]: "length CAPS = 41"
  by (simp add: CAPS_def)

lemma distinct_CAPS: "distinct CAPS"
  by (simp add: CAPS_def)

lemma bit_one_push: "bit (2 ^ n :: u64) i \<longleftrightarrow> i = n \<and> n < 64"
  by (auto simp: bit_exp_iff)

lemma bit_caps_to_mask_from:
  "i < 41 \<Longrightarrow>
   bit (caps_to_mask_from m caps) i \<longleftrightarrow> bit m i \<or> CAPS ! i \<in> cap_name ` set caps"
proof (induction caps arbitrary: m)
  case (Cons cap caps)
  show ?case
  proof (cases "position (cap_name cap) CAPS")
    case None
    then have "CAPS ! i \<noteq> cap_name cap"
      using Cons.prems position_None [of "cap_name cap" CAPS] nth_mem [of i CAPS] by fastforce
    then show ?thesis using Cons None by auto
  next
    case (Some pos)
    have "CAPS ! i = cap_name cap \<longleftrightarrow> pos = i"
      using Some Cons.prems position_distinct [OF distinct_CAPS, of i "cap_name cap"] by auto
    moreover have "pos < 41" using position_Some [OF Some] by simp
    ultimately show ?thesis using Cons Some by (auto simp: bit_or_iff bit_one_push)
  qed
qed simp

text \<open>A mask bit is set exactly when its capability is named.\<close>

lemma bit_caps_to_mask: "i < 41 \<Longrightarrow> bit (caps_to_mask caps) i \<longleftrightarrow> CAPS ! i \<in> cap_name ` set caps"
  by (simp add: caps_to_mask_def bit_caps_to_mask_from)

lemma bit_caps_to_mask_from_high:
  "41 \<le> i \<Longrightarrow> bit (caps_to_mask_from m caps) i \<longleftrightarrow> bit m i"
proof (induction caps arbitrary: m)
  case (Cons cap caps)
  then show ?case
    using position_Some [of "cap_name cap" CAPS]
    by (auto simp: bit_or_iff bit_one_push split: option.splits)
qed simp

lemma bit_caps_to_mask_high: "41 \<le> i \<Longrightarrow> \<not> bit (caps_to_mask caps) i"
  by (simp add: caps_to_mask_def bit_caps_to_mask_from_high)

end
