(* ===== verification/Ebpf_Guards.thy ===== *)
theory Ebpf_Guards
  imports Ebpf_Types
begin

text \<open>
  The kernel programs of \<open>rauha-ebpf/src\<close>: the BPF maps, the reads of kernel memory and
  the seven LSM hooks. What the kernel supplies to a hook (the BPF helpers, the hook's
  arguments, the contents of kernel memory, whether the ring buffer has room) is the
  record \<open>kctx\<close>; the field offsets, generated from the target kernel's BTF at build
  time, are the record \<open>offsets\<close>. A hook maps the maps to its return value and the maps.
\<close>

record offsets =
  TASK_CGROUPS :: u64
  CSS_SET_DFL_CGRP :: u64
  CGROUP_KN :: u64
  KERNFS_NODE_ID :: u64
  FILE_F_INODE :: u64
  INODE_I_INO :: u64
  BPRM_FILE :: u64

text \<open>A kernel read either faults with an errno or yields the 64-bit word at the address.\<close>

record kctx =
  current_cgroup_id :: u64
  current_task :: u64
  current_pid_tgid :: u64
  ktime_ns :: u64
  arg0 :: u64
  arg2 :: i32
  probe_read_kernel :: "u64 \<Rightarrow> int + u64"
  ring_has_room :: bool
  offs :: offsets

record maps =
  ZONE_MEMBERSHIP :: "u64 \<rightharpoonup> ZoneInfoKernel"
  ZONE_POLICY :: "u32 \<rightharpoonup> ZonePolicyKernel"
  INODE_ZONE_MAP :: "u64 \<rightharpoonup> u32"
  ZONE_ALLOWED_COMMS :: "ZoneCommKey \<rightharpoonup> u8"
  SELF_TEST :: SelfTestResult
  ENFORCEMENT_COUNTERS :: "u32 \<rightharpoonup> EnforcementCounters"
  ENFORCEMENT_EVENTS :: "EnforcementEvent list"

definition lookup_caller_zone :: "kctx \<Rightarrow> maps \<Rightarrow> ZoneInfoKernel option" where
  "lookup_caller_zone ctx m = ZONE_MEMBERSHIP m (current_cgroup_id ctx)"

definition read_kernel_u64 :: "kctx \<Rightarrow> u64 \<Rightarrow> u64 \<Rightarrow> int + u64" where
  "read_kernel_u64 ctx base offset = probe_read_kernel ctx (base + offset)"

definition read_task_cgroup_id :: "kctx \<Rightarrow> u64 \<Rightarrow> int + u64" where
  "read_task_cgroup_id ctx task_ptr =
    (if task_ptr = 0 then Inl (-1) else
     and_then (read_kernel_u64 ctx task_ptr (TASK_CGROUPS (offs ctx))) (\<lambda>cgroups_ptr.
     if cgroups_ptr = 0 then Inl (-1) else
     and_then (read_kernel_u64 ctx cgroups_ptr (CSS_SET_DFL_CGRP (offs ctx))) (\<lambda>dfl_cgrp_ptr.
     if dfl_cgrp_ptr = 0 then Inl (-1) else
     and_then (read_kernel_u64 ctx dfl_cgrp_ptr (CGROUP_KN (offs ctx))) (\<lambda>kn_ptr.
     if kn_ptr = 0 then Inl (-1) else
     read_kernel_u64 ctx kn_ptr (KERNFS_NODE_ID (offs ctx))))))"

definition lookup_task_zone :: "kctx \<Rightarrow> maps \<Rightarrow> u64 \<Rightarrow> ZoneInfoKernel option" where
  "lookup_task_zone ctx m task_ptr =
    (case read_task_cgroup_id ctx task_ptr of
       Inl e \<Rightarrow> None
     | Inr cgroup_id \<Rightarrow> ZONE_MEMBERSHIP m cgroup_id)"

definition read_file_ino :: "kctx \<Rightarrow> u64 \<Rightarrow> int + u64" where
  "read_file_ino ctx file_ptr =
    (if file_ptr = 0 then Inl (-1) else
     and_then (read_kernel_u64 ctx file_ptr (FILE_F_INODE (offs ctx))) (\<lambda>inode_ptr.
     if inode_ptr = 0 then Inl (-1) else
     read_kernel_u64 ctx inode_ptr (INODE_I_INO (offs ctx))))"

definition is_cross_zone_allowed :: "maps \<Rightarrow> u32 \<Rightarrow> u32 \<Rightarrow> bool" where
  "is_cross_zone_allowed m src dst =
    (if src = dst then True
     else ZONE_ALLOWED_COMMS m \<lparr>src_zone = src, dst_zone = dst\<rparr> \<noteq> None)"

text \<open>\<open>ENFORCEMENT_EVENTS.output\<close> is best effort: without room the event is dropped.\<close>

definition ring_output :: "kctx \<Rightarrow> EnforcementEvent \<Rightarrow> maps \<Rightarrow> maps" where
  "ring_output ctx ev m =
    (if ring_has_room ctx then m\<lparr>ENFORCEMENT_EVENTS := ENFORCEMENT_EVENTS m @ [ev]\<rparr> else m)"

definition emit_deny_event :: "kctx \<Rightarrow> u8 \<Rightarrow> u32 \<Rightarrow> u32 \<Rightarrow> u64 \<Rightarrow> maps \<Rightarrow> maps" where
  "emit_deny_event ctx hook caller target context m =
    ring_output ctx
      \<lparr>timestamp_ns = ktime_ns ctx, ev_pid = ucast (drop_bit 32 (current_pid_tgid ctx)),
       ev_hook = hook, ev_decision = DECISION_DENY, caller_zone = caller, target_zone = target,
       ev_context = context\<rparr> m"

definition emit_error_event :: "kctx \<Rightarrow> u8 \<Rightarrow> maps \<Rightarrow> maps" where
  "emit_error_event ctx hook m =
    ring_output ctx
      \<lparr>timestamp_ns = ktime_ns ctx, ev_pid = ucast (drop_bit 32 (current_pid_tgid ctx)),
       ev_hook = hook, ev_decision = DECISION_ERROR, caller_zone = 0, target_zone = 0,
       ev_context = 0\<rparr> m"

definition is_global :: "ZoneInfoKernel \<Rightarrow> bool" where
  "is_global info = (zi_flags info AND ZONE_FLAG_GLOBAL \<noteq> 0)"

definition check_cross_zone_task_access :: "kctx \<Rightarrow> u8 \<Rightarrow> maps \<Rightarrow> (int + int) \<times> maps" where
  "check_cross_zone_task_access ctx hook m =
    (case lookup_caller_zone ctx m of
       None \<Rightarrow> (Inr 0, m)
     | Some caller \<Rightarrow>
         if is_global caller then (Inr 0, m)
         else if arg0 ctx = 0 then (Inr 0, m)
         else (case lookup_task_zone ctx m (arg0 ctx) of
             None \<Rightarrow> (Inr (-1), emit_deny_event ctx hook (zi_zone_id caller) 0 0 m)
           | Some target \<Rightarrow>
               if is_cross_zone_allowed m (zi_zone_id caller) (zi_zone_id target) then (Inr 0, m)
               else (Inr (-1),
                 emit_deny_event ctx hook (zi_zone_id caller) (zi_zone_id target) 0 m)))"

definition maybe_run_self_test :: "kctx \<Rightarrow> maps \<Rightarrow> maps" where
  "maybe_run_self_test ctx m =
    (if helper_cgroup_id (SELF_TEST m) \<noteq> 0 then m
     else m\<lparr>SELF_TEST :=
       \<lparr>helper_cgroup_id = current_cgroup_id ctx,
        offset_cgroup_id =
          (case read_task_cgroup_id ctx (current_task ctx) of Inl e \<Rightarrow> 0 | Inr i \<Rightarrow> i)\<rparr>\<rparr>)"

definition count_decision :: "u32 \<Rightarrow> bool \<Rightarrow> bool \<Rightarrow> maps \<Rightarrow> maps" where
  "count_decision prog_idx allow is_error m =
    (case ENFORCEMENT_COUNTERS m prog_idx of
       None \<Rightarrow> m
     | Some c \<Rightarrow>
         m\<lparr>ENFORCEMENT_COUNTERS := (ENFORCEMENT_COUNTERS m)(prog_idx \<mapsto>
           (if is_error then c\<lparr>cnt_error := cnt_error c + 1\<rparr>
            else if allow then c\<lparr>cnt_allow := cnt_allow c + 1\<rparr>
            else c\<lparr>cnt_deny := cnt_deny c + 1\<rparr>))\<rparr>)"

subsection \<open>The hooks\<close>

text \<open>The body every hook's entry function shares: an error is announced and turned into
  \<open>on_error\<close>, and the decision is counted.\<close>

definition finish_hook ::
  "kctx \<Rightarrow> u32 \<Rightarrow> u8 \<Rightarrow> int \<Rightarrow> (int + int) \<times> maps \<Rightarrow> int \<times> maps" where
  "finish_hook ctx prog hook on_error outcome =
    (case outcome of
       (Inr ret, m) \<Rightarrow> (ret, count_decision prog (ret = 0) False m)
     | (Inl e, m) \<Rightarrow>
         (on_error, count_decision prog (on_error = 0) True (emit_error_event ctx hook m)))"

definition try_file_open :: "kctx \<Rightarrow> maps \<Rightarrow> (int + int) \<times> maps" where
  "try_file_open ctx m =
    (case lookup_caller_zone ctx m of
       None \<Rightarrow> (Inr 0, m)
     | Some caller \<Rightarrow>
         if is_global caller then (Inr 0, m)
         else (case read_file_ino ctx (arg0 ctx) of
             Inl e \<Rightarrow> (Inl e, m)
           | Inr ino \<Rightarrow>
               (case INODE_ZONE_MAP m ino of
                  None \<Rightarrow> (Inr 0, m)
                | Some file_zone_id \<Rightarrow>
                    if zi_zone_id caller = file_zone_id then (Inr 0, m)
                    else if is_cross_zone_allowed m (zi_zone_id caller) file_zone_id then (Inr 0, m)
                    else (Inr (-1),
                      emit_deny_event ctx HOOK_FILE_OPEN (zi_zone_id caller) file_zone_id ino m))))"

definition file_open :: "kctx \<Rightarrow> maps \<Rightarrow> int \<times> maps" where
  "file_open ctx m =
    (let m = maybe_run_self_test ctx m
     in finish_hook ctx PROG_FILE_OPEN HOOK_FILE_OPEN (-1) (try_file_open ctx m))"

definition try_bprm_check :: "kctx \<Rightarrow> maps \<Rightarrow> (int + int) \<times> maps" where
  "try_bprm_check ctx m =
    (case lookup_caller_zone ctx m of
       None \<Rightarrow> (Inr 0, m)
     | Some caller \<Rightarrow>
         if is_global caller then (Inr 0, m)
         else if arg0 ctx = 0 then (Inr 0, m)
         else (case and_then (read_kernel_u64 ctx (arg0 ctx) (BPRM_FILE (offs ctx)))
                  (read_file_ino ctx) of
             Inl e \<Rightarrow> (Inl e, m)
           | Inr ino \<Rightarrow>
               (case INODE_ZONE_MAP m ino of
                  None \<Rightarrow> (Inr 0, m)
                | Some file_zone_id \<Rightarrow>
                    if zi_zone_id caller = file_zone_id then (Inr 0, m)
                    else if is_cross_zone_allowed m (zi_zone_id caller) file_zone_id then (Inr 0, m)
                    else (Inr (-1),
                      emit_deny_event ctx HOOK_BPRM_CHECK (zi_zone_id caller) file_zone_id ino m))))"

definition bprm_check_security :: "kctx \<Rightarrow> maps \<Rightarrow> int \<times> maps" where
  "bprm_check_security ctx m =
    finish_hook ctx PROG_BPRM_CHECK HOOK_BPRM_CHECK (-1) (try_bprm_check ctx m)"

definition try_ptrace_check :: "kctx \<Rightarrow> maps \<Rightarrow> (int + int) \<times> maps" where
  "try_ptrace_check ctx m =
    (case lookup_caller_zone ctx m of
       None \<Rightarrow> (Inr 0, m)
     | Some caller \<Rightarrow>
         if is_global caller then (Inr 0, m)
         else (case ZONE_POLICY m (zi_zone_id caller) of
             Some policy \<Rightarrow>
               if zp_flags policy AND POLICY_FLAG_ALLOW_PTRACE \<noteq> 0 then (Inr 0, m)
               else check_cross_zone_task_access ctx HOOK_PTRACE_CHECK m
           | None \<Rightarrow> check_cross_zone_task_access ctx HOOK_PTRACE_CHECK m))"

definition ptrace_access_check :: "kctx \<Rightarrow> maps \<Rightarrow> int \<times> maps" where
  "ptrace_access_check ctx m =
    finish_hook ctx PROG_PTRACE_CHECK HOOK_PTRACE_CHECK (-1) (try_ptrace_check ctx m)"

definition task_kill :: "kctx \<Rightarrow> maps \<Rightarrow> int \<times> maps" where
  "task_kill ctx m =
    finish_hook ctx PROG_TASK_KILL HOOK_TASK_KILL (-1)
      (check_cross_zone_task_access ctx HOOK_TASK_KILL m)"

definition try_capable :: "kctx \<Rightarrow> maps \<Rightarrow> (int + int) \<times> maps" where
  "try_capable ctx m =
    (case lookup_caller_zone ctx m of
       None \<Rightarrow> (Inr 0, m)
     | Some caller \<Rightarrow>
         if is_global caller then (Inr 0, m)
         else
           (let cap = arg2 ctx;
                deny = (Inr (-1),
                  emit_deny_event ctx HOOK_CAPABLE (zi_zone_id caller) 0 (word_of_int (sint cap)) m)
            in if sint cap < 0 \<or> sint cap > 63 then deny
               else (case ZONE_POLICY m (zi_zone_id caller) of
                   None \<Rightarrow> deny
                 | Some policy \<Rightarrow>
                     let cap_bit = push_bit (unat cap) 1
                     in if caps_mask policy AND cap_bit \<noteq> 0 then (Inr 0, m) else deny)))"

definition capable :: "kctx \<Rightarrow> maps \<Rightarrow> int \<times> maps" where
  "capable ctx m = finish_hook ctx PROG_CAPABLE HOOK_CAPABLE (-1) (try_capable ctx m)"

definition try_cgroup_attach :: "kctx \<Rightarrow> maps \<Rightarrow> (int + int) \<times> maps" where
  "try_cgroup_attach ctx m =
    (case lookup_caller_zone ctx m of
       None \<Rightarrow> (Inr 0, m)
     | Some caller \<Rightarrow>
         if is_global caller then (Inr 0, m)
         else if arg0 ctx = 0 then (Inr 0, m)
         else (case read_kernel_u64 ctx (arg0 ctx) (CGROUP_KN (offs ctx)) of
             Inl e \<Rightarrow> (Inl e, m)
           | Inr kn_ptr \<Rightarrow>
               if kn_ptr = 0 then (Inr 0, m)
               else (case read_kernel_u64 ctx kn_ptr (KERNFS_NODE_ID (offs ctx)) of
                   Inl e \<Rightarrow> (Inl e, m)
                 | Inr dst_cgroup_id \<Rightarrow>
                     (case ZONE_MEMBERSHIP m dst_cgroup_id of
                        Some dst_info \<Rightarrow>
                          if zi_zone_id caller = zi_zone_id dst_info then (Inr 0, m)
                          else (Inr (-1),
                            emit_deny_event ctx HOOK_CGROUP_ATTACH (zi_zone_id caller)
                              (zi_zone_id dst_info) dst_cgroup_id m)
                      | None \<Rightarrow>
                          (Inr (-1),
                            emit_deny_event ctx HOOK_CGROUP_ATTACH (zi_zone_id caller) 0
                              dst_cgroup_id m)))))"

definition cgroup_attach_task :: "kctx \<Rightarrow> maps \<Rightarrow> int \<times> maps" where
  "cgroup_attach_task ctx m =
    finish_hook ctx PROG_CGROUP_ATTACH HOOK_CGROUP_ATTACH (-1) (try_cgroup_attach ctx m)"

definition try_socket_connect :: "kctx \<Rightarrow> maps \<Rightarrow> (int + int) \<times> maps" where
  "try_socket_connect ctx m =
    (case lookup_caller_zone ctx m of
       None \<Rightarrow> (Inr 0, m)
     | Some caller \<Rightarrow>
         if is_global caller then (Inr 0, m)
         else (Inr 0, emit_deny_event ctx HOOK_SOCKET_CONNECT (zi_zone_id caller) 0 0 m))"

definition socket_connect :: "kctx \<Rightarrow> maps \<Rightarrow> int \<times> maps" where
  "socket_connect ctx m =
    finish_hook ctx PROG_SOCKET_CONNECT HOOK_SOCKET_CONNECT 0 (try_socket_connect ctx m)"

subsection \<open>The entry points\<close>

text \<open>The seven programs of \<open>main.rs\<close> and their dispatch.\<close>

datatype lsm =
  rauha_file_open | rauha_bprm_check | rauha_ptrace_check | rauha_task_kill | rauha_cgroup_attach
  | rauha_capable | rauha_socket_connect

fun lsm_hook :: "lsm \<Rightarrow> kctx \<Rightarrow> maps \<Rightarrow> int \<times> maps" where
  "lsm_hook rauha_file_open = file_open"
| "lsm_hook rauha_bprm_check = bprm_check_security"
| "lsm_hook rauha_ptrace_check = ptrace_access_check"
| "lsm_hook rauha_task_kill = task_kill"
| "lsm_hook rauha_cgroup_attach = cgroup_attach_task"
| "lsm_hook rauha_capable = capable"
| "lsm_hook rauha_socket_connect = socket_connect"

fun prog_of :: "lsm \<Rightarrow> u32" where
  "prog_of rauha_file_open = PROG_FILE_OPEN"
| "prog_of rauha_bprm_check = PROG_BPRM_CHECK"
| "prog_of rauha_ptrace_check = PROG_PTRACE_CHECK"
| "prog_of rauha_task_kill = PROG_TASK_KILL"
| "prog_of rauha_cgroup_attach = PROG_CGROUP_ATTACH"
| "prog_of rauha_capable = PROG_CAPABLE"
| "prog_of rauha_socket_connect = PROG_SOCKET_CONNECT"

fun hook_id :: "lsm \<Rightarrow> u8" where
  "hook_id rauha_file_open = HOOK_FILE_OPEN"
| "hook_id rauha_bprm_check = HOOK_BPRM_CHECK"
| "hook_id rauha_ptrace_check = HOOK_PTRACE_CHECK"
| "hook_id rauha_task_kill = HOOK_TASK_KILL"
| "hook_id rauha_cgroup_attach = HOOK_CGROUP_ATTACH"
| "hook_id rauha_capable = HOOK_CAPABLE"
| "hook_id rauha_socket_connect = HOOK_SOCKET_CONNECT"

text \<open>A trace of hook invocations, each in its own context.\<close>

definition run_hooks :: "(lsm \<times> kctx) list \<Rightarrow> maps \<Rightarrow> maps" where
  "run_hooks calls m = foldl (\<lambda>m (l, ctx). snd (lsm_hook l ctx m)) m calls"

lemma prog_of_inject [simp]: "prog_of l = prog_of l' \<longleftrightarrow> l = l'"
  by (cases l; cases l'; simp add: prog_defs)

subsection \<open>What a hook may do to the maps\<close>

named_theorems guard_defs "bodies of the guards"

lemmas [guard_defs] = try_file_open_def try_bprm_check_def try_ptrace_check_def try_capable_def
  try_cgroup_attach_def try_socket_connect_def check_cross_zone_task_access_def

text \<open>The maps that decide: a hook reads them and never writes them.\<close>

definition same_policy :: "maps \<Rightarrow> maps \<Rightarrow> bool" where
  "same_policy m m' =
    (ZONE_MEMBERSHIP m' = ZONE_MEMBERSHIP m \<and> ZONE_POLICY m' = ZONE_POLICY m \<and>
     INODE_ZONE_MAP m' = INODE_ZONE_MAP m \<and> ZONE_ALLOWED_COMMS m' = ZONE_ALLOWED_COMMS m)"

definition counter_total :: "maps \<Rightarrow> u32 \<Rightarrow> u64" where
  "counter_total m p =
    (case ENFORCEMENT_COUNTERS m p of
       None \<Rightarrow> 0 | Some c \<Rightarrow> cnt_allow c + cnt_deny c + cnt_error c)"

text \<open>What the body of a hook did: nothing, or one deny event of that hook.\<close>

definition denied_once :: "kctx \<Rightarrow> u8 \<Rightarrow> maps \<Rightarrow> maps \<Rightarrow> bool" where
  "denied_once ctx hook m m' = (\<exists>c t x. m' = emit_deny_event ctx hook c t x m)"

definition body_ok :: "kctx \<Rightarrow> u8 \<Rightarrow> maps \<Rightarrow> (int + int) \<times> maps \<Rightarrow> bool" where
  "body_ok ctx hook m r =
    (case r of
       (Inl e, m') \<Rightarrow> m' = m
     | (Inr ret, m') \<Rightarrow> (ret = 0 \<and> (m' = m \<or> denied_once ctx hook m m')) \<or>
         (ret = -1 \<and> denied_once ctx hook m m'))"

lemma denied_onceI [simp]: "denied_once ctx hook m (emit_deny_event ctx hook c t x m)"
  by (auto simp: denied_once_def)

lemma body_ok_try:
  "body_ok ctx HOOK_FILE_OPEN m (try_file_open ctx m)"
  "body_ok ctx HOOK_BPRM_CHECK m (try_bprm_check ctx m)"
  "body_ok ctx HOOK_CAPABLE m (try_capable ctx m)"
  "body_ok ctx HOOK_CGROUP_ATTACH m (try_cgroup_attach ctx m)"
  "body_ok ctx HOOK_SOCKET_CONNECT m (try_socket_connect ctx m)"
  by (auto simp: guard_defs body_ok_def Let_def split: option.split sum.split)

lemma body_ok_task_access: "body_ok ctx hook m (check_cross_zone_task_access ctx hook m)"
  by (auto simp: guard_defs body_ok_def split: option.split)

lemma body_ok_ptrace: "body_ok ctx HOOK_PTRACE_CHECK m (try_ptrace_check ctx m)"
proof -
  have "body_ok ctx HOOK_PTRACE_CHECK m (Inr 0, m)" by (simp add: body_ok_def)
  then show ?thesis
    unfolding try_ptrace_check_def using body_ok_task_access by (auto split: option.split)
qed

text \<open>The frame of the three writers.\<close>

lemma emit_frame [simp]:
  "ZONE_MEMBERSHIP (emit_deny_event ctx h c t x m) = ZONE_MEMBERSHIP m"
  "ZONE_POLICY (emit_deny_event ctx h c t x m) = ZONE_POLICY m"
  "INODE_ZONE_MAP (emit_deny_event ctx h c t x m) = INODE_ZONE_MAP m"
  "ZONE_ALLOWED_COMMS (emit_deny_event ctx h c t x m) = ZONE_ALLOWED_COMMS m"
  "ENFORCEMENT_COUNTERS (emit_deny_event ctx h c t x m) = ENFORCEMENT_COUNTERS m"
  "ZONE_MEMBERSHIP (emit_error_event ctx h m) = ZONE_MEMBERSHIP m"
  "ZONE_POLICY (emit_error_event ctx h m) = ZONE_POLICY m"
  "INODE_ZONE_MAP (emit_error_event ctx h m) = INODE_ZONE_MAP m"
  "ZONE_ALLOWED_COMMS (emit_error_event ctx h m) = ZONE_ALLOWED_COMMS m"
  "ENFORCEMENT_COUNTERS (emit_error_event ctx h m) = ENFORCEMENT_COUNTERS m"
  by (simp_all add: emit_deny_event_def emit_error_event_def ring_output_def)

lemma self_test_frame [simp]:
  "ZONE_MEMBERSHIP (maybe_run_self_test ctx m) = ZONE_MEMBERSHIP m"
  "ZONE_POLICY (maybe_run_self_test ctx m) = ZONE_POLICY m"
  "INODE_ZONE_MAP (maybe_run_self_test ctx m) = INODE_ZONE_MAP m"
  "ZONE_ALLOWED_COMMS (maybe_run_self_test ctx m) = ZONE_ALLOWED_COMMS m"
  "ENFORCEMENT_COUNTERS (maybe_run_self_test ctx m) = ENFORCEMENT_COUNTERS m"
  "ENFORCEMENT_EVENTS (maybe_run_self_test ctx m) = ENFORCEMENT_EVENTS m"
  by (simp_all add: maybe_run_self_test_def)

lemma count_frame [simp]:
  "ZONE_MEMBERSHIP (count_decision p a e m) = ZONE_MEMBERSHIP m"
  "ZONE_POLICY (count_decision p a e m) = ZONE_POLICY m"
  "INODE_ZONE_MAP (count_decision p a e m) = INODE_ZONE_MAP m"
  "ZONE_ALLOWED_COMMS (count_decision p a e m) = ZONE_ALLOWED_COMMS m"
  "ENFORCEMENT_EVENTS (count_decision p a e m) = ENFORCEMENT_EVENTS m"
  "SELF_TEST (count_decision p a e m) = SELF_TEST m"
  by (simp_all add: count_decision_def split: option.split)

lemma counter_total_count:
  assumes "ENFORCEMENT_COUNTERS m p \<noteq> None"
  shows "counter_total (count_decision p a e m) q = counter_total m q + (if q = p then 1 else 0)"
  using assms by (auto simp: counter_total_def count_decision_def)

lemma counters_dom_count [simp]:
  "dom (ENFORCEMENT_COUNTERS (count_decision p a e m)) = dom (ENFORCEMENT_COUNTERS m)"
  by (auto simp: count_decision_def split: option.split)

lemma counter_total_cong:
  "ENFORCEMENT_COUNTERS m = ENFORCEMENT_COUNTERS m' \<Longrightarrow> counter_total m q = counter_total m' q"
  by (simp add: counter_total_def)

text \<open>Consequences for a complete hook, from its body alone.\<close>

lemma finish_hook_frame:
  assumes "body_ok ctx hook m r"
  shows "same_policy m (snd (finish_hook ctx prog hook on_error r))"
  using assms
  by (auto simp: body_ok_def same_policy_def finish_hook_def denied_once_def
    split: prod.splits sum.splits)

lemma finish_hook_counts:
  assumes "body_ok ctx hook m r" and "ENFORCEMENT_COUNTERS m prog \<noteq> None"
  shows "counter_total (snd (finish_hook ctx prog hook on_error r)) q =
      counter_total m q + (if q = prog then 1 else 0)"
    and "dom (ENFORCEMENT_COUNTERS (snd (finish_hook ctx prog hook on_error r))) =
      dom (ENFORCEMENT_COUNTERS m)"
proof -
  obtain a e m' where m': "snd (finish_hook ctx prog hook on_error r) = count_decision prog a e m'"
    and c: "ENFORCEMENT_COUNTERS m' = ENFORCEMENT_COUNTERS m"
    using assms(1)
    by (fastforce simp: body_ok_def finish_hook_def denied_once_def split: prod.splits sum.splits)
  show "counter_total (snd (finish_hook ctx prog hook on_error r)) q =
      counter_total m q + (if q = prog then 1 else 0)"
    using assms(2) c by (simp add: m' counter_total_count counter_total_cong [OF c])
  show "dom (ENFORCEMENT_COUNTERS (snd (finish_hook ctx prog hook on_error r))) =
      dom (ENFORCEMENT_COUNTERS m)"
    using c by (simp add: m')
qed

lemma finish_hook_verdict:
  assumes "body_ok ctx hook m r" and "on_error \<in> {0, -1}"
  shows "fst (finish_hook ctx prog hook on_error r) \<in> {0, -1}"
  using assms by (auto simp: body_ok_def finish_hook_def split: prod.splits sum.splits)

lemma finish_hook_denial:
  assumes "body_ok ctx hook m r" and "fst (finish_hook ctx prog hook on_error r) = -1"
    and "ring_has_room ctx"
  shows "\<exists>ev. ENFORCEMENT_EVENTS (snd (finish_hook ctx prog hook on_error r)) =
      ENFORCEMENT_EVENTS m @ [ev] \<and> ev_hook ev = hook \<and> ev_decision ev \<in> {DECISION_DENY, DECISION_ERROR}"
  using assms
  by (auto simp: body_ok_def finish_hook_def denied_once_def emit_deny_event_def emit_error_event_def
    ring_output_def split: prod.splits sum.splits)

subsection \<open>The contract of an LSM program\<close>

locale lsm_program =
  fixes run :: "'l \<Rightarrow> kctx \<Rightarrow> maps \<Rightarrow> int \<times> maps"
    and prog :: "'l \<Rightarrow> u32"
    and hid :: "'l \<Rightarrow> u8"
  assumes prog_inj: "prog l = prog l' \<longleftrightarrow> l = l'"
    and verdict: "fst (run l ctx m) \<in> {0, -1}"
    and frame: "same_policy m (snd (run l ctx m))"
    and counts: "ENFORCEMENT_COUNTERS m (prog l) \<noteq> None \<Longrightarrow>
      counter_total (snd (run l ctx m)) q = counter_total m q + (if q = prog l then 1 else 0)"
    and counters_dom: "ENFORCEMENT_COUNTERS m (prog l) \<noteq> None \<Longrightarrow>
      dom (ENFORCEMENT_COUNTERS (snd (run l ctx m))) = dom (ENFORCEMENT_COUNTERS m)"
    and denial_event: "fst (run l ctx m) = -1 \<Longrightarrow> ring_has_room ctx \<Longrightarrow>
      \<exists>ev. ENFORCEMENT_EVENTS (snd (run l ctx m)) = ENFORCEMENT_EVENTS m @ [ev] \<and>
        ev_hook ev = hid l \<and> ev_decision ev \<in> {DECISION_DENY, DECISION_ERROR}"
begin

lemma trace_frame: "same_policy m (foldl (\<lambda>m (l, ctx). snd (run l ctx m)) m calls)"
proof (induction calls arbitrary: m)
  case (Cons c calls)
  obtain l ctx where "c = (l, ctx)" by (cases c)
  then show ?case using Cons [of "snd (run l ctx m)"] frame [of m l ctx] by (auto simp: same_policy_def)
qed (simp add: same_policy_def)

lemma trace_counts:
  assumes "\<And>l. ENFORCEMENT_COUNTERS m (prog l) \<noteq> None"
  shows "counter_total (foldl (\<lambda>m (l, ctx). snd (run l ctx m)) m calls) (prog l) =
    counter_total m (prog l) + of_nat (length (filter (\<lambda>c. fst c = l) calls))"
  using assms
proof (induction calls arbitrary: m)
  case (Cons c calls)
  obtain l' ctx where c: "c = (l', ctx)" by (cases c)
  let ?m = "snd (run l' ctx m)"
  have "prog l'' \<in> dom (ENFORCEMENT_COUNTERS ?m)" for l''
    using counters_dom [OF Cons.prems, of l' ctx] Cons.prems [of l''] by blast
  then have "\<And>l''. ENFORCEMENT_COUNTERS ?m (prog l'') \<noteq> None" by blast
  then have "counter_total (foldl (\<lambda>m (l, ctx). snd (run l ctx m)) m (c # calls)) (prog l) =
      counter_total ?m (prog l) + of_nat (length (filter (\<lambda>c. fst c = l) calls))"
    using Cons.IH c by simp
  then show ?case
    using counts [OF Cons.prems, of l' ctx "prog l"] c by (simp add: prog_inj eq_commute)
qed simp

end

lemma lsm_hook_finish:
  obtains m0 r e where "lsm_hook l ctx m = finish_hook ctx (prog_of l) (hook_id l) e r"
    and "body_ok ctx (hook_id l) m0 r" and "e \<in> {0, -1}" and "same_policy m m0"
    and "ENFORCEMENT_COUNTERS m0 = ENFORCEMENT_COUNTERS m" and "ENFORCEMENT_EVENTS m0 = ENFORCEMENT_EVENTS m"
proof (cases l)
  case rauha_file_open
  then show ?thesis
    by (intro that [of "-1" "try_file_open ctx (maybe_run_self_test ctx m)" "maybe_run_self_test ctx m"])
      (simp_all add: file_open_def body_ok_try same_policy_def)
next
  case rauha_bprm_check
  then show ?thesis
    by (intro that [of "-1" "try_bprm_check ctx m" m])
      (simp_all add: bprm_check_security_def body_ok_try same_policy_def)
next
  case rauha_ptrace_check
  then show ?thesis
    by (intro that [of "-1" "try_ptrace_check ctx m" m])
      (simp_all add: ptrace_access_check_def body_ok_ptrace same_policy_def)
next
  case rauha_task_kill
  then show ?thesis
    by (intro that [of "-1" "check_cross_zone_task_access ctx HOOK_TASK_KILL m" m])
      (simp_all add: task_kill_def body_ok_task_access same_policy_def)
next
  case rauha_cgroup_attach
  then show ?thesis
    by (intro that [of "-1" "try_cgroup_attach ctx m" m])
      (simp_all add: cgroup_attach_task_def body_ok_try same_policy_def)
next
  case rauha_capable
  then show ?thesis
    by (intro that [of "-1" "try_capable ctx m" m])
      (simp_all add: capable_def body_ok_try same_policy_def)
next
  case rauha_socket_connect
  then show ?thesis
    by (intro that [of 0 "try_socket_connect ctx m" m])
      (simp_all add: socket_connect_def body_ok_try same_policy_def)
qed

lemma same_policy_trans: "same_policy a b \<Longrightarrow> same_policy b c \<Longrightarrow> same_policy a c"
  by (simp add: same_policy_def)

interpretation guards: lsm_program lsm_hook prog_of hook_id
proof
  fix l l' ctx m q
  show "prog_of l = prog_of l' \<longleftrightarrow> l = l'" by simp
  obtain m0 r e where f: "lsm_hook l ctx m = finish_hook ctx (prog_of l) (hook_id l) e r"
      "body_ok ctx (hook_id l) m0 r" "e \<in> {0, -1}" "same_policy m m0"
      "ENFORCEMENT_COUNTERS m0 = ENFORCEMENT_COUNTERS m"
      "ENFORCEMENT_EVENTS m0 = ENFORCEMENT_EVENTS m"
    by (rule lsm_hook_finish)
  show "fst (lsm_hook l ctx m) \<in> {0, -1}" using f finish_hook_verdict by metis
  show "same_policy m (snd (lsm_hook l ctx m))"
    using f finish_hook_frame same_policy_trans by metis
  show "ENFORCEMENT_COUNTERS m (prog_of l) \<noteq> None \<Longrightarrow>
      counter_total (snd (lsm_hook l ctx m)) q = counter_total m q + (if q = prog_of l then 1 else 0)"
    using f finish_hook_counts(1) counter_total_cong by metis
  show "ENFORCEMENT_COUNTERS m (prog_of l) \<noteq> None \<Longrightarrow>
      dom (ENFORCEMENT_COUNTERS (snd (lsm_hook l ctx m))) = dom (ENFORCEMENT_COUNTERS m)"
    using f finish_hook_counts(2) by metis
  show "fst (lsm_hook l ctx m) = -1 \<Longrightarrow> ring_has_room ctx \<Longrightarrow>
      \<exists>ev. ENFORCEMENT_EVENTS (snd (lsm_hook l ctx m)) = ENFORCEMENT_EVENTS m @ [ev] \<and>
        ev_hook ev = hook_id l \<and> ev_decision ev \<in> {DECISION_DENY, DECISION_ERROR}"
    using f finish_hook_denial by metis
qed

subsection \<open>Verdicts\<close>

text \<open>A confined caller: a member of a zone that is not global.\<close>

definition confined :: "kctx \<Rightarrow> maps \<Rightarrow> ZoneInfoKernel \<Rightarrow> bool" where
  "confined ctx m caller = (lookup_caller_zone ctx m = Some caller \<and> \<not> is_global caller)"

text \<open>May the zone touch an inode: it is untracked, its own, or of a zone it may talk to.\<close>

definition may_touch :: "maps \<Rightarrow> u32 \<Rightarrow> u64 \<Rightarrow> bool" where
  "may_touch m zone ino =
    (case INODE_ZONE_MAP m ino of
       None \<Rightarrow> True
     | Some owner \<Rightarrow> owner = zone \<or> ZONE_ALLOWED_COMMS m \<lparr>src_zone = zone, dst_zone = owner\<rparr> \<noteq> None)"

definition may_reach :: "maps \<Rightarrow> u32 \<Rightarrow> u32 \<Rightarrow> bool" where
  "may_reach m zone target =
    (target = zone \<or> ZONE_ALLOWED_COMMS m \<lparr>src_zone = zone, dst_zone = target\<rparr> \<noteq> None)"

lemma lookup_caller_self_test [simp]:
  "lookup_caller_zone ctx (maybe_run_self_test ctx m) = lookup_caller_zone ctx m"
  by (simp add: lookup_caller_zone_def)

lemma fst_finish_hook:
  "fst (finish_hook ctx p h e r) = (case fst r of Inl x \<Rightarrow> e | Inr ret \<Rightarrow> ret)"
  by (simp add: finish_hook_def split: prod.split sum.split)

lemma cross_zone_iff: "is_cross_zone_allowed m a b \<longleftrightarrow> may_reach m a b"
  by (auto simp: is_cross_zone_allowed_def may_reach_def)

lemma may_touch_self_test [simp]: "may_touch (maybe_run_self_test ctx m) = may_touch m"
  by (simp add: may_touch_def fun_eq_iff split: option.split)

lemma may_touch_iff:
  "may_touch m z ino \<longleftrightarrow>
    (\<forall>owner. INODE_ZONE_MAP m ino = Some owner \<longrightarrow> is_cross_zone_allowed m z owner)"
  by (auto simp: may_touch_def cross_zone_iff may_reach_def split: option.split)

lemma fst_try_file_open:
  assumes "confined ctx m caller"
  shows "fst (try_file_open ctx m) = Inr 0 \<longleftrightarrow>
    (\<exists>ino. read_file_ino ctx (arg0 ctx) = Inr ino \<and> may_touch m (zi_zone_id caller) ino)"
proof (cases "read_file_ino ctx (arg0 ctx)")
  case (Inr ino)
  then show ?thesis
    using assms
    by (cases "INODE_ZONE_MAP m ino")
      (auto simp: try_file_open_def confined_def may_touch_iff is_cross_zone_allowed_def)
qed (use assms in \<open>simp add: try_file_open_def confined_def\<close>)

lemma fst_try_bprm_check:
  assumes "confined ctx m caller" and "arg0 ctx \<noteq> 0"
  shows "fst (try_bprm_check ctx m) = Inr 0 \<longleftrightarrow>
    (\<exists>file ino. read_kernel_u64 ctx (arg0 ctx) (BPRM_FILE (offs ctx)) = Inr file \<and>
      read_file_ino ctx file = Inr ino \<and> may_touch m (zi_zone_id caller) ino)"
proof -
  let ?read = "and_then (read_kernel_u64 ctx (arg0 ctx) (BPRM_FILE (offs ctx))) (read_file_ino ctx)"
  have "fst (try_bprm_check ctx m) = Inr 0 \<longleftrightarrow>
    (\<exists>ino. ?read = Inr ino \<and> may_touch m (zi_zone_id caller) ino)"
  proof (cases ?read)
    case (Inr ino)
    then show ?thesis
      using assms
      by (cases "INODE_ZONE_MAP m ino")
        (auto simp: try_bprm_check_def confined_def may_touch_iff is_cross_zone_allowed_def)
  qed (use assms in \<open>simp add: try_bprm_check_def confined_def\<close>)
  then show ?thesis by (auto simp: result_simps)
qed

lemma fst_task_access:
  assumes "confined ctx m caller" and "arg0 ctx \<noteq> 0"
  shows "fst (check_cross_zone_task_access ctx hook m) =
    Inr (if \<exists>t. lookup_task_zone ctx m (arg0 ctx) = Some t \<and> may_reach m (zi_zone_id caller) (zi_zone_id t)
     then 0 else -1)"
  using assms
  by (auto simp: check_cross_zone_task_access_def confined_def cross_zone_iff split: option.splits)

lemma verdict_of_try:
  assumes "body_ok ctx h m r"
  shows "fst (finish_hook ctx p h (-1) r) = 0 \<longleftrightarrow> fst r = Inr 0"
  using assms by (auto simp: fst_finish_hook body_ok_def split: sum.splits prod.splits)

lemma file_open_verdict:
  assumes "confined ctx m caller"
  shows "fst (file_open ctx m) = 0 \<longleftrightarrow>
    (\<exists>ino. read_file_ino ctx (arg0 ctx) = Inr ino \<and> may_touch m (zi_zone_id caller) ino)"
proof -
  let ?m = "maybe_run_self_test ctx m"
  have "confined ctx ?m caller" using assms by (simp add: confined_def)
  then show ?thesis
    using fst_try_file_open [of ctx ?m caller]
    by (simp add: file_open_def verdict_of_try [OF body_ok_try(1)])
qed

lemma bprm_check_verdict:
  assumes "confined ctx m caller" and "arg0 ctx \<noteq> 0"
  shows "fst (bprm_check_security ctx m) = 0 \<longleftrightarrow>
    (\<exists>file ino. read_kernel_u64 ctx (arg0 ctx) (BPRM_FILE (offs ctx)) = Inr file \<and>
      read_file_ino ctx file = Inr ino \<and> may_touch m (zi_zone_id caller) ino)"
  using fst_try_bprm_check [OF assms]
  by (simp add: bprm_check_security_def verdict_of_try [OF body_ok_try(2)])

lemma task_kill_verdict:
  assumes "confined ctx m caller" and "arg0 ctx \<noteq> 0"
  shows "fst (task_kill ctx m) = 0 \<longleftrightarrow>
    (\<exists>t. lookup_task_zone ctx m (arg0 ctx) = Some t \<and> may_reach m (zi_zone_id caller) (zi_zone_id t))"
  using fst_task_access [OF assms] by (simp add: task_kill_def fst_finish_hook)

definition ptrace_granted :: "maps \<Rightarrow> u32 \<Rightarrow> bool" where
  "ptrace_granted m zone =
    (case ZONE_POLICY m zone of
       None \<Rightarrow> False | Some policy \<Rightarrow> zp_flags policy AND POLICY_FLAG_ALLOW_PTRACE \<noteq> 0)"

lemma ptrace_verdict:
  assumes "confined ctx m caller" and "arg0 ctx \<noteq> 0"
  shows "fst (ptrace_access_check ctx m) = 0 \<longleftrightarrow> ptrace_granted m (zi_zone_id caller) \<or>
    (\<exists>t. lookup_task_zone ctx m (arg0 ctx) = Some t \<and> may_reach m (zi_zone_id caller) (zi_zone_id t))"
proof -
  have "try_ptrace_check ctx m =
    (if ptrace_granted m (zi_zone_id caller) then (Inr 0, m)
     else check_cross_zone_task_access ctx HOOK_PTRACE_CHECK m)"
    using assms(1)
    by (simp add: try_ptrace_check_def confined_def ptrace_granted_def split: option.split)
  then show ?thesis
    using fst_task_access [OF assms] by (simp add: ptrace_access_check_def fst_finish_hook)
qed

text \<open>The destination of an attach as the hook sees it: the identifier of the cgroup at
  \<open>ptr\<close>, with both pointers live.\<close>

definition cgroup_at :: "kctx \<Rightarrow> u64 \<Rightarrow> u64 \<Rightarrow> bool" where
  "cgroup_at ctx ptr cid =
    (ptr \<noteq> 0 \<and> (\<exists>kn. kn \<noteq> 0 \<and> read_kernel_u64 ctx ptr (CGROUP_KN (offs ctx)) = Inr kn \<and>
       read_kernel_u64 ctx kn (KERNFS_NODE_ID (offs ctx)) = Inr cid))"

lemma cgroup_attach_verdict:
  assumes "confined ctx m caller" and "cgroup_at ctx (arg0 ctx) cid"
  shows "fst (cgroup_attach_task ctx m) = 0 \<longleftrightarrow>
    (\<exists>info. ZONE_MEMBERSHIP m cid = Some info \<and> zi_zone_id info = zi_zone_id caller)"
  using assms
  by (cases "ZONE_MEMBERSHIP m cid")
    (auto simp: cgroup_attach_task_def fst_finish_hook cgroup_at_def confined_def
      try_cgroup_attach_def split: if_splits)

lemma capable_verdict:
  assumes "confined ctx m caller"
  shows "fst (capable ctx m) = 0 \<longleftrightarrow>
    (\<exists>policy. ZONE_POLICY m (zi_zone_id caller) = Some policy \<and>
      0 \<le> sint (arg2 ctx) \<and> sint (arg2 ctx) \<le> 63 \<and> bit (caps_mask policy) (unat (arg2 ctx)))"
proof -
  have "(x AND push_bit n 1 \<noteq> 0) = bit x n" for x :: u64 and n
    by (simp add: and_exp_eq_0_iff_not_bit)
  then show ?thesis
    using assms
    by (auto simp: capable_def fst_finish_hook confined_def try_capable_def Let_def
      split: option.split)
qed

lemma socket_connect_verdict: "fst (socket_connect ctx m) = 0"
  by (simp add: socket_connect_def fst_finish_hook try_socket_connect_def split: option.split)

subsection \<open>Properties\<close>

text \<open>A context and maps for the instances below: process 1 runs in cgroup 7 of zone 1, which
  may not talk to zone 2; inode 50 and cgroup 8 belong to zone 2. The file at address 100 has
  inode 50, the cgroup at address 200 is cgroup 8, the one at 300 is cgroup 7.\<close>

definition demo_offsets :: offsets where
  "demo_offsets =
    \<lparr>TASK_CGROUPS = 1, CSS_SET_DFL_CGRP = 2, CGROUP_KN = 3, KERNFS_NODE_ID = 4, FILE_F_INODE = 5,
     INODE_I_INO = 6, BPRM_FILE = 7\<rparr>"

definition demo_memory :: "u64 \<Rightarrow> int + u64" where
  "demo_memory a =
    (if a = 105 then Inr 110 else if a = 116 then Inr 50
     else if a = 203 then Inr 210 else if a = 214 then Inr 8
     else if a = 303 then Inr 310 else if a = 314 then Inr 7
     else if a = 407 then Inr 100
     else Inl (-14))"

definition demo_ctx :: "u64 \<Rightarrow> kctx" where
  "demo_ctx a =
    \<lparr>current_cgroup_id = 7, current_task = 500, current_pid_tgid = 1, ktime_ns = 0, arg0 = a, arg2 = 0,
     probe_read_kernel = demo_memory, ring_has_room = True, offs = demo_offsets\<rparr>"

definition demo_maps :: maps where
  "demo_maps =
    \<lparr>ZONE_MEMBERSHIP = [7 \<mapsto> \<lparr>zi_zone_id = 1, zi_flags = 0\<rparr>, 8 \<mapsto> \<lparr>zi_zone_id = 2, zi_flags = 0\<rparr>],
     ZONE_POLICY = Map.empty, INODE_ZONE_MAP = [50 \<mapsto> 2], ZONE_ALLOWED_COMMS = Map.empty,
     SELF_TEST = \<lparr>helper_cgroup_id = 0, offset_cgroup_id = 0\<rparr>,
     ENFORCEMENT_COUNTERS = (\<lambda>p. if p < 7 then Some \<lparr>cnt_allow = 0, cnt_deny = 0, cnt_error = 0\<rparr> else None),
     ENFORCEMENT_EVENTS = []\<rparr>"

definition demo_caller :: ZoneInfoKernel where
  "demo_caller = \<lparr>zi_zone_id = 1, zi_flags = 0\<rparr>"

lemmas demo_defs = demo_offsets_def demo_memory_def demo_ctx_def demo_maps_def demo_caller_def

lemma demo_confined [simp]: "confined (demo_ctx a) demo_maps demo_caller"
  by (simp add: confined_def lookup_caller_zone_def is_global_def demo_defs)

lemma demo_fields [simp]:
  "arg0 (demo_ctx a) = a" "current_cgroup_id (demo_ctx a) = 7"
  "probe_read_kernel (demo_ctx a) = demo_memory" "offs (demo_ctx a) = demo_offsets"
  "zi_zone_id demo_caller = 1" "ZONE_POLICY demo_maps = Map.empty"
  "ZONE_ALLOWED_COMMS demo_maps = Map.empty" "INODE_ZONE_MAP demo_maps = [50 \<mapsto> 2]"
  by (simp_all add: demo_defs)

lemmas demo_eval = read_file_ino_def read_kernel_u64_def may_touch_def lookup_task_zone_def
  read_task_cgroup_id_def ptrace_granted_def demo_offsets_def demo_memory_def

text \<open>C1: a confined process may open or execute a file exactly when the file's inode could
  be read and is untracked, owned by the caller's zone, or owned by a zone the caller may talk
  to. A read fault, like any other case, is a denial.\<close>

theorem file_guards_decide:
  assumes "confined ctx m caller" and "arg0 ctx \<noteq> 0"
  shows "(fst (file_open ctx m) = 0 \<longleftrightarrow>
      (\<exists>ino. read_file_ino ctx (arg0 ctx) = Inr ino \<and> may_touch m (zi_zone_id caller) ino))
    \<and> (fst (bprm_check_security ctx m) = 0 \<longleftrightarrow>
      (\<exists>file ino. read_kernel_u64 ctx (arg0 ctx) (BPRM_FILE (offs ctx)) = Inr file \<and>
        read_file_ino ctx file = Inr ino \<and> may_touch m (zi_zone_id caller) ino))"
  using file_open_verdict [OF assms(1)] bprm_check_verdict [OF assms] by blast

theorem file_guards_decide_witness:
  "fst (file_open (demo_ctx 100) demo_maps) \<noteq> 0 \<and> fst (bprm_check_security (demo_ctx 400) demo_maps) \<noteq> 0"
  using file_guards_decide [OF demo_confined, of 100] file_guards_decide [OF demo_confined, of 400]
  by (simp add: demo_eval)

text \<open>C3: a confined process may signal or trace a task exactly when the task's zone can be
  resolved and is its own or one it may talk to; for tracing the zone's policy flag is an
  alternative. An unresolvable target is the host boundary and is denied.\<close>

theorem task_guards_decide:
  assumes "confined ctx m caller" and "arg0 ctx \<noteq> 0"
  shows "(fst (task_kill ctx m) = 0 \<longleftrightarrow>
      (\<exists>t. lookup_task_zone ctx m (arg0 ctx) = Some t \<and> may_reach m (zi_zone_id caller) (zi_zone_id t)))
    \<and> (fst (ptrace_access_check ctx m) = 0 \<longleftrightarrow> ptrace_granted m (zi_zone_id caller) \<or>
      (\<exists>t. lookup_task_zone ctx m (arg0 ctx) = Some t \<and> may_reach m (zi_zone_id caller) (zi_zone_id t)))"
  using task_kill_verdict [OF assms] ptrace_verdict [OF assms] by blast

theorem task_guards_decide_witness:
  "fst (task_kill (demo_ctx 500) demo_maps) \<noteq> 0 \<and> fst (ptrace_access_check (demo_ctx 500) demo_maps) \<noteq> 0"
  using task_guards_decide [OF demo_confined, of 500] by (simp add: demo_eval)

text \<open>Over any trace of hook invocations the maps that decide never change, and every
  program's counters grow by exactly one per invocation.\<close>

lemma hooks_accounted:
  assumes "\<forall>l. ENFORCEMENT_COUNTERS m (prog_of l) \<noteq> None"
  shows "same_policy m (run_hooks calls m) \<and>
    counter_total (run_hooks calls m) (prog_of l) =
      counter_total m (prog_of l) + of_nat (length (filter (\<lambda>c. fst c = l) calls))"
  using guards.trace_frame [of m calls] guards.trace_counts [of m calls l] assms
  by (simp add: run_hooks_def)

subsection \<open>Zone confinement\<close>

text \<open>Which cgroup every task is in, and one attempt to move a task: the hook runs in the
  cgroup of the calling task, and the kernel performs the move when the hook returns 0.\<close>

inductive attach_step :: "maps \<Rightarrow> (u64 \<rightharpoonup> u64) \<Rightarrow> u64 \<Rightarrow> u64 \<Rightarrow> (u64 \<rightharpoonup> u64) \<Rightarrow> bool" for m where
  moved: "\<lbrakk>tasks caller = Some (current_cgroup_id ctx); cgroup_at ctx (arg0 ctx) dst;
    fst (cgroup_attach_task ctx m) = 0\<rbrakk> \<Longrightarrow> attach_step m tasks caller task (tasks(task \<mapsto> dst))"
| refused: "\<lbrakk>tasks caller = Some (current_cgroup_id ctx); fst (cgroup_attach_task ctx m) \<noteq> 0\<rbrakk> \<Longrightarrow>
    attach_step m tasks caller task tasks"

text \<open>The membership map gives all cgroups of a zone the same status.\<close>

definition uniform_membership :: "maps \<Rightarrow> bool" where
  "uniform_membership m =
    (\<forall>c c' i i'. ZONE_MEMBERSHIP m c = Some i \<longrightarrow> ZONE_MEMBERSHIP m c' = Some i' \<longrightarrow>
      zi_zone_id i = zi_zone_id i' \<longrightarrow> is_global i = is_global i')"

definition in_zone :: "maps \<Rightarrow> (u64 \<rightharpoonup> u64) \<Rightarrow> u64 \<Rightarrow> u32 \<Rightarrow> bool" where
  "in_zone m tasks task z =
    (\<exists>c info. tasks task = Some c \<and> ZONE_MEMBERSHIP m c = Some info \<and> zi_zone_id info = z \<and>
      \<not> is_global info)"

lemma attach_self_keeps_zone:
  assumes "attach_step m tasks t t tasks'" and "uniform_membership m" and "in_zone m tasks t z"
  shows "in_zone m tasks' t z"
  using assms(1)
proof (cases rule: attach_step.cases)
  case (moved ctx dst)
  obtain info where info: "ZONE_MEMBERSHIP m (current_cgroup_id ctx) = Some info" "zi_zone_id info = z"
      "\<not> is_global info"
    using assms(3) moved by (auto simp: in_zone_def)
  then have "confined ctx m info" by (simp add: confined_def lookup_caller_zone_def)
  then obtain info' where info': "ZONE_MEMBERSHIP m dst = Some info'" "zi_zone_id info' = z"
    using cgroup_attach_verdict moved info by blast
  then have "is_global info' = is_global info"
    using assms(2) info unfolding uniform_membership_def by metis
  then show ?thesis using info' info moved(1) by (auto simp: in_zone_def)
qed (use assms(3) in simp)

lemma attach_other_frame: "attach_step m tasks c u tasks' \<Longrightarrow> t \<noteq> u \<Longrightarrow> tasks' t = tasks t"
  by (induction rule: attach_step.induct) auto

text \<open>C4: as long as tasks only move themselves, a task in a non-global zone stays in that zone
  through any sequence of cgroup moves.\<close>

theorem zone_confinement:
  assumes "star (\<lambda>a b. \<exists>u. attach_step m a u u b) tasks tasks'"
    and "uniform_membership m" and "in_zone m tasks t z"
  shows "in_zone m tasks' t z"
  using assms(1, 3)
proof (rule star_invariant [where P = "\<lambda>a. in_zone m a t z"])
  fix a b
  assume "in_zone m a t z" and "\<exists>u. attach_step m a u u b"
  then obtain u where u: "attach_step m a u u b" by blast
  show "in_zone m b t z"
  proof (cases "u = t")
    case True
    then show ?thesis using attach_self_keeps_zone u assms(2) \<open>in_zone m a t z\<close> by blast
  next
    case False
    then show ?thesis using attach_other_frame [OF u] \<open>in_zone m a t z\<close> by (auto simp: in_zone_def)
  qed
qed

lemma demo_uniform: "uniform_membership demo_maps"
  by (auto simp: uniform_membership_def demo_maps_def is_global_def split: if_splits)

lemma demo_tasks_in_zone:
  "in_zone demo_maps [1 \<mapsto> 7, 2 \<mapsto> 8] 1 1" "in_zone demo_maps [1 \<mapsto> 7, 2 \<mapsto> 8] 2 2"
  by (simp_all add: in_zone_def demo_maps_def is_global_def)

lemma demo_cgroup: "cgroup_at (demo_ctx 300) 300 7"
  by (simp add: cgroup_at_def read_kernel_u64_def demo_offsets_def demo_memory_def)

lemma demo_attach_allowed: "fst (cgroup_attach_task (demo_ctx 300) demo_maps) = 0"
  using cgroup_attach_verdict [OF demo_confined, of 300 7] demo_cgroup by (simp add: demo_maps_def)

theorem zone_confinement_witness:
  "in_zone demo_maps ([1 \<mapsto> 7, 2 \<mapsto> 8](1 \<mapsto> 7)) 1 1"
proof (rule zone_confinement [OF _ demo_uniform demo_tasks_in_zone(1)])
  have "attach_step demo_maps [1 \<mapsto> 7, 2 \<mapsto> 8] 1 1 ([1 \<mapsto> 7, 2 \<mapsto> 8](1 \<mapsto> 7))"
    by (rule attach_step.moved [of _ _ "demo_ctx 300"]) (simp_all add: demo_cgroup demo_attach_allowed)
  then show "star (\<lambda>a b. \<exists>u. attach_step demo_maps a u u b) [1 \<mapsto> 7, 2 \<mapsto> 8]
      ([1 \<mapsto> 7, 2 \<mapsto> 8](1 \<mapsto> 7))"
    using star_step [OF star_refl] by (metis (mono_tags, lifting))
qed

text \<open>The hook decides by the caller's zone and never looks at the task being moved: a
  process of one zone may pull a task of another zone into its own.\<close>

lemma attach_ignores_moved_task:
  "\<exists>m tasks tasks' caller task. uniform_membership m \<and> in_zone m tasks caller 1 \<and>
    in_zone m tasks task 2 \<and> attach_step m tasks caller task tasks' \<and> in_zone m tasks' task 1"
proof (intro exI conjI)
  show "uniform_membership demo_maps" by (rule demo_uniform)
  show "in_zone demo_maps [1 \<mapsto> 7, 2 \<mapsto> 8] 1 1" by (rule demo_tasks_in_zone)
  show "in_zone demo_maps [1 \<mapsto> 7, 2 \<mapsto> 8] 2 2" by (rule demo_tasks_in_zone)
  show "attach_step demo_maps [1 \<mapsto> 7, 2 \<mapsto> 8] 1 2 ([1 \<mapsto> 7, 2 \<mapsto> 8](2 \<mapsto> 7))"
    by (rule attach_step.moved [of _ _ "demo_ctx 300"]) (simp_all add: demo_cgroup demo_attach_allowed)
  show "in_zone demo_maps ([1 \<mapsto> 7, 2 \<mapsto> 8](2 \<mapsto> 7)) 2 1"
    by (simp add: in_zone_def demo_maps_def is_global_def)
qed

end
