(* ===== verification/Rust_Net.thy ===== *)
theory Rust_Net
  imports Rauha_Prelude
begin

text \<open>
  The part of Rust's \<open>std::net\<close> that the sources call: IPv4 and IPv6 addresses, their
  \<open>FromStr\<close> parsers (strict dotted decimal, no leading zeros; IPv6 with one \<open>::\<close> and an
  embedded IPv4 tail) and their \<open>Display\<close> form. A parser consumes a prefix of the text.
\<close>

type_synonym octets = "u8 \<times> u8 \<times> u8 \<times> u8"

datatype IpAddr = V4 octets | V6 "u16 list"

fun is_ipv4 :: "IpAddr \<Rightarrow> bool" where
  "is_ipv4 (V4 a) = True"
| "is_ipv4 (V6 s) = False"

type_synonym 'a parser = "string \<Rightarrow> ('a \<times> string) option"

definition is_hex_digit :: "char \<Rightarrow> bool" where
  "is_hex_digit c = (is_ascii_digit c \<or> c \<in> set ''abcdefABCDEF'')"

definition hex_val :: "char \<Rightarrow> nat" where
  "hex_val c =
    (if is_ascii_digit c then digit_val c
     else if is_ascii_lowercase c then of_char c - 87 else of_char c - 55)"

definition radix_digit :: "nat \<Rightarrow> char \<Rightarrow> bool" where
  "radix_digit radix c = (if radix = 16 then is_hex_digit c else is_ascii_digit c)"

definition radix_val :: "nat \<Rightarrow> string \<Rightarrow> nat" where
  "radix_val radix s =
    foldl (\<lambda>n c. radix * n + (if radix = 16 then hex_val c else digit_val c)) 0 s"

text \<open>\<open>read_number\<close> with a digit limit; \<open>limit\<close> is the largest value of the target type.\<close>

definition read_number :: "nat \<Rightarrow> nat \<Rightarrow> bool \<Rightarrow> nat \<Rightarrow> nat parser" where
  "read_number radix max_digits allow_zero_prefix limit s =
    (let ds = takeWhile (radix_digit radix) s; rest = dropWhile (radix_digit radix) s
     in if ds = [] \<or> length ds > max_digits then None
        else if \<not> allow_zero_prefix \<and> hd ds = CHR ''0'' \<and> length ds > 1 then None
        else if radix_val radix ds > limit then None
        else Some (radix_val radix ds, rest))"

definition read_char :: "char \<Rightarrow> unit parser" where
  "read_char c s = (case s of [] \<Rightarrow> None | x # xs \<Rightarrow> if x = c then Some ((), xs) else None)"

definition read_octet :: "nat parser" where
  "read_octet = read_number 10 3 False 255"

definition read_dot_octet :: "nat parser" where
  "read_dot_octet s = (case read_char CHR ''.'' s of None \<Rightarrow> None | Some (_, r) \<Rightarrow> read_octet r)"

definition read_ipv4_addr :: "octets parser" where
  "read_ipv4_addr s =
    (case read_octet s of None \<Rightarrow> None | Some (a, s) \<Rightarrow>
     (case read_dot_octet s of None \<Rightarrow> None | Some (b, s) \<Rightarrow>
     (case read_dot_octet s of None \<Rightarrow> None | Some (c, s) \<Rightarrow>
     (case read_dot_octet s of None \<Rightarrow> None | Some (d, s) \<Rightarrow>
        Some ((of_nat a, of_nat b, of_nat c, of_nat d), s)))))"

text \<open>\<open>read_groups\<close>: up to \<open>n\<close> groups, the first without a separator; an embedded IPv4
  address takes two groups and ends the run.\<close>

definition with_sep :: "bool \<Rightarrow> 'a parser \<Rightarrow> 'a parser" where
  "with_sep first p s =
    (if first then p s
     else (case read_char CHR '':'' s of None \<Rightarrow> None | Some (_, r) \<Rightarrow> p r))"

definition octet_groups :: "octets \<Rightarrow> u16 list" where
  "octet_groups o4 =
    (case o4 of (a, b, c, d) \<Rightarrow> [of_nat (256 * unat a + unat b), of_nat (256 * unat c + unat d)])"

fun read_groups :: "bool \<Rightarrow> nat \<Rightarrow> string \<Rightarrow> u16 list \<times> bool \<times> string" where
  "read_groups first 0 s = ([], False, s)"
| "read_groups first (Suc n) s =
     (case (if n > 0 then with_sep first read_ipv4_addr s else None) of
        Some (v4, r) \<Rightarrow> (octet_groups v4, True, r)
      | None \<Rightarrow>
          (case with_sep first (read_number 16 4 True 65535) s of
             None \<Rightarrow> ([], False, s)
           | Some (g, r) \<Rightarrow>
               (case read_groups False n r of (gs, v4, r') \<Rightarrow> (of_nat g # gs, v4, r'))))"

definition read_ipv6_addr :: "u16 list parser" where
  "read_ipv6_addr s =
    (case read_groups True 8 s of (head, head_ipv4, s) \<Rightarrow>
       if length head = 8 then Some (head, s)
       else if head_ipv4 then None
       else (case read_char CHR '':'' s of None \<Rightarrow> None | Some (_, s) \<Rightarrow>
            (case read_char CHR '':'' s of None \<Rightarrow> None | Some (_, s) \<Rightarrow>
            (case read_groups True (8 - (length head + 1)) s of (tail, _, s) \<Rightarrow>
               Some (head @ replicate (8 - length head - length tail) 0 @ tail, s)))))"

definition parse_with :: "'a parser \<Rightarrow> string \<Rightarrow> 'a option" where
  "parse_with p s = (case p s of Some (x, []) \<Rightarrow> Some x | _ \<Rightarrow> None)"

definition parse_ipv4 :: "string \<Rightarrow> octets option" where
  "parse_ipv4 s = (if length s > 15 then None else parse_with read_ipv4_addr s)"

definition read_ip_addr :: "IpAddr parser" where
  "read_ip_addr s =
    (case read_ipv4_addr s of
       Some (a, r) \<Rightarrow> Some (V4 a, r)
     | None \<Rightarrow> (case read_ipv6_addr s of Some (g, r) \<Rightarrow> Some (V6 g, r) | None \<Rightarrow> None))"

definition parse_ip :: "string \<Rightarrow> IpAddr option" where
  "parse_ip s = parse_with read_ip_addr s"

text \<open>\<open>SocketAddr\<close>: an IPv4 address and a port, or a bracketed IPv6 address with an optional
  numeric scope and a port.\<close>

definition read_port :: "nat parser" where
  "read_port s =
    (case read_char CHR '':'' s of None \<Rightarrow> None | Some (_, r) \<Rightarrow> read_number 10 (length r) True 65535 r)"

definition read_scope :: "nat parser" where
  "read_scope s =
    (case read_char CHR ''%'' s of
       None \<Rightarrow> Some (0, s)
     | Some (_, r) \<Rightarrow>
         (case read_number 10 (length r) True (2 ^ 32 - 1) r of Some (n, t) \<Rightarrow> Some (n, t) | None \<Rightarrow> Some (0, s)))"

definition read_socket_addr :: "(IpAddr \<times> nat) parser" where
  "read_socket_addr s =
    (case (case read_ipv4_addr s of None \<Rightarrow> None | Some (a, r) \<Rightarrow>
             map_option (\<lambda>(p, t). ((V4 a, p), t)) (read_port r)) of
       Some x \<Rightarrow> Some x
     | None \<Rightarrow>
         (case read_char CHR ''['' s of None \<Rightarrow> None | Some (_, r) \<Rightarrow>
         (case read_ipv6_addr r of None \<Rightarrow> None | Some (g, r) \<Rightarrow>
         (case read_scope r of None \<Rightarrow> None | Some (_, r) \<Rightarrow>
         (case read_char CHR '']'' r of None \<Rightarrow> None | Some (_, r) \<Rightarrow>
            map_option (\<lambda>(p, t). ((V6 g, p), t)) (read_port r))))))"

definition parse_socket_addr :: "string \<Rightarrow> (IpAddr \<times> nat) option" where
  "parse_socket_addr s = parse_with read_socket_addr s"

subsection \<open>Display\<close>

definition show_ipv4 :: "octets \<Rightarrow> string" where
  "show_ipv4 o4 =
    (case o4 of (a, b, c, d) \<Rightarrow>
       dec (unat a) @ ''.'' @ dec (unat b) @ ''.'' @ dec (unat c) @ ''.'' @ dec (unat d))"

definition hex_digit :: "nat \<Rightarrow> char" where
  "hex_digit d = (if d < 10 then char_of (48 + d) else char_of (87 + d))"

fun hex :: "nat \<Rightarrow> string" where
  "hex n = (if n < 16 then [hex_digit n] else hex (n div 16) @ [hex_digit (n mod 16)])"

declare hex.simps [simp del]

text \<open>\<open>{:?}\<close> of a string.\<close>

fun escape_debug :: "char \<Rightarrow> string" where
  "escape_debug c =
    (if c = CHR 0x22 then [CHR 0x5C, CHR 0x22]
     else if c = CHR 0x5C then [CHR 0x5C, CHR 0x5C]
     else if c = CHR 0x0A then [CHR 0x5C, CHR ''n'']
     else if c = CHR 0x0D then [CHR 0x5C, CHR ''r'']
     else if c = CHR 0x09 then [CHR 0x5C, CHR ''t'']
     else if c = CHR 0x00 then [CHR 0x5C, CHR ''0'']
     else if (of_char c :: nat) < 32 \<or> c = CHR 0x7F
       then [CHR 0x5C, CHR ''u'', CHR 0x7B] @ hex (of_char c) @ [CHR 0x7D]
     else [c])"

definition debug_str :: "string \<Rightarrow> string" where
  "debug_str s = [CHR 0x22] @ concat (map escape_debug s) @ [CHR 0x22]"

definition show_groups :: "u16 list \<Rightarrow> string" where
  "show_groups gs = join '':'' (map (\<lambda>g. hex (unat g)) gs)"

text \<open>The first longest run of zero groups, as start and length.\<close>

fun longest_zeros :: "u16 list \<Rightarrow> nat \<Rightarrow> nat \<times> nat \<Rightarrow> nat \<times> nat \<Rightarrow> nat \<times> nat" where
  "longest_zeros [] i cur best = best"
| "longest_zeros (g # gs) i (start, len) best =
     (if g = 0 then
        (let start' = (if len = 0 then i else start);
             cur = (start', len + 1)
         in longest_zeros gs (i + 1) cur (if len + 1 > snd best then cur else best))
      else longest_zeros gs (i + 1) (0, 0) best)"

definition show_ipv6 :: "u16 list \<Rightarrow> string" where
  "show_ipv6 gs =
    (if length gs = 8 \<and> take 6 gs = [0, 0, 0, 0, 0, 0xffff]
     then ''::ffff:'' @ show_ipv4
       (of_nat (unat (gs ! 6) div 256), of_nat (unat (gs ! 6) mod 256),
        of_nat (unat (gs ! 7) div 256), of_nat (unat (gs ! 7) mod 256))
     else
       (let z = longest_zeros gs 0 (0, 0) (0, 0)
        in if snd z > 1
           then show_groups (take (fst z) gs) @ ''::'' @ show_groups (drop (fst z + snd z) gs)
           else show_groups gs))"

fun show_ip :: "IpAddr \<Rightarrow> string" where
  "show_ip (V4 a) = show_ipv4 a"
| "show_ip (V6 gs) = show_ipv6 gs"

subsection \<open>Bytes and words\<close>

definition from_be_bytes :: "octets \<Rightarrow> u32" where
  "from_be_bytes o4 =
    (case o4 of (a, b, c, d) \<Rightarrow>
       word_of_nat (256 * (256 * (256 * unat a + unat b) + unat c) + unat d))"

definition to_be_bytes :: "u32 \<Rightarrow> octets" where
  "to_be_bytes w =
    (let n = unat w
     in (word_of_nat (n div 256 div 256 div 256), word_of_nat (n div 256 div 256),
         word_of_nat (n div 256), word_of_nat n))"

lemma unat_u8_less: "unat (a :: u8) < 256"
  using unsigned_less [of a] by simp

lemma unat_u8_le: "unat (a :: u8) \<le> 255"
  using unat_u8_less [of a] by linarith

lemma unat_of_nat_u8: "unat (word_of_nat n :: u8) = n mod 256"
  by (simp add: unat_of_nat)

lemma unat_of_nat_u32: "unat (word_of_nat n :: u32) = n mod 2 ^ 32"
  by (simp add: unat_of_nat)

lemma unat_from_be_bytes:
  "unat (from_be_bytes (a, b, c, d)) =
    256 * (256 * (256 * unat a + unat b) + unat c) + unat d"
proof -
  have "unat a \<le> 255" "unat b \<le> 255" "unat c \<le> 255" "unat d \<le> 255"
    by (simp_all only: unat_u8_le)
  then have "256 * (256 * (256 * unat a + unat b) + unat c) + unat d < 2 ^ 32" by simp
  then show ?thesis
    unfolding from_be_bytes_def prod.case unat_of_nat_u32 by (rule mod_less)
qed

lemma to_from_be_bytes [simp]: "to_be_bytes (from_be_bytes o4) = o4"
proof (cases o4)
  case (fields a b c d)
  have step: "(256 * x + unat y) div 256 = x" "(256 * x + unat y) mod 256 = unat y" for x and y :: u8
    using unat_u8_less [of y] by simp_all
  have low: "unat a mod 256 = unat a" using unat_u8_less [of a] by simp
  show ?thesis
    unfolding fields to_be_bytes_def Let_def unat_from_be_bytes step prod.inject word_unat_eq_iff
      unat_of_nat_u8 low by (intro conjI refl)
qed

lemma from_to_be_bytes [simp]: "from_be_bytes (to_be_bytes w) = w"
proof -
  have "unat w < 2 ^ 32" using unsigned_less [of w] by simp
  then have top: "unat w div 256 div 256 div 256 mod 256 = unat w div 256 div 256 div 256"
    by (simp add: div_mult2_eq [symmetric] less_mult_imp_div_less)
  have "256 * (256 * (256 * (unat w div 256 div 256 div 256 mod 256) + unat w div 256 div 256 mod 256)
      + unat w div 256 mod 256) + unat w mod 256 = unat w"
    unfolding top by (simp add: mult_div_mod_eq)
  then show ?thesis
    by (simp only: to_be_bytes_def Let_def word_unat_eq_iff unat_from_be_bytes unat_of_nat_u8)
qed

subsection \<open>An address printed is the address parsed\<close>

lemma hd_dec_zero: "hd (dec n) = CHR ''0'' \<Longrightarrow> n = 0"
proof (induction n rule: dec.induct)
  case (1 n)
  show ?case
  proof (cases "n < 10")
    case True
    then have "dec n = [digit_char n]" by (subst dec.simps) simp
    then have "(of_char (digit_char n) :: nat) = of_char CHR ''0''" using "1.prems" by simp
    then show ?thesis using True by simp
  next
    case False
    then have "dec n = dec (n div 10) @ [digit_char n]" by (subst dec.simps) simp
    then have "n div 10 = 0" using 1 False by simp
    then show ?thesis using False by simp
  qed
qed

lemma length_dec_le: "n < 10 ^ k \<Longrightarrow> 0 < k \<Longrightarrow> length (dec n) \<le> k"
proof (induction k arbitrary: n)
  case (Suc k)
  show ?case
  proof (cases "n < 10")
    case True
    then show ?thesis by (subst dec.simps) simp
  next
    case False
    then have "0 < k" using Suc.prems by (cases k) auto
    moreover have "n div 10 < 10 ^ k" using Suc.prems by (simp add: less_mult_imp_div_less)
    ultimately have "length (dec (n div 10)) \<le> k" using Suc.IH by blast
    then show ?thesis using False by (subst dec.simps) simp
  qed
qed simp

lemma radix_val_10: "radix_val 10 s = digits_val s"
  by (simp add: radix_val_def digits_val_def)

lemma takeWhile_dec:
  assumes "rest = [] \<or> \<not> is_ascii_digit (hd rest)"
  shows "takeWhile is_ascii_digit (dec n @ rest) = dec n"
    and "dropWhile is_ascii_digit (dec n @ rest) = rest"
proof -
  have "takeWhile is_ascii_digit rest = []" "dropWhile is_ascii_digit rest = rest"
    using assms by (cases rest; simp)+
  moreover have "\<And>x. x \<in> set (dec n) \<Longrightarrow> is_ascii_digit x"
    using dec_digits [of n] by (simp add: list_all_iff)
  ultimately show "takeWhile is_ascii_digit (dec n @ rest) = dec n"
    and "dropWhile is_ascii_digit (dec n @ rest) = rest"
    by (simp_all add: takeWhile_append2 dropWhile_append2)
qed

lemma read_octet_dec:
  assumes "n < 256" and "rest = [] \<or> \<not> is_ascii_digit (hd rest)"
  shows "read_octet (dec n @ rest) = Some (n, rest)"
proof -
  have "length (dec n) \<le> 3" using assms(1) by (intro length_dec_le) auto
  moreover have "\<not> (hd (dec n) = CHR ''0'' \<and> length (dec n) > 1)"
  proof
    assume "hd (dec n) = CHR ''0'' \<and> length (dec n) > 1"
    then have "n = 0" "length (dec n) > 1" using hd_dec_zero by auto
    then show False by (simp add: dec.simps)
  qed
  moreover have "radix_digit 10 = is_ascii_digit" by (simp add: radix_digit_def fun_eq_iff)
  ultimately show ?thesis
    using assms
    by (auto simp: read_octet_def read_number_def Let_def takeWhile_dec radix_val_10 digits_val_dec)
qed

lemma not_digit_dot: "\<not> is_ascii_digit CHR ''.''"
  by (simp add: is_ascii_digit_def)

lemma read_dot_octet_dec:
  assumes "n < 256" and "rest = [] \<or> \<not> is_ascii_digit (hd rest)"
  shows "read_dot_octet (CHR ''.'' # dec n @ rest) = Some (n, rest)"
  using read_octet_dec [OF assms] by (simp add: read_dot_octet_def read_char_def)

lemma read_ipv4_addr_show:
  assumes "rest = [] \<or> \<not> is_ascii_digit (hd rest)"
  shows "read_ipv4_addr (show_ipv4 o4 @ rest) = Some (o4, rest)"
proof (cases o4)
  case (fields a b c d)
  show ?thesis
    using fields assms
    by (simp add: show_ipv4_def read_ipv4_addr_def read_octet_dec read_dot_octet_dec not_digit_dot
      unat_u8_less)
qed

lemma length_dec_octet: "length (dec (unat (x :: u8))) \<le> 3"
proof -
  have "unat x < 10 ^ 3" using unat_u8_less [of x] by simp
  then show ?thesis by (rule length_dec_le) simp
qed

lemma length_show_ipv4: "length (show_ipv4 o4) \<le> 15"
proof (cases o4)
  case (fields a b c d)
  then show ?thesis
    using length_dec_octet [of a] length_dec_octet [of b] length_dec_octet [of c] length_dec_octet [of d]
    by (simp add: show_ipv4_def)
qed

lemma parse_show_ipv4 [simp]: "parse_ipv4 (show_ipv4 o4) = Some o4"
  using read_ipv4_addr_show [of "[]" o4] length_show_ipv4 [of o4]
  by (simp add: parse_ipv4_def parse_with_def)

lemma parse_ip_show_ipv4 [simp]: "parse_ip (show_ipv4 o4) = Some (V4 o4)"
  using read_ipv4_addr_show [of "[]" o4]
  by (simp add: parse_ip_def parse_with_def read_ip_addr_def)

end
