(* ===== verification/Enforcer_Api.thy ===== *)
theory Enforcer_Api
  imports Rauha_Prelude
begin

text \<open>
  The enforcement boundary, \<open>rauha-enforcer-api/src/lib.rs\<close>: the neutral policy
  vocabulary, the \<open>EnforcerBackend\<close> trait as a record of operations on a backend state,
  the \<open>NoopEnforcer\<close> and the conformance run. The locale \<open>enforcer_contract\<close> is what the
  trait promises; it is interpreted on the noop backend here and on the Linux backend in
  \<open>Linux_Enforcer\<close>. The mutex is held for a whole operation, so an operation is a function
  on the state.
\<close>

type_synonym RuleId = u64

record ZoneRef =
  zr_name :: string
  zr_kernel_id :: u32

datatype ZoneKind = StandardKind | PrivilegedKind | IsolatedKind

datatype Hook = FileOpen | BprmCheck | SocketConnect | PtraceAccess | Signal | CgroupAttach

datatype Matcher = MatchAny | Raw "u8 list"

datatype EnfDecision = Allow | Deny

record EnforcementRule =
  er_id :: RuleId
  er_hook :: Hook
  er_matcher :: Matcher
  er_decision :: EnfDecision
  requires_kernel :: bool

record ZoneEnforcement =
  ze_caps_mask :: u64
  allow_ptrace :: bool
  allow_host_net :: bool
  ze_kind :: ZoneKind

record EnforcementPolicy =
  ep_zone :: ZoneEnforcement
  ep_rules :: "EnforcementRule list"

definition ZoneEnforcement_default :: ZoneEnforcement where
  "ZoneEnforcement_default =
    \<lparr>ze_caps_mask = 0, allow_ptrace = False, allow_host_net = False, ze_kind = StandardKind\<rparr>"

definition EnforcementPolicy_default :: EnforcementPolicy where
  "EnforcementPolicy_default = \<lparr>ep_zone = ZoneEnforcement_default, ep_rules = []\<rparr>"

type_synonym HookSet = "Hook list"

definition HookSet_none :: HookSet where "HookSet_none = []"

definition HookSet_from_hooks :: "Hook list \<Rightarrow> HookSet" where "HookSet_from_hooks hs = remdups hs"

definition HookSet_contains :: "HookSet \<Rightarrow> Hook \<Rightarrow> bool" where
  "HookSet_contains hs h = (h \<in> set hs)"

record Capabilities =
  kernel_enforcement :: bool
  cap_hooks :: HookSet
  event_stream :: bool
  cap_counters :: bool

definition Capabilities_noop :: Capabilities where
  "Capabilities_noop =
    \<lparr>kernel_enforcement = False, cap_hooks = HookSet_none, event_stream = False, cap_counters = False\<rparr>"

definition supports_rule :: "Capabilities \<Rightarrow> EnforcementRule \<Rightarrow> bool" where
  "supports_rule caps rule =
    (if requires_kernel rule \<and> \<not> kernel_enforcement caps then False
     else HookSet_contains (cap_hooks caps) (er_hook rule))"

datatype EnforcerError =
    NotLoaded
  | EnfZoneNotFound string
  | PolicyUnenforceable string RuleId string
  | Verifier string
  | Kernel string

record EnforcementStats =
  stat_allowed :: u64
  stat_denied :: u64
  stat_errors :: u64

datatype VerifyDiscrepancyKind =
  ZoneMissing | PolicyMissing | PolicyMismatch | RuleUnsupported | HookInactive
  | EventStreamUnhealthy | CounterUnhealthy | BackendUnloaded

record VerifyDiscrepancy =
  vd_kind :: VerifyDiscrepancyKind
  vd_rule :: "RuleId option"
  vd_message :: string

record VerifyReport =
  vr_ok :: bool
  discrepancies :: "VerifyDiscrepancy list"

text \<open>The trait: what a backend in state \<open>'s\<close> can be asked.\<close>

record 's EnforcerBackend =
  load :: "'s \<Rightarrow> (EnforcerError + unit) \<times> 's"
  shutdown :: "'s \<Rightarrow> (EnforcerError + unit) \<times> 's"
  register_zone :: "string \<Rightarrow> EnforcementPolicy \<Rightarrow> 's \<Rightarrow> (EnforcerError + u32) \<times> 's"
  remove_zone :: "string \<Rightarrow> bool \<Rightarrow> 's \<Rightarrow> (EnforcerError + unit) \<times> 's"
  apply_policy :: "ZoneRef \<Rightarrow> EnforcementPolicy \<Rightarrow> 's \<Rightarrow> (EnforcerError + unit) \<times> 's"
  attach_container :: "ZoneRef \<Rightarrow> string \<Rightarrow> u64 \<Rightarrow> 's \<Rightarrow> (EnforcerError + unit) \<times> 's"
  detach_container :: "string \<Rightarrow> u64 \<Rightarrow> 's \<Rightarrow> (EnforcerError + unit) \<times> 's"
  register_host_path :: "ZoneRef \<Rightarrow> string \<Rightarrow> bool \<Rightarrow> 's \<Rightarrow> (EnforcerError + u32) \<times> 's"
  allow_comm :: "ZoneRef \<Rightarrow> ZoneRef \<Rightarrow> 's \<Rightarrow> (EnforcerError + unit) \<times> 's"
  deny_comm :: "ZoneRef \<Rightarrow> ZoneRef \<Rightarrow> 's \<Rightarrow> (EnforcerError + unit) \<times> 's"
  stats :: "ZoneRef \<Rightarrow> 's \<Rightarrow> EnforcerError + EnforcementStats"
  verify :: "ZoneRef \<Rightarrow> EnforcementPolicy \<Rightarrow> 's \<Rightarrow> EnforcerError + VerifyReport"
  capabilities :: "'s \<Rightarrow> Capabilities"

subsection \<open>The noop backend\<close>

record NoopZone =
  nz_kernel_id :: u32
  nz_kind :: ZoneKind

record NoopState =
  loaded :: bool
  next_id :: u32
  zones :: "string \<rightharpoonup> NoopZone"
  members :: "(string \<times> string) list"

definition NoopState_default :: NoopState where
  "NoopState_default = \<lparr>loaded = False, next_id = 0, zones = Map.empty, members = []\<rparr>"

definition ensure_loaded :: "NoopState \<Rightarrow> EnforcerError + unit" where
  "ensure_loaded st = (if loaded st then Inr () else Inl NotLoaded)"

definition ensure_zone :: "NoopState \<Rightarrow> string \<Rightarrow> EnforcerError + unit" where
  "ensure_zone st name = (if zones st name \<noteq> None then Inr () else Inl (EnfZoneNotFound name))"

fun show_hook :: "Hook \<Rightarrow> string" where
  "show_hook FileOpen = ''FileOpen''"
| "show_hook BprmCheck = ''BprmCheck''"
| "show_hook SocketConnect = ''SocketConnect''"
| "show_hook PtraceAccess = ''PtraceAccess''"
| "show_hook Signal = ''Signal''"
| "show_hook CgroupAttach = ''CgroupAttach''"

definition show_rule_id :: "RuleId \<Rightarrow> string" where
  "show_rule_id r = ''RuleId('' @ dec (unat r) @ '')''"

fun reject_rules :: "string \<Rightarrow> EnforcementRule list \<Rightarrow> Capabilities \<Rightarrow> EnforcerError + unit" where
  "reject_rules name [] caps = Inr ()"
| "reject_rules name (rule # rules) caps =
     (if \<not> supports_rule caps rule then
        Inl (PolicyUnenforceable name (er_id rule)
          (if requires_kernel rule then ''backend has no kernel enforcement''
           else ''backend does not support hook '' @ show_hook (er_hook rule)))
      else reject_rules name rules caps)"

definition reject_unenforceable ::
  "string \<Rightarrow> EnforcementPolicy \<Rightarrow> Capabilities \<Rightarrow> EnforcerError + unit" where
  "reject_unenforceable name policy caps = reject_rules name (ep_rules policy) caps"

definition noop_load :: "NoopState \<Rightarrow> (EnforcerError + unit) \<times> NoopState" where
  "noop_load st = (Inr (), st\<lparr>loaded := True\<rparr>)"

definition noop_shutdown :: "NoopState \<Rightarrow> (EnforcerError + unit) \<times> NoopState" where
  "noop_shutdown st = (Inr (), st\<lparr>loaded := False, zones := Map.empty, members := []\<rparr>)"

definition noop_register_zone ::
  "string \<Rightarrow> EnforcementPolicy \<Rightarrow> NoopState \<Rightarrow> (EnforcerError + u32) \<times> NoopState" where
  "noop_register_zone name policy st =
    (case and_then (ensure_loaded st)
        (\<lambda>_. reject_unenforceable name policy Capabilities_noop) of
       Inl e \<Rightarrow> (Inl e, st)
     | Inr _ \<Rightarrow>
         (case zones st name of
            Some zone \<Rightarrow>
              (Inr (nz_kernel_id zone),
               st\<lparr>zones := (zones st)(name \<mapsto> zone\<lparr>nz_kind := ze_kind (ep_zone policy)\<rparr>)\<rparr>)
          | None \<Rightarrow>
              let kernel_id = next_id st + 1
              in (Inr kernel_id,
                  st\<lparr>next_id := kernel_id,
                     zones := (zones st)(name \<mapsto>
                       \<lparr>nz_kernel_id = kernel_id, nz_kind = ze_kind (ep_zone policy)\<rparr>)\<rparr>)))"

definition noop_remove_zone :: "string \<Rightarrow> bool \<Rightarrow> NoopState \<Rightarrow> (EnforcerError + unit) \<times> NoopState" where
  "noop_remove_zone name drain st =
    (case and_then (ensure_loaded st) (\<lambda>_. ensure_zone st name) of
       Inl e \<Rightarrow> (Inl e, st)
     | Inr _ \<Rightarrow>
         if list_ex (\<lambda>(_, z). z = name) (members st) \<and> \<not> drain
         then (Inl (Verifier (''zone '' @ name @
                 '' still has attached containers (pass drain=true)'')), st)
         else (Inr (),
           st\<lparr>members := filter (\<lambda>(_, z). z \<noteq> name) (members st),
              zones := (zones st)(name := None)\<rparr>))"

definition noop_apply_policy ::
  "ZoneRef \<Rightarrow> EnforcementPolicy \<Rightarrow> NoopState \<Rightarrow> (EnforcerError + unit) \<times> NoopState" where
  "noop_apply_policy zone policy st =
    (and_then (ensure_loaded st) (\<lambda>_.
     and_then (ensure_zone st (zr_name zone)) (\<lambda>_.
     reject_unenforceable (zr_name zone) policy Capabilities_noop)), st)"

definition noop_attach_container ::
  "ZoneRef \<Rightarrow> string \<Rightarrow> u64 \<Rightarrow> NoopState \<Rightarrow> (EnforcerError + unit) \<times> NoopState" where
  "noop_attach_container zone container_id cgroup_id st =
    (case and_then (ensure_loaded st) (\<lambda>_. ensure_zone st (zr_name zone)) of
       Inl e \<Rightarrow> (Inl e, st)
     | Inr _ \<Rightarrow> (Inr (),
         st\<lparr>members := (container_id, zr_name zone) #
           filter (\<lambda>(c, _). c \<noteq> container_id) (members st)\<rparr>))"

definition noop_detach_container ::
  "string \<Rightarrow> u64 \<Rightarrow> NoopState \<Rightarrow> (EnforcerError + unit) \<times> NoopState" where
  "noop_detach_container container_id cgroup_id st =
    (case ensure_loaded st of
       Inl e \<Rightarrow> (Inl e, st)
     | Inr _ \<Rightarrow> (Inr (), st\<lparr>members := filter (\<lambda>(c, _). c \<noteq> container_id) (members st)\<rparr>))"

definition noop_register_host_path ::
  "ZoneRef \<Rightarrow> string \<Rightarrow> bool \<Rightarrow> NoopState \<Rightarrow> (EnforcerError + u32) \<times> NoopState" where
  "noop_register_host_path zone path recursive st =
    (and_then (ensure_loaded st) (\<lambda>_.
     and_then (ensure_zone st (zr_name zone)) (\<lambda>_. Inr 0)), st)"

definition noop_allow_comm :: "ZoneRef \<Rightarrow> ZoneRef \<Rightarrow> NoopState \<Rightarrow> (EnforcerError + unit) \<times> NoopState" where
  "noop_allow_comm a b st =
    (and_then (ensure_loaded st) (\<lambda>_.
     and_then (ensure_zone st (zr_name a)) (\<lambda>_. ensure_zone st (zr_name b))), st)"

definition noop_deny_comm :: "ZoneRef \<Rightarrow> ZoneRef \<Rightarrow> NoopState \<Rightarrow> (EnforcerError + unit) \<times> NoopState" where
  "noop_deny_comm a b st =
    (and_then (ensure_loaded st) (\<lambda>_.
     and_then (ensure_zone st (zr_name a)) (\<lambda>_. ensure_zone st (zr_name b))), st)"

definition noop_stats :: "ZoneRef \<Rightarrow> NoopState \<Rightarrow> EnforcerError + EnforcementStats" where
  "noop_stats zone st =
    and_then (ensure_loaded st) (\<lambda>_.
    and_then (ensure_zone st (zr_name zone)) (\<lambda>_. Inr \<lparr>stat_allowed = 0, stat_denied = 0, stat_errors = 0\<rparr>))"

definition noop_verify ::
  "ZoneRef \<Rightarrow> EnforcementPolicy \<Rightarrow> NoopState \<Rightarrow> EnforcerError + VerifyReport" where
  "noop_verify zone policy st =
    (if \<not> loaded st then
       Inr \<lparr>vr_ok = False, discrepancies =
         [\<lparr>vd_kind = BackendUnloaded, vd_rule = None, vd_message = ''noop enforcer is not loaded''\<rparr>]\<rparr>
     else if zones st (zr_name zone) = None then
       Inr \<lparr>vr_ok = False, discrepancies =
         [\<lparr>vd_kind = ZoneMissing, vd_rule = None,
           vd_message = ''zone '' @ zr_name zone @ '' is not registered''\<rparr>]\<rparr>
     else
       let ds = map (\<lambda>rule. \<lparr>vd_kind = RuleUnsupported, vd_rule = Some (er_id rule),
             vd_message = ''rule '' @ show_rule_id (er_id rule) @ '' is unsupported by noop enforcer''\<rparr>)
           (filter (\<lambda>rule. \<not> supports_rule Capabilities_noop rule) (ep_rules policy))
       in Inr \<lparr>vr_ok = (ds = []), discrepancies = ds\<rparr>)"

definition NoopEnforcer :: "NoopState EnforcerBackend" where
  "NoopEnforcer =
    \<lparr>load = noop_load, shutdown = noop_shutdown, register_zone = noop_register_zone,
     remove_zone = noop_remove_zone, apply_policy = noop_apply_policy,
     attach_container = noop_attach_container, detach_container = noop_detach_container,
     register_host_path = noop_register_host_path, allow_comm = noop_allow_comm,
     deny_comm = noop_deny_comm, stats = noop_stats, verify = noop_verify,
     capabilities = (\<lambda>_. Capabilities_noop)\<rparr>"

subsection \<open>The conformance run\<close>

text \<open>\<open>expect\<close> panics with its message; a panic is the left value.\<close>

fun expect :: "string \<Rightarrow> (EnforcerError + 'a) \<times> 's \<Rightarrow> string + 'a \<times> 's" where
  "expect msg (Inl e, s) = Inl msg"
| "expect msg (Inr x, s) = Inr (x, s)"

definition run_basic_conformance :: "'s EnforcerBackend \<Rightarrow> 's \<Rightarrow> string + 's" where
  "run_basic_conformance B s =
    and_then (expect ''load backend'' (load B s)) (\<lambda>(_, s).
    and_then (expect ''register zone'' (register_zone B ''zone-7'' EnforcementPolicy_default s))
      (\<lambda>(kernel_id, s).
    let zone = \<lparr>zr_name = ''zone-7'', zr_kernel_id = kernel_id\<rparr> in
    and_then (expect ''empty policy is enforceable'' (apply_policy B zone EnforcementPolicy_default s))
      (\<lambda>(_, s).
    and_then (expect ''attach container'' (attach_container B zone ''container-1'' 4242 s)) (\<lambda>(_, s).
    and_then (expect ''register host path''
      (register_host_path B zone ''/zones/zone-7/rootfs'' True s)) (\<lambda>(_, s).
    and_then (expect ''stats for registered zone'' (stats B zone s, s)) (\<lambda>(_, s).
    and_then (expect ''verify registered zone'' (verify B zone EnforcementPolicy_default s, s))
      (\<lambda>(report, s).
    if \<not> vr_ok report then Inl ''empty policy should verify cleanly'' else
    and_then (expect ''detach container'' (detach_container B ''container-1'' 4242 s)) (\<lambda>(_, s).
    and_then (expect ''remove zone'' (remove_zone B ''zone-7'' True s)) (\<lambda>(_, s).
    and_then (expect ''shutdown backend'' (shutdown B s)) (\<lambda>(_, s). Inr s))))))))))"

text \<open>
  What the trait promises. \<open>ready\<close> says the machine under the backend cooperates, \<open>live\<close>
  that the backend is loaded, \<open>known\<close> which zones it knows and by which kernel id.
\<close>

locale enforcer_contract =
  fixes B :: "'s EnforcerBackend"
    and ready :: "'s \<Rightarrow> bool"
    and live :: "'s \<Rightarrow> bool"
    and known :: "'s \<Rightarrow> string \<rightharpoonup> u32"
  assumes load_law: "ready s \<Longrightarrow> \<exists>s'. load B s = (Inr (), s') \<and> ready s' \<and> live s' \<and> known s' = known s"
    and register_law: "ready s \<Longrightarrow> live s \<Longrightarrow> ep_rules p = [] \<Longrightarrow>
      \<exists>i s'. register_zone B n p s = (Inr i, s') \<and> ready s' \<and> live s' \<and>
        known s' = (known s)(n \<mapsto> i) \<and> (\<forall>j. known s n = Some j \<longrightarrow> i = j)"
    and apply_law: "ready s \<Longrightarrow> live s \<Longrightarrow> known s (zr_name z) = Some (zr_kernel_id z) \<Longrightarrow>
      ep_rules p = [] \<Longrightarrow>
      \<exists>s'. apply_policy B z p s = (Inr (), s') \<and> ready s' \<and> live s' \<and> known s' = known s"
    and attach_law: "ready s \<Longrightarrow> live s \<Longrightarrow> known s (zr_name z) = Some (zr_kernel_id z) \<Longrightarrow>
      \<exists>s'. attach_container B z c g s = (Inr (), s') \<and> ready s' \<and> live s' \<and> known s' = known s"
    and detach_law: "ready s \<Longrightarrow> live s \<Longrightarrow>
      \<exists>s'. detach_container B c g s = (Inr (), s') \<and> ready s' \<and> live s' \<and> known s' = known s"
    and host_path_law: "ready s \<Longrightarrow> live s \<Longrightarrow> known s (zr_name z) = Some (zr_kernel_id z) \<Longrightarrow>
      \<exists>k s'. register_host_path B z path r s = (Inr k, s') \<and> ready s' \<and> live s' \<and> known s' = known s"
    and stats_law: "ready s \<Longrightarrow> live s \<Longrightarrow> known s (zr_name z) = Some (zr_kernel_id z) \<Longrightarrow>
      \<exists>x. stats B z s = Inr x"
    and verify_law: "ready s \<Longrightarrow> live s \<Longrightarrow> known s (zr_name z) = Some (zr_kernel_id z) \<Longrightarrow>
      ep_rules p = [] \<Longrightarrow> \<exists>x. verify B z p s = Inr x \<and> vr_ok x"
    and remove_law: "ready s \<Longrightarrow> live s \<Longrightarrow> known s n \<noteq> None \<Longrightarrow>
      \<exists>s'. remove_zone B n True s = (Inr (), s') \<and> ready s' \<and> live s' \<and> known s' = (known s)(n := None)"
    and shutdown_law: "ready s \<Longrightarrow>
      \<exists>s'. shutdown B s = (Inr (), s') \<and> \<not> live s' \<and> known s' = Map.empty"
    and unloaded_law: "\<not> live s \<Longrightarrow>
      register_zone B n p s = (Inl NotLoaded, s) \<and> apply_policy B z p s = (Inl NotLoaded, s) \<and>
      remove_zone B n d s = (Inl NotLoaded, s)"
begin

lemma conformance:
  assumes "ready s"
  shows "\<exists>s'. run_basic_conformance B s = Inr s' \<and> \<not> live s' \<and> known s' = Map.empty"
proof -
  obtain s1 where s1: "load B s = (Inr (), s1)" "ready s1" "live s1" using load_law [OF assms] by blast
  have none: "ep_rules EnforcementPolicy_default = []" by (simp add: EnforcementPolicy_default_def)
  obtain i s2 where s2: "register_zone B ''zone-7'' EnforcementPolicy_default s1 = (Inr i, s2)"
      "ready s2" "live s2" "known s2 = (known s1)(''zone-7'' \<mapsto> i)"
    using register_law [OF s1(2,3) none] by blast
  let ?z = "\<lparr>zr_name = ''zone-7'', zr_kernel_id = i\<rparr>"
  have k2: "known s2 (zr_name ?z) = Some (zr_kernel_id ?z)" using s2(4) by simp
  obtain s3 where s3: "apply_policy B ?z EnforcementPolicy_default s2 = (Inr (), s3)" "ready s3" "live s3"
      "known s3 = known s2"
    using apply_law [OF s2(2,3) k2 none] by blast
  have k3: "known s3 (zr_name ?z) = Some (zr_kernel_id ?z)" using k2 s3(4) by simp
  obtain s4 where s4: "attach_container B ?z ''container-1'' 4242 s3 = (Inr (), s4)" "ready s4" "live s4"
      "known s4 = known s3"
    using attach_law [OF s3(2,3) k3] by blast
  have k4: "known s4 (zr_name ?z) = Some (zr_kernel_id ?z)" using k3 s4(4) by simp
  obtain n s5 where s5: "register_host_path B ?z ''/zones/zone-7/rootfs'' True s4 = (Inr n, s5)" "ready s5"
      "live s5" "known s5 = known s4"
    using host_path_law [OF s4(2,3) k4] by blast
  have k5: "known s5 (zr_name ?z) = Some (zr_kernel_id ?z)" using k4 s5(4) by simp
  obtain x y where x: "stats B ?z s5 = Inr x" and y: "verify B ?z EnforcementPolicy_default s5 = Inr y" "vr_ok y"
    using stats_law [OF s5(2,3) k5] verify_law [OF s5(2,3) k5 none] by blast
  obtain s6 where s6: "detach_container B ''container-1'' 4242 s5 = (Inr (), s6)" "ready s6" "live s6"
      "known s6 = known s5"
    using detach_law [OF s5(2,3)] by blast
  have "known s6 ''zone-7'' \<noteq> None" using k5 s6(4) by simp
  then obtain s7 where s7: "remove_zone B ''zone-7'' True s6 = (Inr (), s7)" "ready s7"
    using remove_law [OF s6(2,3)] by blast
  obtain s8 where s8: "shutdown B s7 = (Inr (), s8)" "\<not> live s8" "known s8 = Map.empty"
    using shutdown_law [OF s7(2)] by blast
  have "run_basic_conformance B s = Inr s8"
    by (simp add: run_basic_conformance_def s1(1) s2(1) s3(1) s4(1) s5(1) x y s6(1) s7(1) s8(1))
  then show ?thesis using s8 by blast
qed

end

text \<open>The noop backend keeps the contract in every state.\<close>

definition noop_known :: "NoopState \<Rightarrow> string \<rightharpoonup> u32" where
  "noop_known st = (\<lambda>n. map_option nz_kernel_id (zones st n))"

lemmas noop_defs = NoopEnforcer_def noop_load_def noop_shutdown_def noop_register_zone_def
  noop_remove_zone_def noop_apply_policy_def noop_attach_container_def noop_detach_container_def
  noop_register_host_path_def noop_stats_def noop_verify_def ensure_loaded_def ensure_zone_def
  reject_unenforceable_def noop_known_def Let_def

interpretation noop: enforcer_contract NoopEnforcer "\<lambda>_. True" loaded noop_known
proof
  fix s :: NoopState and n and p :: EnforcementPolicy
  assume "loaded s" "ep_rules p = []"
  then show "\<exists>i s'. register_zone NoopEnforcer n p s = (Inr i, s') \<and> True \<and> loaded s' \<and>
      noop_known s' = (noop_known s)(n \<mapsto> i) \<and> (\<forall>j. noop_known s n = Some j \<longrightarrow> i = j)"
    by (cases "zones s n") (auto simp: noop_defs fun_eq_iff)
qed (auto simp: noop_defs fun_eq_iff)

text \<open>The noop backend passes the conformance suite from every state and ends unloaded and
  without zones.\<close>

lemma noop_conforms:
  "\<exists>st'. run_basic_conformance NoopEnforcer st = Inr st' \<and> \<not> loaded st' \<and> noop_known st' = Map.empty"
  by (rule noop.conformance) simp

subsection \<open>The noop backend's bookkeeping\<close>

text \<open>Everything that can be asked of the backend.\<close>

inductive noop_step :: "NoopState \<Rightarrow> NoopState \<Rightarrow> bool" where
  step_load: "noop_step st (snd (noop_load st))"
| step_shutdown: "noop_step st (snd (noop_shutdown st))"
| step_register: "noop_step st (snd (noop_register_zone n p st))"
| step_remove: "noop_step st (snd (noop_remove_zone n d st))"
| step_apply: "noop_step st (snd (noop_apply_policy z p st))"
| step_attach: "noop_step st (snd (noop_attach_container z c g st))"
| step_detach: "noop_step st (snd (noop_detach_container c g st))"
| step_path: "noop_step st (snd (noop_register_host_path z path r st))"
| step_comm: "noop_step st (snd (noop_allow_comm z z' st))"
| step_uncomm: "noop_step st (snd (noop_deny_comm z z' st))"

text \<open>Every container is in one zone, and that zone is registered; an unloaded backend has
  nothing.\<close>

definition noop_inv :: "NoopState \<Rightarrow> bool" where
  "noop_inv st =
    (distinct (map fst (members st)) \<and> (\<forall>(c, z) \<in> set (members st). zones st z \<noteq> None) \<and>
     (\<not> loaded st \<longrightarrow> zones st = Map.empty \<and> members st = []))"

lemma distinct_fst_filter: "distinct (map fst xs) \<Longrightarrow> distinct (map fst (filter P xs))"
  by (induction xs) auto

lemma noop_inv_register: "noop_inv st \<Longrightarrow> noop_inv (snd (noop_register_zone n p st))"
  by (auto simp: noop_inv_def noop_register_zone_def ensure_loaded_def Let_def
    split: sum.split option.split)

lemma noop_inv_remove: "noop_inv st \<Longrightarrow> noop_inv (snd (noop_remove_zone n d st))"
  by (auto simp: noop_inv_def noop_remove_zone_def ensure_loaded_def distinct_fst_filter
    split: sum.split)

lemma noop_inv_attach: "noop_inv st \<Longrightarrow> noop_inv (snd (noop_attach_container z c g st))"
  by (auto simp: noop_inv_def noop_attach_container_def ensure_loaded_def ensure_zone_def
    distinct_fst_filter split: if_splits)

lemma noop_inv_step: "noop_step st st' \<Longrightarrow> noop_inv st \<Longrightarrow> noop_inv st'"
proof (induction rule: noop_step.induct)
  case (step_register st n p)
  then show ?case by (rule noop_inv_register)
next
  case (step_remove st n d)
  then show ?case by (rule noop_inv_remove)
next
  case (step_attach st z c g)
  then show ?case by (rule noop_inv_attach)
next
  case (step_detach st c g)
  then show ?case
    by (auto simp: noop_inv_def noop_detach_container_def ensure_loaded_def distinct_fst_filter)
qed (auto simp: noop_inv_def noop_load_def noop_shutdown_def noop_apply_policy_def
  noop_register_host_path_def noop_allow_comm_def noop_deny_comm_def)

text \<open>In every state the noop backend can reach from its default, each container belongs to
  one zone, that zone is registered, and nothing survives a shutdown.\<close>

lemma noop_membership:
  assumes "star noop_step NoopState_default st"
  shows "distinct (map fst (members st)) \<and> (\<forall>(c, z) \<in> set (members st). zones st z \<noteq> None) \<and>
    (\<not> loaded st \<longrightarrow> zones st = Map.empty \<and> members st = [])"
proof -
  have "noop_inv NoopState_default" by (simp add: noop_inv_def NoopState_default_def)
  with assms have "noop_inv st" by (rule star_invariant) (rule noop_inv_step)
  then show ?thesis by (simp add: noop_inv_def)
qed

end
