(* ===== verification/Zone_Policy.thy ===== *)
theory Zone_Policy
  imports Rust_Net Enforcer_Api Ebpf_Types
begin

text \<open>
  Zones and their policies, \<open>rauha-common/src/zone.rs\<close>, and the policy text of
  \<open>rauhad/src/zone/policy.rs\<close>: the policy records and their defaults, network endpoints,
  the capability table, the translation of a policy into the enforcement vocabulary, the
  conversion of a parsed policy file, memory sizes, and the printer. The TOML reader is the
  \<open>toml\<close> crate and a parameter. Case folding is on ASCII text.
\<close>

record ZoneNetworkState =
  zn_ip :: octets
  zn_gateway :: octets
  zn_prefix_len :: u8

definition zn_cidr :: "ZoneNetworkState \<Rightarrow> string" where
  "zn_cidr st = show_ipv4 (zn_ip st) @ ''/'' @ dec (unat (zn_prefix_len st))"

datatype ZoneType = Global | NonGlobal | Privileged

datatype ZoneState = Creating | Ready | ZoneRunning | Stopping | ZoneStopped | Destroying

datatype PolicyAdmission = Strict | Audit

record CapabilityPolicy =
  cp_allowed :: "string list"

record ResourcePolicy =
  cpu_shares :: u64
  memory_limit :: u64
  io_weight :: u16
  pids_max :: u64

definition ResourcePolicy_default :: ResourcePolicy where
  "ResourcePolicy_default =
    \<lparr>cpu_shares = 1024, memory_limit = 512 * 1024 * 1024, io_weight = 100, pids_max = 256\<rparr>"

datatype NetworkMode = Isolated | Bridged | Host

record NetworkPolicy =
  net_mode :: NetworkMode
  allowed_zones :: "string list"
  allowed_egress :: "string list"
  allowed_ingress :: "string list"

definition NetworkPolicy_default :: NetworkPolicy where
  "NetworkPolicy_default =
    \<lparr>net_mode = Isolated, allowed_zones = [], allowed_egress = [], allowed_ingress = []\<rparr>"

record FilesystemPolicy =
  fs_root :: string
  shared_layers :: bool
  writable_paths :: "string list"

definition FilesystemPolicy_default :: FilesystemPolicy where
  "FilesystemPolicy_default = \<lparr>fs_root = [], shared_layers = True, writable_paths = []\<rparr>"

record DevicePolicy =
  dp_allowed :: "string list"

record SyscallPolicy =
  sp_deny :: "string list"
  sp_broker :: "string list"

record ZonePolicy =
  admission :: PolicyAdmission
  zpol_capabilities :: CapabilityPolicy
  zpol_resources :: ResourcePolicy
  zpol_network :: NetworkPolicy
  zpol_filesystem :: FilesystemPolicy
  zpol_devices :: DevicePolicy
  zpol_syscalls :: SyscallPolicy

definition ZonePolicy_default :: ZonePolicy where
  "ZonePolicy_default =
    \<lparr>admission = Strict, zpol_capabilities = \<lparr>cp_allowed = []\<rparr>,
     zpol_resources = ResourcePolicy_default, zpol_network = NetworkPolicy_default,
     zpol_filesystem = FilesystemPolicy_default, zpol_devices = \<lparr>dp_allowed = []\<rparr>,
     zpol_syscalls = \<lparr>sp_deny = [], sp_broker = []\<rparr>\<rparr>"

definition BROKERABLE_SYSCALLS :: "string list" where
  "BROKERABLE_SYSCALLS = [''openat'', ''openat2'']"

record Zone =
  zone_id :: string
  zone_name :: string
  zone_type :: ZoneType
  zone_state :: ZoneState
  zone_policy :: ZonePolicy
  zone_network_state :: "ZoneNetworkState option"

record ZoneConfig =
  zc_name :: string
  zc_zone_type :: ZoneType
  zc_policy :: ZonePolicy

record ZoneHandle =
  zh_id :: string
  zh_name :: string
  zh_platform_id :: u64
  zh_network_state :: "ZoneNetworkState option"

subsection \<open>Network endpoints\<close>

record NetworkEndpoint =
  ne_address :: IpAddr
  ne_prefix_len :: nat
  ne_port :: "nat option"

definition max_prefix_of :: "IpAddr \<Rightarrow> nat" where
  "max_prefix_of a = (if is_ipv4 a then 32 else 128)"

definition parse_network :: "string \<Rightarrow> string + (IpAddr \<times> nat)" where
  "parse_network v =
    (let (address, pre) =
       (case split_once CHR ''/'' v of Some (a, p) \<Rightarrow> (a, Some p) | None \<Rightarrow> (v, None))
     in case parse_ip address of
       None \<Rightarrow> Inl (''invalid IP address or CIDR: '' @ v)
     | Some address \<Rightarrow>
         let max_prefix = max_prefix_of address
         in and_then
           (case pre of
              None \<Rightarrow> Inr max_prefix
            | Some p \<Rightarrow> map_err (\<lambda>_. ''invalid CIDR prefix: '' @ v) (parse_u8 p))
           (\<lambda>prefix_len.
              if prefix_len > max_prefix
              then Inl (''CIDR prefix exceeds '' @ dec max_prefix @ '': '' @ v)
              else Inr (address, prefix_len)))"

definition nft_family :: "NetworkEndpoint \<Rightarrow> string" where
  "nft_family e = (if is_ipv4 (ne_address e) then ''ip'' else ''ip6'')"

definition network :: "NetworkEndpoint \<Rightarrow> string" where
  "network e = show_ip (ne_address e) @ ''/'' @ dec (ne_prefix_len e)"

text \<open>\<open>str::split_once\<close> with a string pattern.\<close>

fun split_once_str :: "string \<Rightarrow> string \<Rightarrow> (string \<times> string) option" where
  "split_once_str p [] = (if p = [] then Some ([], []) else None)"
| "split_once_str p (c # cs) =
     (if starts_with (c # cs) p then Some ([], drop (length p) (c # cs))
      else (case split_once_str p cs of None \<Rightarrow> None | Some (a, b) \<Rightarrow> Some (c # a, b)))"

definition parse_port :: "string \<Rightarrow> string \<Rightarrow> string + nat" where
  "parse_port v port =
    and_then (map_err (\<lambda>_. ''invalid TCP port: '' @ v) (parse_u16 port)) (\<lambda>port.
      if port = 0 then Inl (''TCP port must be between 1 and 65535: '' @ v) else Inr port)"

definition NetworkEndpoint_from_str :: "string \<Rightarrow> string + NetworkEndpoint" where
  "NetworkEndpoint_from_str text =
    (let v = trim text in
     if v = [] then Inl ''network target is empty''
     else and_then
       (case strip_prefix v ''['' of
          Some rest \<Rightarrow>
            (case split_once_str '']:'' rest of
               None \<Rightarrow> Inl (''invalid bracketed network target: '' @ v)
             | Some (net, port) \<Rightarrow> Inr (net, Some port))
        | None \<Rightarrow>
            if is_ok (parse_network v) then Inr (v, None)
            else (case rsplit_once CHR '':'' v of
                None \<Rightarrow> Inl (''invalid network target: '' @ v)
              | Some (net, port) \<Rightarrow> Inr (net, Some port)))
       (\<lambda>(net, port).
          and_then (parse_network net) (\<lambda>(address, prefix_len).
          and_then (case port of None \<Rightarrow> Inr None
              | Some p \<Rightarrow> and_then (parse_port v p) (\<lambda>p. Inr (Some p))) (\<lambda>port.
          Inr \<lparr>ne_address = address, ne_prefix_len = prefix_len, ne_port = port\<rparr>))))"

subsection \<open>Capabilities\<close>

definition LINUX_CAPABILITIES :: "string list" where
  "LINUX_CAPABILITIES =
    [''CAP_CHOWN'', ''CAP_DAC_OVERRIDE'', ''CAP_DAC_READ_SEARCH'', ''CAP_FOWNER'', ''CAP_FSETID'',
     ''CAP_KILL'', ''CAP_SETGID'', ''CAP_SETUID'', ''CAP_SETPCAP'', ''CAP_LINUX_IMMUTABLE'',
     ''CAP_NET_BIND_SERVICE'', ''CAP_NET_BROADCAST'', ''CAP_NET_ADMIN'', ''CAP_NET_RAW'',
     ''CAP_IPC_LOCK'', ''CAP_IPC_OWNER'', ''CAP_SYS_MODULE'', ''CAP_SYS_RAWIO'', ''CAP_SYS_CHROOT'',
     ''CAP_SYS_PTRACE'', ''CAP_SYS_PACCT'', ''CAP_SYS_ADMIN'', ''CAP_SYS_BOOT'', ''CAP_SYS_NICE'',
     ''CAP_SYS_RESOURCE'', ''CAP_SYS_TIME'', ''CAP_SYS_TTY_CONFIG'', ''CAP_MKNOD'', ''CAP_LEASE'',
     ''CAP_AUDIT_WRITE'', ''CAP_AUDIT_CONTROL'', ''CAP_SETFCAP'', ''CAP_MAC_OVERRIDE'',
     ''CAP_MAC_ADMIN'', ''CAP_SYSLOG'', ''CAP_WAKE_ALARM'', ''CAP_BLOCK_SUSPEND'', ''CAP_AUDIT_READ'',
     ''CAP_PERFMON'', ''CAP_BPF'', ''CAP_CHECKPOINT_RESTORE'']"

definition canonical_linux_capability_name :: "string \<Rightarrow> string" where
  "canonical_linux_capability_name capability =
    (let upper = map to_ascii_upper capability
     in if starts_with upper ''CAP_'' then upper else ''CAP_'' @ upper)"

definition linux_capability_bit :: "string \<Rightarrow> nat option" where
  "linux_capability_bit capability =
    position (canonical_linux_capability_name capability) LINUX_CAPABILITIES"

fun capabilities_to_mask_from :: "u64 \<Rightarrow> string list \<Rightarrow> u64 rresult" where
  "capabilities_to_mask_from m [] = Inr m"
| "capabilities_to_mask_from m (cap # caps) =
     and_then (ok_or (InvalidPolicy (''unknown capability: '' @ cap)) (linux_capability_bit cap))
       (\<lambda>b. capabilities_to_mask_from (m OR push_bit b 1) caps)"

definition capabilities_to_mask :: "string list \<Rightarrow> u64 rresult" where
  "capabilities_to_mask caps = capabilities_to_mask_from 0 caps"

definition to_enforcement :: "ZonePolicy \<Rightarrow> ZoneEnforcement rresult" where
  "to_enforcement policy =
    and_then (capabilities_to_mask (cp_allowed (zpol_capabilities policy))) (\<lambda>caps_mask.
      Inr \<lparr>ze_caps_mask = caps_mask,
        allow_ptrace = list_ex (\<lambda>c. map to_ascii_upper c \<in> {''CAP_SYS_PTRACE'', ''SYS_PTRACE''})
          (cp_allowed (zpol_capabilities policy)),
        allow_host_net = (net_mode (zpol_network policy) = Host),
        ze_kind = StandardKind\<rparr>)"

subsection \<open>Policy files\<close>

record PolicyFileZone =
  pfz_name :: string
  pfz_zone_type :: string

record PolicyFileResources =
  pfr_cpu_shares :: "u64 option"
  pfr_memory_limit :: "string option"
  pfr_io_weight :: "u16 option"
  pfr_pids_max :: "u64 option"

record PolicyFileNetwork =
  pfn_mode :: "string option"
  pfn_allowed_zones :: "string list option"
  pfn_allowed_egress :: "string list option"
  pfn_allowed_ingress :: "string list option"

record PolicyFileFilesystem =
  pff_root :: "string option"
  pff_shared_layers :: "bool option"
  pff_writable_paths :: "string list option"

record PolicyFileSyscalls =
  pfs_deny :: "string list option"
  pfs_broker :: "string list option"

text \<open>The sections with a single field (admission mode, capabilities, devices) are that field.\<close>

record PolicyFile =
  pf_zone :: PolicyFileZone
  pf_admission :: "string option"
  pf_capabilities :: "string list option"
  pf_resources :: "PolicyFileResources option"
  pf_network :: "PolicyFileNetwork option"
  pf_filesystem :: "PolicyFileFilesystem option"
  pf_devices :: "string list option"
  pf_syscalls :: "PolicyFileSyscalls option"

fun unwrap_or :: "'a option \<Rightarrow> 'a \<Rightarrow> 'a" where
  "unwrap_or None d = d"
| "unwrap_or (Some x) d = x"

text \<open>Memory sizes. The products are \<open>u64\<close> products of a release build: they wrap.\<close>

definition parse_u64_size :: "string \<Rightarrow> u64 \<Rightarrow> u64 rresult" where
  "parse_u64_size n unit =
    and_then (map_err (\<lambda>e. InvalidPolicy (''bad memory size: '' @ int_error e)) (parse_u64 n))
      (\<lambda>v. Inr (word_of_nat v * unit))"

definition parse_memory_size :: "string \<Rightarrow> u64 rresult" where
  "parse_memory_size text =
    (let s = trim text in
     case strip_suffix s ''Gi'' of Some n \<Rightarrow> parse_u64_size n (1024 * 1024 * 1024) | None \<Rightarrow>
     (case strip_suffix s ''Mi'' of Some n \<Rightarrow> parse_u64_size n (1024 * 1024) | None \<Rightarrow>
     (case strip_suffix s ''Ki'' of Some n \<Rightarrow> parse_u64_size n 1024 | None \<Rightarrow>
     (case strip_suffix s ''G'' of Some n \<Rightarrow> parse_u64_size n (1000 * 1000 * 1000) | None \<Rightarrow>
     (case strip_suffix s ''M'' of Some n \<Rightarrow> parse_u64_size n (1000 * 1000) | None \<Rightarrow>
      parse_u64_size s 1)))))"

definition parse_zone_type :: "string \<Rightarrow> ZoneType rresult" where
  "parse_zone_type t =
    (if t = ''non-global'' then Inr NonGlobal
     else if t = ''privileged'' then Inr Privileged
     else if t = ''global'' then Inr Global
     else Inl (InvalidPolicy (''unknown zone type: '' @ t)))"

definition parse_admission :: "string option \<Rightarrow> PolicyAdmission rresult" where
  "parse_admission m =
    (case m of
       None \<Rightarrow> Inr Strict
     | Some t \<Rightarrow>
         if t = ''strict'' then Inr Strict
         else if t = ''audit'' then Inr Audit
         else Inl (InvalidPolicy (''unknown admission mode: '' @ t)))"

definition resources_of :: "PolicyFileResources option \<Rightarrow> ResourcePolicy rresult" where
  "resources_of res =
    (case res of
       None \<Rightarrow> Inr ResourcePolicy_default
     | Some r \<Rightarrow>
         and_then
           (case pfr_memory_limit r of None \<Rightarrow> Inr (512 * 1024 * 1024) | Some t \<Rightarrow> parse_memory_size t)
           (\<lambda>memory_limit.
             Inr \<lparr>cpu_shares = unwrap_or (pfr_cpu_shares r) 1024, memory_limit = memory_limit,
               io_weight = unwrap_or (pfr_io_weight r) 100,
               pids_max = unwrap_or (pfr_pids_max r) 256\<rparr>))"

fun check_targets :: "string list \<Rightarrow> unit rresult" where
  "check_targets [] = Inr ()"
| "check_targets (t # ts) =
     and_then
       (map_err (\<lambda>e. InvalidPolicy (''invalid network target '' @ debug_str t @ '': '' @ e))
         (NetworkEndpoint_from_str t))
       (\<lambda>_. check_targets ts)"

definition network_of :: "PolicyFileNetwork option \<Rightarrow> NetworkPolicy rresult" where
  "network_of net =
    (case net of
       None \<Rightarrow> Inr NetworkPolicy_default
     | Some n \<Rightarrow>
         and_then
           (case pfn_mode n of
              None \<Rightarrow> Inr Isolated
            | Some t \<Rightarrow>
                if t = ''isolated'' then Inr Isolated
                else if t = ''bridged'' then Inr Bridged
                else if t = ''host'' then Inr Host
                else Inl (InvalidPolicy (''unknown network mode: '' @ t)))
           (\<lambda>mode.
             let egress = unwrap_or (pfn_allowed_egress n) [];
                 ingress = unwrap_or (pfn_allowed_ingress n) []
             in and_then (check_targets (egress @ ingress)) (\<lambda>_.
                Inr \<lparr>net_mode = mode, allowed_zones = unwrap_or (pfn_allowed_zones n) [],
                  allowed_egress = egress, allowed_ingress = ingress\<rparr>)))"

definition zone_root :: "string \<Rightarrow> string \<Rightarrow> string" where
  "zone_root base_root name = base_root @ ''/zones/'' @ name"

definition filesystem_of :: "string \<Rightarrow> PolicyFile \<Rightarrow> FilesystemPolicy" where
  "filesystem_of base_root file =
    (let root = zone_root base_root (pfz_name (pf_zone file))
     in case pf_filesystem file of
       Some f \<Rightarrow>
         \<lparr>fs_root = unwrap_or (pff_root f) root, shared_layers = unwrap_or (pff_shared_layers f) True,
          writable_paths = unwrap_or (pff_writable_paths f) []\<rparr>
     | None \<Rightarrow> FilesystemPolicy_default\<lparr>fs_root := root\<rparr>)"

definition to_zone_policy :: "PolicyFile \<Rightarrow> string \<Rightarrow> ZonePolicy rresult" where
  "to_zone_policy file base_root =
    and_then (parse_zone_type (pfz_zone_type (pf_zone file))) (\<lambda>_.
    and_then (parse_admission (pf_admission file)) (\<lambda>adm.
    and_then
      (case pf_capabilities file of
         None \<Rightarrow> Inr \<lparr>cp_allowed = []\<rparr>
       | Some allowed \<Rightarrow> and_then (capabilities_to_mask allowed) (\<lambda>_. Inr \<lparr>cp_allowed = allowed\<rparr>))
      (\<lambda>capabilities.
    and_then (resources_of (pf_resources file)) (\<lambda>resources.
    and_then (network_of (pf_network file)) (\<lambda>network.
    Inr \<lparr>admission = adm, zpol_capabilities = capabilities, zpol_resources = resources,
      zpol_network = network, zpol_filesystem = filesystem_of base_root file,
      zpol_devices = \<lparr>dp_allowed = unwrap_or (pf_devices file) []\<rparr>,
      zpol_syscalls = (case pf_syscalls file of
          None \<Rightarrow> \<lparr>sp_deny = [], sp_broker = []\<rparr>
        | Some y \<Rightarrow> \<lparr>sp_deny = unwrap_or (pfs_deny y) [], sp_broker = unwrap_or (pfs_broker y) []\<rparr>)\<rparr>)))))"

text \<open>\<open>toml_from_str\<close> is the TOML reader with the derived deserialiser.\<close>

definition parse_policy ::
  "(string \<Rightarrow> string + PolicyFile) \<Rightarrow> string \<Rightarrow> string \<Rightarrow> (ZoneType \<times> ZonePolicy) rresult" where
  "parse_policy toml_from_str toml_str base_root =
    and_then (map_err InvalidPolicy (toml_from_str toml_str)) (\<lambda>file.
    and_then (parse_zone_type (pfz_zone_type (pf_zone file))) (\<lambda>zone_type.
    and_then (to_zone_policy file base_root) (\<lambda>policy. Inr (zone_type, policy))))"

subsection \<open>Printing a policy\<close>

definition format_memory_size :: "u64 \<Rightarrow> string" where
  "format_memory_size bytes =
    (let n = unat bytes in
     if n mod (1024 * 1024 * 1024) = 0 then dec (n div (1024 * 1024 * 1024)) @ ''Gi''
     else if n mod (1024 * 1024) = 0 then dec (n div (1024 * 1024)) @ ''Mi''
     else dec n)"

definition quoted :: "string \<Rightarrow> string" where
  "quoted s = [CHR 0x22] @ s @ [CHR 0x22]"

definition quoted_list :: "string list \<Rightarrow> string" where
  "quoted_list xs = join '', '' (map quoted xs)"

definition nl :: string where
  "nl = [CHR 0x0A]"

fun zone_type_str :: "ZoneType \<Rightarrow> string" where
  "zone_type_str Global = ''global''"
| "zone_type_str NonGlobal = ''non-global''"
| "zone_type_str Privileged = ''privileged''"

fun net_mode_str :: "NetworkMode \<Rightarrow> string" where
  "net_mode_str Isolated = ''isolated''"
| "net_mode_str Bridged = ''bridged''"
| "net_mode_str Host = ''host''"

fun admission_str :: "PolicyAdmission \<Rightarrow> string" where
  "admission_str Strict = ''strict''"
| "admission_str Audit = ''audit''"

definition policy_to_toml :: "string \<Rightarrow> ZoneType \<Rightarrow> ZonePolicy \<Rightarrow> string" where
  "policy_to_toml name ztype policy =
    (let caps = join ('','' @ nl) (map (\<lambda>c. ''    '' @ quoted c) (cp_allowed (zpol_capabilities policy)));
         res = zpol_resources policy; net = zpol_network policy; fs = zpol_filesystem policy
     in concat (map (\<lambda>line. line @ nl)
       [''[zone]'',
        ''name = '' @ quoted name,
        ''type = '' @ quoted (zone_type_str ztype),
        [],
        ''[admission]'',
        ''mode = '' @ quoted (admission_str (admission policy)),
        [],
        ''[capabilities]'',
        ''allowed = ['',
        caps,
        '']'',
        [],
        ''[resources]'',
        ''cpu_shares = '' @ dec (unat (cpu_shares res)),
        ''memory_limit = '' @ quoted (format_memory_size (memory_limit res)),
        ''io_weight = '' @ dec (unat (io_weight res)),
        ''pids_max = '' @ dec (unat (pids_max res)),
        [],
        ''[network]'',
        ''mode = '' @ quoted (net_mode_str (net_mode net)),
        ''allowed_zones = ['' @ quoted_list (allowed_zones net) @ '']'',
        ''allowed_egress = ['' @ quoted_list (allowed_egress net) @ '']'',
        ''allowed_ingress = ['' @ quoted_list (allowed_ingress net) @ '']'',
        [],
        ''[filesystem]'',
        ''root = '' @ quoted (fs_root fs),
        ''shared_layers = '' @ (if shared_layers fs then ''true'' else ''false''),
        ''writable_paths = ['' @ quoted_list (writable_paths fs) @ '']'',
        [],
        ''[devices]'',
        ''allowed = ['' @ quoted_list (dp_allowed (zpol_devices policy)) @ '']'',
        [],
        ''[syscalls]'',
        ''deny = ['' @ quoted_list (sp_deny (zpol_syscalls policy)) @ '']'']))"

subsection \<open>Capabilities: the two tables agree\<close>

lemma LINUX_CAPABILITIES_CAPS: "LINUX_CAPABILITIES = CAPS"
  by (simp only: LINUX_CAPABILITIES_def CAPS_def)

lemma canonical_cap_name: "canonical_linux_capability_name = cap_name"
  by (simp add: fun_eq_iff canonical_linux_capability_name_def cap_name_def)

lemma capabilities_to_mask_from_eq:
  "capabilities_to_mask_from m caps =
    (case find (\<lambda>c. cap_name c \<notin> set CAPS) caps of
       None \<Rightarrow> Inr (caps_to_mask_from m caps)
     | Some c \<Rightarrow> Inl (InvalidPolicy (''unknown capability: '' @ c)))"
proof (induction caps arbitrary: m)
  case (Cons cap caps)
  then show ?case
    by (cases "position (cap_name cap) CAPS")
      (auto simp: linux_capability_bit_def LINUX_CAPABILITIES_CAPS canonical_cap_name
        position_None [symmetric] split: option.split)
qed simp

lemma capabilities_to_mask_eq:
  "capabilities_to_mask caps =
    (case find (\<lambda>c. cap_name c \<notin> set CAPS) caps of
       None \<Rightarrow> Inr (caps_to_mask caps)
     | Some c \<Rightarrow> Inl (InvalidPolicy (''unknown capability: '' @ c)))"
  by (simp add: capabilities_to_mask_def caps_to_mask_def capabilities_to_mask_from_eq
    split: option.split)

lemma capabilities_to_mask_Inr: "capabilities_to_mask caps = Inr m \<Longrightarrow> m = caps_to_mask caps"
  by (simp add: capabilities_to_mask_eq split: option.splits)

lemma ptrace_spelling:
  "map to_ascii_upper c \<in> {''CAP_SYS_PTRACE'', ''SYS_PTRACE''} \<longleftrightarrow> cap_name c = ''CAP_SYS_PTRACE''"
proof (cases "starts_with (map to_ascii_upper c) ''CAP_''")
  case True
  then have "map to_ascii_upper c \<noteq> ''SYS_PTRACE''" by (auto simp: starts_with_def)
  then show ?thesis using True by (simp add: cap_name_def)
next
  case False
  then have "map to_ascii_upper c \<noteq> ''CAP_SYS_PTRACE''" by (auto simp: starts_with_def)
  then show ?thesis using False by (simp add: cap_name_def)
qed

lemma CAPS_19: "CAPS ! 19 = ''CAP_SYS_PTRACE''"
  by (simp add: CAPS_def)

lemma to_enforcement_ptrace:
  assumes "to_enforcement policy = Inr z"
  shows "allow_ptrace z \<longleftrightarrow> bit (ze_caps_mask z) 19"
proof -
  let ?caps = "cp_allowed (zpol_capabilities policy)"
  have "ze_caps_mask z = caps_to_mask ?caps"
    and "allow_ptrace z \<longleftrightarrow> list_ex (\<lambda>c. cap_name c = ''CAP_SYS_PTRACE'') ?caps"
    using assms capabilities_to_mask_Inr
    by (auto simp: to_enforcement_def result_simps ptrace_spelling [simplified])
  moreover have "bit (caps_to_mask ?caps) 19 \<longleftrightarrow> CAPS ! 19 \<in> cap_name ` set ?caps"
    by (rule bit_caps_to_mask) simp
  ultimately show ?thesis
    unfolding CAPS_19 list_ex_iff image_iff by metis
qed

text \<open>C28: the two capability tables, in two crates, give the same mask: the checked
  conversion answers what the kernel-side conversion answers, and refuses exactly the lists
  that hold an unknown name, naming the first.\<close>

theorem capability_masks_agree:
  "capabilities_to_mask caps =
    (case find (\<lambda>c. canonical_linux_capability_name c \<notin> set LINUX_CAPABILITIES) caps of
       None \<Rightarrow> Inr (caps_to_mask caps)
     | Some c \<Rightarrow> Inl (InvalidPolicy (''unknown capability: '' @ c)))"
  by (simp add: capabilities_to_mask_eq LINUX_CAPABILITIES_CAPS canonical_cap_name)

subsection \<open>Memory sizes\<close>

lemma hd_dec_digit: "is_ascii_digit (hd (dec n))"
  using dec_digits [of n] by (cases "dec n") auto

lemma last_dec_digit: "is_ascii_digit (last (dec n))"
  using dec_digits [of n] by (simp add: list_all_iff)

lemma trim_dec_suffix:
  assumes "post = [] \<or> \<not> is_whitespace (last post)"
  shows "trim (dec n @ post) = dec n @ post"
  using assms hd_dec_digit [of n] last_dec_digit [of n] digit_not_whitespace
  by (intro trim_id) (auto simp: last_append)

lemma strip_suffix_self [simp]: "strip_suffix (s @ p) p = Some s"
  by (simp add: strip_suffix_Some)

lemma strip_suffix_other: "length p = length q \<Longrightarrow> p \<noteq> q \<Longrightarrow> strip_suffix (s @ p) q = None"
  by (auto simp: strip_suffix_def)

lemma strip_suffix_dec: "p \<noteq> [] \<Longrightarrow> \<not> is_ascii_digit (last p) \<Longrightarrow> strip_suffix (dec n) p = None"
  using last_dec_digit [of n] strip_suffix_Some [of "dec n" p]
  by (metis append_Nil2 last_append not_None_eq)

lemma parse_u64_size_dec: "n < 2 ^ 64 \<Longrightarrow> parse_u64_size (dec n) unit = Inr (word_of_nat n * unit)"
  by (simp add: parse_u64_size_def parse_int_dec)

lemma unat_u64_less: "unat (b :: u64) < 2 ^ 64"
  using unsigned_less [of b] by simp

lemma word_of_nat_exact:
  assumes "unat (b :: u64) mod k = 0"
  shows "word_of_nat (unat b div k) * word_of_nat k = b"
proof -
  have "word_of_nat (unat b div k) * word_of_nat k = (word_of_nat (unat b div k * k) :: u64)" by simp
  also have "unat b div k * k = unat b" using assms by auto
  finally show ?thesis by simp
qed

lemma div_less_u64: "unat (b :: u64) div k < 2 ^ 64"
  using unat_u64_less [of b] div_le_dividend [of "unat b" k] by linarith

text \<open>A memory limit survives printing and reading back, for every 64-bit value.\<close>

lemma memory_size_round_trip: "parse_memory_size (format_memory_size b) = Inr b"
proof -
  consider (gi) "unat b mod (1024 * 1024 * 1024) = 0"
    | (mi) "unat b mod (1024 * 1024 * 1024) \<noteq> 0" "unat b mod (1024 * 1024) = 0"
    | (plain) "unat b mod (1024 * 1024 * 1024) \<noteq> 0" "unat b mod (1024 * 1024) \<noteq> 0"
    by blast
  then show ?thesis
  proof cases
    case gi
    let ?n = "unat b div (1024 * 1024 * 1024)"
    have "trim (dec ?n @ ''Gi'') = dec ?n @ ''Gi''"
      by (rule trim_dec_suffix) (simp add: is_whitespace_def)
    then show ?thesis
      using gi parse_u64_size_dec [OF div_less_u64] word_of_nat_exact [OF gi]
      by (simp add: format_memory_size_def parse_memory_size_def)
  next
    case mi
    let ?n = "unat b div (1024 * 1024)"
    have "trim (dec ?n @ ''Mi'') = dec ?n @ ''Mi''"
      by (rule trim_dec_suffix) (simp add: is_whitespace_def)
    then show ?thesis
      using mi parse_u64_size_dec [OF div_less_u64] word_of_nat_exact [OF mi(2)]
      by (simp add: format_memory_size_def parse_memory_size_def strip_suffix_other)
  next
    case plain
    have "trim (dec (unat b)) = dec (unat b)" using trim_dec_suffix [of "[]"] by simp
    then show ?thesis
      using plain parse_u64_size_dec [OF unat_u64_less]
      by (simp add: format_memory_size_def parse_memory_size_def strip_suffix_dec is_ascii_digit_def)
  qed
qed

text \<open>The multiplication is unchecked: a limit of 17179869184 GiB, which is two to
  the power 64 bytes, is read as zero bytes.\<close>

lemma memory_size_wraps: "parse_memory_size ''17179869184Gi'' = Inr 0"
proof -
  have d: "dec 17179869184 = ''17179869184''" by (simp add: dec.simps digit_char_def char_of_def bit_0)
  have "trim ''17179869184Gi'' = ''17179869184'' @ ''Gi''"
    by (simp add: trim_def is_whitespace_def)
  moreover have "parse_u64_size (dec 17179869184) (1024 * 1024 * 1024) = Inr 0"
    by (subst parse_u64_size_dec) simp_all
  ultimately show ?thesis by (simp add: parse_memory_size_def d strip_suffix_def)
qed

subsection \<open>Endpoints\<close>

lemma rsplit_once_Some: "rsplit_once c s = Some (a, b) \<longleftrightarrow> s = a @ c # b \<and> c \<notin> set b"
proof -
  have "rsplit_once c s = Some (a, b) \<longleftrightarrow> split_once c (rev s) = Some (rev b, rev a)"
    by (auto simp: rsplit_once_def split: option.split)
  also have "\<dots> \<longleftrightarrow> s = a @ c # b \<and> c \<notin> set b"
    unfolding split_once_Some by (metis append.assoc append_Cons append_Nil rev.simps(2) rev_append rev_rev_ident set_rev)
  finally show ?thesis .
qed

lemma parse_digits_nondigit: "c \<in> set s \<Longrightarrow> \<not> is_ascii_digit c \<Longrightarrow> \<exists>e. parse_digits l acc s = Inl e"
  by (induction s arbitrary: acc) auto

lemma dec_chars: "c \<in> set (dec n) \<Longrightarrow> is_ascii_digit c"
  using dec_digits [of n] by (simp add: list_all_iff)

lemma not_digits: "\<not> is_ascii_digit CHR '':''" "\<not> is_ascii_digit CHR ''/''" "\<not> is_ascii_digit CHR ''[''"
  "\<not> is_ascii_digit CHR ''+''"
  by (simp_all add: is_ascii_digit_def)

lemma show_ipv4_chars: "c \<in> set (show_ipv4 a) \<Longrightarrow> is_ascii_digit c \<or> c = CHR ''.''"
  using dec_chars by (cases a) (auto simp: show_ipv4_def)

lemma show_ipv4_hd: "\<exists>c r. show_ipv4 a = c # r \<and> is_ascii_digit c"
proof (cases a)
  case (fields w x y z)
  obtain c r where "dec (unat w) = c # r" by (meson dec_not_Nil neq_Nil_conv)
  then show ?thesis using fields dec_chars [of c "unat w"] by (simp add: show_ipv4_def)
qed

lemma parse_u8_bad: "\<exists>e. parse_int l (dec p @ CHR '':'' # r) = Inl e"
proof -
  obtain c t where ct: "dec p = c # t" by (meson dec_not_Nil neq_Nil_conv)
  then have "c \<noteq> CHR ''+''" using dec_chars [of c p] not_digits by auto
  then show ?thesis
    using parse_digits_nondigit [of "CHR '':''" "dec p @ CHR '':'' # r" l 0] not_digits ct
    by (auto simp: parse_int_def starts_with_def)
qed

lemma parse_network_v4:
  assumes "p \<le> 32"
  shows "parse_network (show_ipv4 a @ ''/'' @ dec p) = Inr (V4 a, p)"
proof -
  have "CHR ''/'' \<notin> set (show_ipv4 a)" using show_ipv4_chars not_digits by fastforce
  then have "split_once CHR ''/'' (show_ipv4 a @ ''/'' @ dec p) = Some (show_ipv4 a, dec p)"
    by (simp add: split_once_Some)
  then show ?thesis using assms by (simp add: parse_network_def max_prefix_of_def parse_int_dec)
qed

lemma parse_network_v4_port: "\<not> is_ok (parse_network (show_ipv4 a @ ''/'' @ dec p @ CHR '':'' # r))"
proof -
  have "CHR ''/'' \<notin> set (show_ipv4 a)" using show_ipv4_chars not_digits by fastforce
  then have "split_once CHR ''/'' (show_ipv4 a @ ''/'' @ dec p @ CHR '':'' # r) =
      Some (show_ipv4 a, dec p @ CHR '':'' # r)"
    by (simp add: split_once_Some)
  then show ?thesis using parse_u8_bad [of 255 p r] by (auto simp: parse_network_def)
qed

text \<open>An IPv4 target with a prefix and a port is read back as written.\<close>

lemma endpoint_round_trip:
  assumes "p \<le> 32" and "1 \<le> q" and "q \<le> 65535"
  shows "NetworkEndpoint_from_str (show_ipv4 a @ ''/'' @ dec p @ '':'' @ dec q) =
    Inr \<lparr>ne_address = V4 a, ne_prefix_len = p, ne_port = Some q\<rparr>"
proof -
  let ?v = "show_ipv4 a @ ''/'' @ dec p @ '':'' @ dec q"
  obtain c r where cr: "show_ipv4 a = c # r" "is_ascii_digit c" using show_ipv4_hd by blast
  have "trim ?v = ?v"
    using cr last_dec_digit [of q] digit_not_whitespace
    by (intro trim_id) (auto simp: last_append)
  moreover have "strip_prefix ?v ''['' = None"
    using cr not_digits by (auto simp: strip_prefix_def starts_with_def)
  moreover have "rsplit_once CHR '':'' ?v = Some (show_ipv4 a @ ''/'' @ dec p, dec q)"
    using dec_chars not_digits by (auto simp: rsplit_once_Some)
  moreover have "parse_port ?v (dec q) = Inr q"
    using assms by (simp add: parse_port_def parse_int_dec)
  ultimately show ?thesis
    using parse_network_v4_port [of a p "dec q"] parse_network_v4 [OF assms(1), of a] cr
    by (simp add: NetworkEndpoint_from_str_def)
qed

lemma parse_network_bound: "parse_network v = Inr (a, p) \<Longrightarrow> p \<le> max_prefix_of a"
  by (auto simp: parse_network_def Let_def result_simps split: prod.splits option.splits if_splits)

lemma parse_port_bound: "parse_port v s = Inr p \<Longrightarrow> 1 \<le> p \<and> p \<le> 65535"
  using parse_int_bound [of 65535 s] by (auto simp: parse_port_def result_simps split: if_splits)

lemma endpoint_bounds:
  assumes "NetworkEndpoint_from_str t = Inr e"
  shows "ne_prefix_len e \<le> max_prefix_of (ne_address e)"
    and "ne_port e = Some p \<Longrightarrow> 1 \<le> p \<and> p \<le> 65535"
  using assms parse_network_bound parse_port_bound
  by (auto simp: NetworkEndpoint_from_str_def Let_def result_simps split: if_splits option.splits prod.splits)

subsection \<open>Admitted policies\<close>

lemma check_targets_Inr:
  "check_targets ts = Inr () \<longleftrightarrow> (\<forall>t \<in> set ts. \<exists>e. NetworkEndpoint_from_str t = Inr e)"
  by (induction ts) (auto simp: result_simps)

lemma network_of_targets:
  assumes "network_of net = Inr n" and "t \<in> set (allowed_egress n @ allowed_ingress n)"
  shows "\<exists>e. NetworkEndpoint_from_str t = Inr e"
  using assms check_targets_Inr
  by (fastforce simp: network_of_def NetworkPolicy_default_def result_simps Let_def split: option.splits)

text \<open>C30: a policy that was read can be enforced: its capabilities translate, and every
  network target it names is a well-formed endpoint with a prefix in range and a port that is
  not zero.\<close>

theorem parsed_policy_is_enforceable:
  assumes "parse_policy toml_from_str text root = Inr (zt, policy)"
  shows "(\<exists>z. to_enforcement policy = Inr z) \<and>
    (\<forall>t \<in> set (allowed_egress (zpol_network policy) @ allowed_ingress (zpol_network policy)).
      \<exists>e. NetworkEndpoint_from_str t = Inr e \<and> ne_prefix_len e \<le> max_prefix_of (ne_address e) \<and>
        (\<forall>p. ne_port e = Some p \<longrightarrow> 1 \<le> p \<and> p \<le> 65535))"
proof -
  obtain pfile where pf: "to_zone_policy pfile root = Inr policy"
    using assms by (auto simp: parse_policy_def result_simps)
  have "\<exists>m. capabilities_to_mask (cp_allowed (zpol_capabilities policy)) = Inr m"
    using pf
    by (auto simp: to_zone_policy_def result_simps capabilities_to_mask_def split: option.splits)
  moreover have "network_of (pf_network pfile) = Inr (zpol_network policy)"
    using pf by (auto simp: to_zone_policy_def result_simps)
  ultimately show ?thesis
    using network_of_targets endpoint_bounds by (fastforce simp: to_enforcement_def result_simps)
qed

definition demo_file :: PolicyFile where
  "demo_file =
    \<lparr>pf_zone = \<lparr>pfz_name = ''web'', pfz_zone_type = ''non-global''\<rparr>, pf_admission = None,
     pf_capabilities = Some [''net_admin''], pf_resources = None, pf_network = None,
     pf_filesystem = None, pf_devices = None, pf_syscalls = None\<rparr>"

definition demo_policy :: ZonePolicy where
  "demo_policy =
    ZonePolicy_default\<lparr>zpol_capabilities := \<lparr>cp_allowed = [''net_admin'']\<rparr>,
      zpol_filesystem := FilesystemPolicy_default\<lparr>fs_root := ''/r/zones/web''\<rparr>\<rparr>"

lemma demo_mask: "capabilities_to_mask [''net_admin''] = Inr (push_bit 12 1)"
proof -
  have "cap_name ''net_admin'' = CAPS ! 12"
    by (simp add: cap_name_def to_ascii_upper_def is_ascii_lowercase_def starts_with_def CAPS_def char_of_def bit_0)
  then have "position (cap_name ''net_admin'') CAPS = Some 12"
    using position_distinct [OF distinct_CAPS, of 12] by simp
  then show ?thesis
    by (simp add: capabilities_to_mask_def linux_capability_bit_def LINUX_CAPABILITIES_CAPS canonical_cap_name)
qed

theorem parsed_policy_is_enforceable_witness: "\<exists>z. to_enforcement demo_policy = Inr z"
proof -
  have "parse_policy (\<lambda>_. Inr demo_file) ''[zone]'' ''/r'' = Inr (NonGlobal, demo_policy)"
    by (simp add: parse_policy_def to_zone_policy_def parse_zone_type_def parse_admission_def demo_mask
      resources_of_def network_of_def filesystem_of_def zone_root_def demo_file_def demo_policy_def
      ZonePolicy_default_def)
  from parsed_policy_is_enforceable [OF this] show ?thesis by blast
qed

text \<open>Printing is not invertible: whatever the TOML reader, some policy (one that brokers a
  syscall) does not come back from its own printed text.\<close>

lemma printed_policy_loses_broker:
  "\<exists>policy. parse_policy toml_from_str (policy_to_toml name zt policy) root \<noteq> Inr (zt, policy)"
proof (rule ccontr)
  assume "\<not> ?thesis"
  then have rt: "parse_policy toml_from_str (policy_to_toml name zt p) root = Inr (zt, p)" for p
    by blast
  let ?p = ZonePolicy_default
  let ?q = "?p\<lparr>zpol_syscalls := \<lparr>sp_deny = [], sp_broker = [''openat'']\<rparr>\<rparr>"
  have "policy_to_toml name zt ?q = policy_to_toml name zt ?p"
    by (simp add: policy_to_toml_def ZonePolicy_default_def)
  then have "?q = ?p" using rt [of ?p] rt [of ?q] by simp
  then have "zpol_syscalls ?q = zpol_syscalls ?p" by (rule arg_cong)
  then show False by (simp add: ZonePolicy_default_def)
qed

end
