(* ===== verification/Bpf_Maps.thy ===== *)
theory Bpf_Maps
  imports Ebpf_Guards Zone_Policy
begin

text \<open>
  Userspace access to the BPF maps, \<open>rauhad/src/backend/linux/maps.rs\<close>: the typed
  operations of \<open>MapManager\<close>, the translation of a policy to its kernel record and the walk
  that collects the inodes of a root filesystem. What the \<open>aya\<close> crate and the kernel may
  refuse is the parameter \<open>faults\<close>: the text of the error of an operation, if it fails.
  A removal of an absent key is not a failure.
\<close>

datatype bpf_op =
    FindMap string
  | OpenMap string
  | GetKey string nat
  | InsertKey string nat
  | RemoveKey string nat

type_synonym faults = "bpf_op \<Rightarrow> string option"

definition open_map :: "faults \<Rightarrow> string \<Rightarrow> unit rresult" where
  "open_map faults name =
    (if faults (FindMap name) \<noteq> None
     then Inl (EbpfError (name @ '' map not found'') ''eBPF programs may not be loaded'')
     else case faults (OpenMap name) of
       Some e \<Rightarrow> Inl (EbpfError (''failed to open '' @ name @ '' map: '' @ e)
         ''check eBPF object was built correctly'')
     | None \<Rightarrow> Inr ())"

text \<open>One map operation: open the map, attempt the operation, and on success change the maps.\<close>

definition map_op ::
  "faults \<Rightarrow> string \<Rightarrow> bpf_op \<Rightarrow> (string \<Rightarrow> RauhaError) \<Rightarrow> (maps \<Rightarrow> maps) \<Rightarrow> maps \<Rightarrow> unit rresult \<times> maps"
where
  "map_op faults name op err update m =
    (case open_map faults name of
       Inl e \<Rightarrow> (Inl e, m)
     | Inr _ \<Rightarrow> (case faults op of Some e \<Rightarrow> (Inl (err e), m) | None \<Rightarrow> (Inr (), update m)))"

definition map_get ::
  "faults \<Rightarrow> string \<Rightarrow> bpf_op \<Rightarrow> (string \<Rightarrow> RauhaError) \<Rightarrow> 'a option \<Rightarrow> 'a option rresult" where
  "map_get faults name op err v =
    and_then (open_map faults name)
      (\<lambda>_. case faults op of Some e \<Rightarrow> Inl (err e) | None \<Rightarrow> Inr v)"

definition comm_key :: "u32 \<Rightarrow> u32 \<Rightarrow> nat" where
  "comm_key src dst = unat src * 2 ^ 32 + unat dst"

definition zone_member :: "faults \<Rightarrow> u64 \<Rightarrow> maps \<Rightarrow> ZoneInfoKernel option rresult" where
  "zone_member faults cgroup_id m =
    map_get faults ''ZONE_MEMBERSHIP'' (GetKey ''ZONE_MEMBERSHIP'' (unat cgroup_id))
      (\<lambda>e. EbpfError (''failed to read zone membership: '' @ e) ''check BPF map health'')
      (ZONE_MEMBERSHIP m cgroup_id)"

fun zone_type_flags :: "ZoneType \<Rightarrow> u32" where
  "zone_type_flags Global = 0 OR ZONE_FLAG_GLOBAL"
| "zone_type_flags Privileged = 0 OR ZONE_FLAG_PRIVILEGED"
| "zone_type_flags NonGlobal = 0"

definition add_zone_member ::
  "faults \<Rightarrow> u64 \<Rightarrow> u32 \<Rightarrow> ZoneType \<Rightarrow> maps \<Rightarrow> unit rresult \<times> maps" where
  "add_zone_member faults cgroup_id zid ztype m =
    map_op faults ''ZONE_MEMBERSHIP'' (InsertKey ''ZONE_MEMBERSHIP'' (unat cgroup_id))
      (\<lambda>e. EbpfError (''failed to insert zone membership: '' @ e) ''map may be full (check MAX_CGROUPS)'')
      (\<lambda>m. m\<lparr>ZONE_MEMBERSHIP := (ZONE_MEMBERSHIP m)(cgroup_id \<mapsto>
        \<lparr>zi_zone_id = zid, zi_flags = zone_type_flags ztype\<rparr>)\<rparr>) m"

definition remove_zone_member :: "faults \<Rightarrow> u64 \<Rightarrow> maps \<Rightarrow> unit rresult \<times> maps" where
  "remove_zone_member faults cgroup_id m =
    map_op faults ''ZONE_MEMBERSHIP'' (RemoveKey ''ZONE_MEMBERSHIP'' (unat cgroup_id))
      (\<lambda>e. EbpfError (''failed to remove zone membership: '' @ e) ''check BPF map health'')
      (\<lambda>m. m\<lparr>ZONE_MEMBERSHIP := (ZONE_MEMBERSHIP m)(cgroup_id := None)\<rparr>) m"

definition enforcement_to_kernel :: "ZoneEnforcement \<Rightarrow> ZonePolicyKernel" where
  "enforcement_to_kernel zone =
    (let flags = 0;
         flags = (if allow_ptrace zone then flags OR POLICY_FLAG_ALLOW_PTRACE else flags);
         flags = (if allow_host_net zone then flags OR POLICY_FLAG_ALLOW_HOST_NET else flags)
     in \<lparr>caps_mask = ze_caps_mask zone, zp_flags = flags, zp_pad = 0\<rparr>)"

definition policy_to_kernel :: "ZonePolicy \<Rightarrow> ZonePolicyKernel rresult" where
  "policy_to_kernel policy = and_then (to_enforcement policy) (\<lambda>z. Inr (enforcement_to_kernel z))"

definition set_zone_policy_kernel ::
  "faults \<Rightarrow> u32 \<Rightarrow> ZonePolicyKernel \<Rightarrow> maps \<Rightarrow> unit rresult \<times> maps" where
  "set_zone_policy_kernel faults zid kernel_policy m =
    map_op faults ''ZONE_POLICY'' (InsertKey ''ZONE_POLICY'' (unat zid))
      (\<lambda>e. EbpfError (''failed to insert zone policy: '' @ e) ''map may be full (check MAX_ZONES)'')
      (\<lambda>m. m\<lparr>ZONE_POLICY := (ZONE_POLICY m)(zid \<mapsto> kernel_policy)\<rparr>) m"

definition set_zone_policy :: "faults \<Rightarrow> u32 \<Rightarrow> ZonePolicy \<Rightarrow> maps \<Rightarrow> unit rresult \<times> maps" where
  "set_zone_policy faults zid policy m =
    (case policy_to_kernel policy of
       Inl e \<Rightarrow> (Inl e, m)
     | Inr k \<Rightarrow> set_zone_policy_kernel faults zid k m)"

definition remove_zone_policy :: "faults \<Rightarrow> u32 \<Rightarrow> maps \<Rightarrow> unit rresult \<times> maps" where
  "remove_zone_policy faults zid m =
    map_op faults ''ZONE_POLICY'' (RemoveKey ''ZONE_POLICY'' (unat zid))
      (\<lambda>e. EbpfError (''failed to remove zone policy: '' @ e) ''check BPF map health'')
      (\<lambda>m. m\<lparr>ZONE_POLICY := (ZONE_POLICY m)(zid := None)\<rparr>) m"

definition set_inode_zone :: "faults \<Rightarrow> u64 \<Rightarrow> u32 \<Rightarrow> maps \<Rightarrow> unit rresult \<times> maps" where
  "set_inode_zone faults inode zid m =
    map_op faults ''INODE_ZONE_MAP'' (InsertKey ''INODE_ZONE_MAP'' (unat inode))
      (\<lambda>e. EbpfError (''failed to insert inode zone mapping: '' @ e) ''map may be full (check MAX_INODES)'')
      (\<lambda>m. m\<lparr>INODE_ZONE_MAP := (INODE_ZONE_MAP m)(inode \<mapsto> zid)\<rparr>) m"

definition inode_zone :: "faults \<Rightarrow> u64 \<Rightarrow> maps \<Rightarrow> u32 option rresult" where
  "inode_zone faults inode m =
    map_get faults ''INODE_ZONE_MAP'' (GetKey ''INODE_ZONE_MAP'' (unat inode))
      (\<lambda>e. EbpfError (''failed to read inode ownership: '' @ e) ''check BPF map health'')
      (INODE_ZONE_MAP m inode)"

definition remove_inode_zone :: "faults \<Rightarrow> u64 \<Rightarrow> maps \<Rightarrow> unit rresult \<times> maps" where
  "remove_inode_zone faults inode m =
    map_op faults ''INODE_ZONE_MAP'' (RemoveKey ''INODE_ZONE_MAP'' (unat inode))
      (\<lambda>e. EbpfError (''failed to remove inode ownership: '' @ e) ''check BPF map health'')
      (\<lambda>m. m\<lparr>INODE_ZONE_MAP := (INODE_ZONE_MAP m)(inode := None)\<rparr>) m"

text \<open>Insertion skips what fails and reports what it inserted; removal stops at a failure.\<close>

fun insert_inodes :: "faults \<Rightarrow> u64 list \<Rightarrow> u32 \<Rightarrow> maps \<Rightarrow> u64 list \<times> maps" where
  "insert_inodes faults [] zid m = ([], m)"
| "insert_inodes faults (ino # inos) zid m =
     (case set_inode_zone faults ino zid m of
        (Inl e, m') \<Rightarrow> insert_inodes faults inos zid m'
      | (Inr _, m') \<Rightarrow>
          (case insert_inodes faults inos zid m' of (ins, m'') \<Rightarrow> (ino # ins, m'')))"

fun remove_inodes :: "faults \<Rightarrow> u64 list \<Rightarrow> maps \<Rightarrow> nat rresult \<times> maps" where
  "remove_inodes faults [] m = (Inr 0, m)"
| "remove_inodes faults (ino # inos) m =
     (case remove_inode_zone faults ino m of
        (Inl e, m') \<Rightarrow> (Inl e, m')
      | (Inr _, m') \<Rightarrow>
          (case remove_inodes faults inos m' of
             (Inl e, m'') \<Rightarrow> (Inl e, m'')
           | (Inr count, m'') \<Rightarrow> (Inr (count + 1), m'')))"

definition allow_zone_comm :: "faults \<Rightarrow> u32 \<Rightarrow> u32 \<Rightarrow> maps \<Rightarrow> unit rresult \<times> maps" where
  "allow_zone_comm faults src dst m =
    map_op faults ''ZONE_ALLOWED_COMMS'' (InsertKey ''ZONE_ALLOWED_COMMS'' (comm_key src dst))
      (\<lambda>e. EbpfError (''failed to allow zone comm '' @ dec (unat src) @ '' -> '' @ dec (unat dst) @
        '': '' @ e) ''map may be full'')
      (\<lambda>m. m\<lparr>ZONE_ALLOWED_COMMS :=
        (ZONE_ALLOWED_COMMS m)(\<lparr>src_zone = src, dst_zone = dst\<rparr> \<mapsto> 1)\<rparr>) m"

definition deny_zone_comm :: "faults \<Rightarrow> u32 \<Rightarrow> u32 \<Rightarrow> maps \<Rightarrow> unit rresult \<times> maps" where
  "deny_zone_comm faults src dst m =
    map_op faults ''ZONE_ALLOWED_COMMS'' (RemoveKey ''ZONE_ALLOWED_COMMS'' (comm_key src dst))
      (\<lambda>e. EbpfError (''failed to deny zone comm '' @ dec (unat src) @ '' -> '' @ dec (unat dst) @
        '': '' @ e) ''check BPF map health'')
      (\<lambda>m. m\<lparr>ZONE_ALLOWED_COMMS :=
        (ZONE_ALLOWED_COMMS m)(\<lparr>src_zone = src, dst_zone = dst\<rparr> := None)\<rparr>) m"

definition hot_reload_policy :: "faults \<Rightarrow> u32 \<Rightarrow> ZonePolicy \<Rightarrow> maps \<Rightarrow> unit rresult \<times> maps" where
  "hot_reload_policy faults zid policy m = set_zone_policy faults zid policy m"

subsection \<open>The inodes of a root filesystem\<close>

text \<open>The file system as the walk sees it: a directory listing or an error, an entry or an
  error, and the entry's inode and whether it is a directory, or an error.\<close>

type_synonym dentry = "string + string \<times> (string + u64 \<times> bool)"
type_synonym dirs = "string \<Rightarrow> string + dentry list"

fun walk_entries ::
  "nat \<Rightarrow> string \<Rightarrow> dentry list \<Rightarrow> u64 list \<Rightarrow> u64 list \<Rightarrow> string list \<Rightarrow>
   (u64 list \<times> u64 list \<times> string list) rresult" where
  "walk_entries cap dir [] inodes visited stack = Inr (inodes, visited, stack)"
| "walk_entries cap dir (e # es) inodes visited stack =
     (if length inodes \<ge> cap then
        Inl (RootfsError (''rootfs inode count exceeds enforcement capacity of '' @ dec cap))
      else case e of
        Inl err \<Rightarrow> Inl (RootfsError (''failed to enumerate rootfs '' @ dir @ '': '' @ err))
      | Inr (path, Inl err) \<Rightarrow>
          Inl (RootfsError (''failed to inspect rootfs entry '' @ path @ '': '' @ err))
      | Inr (path, Inr (ino, is_dir)) \<Rightarrow>
          if is_dir \<and> ino \<notin> set visited
          then walk_entries cap dir es (inodes @ [ino]) (ino # visited) (path # stack)
          else walk_entries cap dir es (inodes @ [ino]) visited stack)"

lemma walk_entries_length:
  "walk_entries cap dir es inodes visited stack = Inr (inodes', visited', stack') \<Longrightarrow>
   length inodes' = length inodes + length es \<and> (es \<noteq> [] \<longrightarrow> length inodes' \<le> cap) \<and>
   length stack' \<le> length stack + length es"
proof (induction es arbitrary: inodes visited stack)
  case (Cons e es)
  from Cons.prems obtain path ino is_dir where "e = Inr (path, Inr (ino, is_dir))" "length inodes < cap"
    by (auto split: if_splits sum.splits prod.splits)
  then show ?case using Cons by (fastforce split: if_splits)
qed simp

function collect_loop :: "dirs \<Rightarrow> nat \<Rightarrow> u64 list \<Rightarrow> u64 list \<Rightarrow> string list \<Rightarrow> u64 list rresult" where
  "collect_loop fs cap inodes visited [] = Inr inodes"
| "collect_loop fs cap inodes visited (dir # stack) =
     (case fs dir of
        Inl e \<Rightarrow> Inl (RootfsError (''failed to read rootfs directory '' @ dir @ '': '' @ e))
      | Inr es \<Rightarrow>
          (case walk_entries cap dir es inodes visited stack of
             Inl e \<Rightarrow> Inl e
           | Inr (inodes', visited', stack') \<Rightarrow> collect_loop fs cap inodes' visited' stack'))"
  by pat_completeness auto
termination
proof (relation "measures [\<lambda>(fs, cap, inodes, visited, stack). cap - length inodes,
    \<lambda>(fs, cap, inodes, visited, stack). length stack]")
  fix fs :: dirs and cap inodes visited dir stack es r inodes' p visited' stack'
  assume "walk_entries cap dir es inodes visited stack = Inr r" "(inodes', p) = r"
    "(visited', stack') = p"
  then have w: "length inodes' = length inodes + length es" "es \<noteq> [] \<longrightarrow> length inodes' \<le> cap"
      "length stack' \<le> length stack + length es"
    using walk_entries_length by blast+
  show "((fs, cap, inodes', visited', stack'), fs, cap, inodes, visited, dir # stack)
      \<in> measures [\<lambda>(fs, cap, inodes, visited, stack). cap - length inodes,
        \<lambda>(fs, cap, inodes, visited, stack). length stack]"
  proof (cases "es = []")
    case False
    then have "length inodes < length inodes'" "length inodes < cap" using w by (cases es; simp)+
    then show ?thesis by (simp add: diff_less_mono2)
  qed (use w in simp)
qed simp

definition collect_rootfs_inodes :: "dirs \<Rightarrow> string \<Rightarrow> nat \<Rightarrow> u64 list rresult" where
  "collect_rootfs_inodes fs rootfs_path max_inodes = collect_loop fs max_inodes [] [] [rootfs_path]"

subsection \<open>Map operations\<close>

lemma map_op_ok: "map_op f n op err u m = (Inr x, m') \<Longrightarrow> m' = u m"
  by (auto simp: map_op_def split: sum.splits option.splits)

lemma map_op_failed: "map_op f n op err u m = (Inl e, m') \<Longrightarrow> m' = m"
  by (auto simp: map_op_def split: sum.splits option.splits)

lemma map_op_healthy: "(\<And>op. f op = None) \<Longrightarrow> map_op f n op err u m = (Inr (), u m)"
  by (simp add: map_op_def open_map_def)

text \<open>The bits of a kernel policy record.\<close>

lemma enforcement_to_kernel_fields [simp]:
  "caps_mask (enforcement_to_kernel z) = ze_caps_mask z"
  "zp_flags (enforcement_to_kernel z) AND POLICY_FLAG_ALLOW_PTRACE \<noteq> 0 \<longleftrightarrow> allow_ptrace z"
  "zp_flags (enforcement_to_kernel z) AND POLICY_FLAG_ALLOW_HOST_NET \<noteq> 0 \<longleftrightarrow> allow_host_net z"
  by (auto simp: enforcement_to_kernel_def POLICY_FLAG_ALLOW_PTRACE_def POLICY_FLAG_ALLOW_HOST_NET_def)

lemma set_zone_policy_ok:
  assumes "set_zone_policy f zid policy m = (Inr (), m')"
  obtains z where "to_enforcement policy = Inr z" and
    "m' = m\<lparr>ZONE_POLICY := (ZONE_POLICY m)(zid \<mapsto> enforcement_to_kernel z)\<rparr>"
  using assms
  by (auto simp: set_zone_policy_def set_zone_policy_kernel_def policy_to_kernel_def result_simps
    dest!: map_op_ok split: sum.splits)

lemma set_zone_policy_frame:
  assumes "set_zone_policy f zid policy m = (Inr (), m')"
  shows "ZONE_MEMBERSHIP m' = ZONE_MEMBERSHIP m"
  by (rule set_zone_policy_ok [OF assms]) simp

lemma to_enforcement_mask:
  "to_enforcement policy = Inr z \<Longrightarrow> ze_caps_mask z = caps_to_mask (cp_allowed (zpol_capabilities policy))"
  using capabilities_to_mask_Inr by (auto simp: to_enforcement_def result_simps)

lemma unat_of_sint:
  assumes "sint (w :: 32 word) = int n" and "n < 2 ^ 31"
  shows "unat w = n"
proof -
  have "w = word_of_int (sint w)" by simp
  also have "\<dots> = word_of_nat n" using assms(1) by simp
  finally show ?thesis using assms(2) by (simp add: unat_of_nat)
qed

lemma sint_nonneg_cases: "0 \<le> sint (w :: 32 word) \<Longrightarrow> \<exists>n. sint w = int n"
  by (rule nonneg_int_cases) auto

text \<open>C2: once a zone's policy is installed, the kernel grants its members a capability
  exactly when the policy names it, and the tracing flag is set exactly when the policy names
  \<open>CAP_SYS_PTRACE\<close>.\<close>

theorem installed_policy_is_enforced:
  assumes "set_zone_policy faults (zi_zone_id caller) policy m = (Inr (), m')"
    and "confined ctx m' caller"
  shows "(fst (capable ctx m') = 0 \<longleftrightarrow>
      (\<exists>n < 41. sint (arg2 ctx) = int n \<and> LINUX_CAPABILITIES ! n \<in>
        canonical_linux_capability_name ` set (cp_allowed (zpol_capabilities policy))))
    \<and> (ptrace_granted m' (zi_zone_id caller) \<longleftrightarrow> ''CAP_SYS_PTRACE'' \<in>
        canonical_linux_capability_name ` set (cp_allowed (zpol_capabilities policy)))"
proof -
  let ?names = "cap_name ` set (cp_allowed (zpol_capabilities policy))"
  obtain z where z: "to_enforcement policy = Inr z"
      "ZONE_POLICY m' (zi_zone_id caller) = Some (enforcement_to_kernel z)"
    by (rule set_zone_policy_ok [OF assms(1)]) simp
  have mask: "ze_caps_mask z = caps_to_mask (cp_allowed (zpol_capabilities policy))"
    by (rule to_enforcement_mask [OF z(1)])
  have "fst (capable ctx m') = 0 \<longleftrightarrow> 0 \<le> sint (arg2 ctx) \<and> sint (arg2 ctx) \<le> 63 \<and>
      bit (caps_to_mask (cp_allowed (zpol_capabilities policy))) (unat (arg2 ctx))"
    using capable_verdict [OF assms(2)] z(2) mask by simp
  also have "\<dots> \<longleftrightarrow> (\<exists>n < 41. sint (arg2 ctx) = int n \<and> CAPS ! n \<in> ?names)"
  proof
    assume l: "0 \<le> sint (arg2 ctx) \<and> sint (arg2 ctx) \<le> 63 \<and>
      bit (caps_to_mask (cp_allowed (zpol_capabilities policy))) (unat (arg2 ctx))"
    then obtain n where n: "sint (arg2 ctx) = int n" using sint_nonneg_cases by blast
    then have "unat (arg2 ctx) = n" using l by (intro unat_of_sint) auto
    then show "\<exists>n < 41. sint (arg2 ctx) = int n \<and> CAPS ! n \<in> ?names"
      using l n bit_caps_to_mask bit_caps_to_mask_high by (metis not_le_imp_less)
  next
    assume "\<exists>n < 41. sint (arg2 ctx) = int n \<and> CAPS ! n \<in> ?names"
    then obtain n where n: "n < 41" "sint (arg2 ctx) = int n" "CAPS ! n \<in> ?names" by blast
    then have "unat (arg2 ctx) = n" by (intro unat_of_sint) auto
    then show "0 \<le> sint (arg2 ctx) \<and> sint (arg2 ctx) \<le> 63 \<and>
        bit (caps_to_mask (cp_allowed (zpol_capabilities policy))) (unat (arg2 ctx))"
      using n bit_caps_to_mask by simp
  qed
  finally have cap: "fst (capable ctx m') = 0 \<longleftrightarrow> (\<exists>n < 41. sint (arg2 ctx) = int n \<and> CAPS ! n \<in> ?names)" .
  have "ptrace_granted m' (zi_zone_id caller) \<longleftrightarrow> CAPS ! 19 \<in> ?names"
    using z(2) to_enforcement_ptrace [OF z(1)] mask bit_caps_to_mask [of 19]
    by (simp add: ptrace_granted_def)
  with cap show ?thesis by (simp add: LINUX_CAPABILITIES_CAPS canonical_cap_name CAPS_19)
qed

definition demo_kernel :: maps where
  "demo_kernel = snd (set_zone_policy (\<lambda>_. None) 1 demo_policy demo_maps)"

lemma demo_set_policy: "set_zone_policy (\<lambda>_. None) 1 demo_policy demo_maps = (Inr (), demo_kernel)"
  by (simp add: demo_kernel_def set_zone_policy_def set_zone_policy_kernel_def policy_to_kernel_def
    to_enforcement_def demo_policy_def demo_mask map_op_healthy)

lemma demo_confined_kernel: "confined (demo_ctx a) demo_kernel demo_caller"
proof -
  have "ZONE_MEMBERSHIP demo_kernel = ZONE_MEMBERSHIP demo_maps"
    by (rule set_zone_policy_frame [OF demo_set_policy])
  then show ?thesis using demo_confined [of a] by (simp add: confined_def lookup_caller_zone_def)
qed

theorem installed_policy_is_enforced_witness:
  "fst (capable (demo_ctx 0) demo_kernel) \<noteq> 0"
proof -
  have "sint (arg2 (demo_ctx 0)) = int 0" by (simp add: demo_ctx_def)
  moreover have "LINUX_CAPABILITIES ! 0 \<notin> canonical_linux_capability_name ` {''net_admin''}"
    by (simp add: LINUX_CAPABILITIES_def canonical_linux_capability_name_def to_ascii_upper_def
      is_ascii_lowercase_def starts_with_def char_of_def bit_0)
  moreover have "cp_allowed (zpol_capabilities demo_policy) = [''net_admin'']" by (simp add: demo_policy_def)
  moreover have "set_zone_policy (\<lambda>_. None) (zi_zone_id demo_caller) demo_policy demo_maps = (Inr (), demo_kernel)"
    using demo_set_policy by simp
  ultimately show ?thesis
    using installed_policy_is_enforced [OF _ demo_confined_kernel] by (metis list.simps(15) of_nat_eq_iff set_empty2)
qed

subsection \<open>The walk is complete\<close>

definition listed :: "dirs \<Rightarrow> string \<Rightarrow> string \<Rightarrow> u64 \<Rightarrow> bool \<Rightarrow> bool" where
  "listed fs d p ino isd = (\<exists>es. fs d = Inr es \<and> Inr (p, Inr (ino, isd)) \<in> set es)"

inductive under :: "dirs \<Rightarrow> string \<Rightarrow> string \<Rightarrow> bool" for fs root where
  under_root: "under fs root root"
| under_sub: "under fs root d \<Longrightarrow> listed fs d p ino True \<Longrightarrow> under fs root p"

text \<open>Two directory entries with the same inode are the same directory: one file system, no
  directory hard links.\<close>

definition unique_dirs :: "dirs \<Rightarrow> bool" where
  "unique_dirs fs = (\<forall>d d' p p' ino. listed fs d p ino True \<longrightarrow> listed fs d' p' ino True \<longrightarrow> p = p')"

definition seen_dirs :: "dirs \<Rightarrow> string set \<Rightarrow> u64 list \<Rightarrow> bool" where
  "seen_dirs fs X V = (\<forall>ino \<in> set V. \<forall>d p. listed fs d p ino True \<longrightarrow> p \<in> X)"

lemma walk_entries_Cons:
  "walk_entries cap dir (e # es) I V S = Inr r \<longleftrightarrow> length I < cap \<and>
    (\<exists>q n b. e = Inr (q, Inr (n, b)) \<and>
      walk_entries cap dir es (I @ [n]) (if b \<and> n \<notin> set V then n # V else V)
        (if b \<and> n \<notin> set V then q # S else S) = Inr r)"
  by (auto split: sum.splits prod.splits if_splits)

lemma walk_entries_complete:
  "\<lbrakk>walk_entries cap dir es I V S = Inr (I', V', S'); unique_dirs fs;
    \<forall>p ino isd. Inr (p, Inr (ino, isd)) \<in> set es \<longrightarrow> listed fs dir p ino isd;
    seen_dirs fs (X \<union> set S) V\<rbrakk> \<Longrightarrow>
   set I \<subseteq> set I' \<and> set S \<subseteq> set S' \<and> seen_dirs fs (X \<union> set S') V' \<and>
   (\<forall>p ino isd. Inr (p, Inr (ino, isd)) \<in> set es \<longrightarrow> ino \<in> set I' \<and> (isd \<longrightarrow> p \<in> X \<union> set S'))"
proof (induction es arbitrary: I V S)
  case (Cons e es)
  from Cons.prems(1) obtain q n b where e: "e = Inr (q, Inr (n, b))" and
      w: "walk_entries cap dir es (I @ [n]) (if b \<and> n \<notin> set V then n # V else V)
        (if b \<and> n \<notin> set V then q # S else S) = Inr (I', V', S')"
    unfolding walk_entries_Cons by blast
  let ?V = "if b \<and> n \<notin> set V then n # V else V" and ?S = "if b \<and> n \<notin> set V then q # S else S"
  have q: "listed fs dir q n b" using Cons.prems(3) e by simp
  have "seen_dirs fs (X \<union> set ?S) ?V"
    using Cons.prems(2,4) q unfolding seen_dirs_def unique_dirs_def by (cases "b \<and> n \<notin> set V"; simp) blast+
  then have ih: "set (I @ [n]) \<subseteq> set I' \<and> set ?S \<subseteq> set S' \<and> seen_dirs fs (X \<union> set S') V' \<and>
     (\<forall>p ino isd. Inr (p, Inr (ino, isd)) \<in> set es \<longrightarrow> ino \<in> set I' \<and> (isd \<longrightarrow> p \<in> X \<union> set S'))"
    using Cons.IH [OF w Cons.prems(2)] Cons.prems(3) by simp
  moreover have "b \<Longrightarrow> q \<in> X \<union> set S'"
    using ih Cons.prems(4) q unfolding seen_dirs_def by (cases "n \<in> set V"; simp) blast
  moreover have "set S \<subseteq> set S'" using ih by (auto split: if_splits)
  ultimately show ?case using e by auto
qed simp

text \<open>What the loop knows: the directories in \<open>D\<close> are done.\<close>

definition walk_inv :: "dirs \<Rightarrow> string set \<Rightarrow> u64 list \<Rightarrow> u64 list \<Rightarrow> string list \<Rightarrow> bool" where
  "walk_inv fs D I V S =
    (seen_dirs fs (D \<union> set S) V \<and>
     (\<forall>d \<in> D. \<forall>p ino isd. listed fs d p ino isd \<longrightarrow> ino \<in> set I \<and> (isd \<longrightarrow> p \<in> D \<union> set S)))"

lemma walk_inv_step:
  assumes "walk_inv fs D I V (dir # S)" and "fs dir = Inr es" and "unique_dirs fs"
    and "walk_entries cap dir es I V S = Inr (I', V', S')"
  shows "walk_inv fs (insert dir D) I' V' S'" and "insert dir D \<union> set S \<subseteq> insert dir D \<union> set S'"
proof -
  have seen: "seen_dirs fs (insert dir D \<union> set S) V" using assms(1) by (simp add: walk_inv_def)
  have listed: "\<forall>p ino isd. Inr (p, Inr (ino, isd)) \<in> set es \<longrightarrow> listed fs dir p ino isd"
    using assms(2) by (simp add: listed_def)
  note c = walk_entries_complete [OF assms(4,3) listed seen]
  show "insert dir D \<union> set S \<subseteq> insert dir D \<union> set S'" using c by auto
  show "walk_inv fs (insert dir D) I' V' S'"
    unfolding walk_inv_def
  proof (intro conjI ballI allI impI)
    show "seen_dirs fs (insert dir D \<union> set S') V'" using c by blast
  next
    fix d p ino isd
    assume d: "d \<in> insert dir D" and l: "listed fs d p ino isd"
    show "ino \<in> set I'" using c d l assms(1,2) by (auto simp: listed_def walk_inv_def)
    assume isd
    then show "p \<in> insert dir D \<union> set S'" using c d l assms(1,2) by (fastforce simp: listed_def walk_inv_def)
  qed
qed

lemma collect_loop_complete:
  "\<lbrakk>collect_loop fs cap I V S = Inr R; unique_dirs fs; walk_inv fs D I V S\<rbrakk> \<Longrightarrow>
   \<exists>D' V'. D \<union> set S \<subseteq> D' \<and> walk_inv fs D' R V' []"
proof (induction fs cap I V S arbitrary: D rule: collect_loop.induct)
  case (1 fs cap inodes visited)
  then show ?case by fastforce
next
  case (2 fs cap inodes visited dir stack)
  then obtain es I' V' S' where es: "fs dir = Inr es" and
      w: "walk_entries cap dir es inodes visited stack = Inr (I', V', S')" and
      r: "collect_loop fs cap I' V' S' = Inr R"
    by (auto split: sum.splits)
  note inv = walk_inv_step [OF "2.prems"(3) es "2.prems"(2) w]
  from "2.IH" [OF es w _ _ r "2.prems"(2) inv(1)] obtain D' V'' where
    "insert dir D \<union> set S' \<subseteq> D'" "walk_inv fs D' R V'' []" by blast
  then show ?case using inv(2) by (intro exI conjI) auto
qed

lemma collect_loop_bound: "collect_loop fs cap I V S = Inr R \<Longrightarrow> length I \<le> cap \<Longrightarrow> length R \<le> cap"
proof (induction fs cap I V S rule: collect_loop.induct)
  case (2 fs cap inodes visited dir stack)
  then obtain es I' V' S' where es: "fs dir = Inr es" and
      w: "walk_entries cap dir es inodes visited stack = Inr (I', V', S')" and
      r: "collect_loop fs cap I' V' S' = Inr R"
    by (auto split: sum.splits)
  have "length I' \<le> cap" using walk_entries_length [OF w] "2.prems"(2) by (cases "es = []") auto
  then show ?case using "2.IH" [OF es w _ _ r] by simp
qed simp


definition demo_fs :: dirs where
  "demo_fs d =
    (if d = ''/'' then Inr [Inr (''/bin'', Inr (2, True)), Inr (''/a'', Inr (3, False))]
     else if d = ''/bin'' then Inr [Inr (''/bin/sh'', Inr (4, False))]
     else Inl ''ENOENT'')"


end
