(* ===== verification/Kernel_Offsets.thy ===== *)
theory Kernel_Offsets
  imports Rauha_Prelude
begin

text \<open>
  Kernel structure offsets, \<open>rauha-ebpf-common/src/offsets.rs\<close>: which fields the eBPF
  programs need, how \<open>pahole\<close> output is read, and the sidecar file that records the offsets an
  object was compiled with. The file system, \<open>PATH\<close> and the \<open>pahole\<close> process are the record
  \<open>pahole_env\<close>. A \<open>usize\<close> is at most \<open>2 ^ 64 - 1\<close>.
\<close>

definition OBJECT_SHA256_KEY :: string where "OBJECT_SHA256_KEY = ''OBJECT_SHA256''"

record OffsetDef =
  type_name :: string
  field_names :: "string list"
  od_rust_const :: string
  od_manifest_key :: string

record ResolvedOffset =
  rust_const :: string
  manifest_key :: string
  offset :: nat

record OffsetManifest =
  object_sha256 :: string
  offsets_of :: "string \<rightharpoonup> nat"

definition OFFSET_DEFS :: "OffsetDef list" where
  "OFFSET_DEFS =
    [\<lparr>type_name = ''task_struct'', field_names = [''cgroups''],
      od_rust_const = ''TASK_CGROUPS'', od_manifest_key = ''TASK_CGROUPS_OFFSET''\<rparr>,
     \<lparr>type_name = ''css_set'', field_names = [''dfl_cgrp''],
      od_rust_const = ''CSS_SET_DFL_CGRP'', od_manifest_key = ''CSS_SET_DFL_CGRP_OFFSET''\<rparr>,
     \<lparr>type_name = ''cgroup'', field_names = [''kn''],
      od_rust_const = ''CGROUP_KN'', od_manifest_key = ''CGROUP_KN_OFFSET''\<rparr>,
     \<lparr>type_name = ''kernfs_node'', field_names = [''id''],
      od_rust_const = ''KERNFS_NODE_ID'', od_manifest_key = ''KERNFS_NODE_ID_OFFSET''\<rparr>,
     \<lparr>type_name = ''file'', field_names = [''f_inode''],
      od_rust_const = ''FILE_F_INODE'', od_manifest_key = ''FILE_F_INODE_OFFSET''\<rparr>,
     \<lparr>type_name = ''inode'', field_names = [''i_ino''],
      od_rust_const = ''INODE_I_INO'', od_manifest_key = ''INODE_I_INO_OFFSET''\<rparr>,
     \<lparr>type_name = ''linux_binprm'', field_names = [''file'', ''executable''],
      od_rust_const = ''BPRM_FILE'', od_manifest_key = ''BPRM_FILE_OFFSET''\<rparr>]"

record pahole_env =
  path_exists :: "string \<Rightarrow> bool"
  env_path :: "string list option"
  run_pahole :: "string \<Rightarrow> string \<Rightarrow> string + (string + string)"

definition which_pahole :: "pahole_env \<Rightarrow> string option" where
  "which_pahole env =
    (case find (path_exists env) [''/usr/bin/pahole'', ''/usr/local/bin/pahole''] of
       Some path \<Rightarrow> Some path
     | None \<Rightarrow>
         (case env_path env of
            None \<Rightarrow> None
          | Some dirs \<Rightarrow> find (path_exists env) (map (\<lambda>dir. path_join dir ''pahole'') dirs)))"

definition quote :: string where "quote = [CHR 0x27]"

text \<open>One line of \<open>pahole\<close> output: the offset, if the line declares the field.\<close>

definition pahole_line :: "string \<Rightarrow> string \<Rightarrow> nat option" where
  "pahole_line field_name line =
    (let trimmed = trim line in
     case rfind_str trimmed ''/*'' of
       None \<Rightarrow> None
     | Some comment_start \<Rightarrow>
         let declaration = hd (split_on CHR '';'' (trim (take comment_start trimmed)));
             ws = split_whitespace declaration
         in if ws = [] then None
            else if hd (split_on CHR '':'' (trim_start_matches CHR ''*'' (last ws))) \<noteq> field_name
            then None
            else let comment = drop (comment_start + 2) trimmed in
              case find_str comment ''*/'' of
                None \<Rightarrow> None
              | Some comment_end \<Rightarrow>
                  case split_whitespace (trim (take comment_end comment)) of
                    [] \<Rightarrow> None
                  | offset_str # _ \<Rightarrow> parse_uint (2 ^ 64 - 1) offset_str)"

fun pahole_lines :: "string \<Rightarrow> string list \<Rightarrow> nat option" where
  "pahole_lines field_name [] = None"
| "pahole_lines field_name (l # ls) =
     (case pahole_line field_name l of Some n \<Rightarrow> Some n | None \<Rightarrow> pahole_lines field_name ls)"

definition parse_pahole_field_offset :: "string \<Rightarrow> string \<Rightarrow> string + nat" where
  "parse_pahole_field_offset out field_name =
    ok_or (''field '' @ quote @ field_name @ quote @ '' not found in pahole output'') (pahole_lines field_name (lines out))"

definition pahole_field_offset :: "pahole_env \<Rightarrow> string \<Rightarrow> string \<Rightarrow> string \<Rightarrow> string + nat" where
  "pahole_field_offset env pahole tname field_name =
    (case run_pahole env pahole tname of
       Inl e \<Rightarrow> Inl (''failed to run '' @ pahole @ '': '' @ e)
     | Inr (Inl stderr) \<Rightarrow> Inl (''pahole failed for '' @ tname @ '': '' @ trim stderr)
     | Inr (Inr stdout) \<Rightarrow> parse_pahole_field_offset stdout field_name)"

fun first_field :: "pahole_env \<Rightarrow> string \<Rightarrow> string \<Rightarrow> string list \<Rightarrow> nat option" where
  "first_field env pahole tname [] = None"
| "first_field env pahole tname (f # fs) =
     (case pahole_field_offset env pahole tname f of
        Inr n \<Rightarrow> Some n
      | Inl e \<Rightarrow> first_field env pahole tname fs)"

definition pahole_field_offset_any ::
  "pahole_env \<Rightarrow> string \<Rightarrow> string \<Rightarrow> string list \<Rightarrow> string + nat" where
  "pahole_field_offset_any env pahole tname fnames =
    ok_or (''none of fields ['' @ join '', '' fnames @ ''] found in pahole output for '' @ quote @ tname @ quote)
      (first_field env pahole tname fnames)"

definition resolve_kernel_offsets :: "pahole_env \<Rightarrow> string + ResolvedOffset list" where
  "resolve_kernel_offsets env =
    and_then (ok_or ''pahole not found; install dwarves or put pahole on PATH'' (which_pahole env))
      (\<lambda>pahole. collect_results (\<lambda>d.
         and_then (pahole_field_offset_any env pahole (type_name d) (field_names d))
           (\<lambda>n. Inr \<lparr>rust_const = od_rust_const d, manifest_key = od_manifest_key d, offset = n\<rparr>))
         OFFSET_DEFS)"

definition resolve_kernel_offsets_map :: "pahole_env \<Rightarrow> string + (string \<rightharpoonup> nat)" where
  "resolve_kernel_offsets_map env =
    and_then (resolve_kernel_offsets env)
      (\<lambda>offs. Inr (foldl (\<lambda>m r. m(manifest_key r \<mapsto> offset r)) Map.empty offs))"

definition offsets_sidecar_path :: "string \<Rightarrow> string" where
  "offsets_sidecar_path ebpf_obj_path =
    with_file_name ebpf_obj_path
      ((case path_file_name ebpf_obj_path of Some name \<Rightarrow> name | None \<Rightarrow> ''rauha-ebpf'') @ ''.offsets'')"

definition render_offsets_sidecar :: "string \<Rightarrow> ResolvedOffset list \<Rightarrow> string" where
  "render_offsets_sidecar sha offs =
    ''# Generated by `cargo xtask build-ebpf`.'' @ [newline] @
    ''# key=value byte offsets compiled into the eBPF object.'' @ [newline] @
    OBJECT_SHA256_KEY @ ''='' @ sha @ [newline] @
    concat (map (\<lambda>r. manifest_key r @ ''='' @ dec (offset r) @ [newline]) offs)"

fun sidecar_lines ::
  "nat \<Rightarrow> string list \<Rightarrow> string option \<Rightarrow> (string \<rightharpoonup> nat) \<Rightarrow> string + string option \<times> (string \<rightharpoonup> nat)" where
  "sidecar_lines line_no [] sha offs = Inr (sha, offs)"
| "sidecar_lines line_no (line # ls) sha offs =
     (let trimmed = trim line in
      if trimmed = [] \<or> starts_with trimmed ''#'' then sidecar_lines (line_no + 1) ls sha offs
      else case split_once CHR ''='' trimmed of
        None \<Rightarrow> Inl (''invalid offsets sidecar line '' @ dec (line_no + 1))
      | Some (k, v) \<Rightarrow>
          let key = trim k; val = trim v in
          if key = OBJECT_SHA256_KEY then
            (if sha \<noteq> None then Inl (''duplicate '' @ OBJECT_SHA256_KEY @ '' in offsets sidecar'')
             else sidecar_lines (line_no + 1) ls (Some val) offs)
          else case parse_u64 val of
            Inl e \<Rightarrow> Inl (''invalid offset value for '' @ key @ '': '' @ int_error e)
          | Inr n \<Rightarrow>
              if offs key \<noteq> None then Inl (''duplicate offset key '' @ key @ '' in offsets sidecar'')
              else sidecar_lines (line_no + 1) ls sha (offs(key \<mapsto> n)))"

declare sidecar_lines.simps(2) [simp del]

definition parse_offsets_sidecar :: "string \<Rightarrow> string + OffsetManifest" where
  "parse_offsets_sidecar content =
    and_then (sidecar_lines 0 (lines content) None Map.empty) (\<lambda>(sha, offs).
    and_then (ok_or (''missing '' @ OBJECT_SHA256_KEY @ '' in offsets sidecar'') sha) (\<lambda>sha.
    Inr \<lparr>object_sha256 = sha, offsets_of = offs\<rparr>))"

subsection \<open>The sidecar round trip\<close>

text \<open>Each offset comes from its definition's fields.\<close>

definition resolves :: "pahole_env \<Rightarrow> string \<Rightarrow> OffsetDef \<Rightarrow> ResolvedOffset \<Rightarrow> bool" where
  "resolves env pahole d r =
    (\<exists>n. pahole_field_offset_any env pahole (type_name d) (field_names d) = Inr n \<and>
      r = \<lparr>rust_const = od_rust_const d, manifest_key = od_manifest_key d, offset = n\<rparr>)"

lemma resolve_kernel_offsets_Inr:
  "resolve_kernel_offsets env = Inr offs \<Longrightarrow> \<exists>pahole. list_all2 (resolves env pahole) OFFSET_DEFS offs"
proof -
  have "(\<lambda>d r. and_then (pahole_field_offset_any env x (type_name d) (field_names d))
      (\<lambda>n. Inr \<lparr>rust_const = od_rust_const d, manifest_key = od_manifest_key d, offset = n\<rparr>) = Inr r)
    = resolves env x" for x
    by (auto simp: fun_eq_iff resolves_def result_simps)
  then show "resolve_kernel_offsets env = Inr offs \<Longrightarrow> \<exists>pahole. list_all2 (resolves env pahole) OFFSET_DEFS offs"
    by (auto simp: resolve_kernel_offsets_def result_simps)
qed

lemma resolves_keys:
  "list_all2 (resolves env p) ds rs \<Longrightarrow> map manifest_key rs = map od_manifest_key ds"
  by (induction rule: list_all2_induct) (auto simp: resolves_def)

lemma pahole_line_bound: "pahole_line f l = Some n \<Longrightarrow> n \<le> 2 ^ 64 - 1"
  by (auto simp: pahole_line_def Let_def split: option.splits if_splits list.splits dest: parse_uint_bound)

lemma pahole_lines_bound: "pahole_lines f ls = Some n \<Longrightarrow> n \<le> 2 ^ 64 - 1"
  by (induction ls) (auto split: option.splits dest: pahole_line_bound)

lemma pahole_field_offset_any_bound:
  "pahole_field_offset_any env p t fs = Inr n \<Longrightarrow> n \<le> 2 ^ 64 - 1"
proof -
  have "first_field env p t fs = Some n \<Longrightarrow> n \<le> 2 ^ 64 - 1"
    by (induction fs) (auto simp: pahole_field_offset_def parse_pahole_field_offset_def result_simps
      split: sum.splits dest: pahole_lines_bound)
  then show "pahole_field_offset_any env p t fs = Inr n \<Longrightarrow> n \<le> 2 ^ 64 - 1"
    by (simp add: pahole_field_offset_any_def result_simps)
qed

lemma resolves_bound:
  "list_all2 (resolves env p) ds rs \<Longrightarrow> r \<in> set rs \<Longrightarrow> offset r \<le> 2 ^ 64 - 1"
  by (induction rule: list_all2_induct) (auto simp: resolves_def dest!: pahole_field_offset_any_bound)

text \<open>A key that can stand in the file.\<close>

definition plain_key :: "string \<Rightarrow> bool" where
  "plain_key k = (k \<noteq> [] \<and> list_all (\<lambda>c. \<not> is_whitespace c \<and> c \<noteq> CHR ''='') k \<and>
     \<not> starts_with k ''#'' \<and> k \<noteq> OBJECT_SHA256_KEY)"

lemma OFFSET_DEFS_keys:
  "list_all plain_key (map od_manifest_key OFFSET_DEFS)" "distinct (map od_manifest_key OFFSET_DEFS)"
  by (simp_all add: OFFSET_DEFS_def plain_key_def is_whitespace_def starts_with_def OBJECT_SHA256_KEY_def)

lemma dec_no_space: "list_all (\<lambda>c. \<not> is_whitespace c) (dec n)"
  using dec_digits [of n] digit_not_whitespace by (auto simp: list_all_iff)

lemma sidecar_entry:
  assumes "plain_key k" and "n \<le> 2 ^ 64 - 1" and "offs k = None"
  shows "sidecar_lines i ((k @ ''='' @ dec n) # ls) sha offs = sidecar_lines (i + 1) ls sha (offs(k \<mapsto> n))"
proof -
  have "trim (k @ ''='' @ dec n) = k @ ''='' @ dec n"
    using assms(1) dec_no_space by (intro trim_no_space) (auto simp: plain_key_def list_all_iff is_whitespace_def)
  moreover have "split_once CHR ''='' (k @ ''='' @ dec n) = Some (k, dec n)"
    using assms(1) by (subst split_once_Some) (auto simp: plain_key_def list_all_iff)
  moreover have "trim k = k" using assms(1) by (intro trim_no_space) (auto simp: plain_key_def list_all_iff)
  moreover have "trim (dec n) = dec n" by (intro trim_no_space dec_no_space)
  moreover have "\<not> starts_with (k @ ''='' @ dec n) ''#''" and "k @ ''='' @ dec n \<noteq> []"
    using assms(1) by (cases k; simp add: plain_key_def starts_with_def)+
  moreover have "parse_u64 (dec n) = Inr n" by (rule parse_int_dec [OF assms(2)])
  moreover have "k \<noteq> OBJECT_SHA256_KEY" using assms(1) by (simp add: plain_key_def)
  ultimately show ?thesis using assms(3) by (simp add: sidecar_lines.simps Let_def del: split_once.simps)
qed

lemma sidecar_entries:
  "\<lbrakk>list_all plain_key (map manifest_key rs); distinct (map manifest_key rs);
    \<forall>r \<in> set rs. offset r \<le> 2 ^ 64 - 1 \<and> offs (manifest_key r) = None\<rbrakk> \<Longrightarrow>
   sidecar_lines i (map (\<lambda>r. manifest_key r @ ''='' @ dec (offset r)) rs) sha offs =
   Inr (sha, foldl (\<lambda>m r. m(manifest_key r \<mapsto> offset r)) offs rs)"
proof (induction rs arbitrary: i offs)
  case (Cons r rs)
  have "sidecar_lines i (map (\<lambda>r. manifest_key r @ ''='' @ dec (offset r)) (r # rs)) sha offs =
      sidecar_lines (i + 1) (map (\<lambda>r. manifest_key r @ ''='' @ dec (offset r)) rs) sha
        (offs(manifest_key r \<mapsto> offset r))"
    unfolding list.map using Cons.prems by (intro sidecar_entry) simp_all
  also have "\<dots> = Inr (sha, foldl (\<lambda>m r. m(manifest_key r \<mapsto> offset r)) (offs(manifest_key r \<mapsto> offset r)) rs)"
    using Cons.prems by (intro Cons.IH) (auto, metis imageI)
  finally show ?case by (simp only: list.map foldl.simps)
qed simp

text \<open>Lines that are not entries: the two comments and the hash.\<close>

lemma sidecar_comment: "sidecar_lines i ((CHR ''#'' # c) # ls) sha offs = sidecar_lines (i + 1) ls sha offs"
proof -
  have "\<not> is_whitespace CHR ''#''" by (simp add: is_whitespace_def)
  then have "\<exists>t. trim (CHR ''#'' # c) = CHR ''#'' # t"
    by (auto simp: trim_def dropWhile_append intro: exI [of _ "rev (dropWhile is_whitespace (rev c))"])
  then show ?thesis by (auto simp: sidecar_lines.simps starts_with_def)
qed

lemma sidecar_hash:
  assumes "list_all (\<lambda>c. \<not> is_whitespace c) h"
  shows "sidecar_lines i ((OBJECT_SHA256_KEY @ ''='' @ h) # ls) None offs = sidecar_lines (i + 1) ls (Some h) offs"
proof -
  have "list_all (\<lambda>c. \<not> is_whitespace c) (OBJECT_SHA256_KEY @ ''='' @ h)"
    using assms by (simp add: OBJECT_SHA256_KEY_def is_whitespace_def)
  then have "trim (OBJECT_SHA256_KEY @ ''='' @ h) = OBJECT_SHA256_KEY @ ''='' @ h" by (rule trim_no_space)
  moreover have "split_once CHR ''='' (OBJECT_SHA256_KEY @ ''='' @ h) = Some (OBJECT_SHA256_KEY, h)"
    by (simp add: OBJECT_SHA256_KEY_def)
  moreover have "trim OBJECT_SHA256_KEY = OBJECT_SHA256_KEY"
    by (intro trim_no_space) (simp add: OBJECT_SHA256_KEY_def is_whitespace_def)
  moreover have "trim h = h" by (rule trim_no_space [OF assms])
  moreover have "\<not> starts_with (OBJECT_SHA256_KEY @ ''='' @ h) ''#''" "OBJECT_SHA256_KEY @ ''='' @ h \<noteq> []"
    by (simp_all add: OBJECT_SHA256_KEY_def starts_with_def)
  ultimately show ?thesis by (simp add: sidecar_lines.simps Let_def del: split_once.simps)
qed

lemma no_space_line:
  "list_all (\<lambda>c. \<not> is_whitespace c) l \<Longrightarrow> CHR 0x0A \<notin> set l \<and> strip_cr l = l"
  by (auto simp: strip_cr_def list_all_iff is_whitespace_def dest!: last_in_set)

lemma render_lines:
  assumes "list_all (\<lambda>c. \<not> is_whitespace c) h" and "list_all plain_key (map manifest_key rs)"
  shows "lines (render_offsets_sidecar h rs) =
    ''# Generated by `cargo xtask build-ebpf`.'' #
    ''# key=value byte offsets compiled into the eBPF object.'' #
    (OBJECT_SHA256_KEY @ ''='' @ h) # map (\<lambda>r. manifest_key r @ ''='' @ dec (offset r)) rs" (is "_ = ?ls")
proof -
  have "render_offsets_sidecar h rs = concat (map (\<lambda>l. l @ [CHR 0x0A]) ?ls)"
    by (simp add: render_offsets_sidecar_def newline_def comp_def)
  moreover have "CHR 0x0A \<notin> set l \<and> strip_cr l = l" if "l \<in> set (tl (tl ?ls))" for l
    using that assms dec_no_space
    by (intro no_space_line) (auto simp: OBJECT_SHA256_KEY_def is_whitespace_def plain_key_def list_all_iff)
  then have "list_all (\<lambda>l. CHR 0x0A \<notin> set l \<and> strip_cr l = l) ?ls"
    by (auto simp: list_all_iff strip_cr_def)
  ultimately show ?thesis by (simp only: lines_unlines)
qed

lemma parse_rendered_sidecar:
  assumes "resolve_kernel_offsets env = Inr offs" and "list_all (\<lambda>c. \<not> is_whitespace c) sha"
  shows "\<exists>m. resolve_kernel_offsets_map env = Inr m \<and>
    parse_offsets_sidecar (render_offsets_sidecar sha offs) = Inr \<lparr>object_sha256 = sha, offsets_of = m\<rparr>"
proof -
  from resolve_kernel_offsets_Inr [OF assms(1)] obtain p where p: "list_all2 (resolves env p) OFFSET_DEFS offs"
    by blast
  note keys = OFFSET_DEFS_keys [folded resolves_keys [OF p]]
  have "sidecar_lines 3 (map (\<lambda>r. manifest_key r @ ''='' @ dec (offset r)) offs) (Some sha) Map.empty =
      Inr (Some sha, foldl (\<lambda>m r. m(manifest_key r \<mapsto> offset r)) Map.empty offs)"
    using keys resolves_bound [OF p] by (intro sidecar_entries) auto
  then have "sidecar_lines 0 (lines (render_offsets_sidecar sha offs)) None Map.empty =
      Inr (Some sha, foldl (\<lambda>m r. m(manifest_key r \<mapsto> offset r)) Map.empty offs)"
    unfolding render_lines [OF assms(2) keys(1)] sidecar_comment sidecar_hash [OF assms(2)]
    by (simp add: numeral_3_eq_3)
  then show ?thesis using assms(1) by (simp add: parse_offsets_sidecar_def resolve_kernel_offsets_map_def)
qed

text \<open>A machine whose \<open>pahole\<close> finds every field at offset 40.\<close>

definition demo_pahole :: pahole_env where
  "demo_pahole =
    \<lparr>path_exists = (\<lambda>p. p = ''/usr/bin/pahole''), env_path = None,
     run_pahole = (\<lambda>_ t. Inr (Inr (concat (map (\<lambda>f. ''  void * '' @ f @ ''; /* 40 8 */'' @ [newline])
       [''cgroups'', ''dfl_cgrp'', ''kn'', ''id'', ''f_inode'', ''i_ino'', ''file'']))))\<rparr>"

definition demo_resolved :: "ResolvedOffset list" where
  "demo_resolved =
    map (\<lambda>d. \<lparr>rust_const = od_rust_const d, manifest_key = od_manifest_key d, offset = 40\<rparr>) OFFSET_DEFS"

lemma demo_pahole_resolves: "resolve_kernel_offsets demo_pahole = Inr demo_resolved"
proof -
  let ?fs = "[''cgroups'', ''dfl_cgrp'', ''kn'', ''id'', ''f_inode'', ''i_ino'', ''file'']"
  let ?line = "\<lambda>f. ''  void * '' @ f @ ''; /* 40 8 */''"
  have ls: "lines (concat (map (\<lambda>f. ''  void * '' @ f @ ''; /* 40 8 */'' @ [newline]) ?fs)) = map ?line ?fs"
    by code_simp
  have p: "parse_uint (2 ^ 64 - 1) ''40'' = Some 40"
    by (simp add: parse_uint_def parse_int_def starts_with_def is_ascii_digit_def digit_val_def)
  have l: "list_all (\<lambda>f. list_all (\<lambda>g. pahole_line g (?line f) = (if g = f then Some 40 else None)) ?fs) ?fs"
    by (simp add: pahole_line_def Let_def trim_def is_whitespace_def starts_with_def split_whitespace_def
      trim_start_matches_def p [simplified])
  show ?thesis using l
    by (simp add: resolve_kernel_offsets_def which_pahole_def demo_pahole_def OFFSET_DEFS_def demo_resolved_def
      pahole_field_offset_any_def pahole_field_offset_def parse_pahole_field_offset_def ls [simplified])
qed

text \<open>The sidecar written for the offsets resolved from a kernel reads back as the object's
  hash and exactly the offset map the loader resolves from that kernel.\<close>

lemma sidecar_round_trip:
  assumes "resolve_kernel_offsets env = Inr offs" and "list_all (\<lambda>c. \<not> is_whitespace c) sha"
  shows "\<exists>m. resolve_kernel_offsets_map env = Inr m \<and>
    parse_offsets_sidecar (render_offsets_sidecar sha offs) = Inr \<lparr>object_sha256 = sha, offsets_of = m\<rparr>"
  using assms by (rule parse_rendered_sidecar)

end
