(* ===== verification/Ebpf_Loader.thy ===== *)
theory Ebpf_Loader
  imports Bpf_Maps Kernel_Offsets "HOL-Library.AList"
begin

text \<open>
  Loading the eBPF object, \<open>rauhad/src/backend/linux/ebpf.rs\<close>: the kernel version and offset
  checks, attaching the LSM programs, the offset self-test, health and counters. The record
  \<open>machine\<close> is what the host answers: files, BTF, the \<open>aya\<close> loader and its programs, SHA-256.
  The counters of a hook are the sums over the CPUs.
\<close>

definition LSM_PROGRAMS :: "(string \<times> string) list" where
  "LSM_PROGRAMS =
    [(''rauha_file_open'', ''file_open''),
     (''rauha_bprm_check'', ''bprm_check_security''),
     (''rauha_ptrace_check'', ''ptrace_access_check''),
     (''rauha_task_kill'', ''task_kill''),
     (''rauha_cgroup_attach'', ''cgroup_attach_task''),
     (''rauha_capable'', ''capable''),
     (''rauha_socket_connect'', ''socket_connect'')]"

definition MAP_NAMES :: "string list" where
  "MAP_NAMES = [''ZONE_MEMBERSHIP'', ''ZONE_POLICY'', ''INODE_ZONE_MAP'', ''ZONE_ALLOWED_COMMS'',
    ''SELF_TEST'', ''ENFORCEMENT_COUNTERS'', ''ENFORCEMENT_EVENTS'']"

text \<open>A program of the loaded object: not an LSM program, or what loading it, attaching it and
  asking for its descriptor answer.\<close>

datatype aya_program = NotLsm string | LsmProgram "string + unit" "string + unit" "string + i32"

record machine =
  mc_read_text :: "string \<Rightarrow> string + string"
  mc_read :: "string \<Rightarrow> string + string"
  mc_exists :: "string \<Rightarrow> bool"
  mc_create_dir_all :: "string \<Rightarrow> string + unit"
  mc_btf :: "string + (string \<Rightarrow> bool)"
  mc_pahole :: pahole_env
  mc_sha256 :: "string \<Rightarrow> string"
  mc_load_object :: "string \<Rightarrow> string + (string \<Rightarrow> aya_program option)"
  mc_maps :: maps
  mc_faults :: faults
  mc_key_not_found :: string
  mc_fd_open :: "i32 \<Rightarrow> bool"
  mc_dirs :: dirs

record EbpfManager =
  bpf :: maps
  em_programs :: "string \<Rightarrow> aya_program option"
  pin_path :: string
  skipped_hooks :: "string list"
  program_fds :: "(string \<times> i32) list"

record ProgramStatus =
  ps_name :: string
  ps_loaded :: bool
  ps_attached :: bool

definition check_kernel_version :: "machine \<Rightarrow> unit rresult" where
  "check_kernel_version mc =
    (case mc_read_text mc ''/proc/sys/kernel/osrelease'' of
       Inl e \<Rightarrow> Inl (EbpfError (''cannot read kernel version: '' @ e) ''is /proc mounted?'')
     | Inr txt \<Rightarrow>
         let release = trim txt; parts = split_on CHR ''.'' release in
         if length parts < 2 then Inl (KernelTooOld ''6.1'' release)
         else
           let major = (case parse_uint (2 ^ 32 - 1) (parts ! 0) of Some n \<Rightarrow> n | None \<Rightarrow> 0);
               minor = (case parse_uint (2 ^ 32 - 1) (takeWhile is_ascii_digit (parts ! 1)) of
                          Some n \<Rightarrow> n | None \<Rightarrow> 0)
           in if major < 6 \<or> major = 6 \<and> minor < 1 then Inl (KernelTooOld ''6.1'' release)
              else Inr ())"

definition obj_sha256 :: "machine \<Rightarrow> string \<Rightarrow> string + string" where
  "obj_sha256 mc path =
    (case mc_read mc path of
       Inl e \<Rightarrow> Inl (''failed to read '' @ path @ '': '' @ e)
     | Inr data \<Rightarrow> Inr (mc_sha256 mc data))"

definition read_compiled_offsets :: "machine \<Rightarrow> string \<Rightarrow> (string \<rightharpoonup> nat) rresult" where
  "read_compiled_offsets mc obj =
    (let sidecar = offsets_sidecar_path obj in
     and_then (map_err (\<lambda>e. EbpfError (''failed to read eBPF offsets sidecar '' @ sidecar @ '': '' @ e)
         ''run `cargo xtask build-ebpf` to regenerate the eBPF object and sidecar'')
       (mc_read_text mc sidecar)) (\<lambda>content.
     and_then (map_err (\<lambda>e. EbpfError (''invalid eBPF offsets sidecar '' @ sidecar @ '': '' @ e)
         ''run `cargo xtask build-ebpf` to regenerate the sidecar'')
       (parse_offsets_sidecar content)) (\<lambda>manifest.
     and_then (map_err (\<lambda>e. EbpfError (''failed to hash eBPF object '' @ obj @ '': '' @ e)
         ''check eBPF object permissions and rebuild if needed'')
       (obj_sha256 mc obj)) (\<lambda>actual_hash.
     if actual_hash \<noteq> object_sha256 manifest then
       Inl (EbpfError (''eBPF object hash mismatch: sidecar has '' @ object_sha256 manifest @
           '' but object hashes to '' @ actual_hash)
         ''run `cargo xtask build-ebpf` to regenerate the sidecar'')
     else Inr (offsets_of manifest)))))"

fun check_offsets :: "OffsetDef list \<Rightarrow> (string \<rightharpoonup> nat) \<Rightarrow> (string \<rightharpoonup> nat) \<Rightarrow> unit rresult" where
  "check_offsets [] resolved compiled = Inr ()"
| "check_offsets (d # ds) resolved compiled =
     (case resolved (od_manifest_key d) of
        None \<Rightarrow> Inl (EbpfError (''resolved offset '' @ od_manifest_key d @ '' is missing'')
          ''install dwarves/pahole and rebuild eBPF programs'')
      | Some r \<Rightarrow>
          (case compiled (od_manifest_key d) of
             None \<Rightarrow> Inl (EbpfError (''compiled offset '' @ od_manifest_key d @ '' is missing from sidecar'')
               ''run `cargo xtask build-ebpf` to regenerate the eBPF object and sidecar'')
           | Some c \<Rightarrow>
               if r \<noteq> c then
                 Inl (EbpfError (''kernel struct offset mismatch for '' @ od_manifest_key d @
                   '': running kernel has '' @ dec r @ '' but eBPF object was compiled with '' @ dec c)
                   ''rebuild eBPF on this kernel with `cargo xtask build-ebpf`'')
               else check_offsets ds resolved compiled))"

definition attach_program :: "string \<Rightarrow> string \<Rightarrow> aya_program option \<Rightarrow> i32 rresult" where
  "attach_program prog_name hook_name prog =
    (case prog of
       None \<Rightarrow> Inl (EbpfError (''required eBPF program '' @ prog_name @ '' not found in object'')
         ''rebuild eBPF programs with `cargo xtask build-ebpf`'')
     | Some (NotLsm e) \<Rightarrow>
         Inl (EbpfError (''eBPF program '' @ prog_name @ '' is not an LSM program: '' @ e)
           ''rebuild eBPF programs with `cargo xtask build-ebpf`'')
     | Some (LsmProgram ld att fd) \<Rightarrow>
         and_then (map_err (\<lambda>e. EbpfError (''failed to load required LSM program '' @ prog_name @
             '' for hook '' @ hook_name @ '': '' @ e)
           ''check kernel has CONFIG_BPF_LSM=y, `lsm=bpf` in cmdline, and exposes every required hook'') ld) (\<lambda>_.
         and_then (map_err (\<lambda>e. EbpfError (''failed to attach required LSM program '' @ prog_name @ '': '' @ e)
           ''check kernel BPF-LSM support and process privileges'') att) (\<lambda>_.
         map_err (\<lambda>e. EbpfError (''failed to record fd for required LSM program '' @ prog_name @ '': '' @ e)
           ''restart rauhad to reload and reattach eBPF programs'') fd)))"

fun attach_programs ::
  "(string \<Rightarrow> bool) \<Rightarrow> (string \<Rightarrow> aya_program option) \<Rightarrow> (string \<times> string) list \<Rightarrow>
   (string \<times> i32) list \<Rightarrow> string list \<Rightarrow> ((string \<times> i32) list \<times> string list) rresult" where
  "attach_programs btf progs [] fds skipped = Inr (fds, skipped)"
| "attach_programs btf progs ((prog_name, hook_name) # ps) fds skipped =
     (if \<not> btf (''bpf_lsm_'' @ hook_name) then attach_programs btf progs ps fds (skipped @ [hook_name])
      else and_then (attach_program prog_name hook_name (progs prog_name))
        (\<lambda>fd. attach_programs btf progs ps (AList.update prog_name fd fds) skipped))"

definition verify_offset_self_test :: "machine \<Rightarrow> maps \<Rightarrow> unit rresult" where
  "verify_offset_self_test mc m =
    (if mc_faults mc (FindMap ''SELF_TEST'') \<noteq> None then
       Inl (EbpfError ''SELF_TEST map not found'' ''rebuild eBPF programs with `cargo xtask build-ebpf`'')
     else case mc_faults mc (OpenMap ''SELF_TEST'') of
       Some e \<Rightarrow> Inl (EbpfError (''failed to open SELF_TEST map: '' @ e) ''check eBPF object was built correctly'')
     | None \<Rightarrow>
         (case mc_faults mc (GetKey ''SELF_TEST'' 0) of
            Some e \<Rightarrow> Inl (EbpfError (''failed to read SELF_TEST map: '' @ e) ''eBPF program may not have executed yet'')
          | None \<Rightarrow>
              let r = SELF_TEST m in
              if helper_cgroup_id r = 0 \<and> offset_cgroup_id r = 0 then Inr ()
              else if helper_cgroup_id r \<noteq> offset_cgroup_id r then
                Inl (EbpfError (''offset self-test FAILED: bpf_get_current_cgroup_id()='' @
                    dec (unat (helper_cgroup_id r)) @ '' but offset chain produced '' @
                    dec (unat (offset_cgroup_id r)) @
                    ''. Compiled struct offsets are wrong for this kernel.'')
                  ''update offsets in rauha-ebpf/src/main.rs using `pahole -C task_struct /sys/kernel/btf/vmlinux` and rebuild'')
              else Inr ()))"

definition ebpf_load :: "machine \<Rightarrow> string \<Rightarrow> string \<Rightarrow> EbpfManager rresult" where
  "ebpf_load mc obj pin =
    and_then (check_kernel_version mc) (\<lambda>_.
    if \<not> mc_exists mc obj then
      Inl (EbpfError (''eBPF object not found: '' @ obj)
        ''run `cargo xtask build-ebpf` to compile the eBPF programs'')
    else
    and_then (map_err (\<lambda>e. EbpfError (''failed to create BPF pin directory: '' @ e)
      ''run rauhad as root with BPF filesystem mounted'') (mc_create_dir_all mc pin)) (\<lambda>_.
    and_then (map_err (\<lambda>e. EbpfError (''failed to load BTF from sysfs: '' @ e)
      ''kernel must have CONFIG_DEBUG_INFO_BTF=y'') (mc_btf mc)) (\<lambda>btf.
    and_then (map_err (\<lambda>e. EbpfError (''failed to resolve kernel offsets: '' @ e)
      ''install dwarves/pahole and ensure /sys/kernel/btf/vmlinux is present'')
      (resolve_kernel_offsets_map (mc_pahole mc))) (\<lambda>resolved.
    and_then (read_compiled_offsets mc obj) (\<lambda>compiled.
    and_then (check_offsets OFFSET_DEFS resolved compiled) (\<lambda>_.
    and_then (map_err (\<lambda>e. EbpfError (''failed to read eBPF object: '' @ e) (''check permissions on '' @ obj))
      (mc_read mc obj)) (\<lambda>obj_data.
    and_then (map_err (\<lambda>e. EbpfError (''failed to load eBPF programs: '' @ e)
      ''check kernel has CONFIG_BPF_LSM=y and `lsm=bpf` in cmdline'') (mc_load_object mc obj_data)) (\<lambda>progs.
    and_then (attach_programs btf progs LSM_PROGRAMS [] []) (\<lambda>(fds, skipped).
    let expected = length LSM_PROGRAMS - length skipped in
    if length fds \<noteq> expected then
      Inl (EbpfError (''partial LSM attachment: attached '' @ dec (length fds) @ '' of '' @
        dec expected @ '' attachable programs'') ''restart rauhad after fixing kernel BPF-LSM support'')
    else if fds = [] then
      Inl (EbpfError ''no LSM hooks could be attached on this kernel''
        (''kernel exposes none of Rauha'' @ quote @ ''s BPF-LSM hooks; check CONFIG_BPF_LSM=y and `lsm=bpf` in the kernel cmdline''))
    else
    and_then (verify_offset_self_test mc (mc_maps mc)) (\<lambda>_.
    Inr \<lparr>bpf = mc_maps mc, em_programs = progs, pin_path = pin, skipped_hooks = skipped,
      program_fds = fds\<rparr>))))))))))"

text \<open>A program descriptor is checked only by its number.\<close>

definition health_check :: "machine \<Rightarrow> EbpfManager \<Rightarrow> ProgramStatus list" where
  "health_check mc mgr =
    concat (map (\<lambda>(prog_name, _).
      case map_of (program_fds mgr) prog_name of
        None \<Rightarrow> []
      | Some fd \<Rightarrow> [\<lparr>ps_name = prog_name, ps_loaded = (em_programs mgr prog_name \<noteq> None),
          ps_attached = (0 \<le> sint fd \<and> mc_fd_open mc fd)\<rparr>]) LSM_PROGRAMS)"

definition read_counter :: "machine \<Rightarrow> maps \<Rightarrow> nat \<times> string \<Rightarrow> (string \<times> EnforcementCounters) rresult" where
  "read_counter mc m = (\<lambda>(idx, prog_name).
    case mc_faults mc (GetKey ''ENFORCEMENT_COUNTERS'' idx) of
      Some e \<Rightarrow> Inl (EbpfError (''failed to read counters for '' @ prog_name @ '': '' @ e) [])
    | None \<Rightarrow>
        (case ENFORCEMENT_COUNTERS m (of_nat idx) of
           None \<Rightarrow> Inl (EbpfError (''failed to read counters for '' @ prog_name @ '': '' @ mc_key_not_found mc) [])
         | Some c \<Rightarrow> Inr (prog_name, c)))"

definition read_enforcement_counters ::
  "machine \<Rightarrow> EbpfManager \<Rightarrow> (string \<times> EnforcementCounters) list rresult" where
  "read_enforcement_counters mc mgr =
    (if mc_faults mc (FindMap ''ENFORCEMENT_COUNTERS'') \<noteq> None then
       Inl (EbpfError ''ENFORCEMENT_COUNTERS map not found'' ''rebuild eBPF programs with `cargo xtask build-ebpf`'')
     else case mc_faults mc (OpenMap ''ENFORCEMENT_COUNTERS'') of
       Some e \<Rightarrow> Inl (EbpfError (''failed to open ENFORCEMENT_COUNTERS map: '' @ e)
         ''check eBPF object was built correctly'')
     | None \<Rightarrow> collect_results (read_counter mc (bpf mgr))
         (List.enumerate 0 (map fst LSM_PROGRAMS)))"

subsection \<open>What a successful load guarantees\<close>

definition exposed :: "(string \<Rightarrow> bool) \<Rightarrow> string \<times> string \<Rightarrow> bool" where
  "exposed btf = (\<lambda>(prog_name, hook_name). btf (''bpf_lsm_'' @ hook_name))"

definition attached :: "(string \<Rightarrow> aya_program option) \<Rightarrow> string \<times> i32 \<Rightarrow> bool" where
  "attached progs = (\<lambda>(p, fd). progs p = Some (LsmProgram (Inr ()) (Inr ()) (Inr fd)))"

lemma alist_update_new: "k \<notin> fst ` set al \<Longrightarrow> AList.update k v al = al @ [(k, v)]"
  by (induction al) auto

lemma attach_program_Inr: "attach_program p h prog = Inr fd \<longleftrightarrow> prog = Some (LsmProgram (Inr ()) (Inr ()) (Inr fd))"
  by (auto simp: attach_program_def result_simps split: option.splits aya_program.splits)

lemma attach_programs_Inr:
  "\<lbrakk>attach_programs btf progs ps fds sk = Inr (fds', sk'); distinct (map fst ps);
    fst ` set ps \<inter> fst ` set fds = {}\<rbrakk> \<Longrightarrow>
   sk' = sk @ map snd (filter (\<lambda>x. \<not> exposed btf x) ps) \<and>
   (\<exists>gs. fds' = fds @ gs \<and> map fst gs = map fst (filter (exposed btf) ps) \<and> list_all (attached progs) gs)"
proof (induction ps arbitrary: fds sk)
  case (Cons x ps)
  obtain p h where x: "x = (p, h)" by (cases x)
  show ?case
  proof (cases "exposed btf x")
    case True
    then obtain fd where fd: "attach_program p h (progs p) = Inr fd"
        and r: "attach_programs btf progs ps (AList.update p fd fds) sk = Inr (fds', sk')"
      using Cons.prems(1) x by (auto simp: exposed_def result_simps)
    have new: "AList.update p fd fds = fds @ [(p, fd)]"
      using Cons.prems(3) x by (intro alist_update_new) auto
    from Cons.IH [OF r] Cons.prems(2,3) x obtain gs where
      "sk' = sk @ map snd (filter (\<lambda>x. \<not> exposed btf x) ps)" "fds' = (fds @ [(p, fd)]) @ gs"
      "map fst gs = map fst (filter (exposed btf) ps)" "list_all (attached progs) gs"
      by (auto simp: new)
    then show ?thesis
      using True x fd by (auto simp: attached_def attach_program_Inr intro!: exI [of _ "(p, fd) # gs"])
  next
    case False
    then have r: "attach_programs btf progs ps fds (sk @ [h]) = Inr (fds', sk')"
      using Cons.prems(1) x by (auto simp: exposed_def)
    from Cons.IH [OF r] Cons.prems(2,3) show ?thesis using False x by simp
  qed
qed simp

lemma LSM_PROGRAMS_distinct: "distinct (map fst LSM_PROGRAMS)"
  by (simp add: LSM_PROGRAMS_def)

lemma check_offsets_Inr:
  "check_offsets ds resolved compiled = Inr () \<longleftrightarrow>
   (\<forall>d \<in> set ds. resolved (od_manifest_key d) \<noteq> None \<and>
     compiled (od_manifest_key d) = resolved (od_manifest_key d))"
  by (induction ds) (auto split: option.splits if_splits)

lemma verify_offset_self_test_Inr:
  "verify_offset_self_test mc m = Inr () \<Longrightarrow> helper_cgroup_id (SELF_TEST m) = offset_cgroup_id (SELF_TEST m)"
  by (auto simp: verify_offset_self_test_def Let_def split: if_splits option.splits)

text \<open>The defensive count of attached programs never refuses.\<close>

lemma attach_count:
  assumes "attach_programs btf progs LSM_PROGRAMS [] [] = Inr (fds, skipped)"
  shows "length fds = length LSM_PROGRAMS - length skipped"
proof -
  from attach_programs_Inr [OF assms LSM_PROGRAMS_distinct]
  have "length skipped = length (filter (\<lambda>x. \<not> exposed btf x) LSM_PROGRAMS)"
    and "length fds = length (filter (exposed btf) LSM_PROGRAMS)"
    by (auto dest: map_eq_imp_length_eq)
  then show ?thesis using sum_length_filter_compl [of "exposed btf" LSM_PROGRAMS] by simp
qed

text \<open>C10: a load that succeeds has attached every LSM program whose hook the kernel exposes and
  reports exactly the others as skipped; at least one is attached; the object's recorded offsets
  are the running kernel's, for the object whose hash the sidecar names; and the two ways of
  reading a cgroup id agreed.\<close>

theorem loaded_means_enforcing:
  assumes "ebpf_load mc obj pin = Inr mgr"
  shows "\<exists>btf resolved. mc_btf mc = Inr btf \<and>
      skipped_hooks mgr = map snd (filter (\<lambda>x. \<not> exposed btf x) LSM_PROGRAMS) \<and>
      map fst (program_fds mgr) = map fst (filter (exposed btf) LSM_PROGRAMS) \<and>
      list_all (attached (em_programs mgr)) (program_fds mgr) \<and> program_fds mgr \<noteq> [] \<and>
      resolve_kernel_offsets_map (mc_pahole mc) = Inr resolved \<and>
      (\<exists>compiled. read_compiled_offsets mc obj = Inr compiled \<and>
        (\<forall>d \<in> set OFFSET_DEFS. compiled (od_manifest_key d) = resolved (od_manifest_key d))) \<and>
      helper_cgroup_id (SELF_TEST (bpf mgr)) = offset_cgroup_id (SELF_TEST (bpf mgr))"
proof -
  from assms obtain btf resolved compiled progs fds skipped where
    b: "mc_btf mc = Inr btf" and r: "resolve_kernel_offsets_map (mc_pahole mc) = Inr resolved" and
    c: "read_compiled_offsets mc obj = Inr compiled" and o: "check_offsets OFFSET_DEFS resolved compiled = Inr ()" and
    a: "attach_programs btf progs LSM_PROGRAMS [] [] = Inr (fds, skipped)" and ne: "fds \<noteq> []" and
    t: "verify_offset_self_test mc (mc_maps mc) = Inr ()" and
    m: "mgr = \<lparr>bpf = mc_maps mc, em_programs = progs, pin_path = pin, skipped_hooks = skipped, program_fds = fds\<rparr>"
    unfolding ebpf_load_def by (auto simp: result_simps Let_def split: if_splits)
  from attach_programs_Inr [OF a LSM_PROGRAMS_distinct] have
    "skipped = map snd (filter (\<lambda>x. \<not> exposed btf x) LSM_PROGRAMS)"
    "map fst fds = map fst (filter (exposed btf) LSM_PROGRAMS)" "list_all (attached progs) fds" by auto
  moreover have "\<forall>d \<in> set OFFSET_DEFS. compiled (od_manifest_key d) = resolved (od_manifest_key d)"
    using o by (simp add: check_offsets_Inr)
  ultimately show ?thesis
    using b r c ne m verify_offset_self_test_Inr [OF t] by auto
qed

text \<open>A kernel 6.8 that exposes every hook but \<open>cgroup_attach_task\<close>.\<close>

definition demo_machine :: machine where
  "demo_machine =
    \<lparr>mc_read_text = (\<lambda>p. if p = ''/proc/sys/kernel/osrelease'' then Inr ''6.8.0-generic''
       else if p = ''/rauha-ebpf.offsets'' then Inr (render_offsets_sidecar ''abc123'' demo_resolved)
       else Inl ''ENOENT''),
     mc_read = (\<lambda>p. if p = ''/rauha-ebpf'' then Inr ''object'' else Inl ''ENOENT''),
     mc_exists = (\<lambda>p. p = ''/rauha-ebpf''), mc_create_dir_all = (\<lambda>_. Inr ()),
     mc_btf = Inr (\<lambda>f. f \<noteq> ''bpf_lsm_cgroup_attach_task''),
     mc_pahole = demo_pahole, mc_sha256 = (\<lambda>_. ''abc123''),
     mc_load_object = (\<lambda>_. Inr (\<lambda>_. Some (LsmProgram (Inr ()) (Inr ()) (Inr 9)))),
     mc_maps = \<lparr>ZONE_MEMBERSHIP = Map.empty, ZONE_POLICY = Map.empty, INODE_ZONE_MAP = Map.empty,
       ZONE_ALLOWED_COMMS = Map.empty, SELF_TEST = \<lparr>helper_cgroup_id = 7, offset_cgroup_id = 7\<rparr>,
       ENFORCEMENT_COUNTERS = (\<lambda>_. Some \<lparr>cnt_allow = 0, cnt_deny = 0, cnt_error = 0\<rparr>), ENFORCEMENT_EVENTS = []\<rparr>,
     mc_faults = (\<lambda>_. None), mc_key_not_found = ''not found'', mc_fd_open = (\<lambda>_. True),
     mc_dirs = (\<lambda>_. Inr [])\<rparr>"

lemma demo_kernel_version: "check_kernel_version demo_machine = Inr ()"
  by (simp add: check_kernel_version_def demo_machine_def trim_def is_whitespace_def Let_def parse_uint_def
    parse_int_def starts_with_def is_ascii_digit_def digit_val_def)

lemma demo_sidecar_path: "offsets_sidecar_path ''/rauha-ebpf'' = ''/rauha-ebpf.offsets''"
  by (simp add: offsets_sidecar_path_def path_file_name_def with_file_name_def path_parent_def path_join_def
    trim_rpath.simps starts_with_def)

lemma demo_compiled:
  obtains m where "resolve_kernel_offsets_map demo_pahole = Inr m"
    and "read_compiled_offsets demo_machine ''/rauha-ebpf'' = Inr m"
proof -
  have "list_all (\<lambda>c. \<not> is_whitespace c) ''abc123''" by (simp add: is_whitespace_def)
  from parse_rendered_sidecar [OF demo_pahole_resolves this] obtain m where
    m: "resolve_kernel_offsets_map demo_pahole = Inr m"
    "parse_offsets_sidecar (render_offsets_sidecar ''abc123'' demo_resolved) =
      Inr \<lparr>object_sha256 = ''abc123'', offsets_of = m\<rparr>" by blast
  have "read_compiled_offsets demo_machine ''/rauha-ebpf'' = Inr m"
    unfolding read_compiled_offsets_def demo_sidecar_path
    by (simp add: demo_machine_def obj_sha256_def m(2))
  with m(1) show ?thesis by (rule that)
qed

definition demo_manager :: EbpfManager where
  "demo_manager =
    \<lparr>bpf = mc_maps demo_machine, em_programs = (\<lambda>_. Some (LsmProgram (Inr ()) (Inr ()) (Inr 9))),
     pin_path = ''/p'', skipped_hooks = [''cgroup_attach_task''],
     program_fds = map (\<lambda>(p, h). (p, 9)) (filter (\<lambda>(p, h). h \<noteq> ''cgroup_attach_task'') LSM_PROGRAMS)\<rparr>"

lemma demo_attach:
  "attach_programs (\<lambda>f. f \<noteq> ''bpf_lsm_cgroup_attach_task'') (\<lambda>_. Some (LsmProgram (Inr ()) (Inr ()) (Inr 9)))
     LSM_PROGRAMS [] [] = Inr (program_fds demo_manager, skipped_hooks demo_manager)"
  by (simp add: LSM_PROGRAMS_def attach_program_def demo_manager_def)

lemma resolved_keys:
  assumes "resolve_kernel_offsets_map env = Inr m" and "d \<in> set OFFSET_DEFS"
  shows "m (od_manifest_key d) \<noteq> None"
proof -
  from assms(1) obtain offs where offs: "resolve_kernel_offsets env = Inr offs"
      "m = foldl (\<lambda>m r. m(manifest_key r \<mapsto> offset r)) Map.empty offs"
    by (auto simp: resolve_kernel_offsets_map_def result_simps)
  have dom: "dom (foldl (\<lambda>m r. m(manifest_key r \<mapsto> offset r)) m0 rs) = dom m0 \<union> manifest_key ` set rs" for m0 rs
    by (induction rs arbitrary: m0) auto
  from resolve_kernel_offsets_Inr [OF offs(1)] obtain p where "list_all2 (resolves env p) OFFSET_DEFS offs" by blast
  then have "manifest_key ` set offs = od_manifest_key ` set OFFSET_DEFS"
    using resolves_keys by (metis list.set_map)
  then have "od_manifest_key d \<in> dom m" using assms(2) unfolding offs(2) dom by simp
  then show ?thesis by (simp add: domIff)
qed

lemma demo_load: "ebpf_load demo_machine ''/rauha-ebpf'' ''/p'' = Inr demo_manager"
proof (rule demo_compiled)
  fix m
  assume m: "resolve_kernel_offsets_map demo_pahole = Inr m" "read_compiled_offsets demo_machine ''/rauha-ebpf'' = Inr m"
  have "check_offsets OFFSET_DEFS m m = Inr ()" using resolved_keys [OF m(1)] by (simp add: check_offsets_Inr)
  moreover have "verify_offset_self_test demo_machine (mc_maps demo_machine) = Inr ()"
    by (simp add: verify_offset_self_test_def demo_machine_def)
  moreover have "mc_exists demo_machine ''/rauha-ebpf''" "mc_create_dir_all demo_machine ''/p'' = Inr ()"
      "mc_btf demo_machine = Inr (\<lambda>f. f \<noteq> ''bpf_lsm_cgroup_attach_task'')" "mc_pahole demo_machine = demo_pahole"
      "mc_read demo_machine ''/rauha-ebpf'' = Inr ''object''"
      "mc_load_object demo_machine ''object'' = Inr (\<lambda>_. Some (LsmProgram (Inr ()) (Inr ()) (Inr 9)))"
    by (simp_all add: demo_machine_def)
  moreover have "length (program_fds demo_manager) = length LSM_PROGRAMS - length (skipped_hooks demo_manager)"
      "program_fds demo_manager \<noteq> []"
    by (simp_all add: demo_manager_def LSM_PROGRAMS_def)
  moreover have "\<lparr>bpf = mc_maps demo_machine, em_programs = (\<lambda>_. Some (LsmProgram (Inr ()) (Inr ()) (Inr 9))),
      pin_path = ''/p'', skipped_hooks = skipped_hooks demo_manager, program_fds = program_fds demo_manager\<rparr> = demo_manager"
    by (simp add: demo_manager_def)
  ultimately show ?thesis
    using m demo_kernel_version demo_attach by (simp add: ebpf_load_def)
qed

theorem loaded_means_enforcing_witness:
  "list_all (attached (em_programs demo_manager)) (program_fds demo_manager) \<and> program_fds demo_manager \<noteq> []"
  using loaded_means_enforcing [OF demo_load] by blast

end
