(* ===== verification/Linux_Enforcer.thy ===== *)
theory Linux_Enforcer
  imports Ebpf_Loader Enforcer_Api
begin

text \<open>
  The Linux backend of the enforcement boundary, \<open>rauhad/src/backend/linux/enforcer.rs\<close>: the
  id-keyed operations on the loaded object and the name-keyed \<open>EnforcerBackend\<close> on top of
  them. Locks are held for a whole operation and are not poisoned. \<open>CARGO_MANIFEST_DIR\<close>'s
  parent is a field, since the build fixes it.
\<close>

record LinuxEnforcer =
  le_root :: string
  le_bpf_pin_dir :: string
  le_project_root :: string
  le_ebpf :: "EbpfManager option"
  le_event_tx :: bool
  trait_zones :: "string \<rightharpoonup> u32 \<times> ZoneType"
  trait_next_zone_id :: u32
  le_machine :: machine

definition ebpf_candidates :: "string \<Rightarrow> string \<Rightarrow> string list" where
  "ebpf_candidates project_root root =
    [path_join root ''rauha-ebpf'', ''/usr/lib/rauha/rauha-ebpf'',
     path_join project_root ''rauha-ebpf/target/bpfel-unknown-none/debug/rauha-ebpf'',
     path_join project_root ''rauha-ebpf/target/bpfel-unknown-none/release/rauha-ebpf'']"

definition load_ebpf :: "machine \<Rightarrow> string \<Rightarrow> string \<Rightarrow> string \<Rightarrow> EbpfManager rresult" where
  "load_ebpf mc project_root root pin =
    (case find (mc_exists mc) (ebpf_candidates project_root root) of
       Some path \<Rightarrow> ebpf_load mc path pin
     | None \<Rightarrow> Inl (EbpfError ''eBPF object not found in any known location''
         ''run `cargo xtask build-ebpf` to compile eBPF programs''))"

definition take_event_ring_buf :: "machine \<Rightarrow> unit rresult" where
  "take_event_ring_buf mc =
    (if mc_faults mc (FindMap ''ENFORCEMENT_EVENTS'') \<noteq> None then
       Inl (EbpfError ''ENFORCEMENT_EVENTS map not found or already taken''
         ''rebuild eBPF programs with `cargo xtask build-ebpf`'')
     else case mc_faults mc (OpenMap ''ENFORCEMENT_EVENTS'') of
       Some e \<Rightarrow> Inl (EbpfError (''failed to create RingBuf from ENFORCEMENT_EVENTS: '' @ e)
         ''check eBPF object was built correctly'')
     | None \<Rightarrow> Inr ())"

definition LinuxEnforcer_new :: "machine \<Rightarrow> string \<Rightarrow> string \<Rightarrow> string \<Rightarrow> LinuxEnforcer rresult" where
  "LinuxEnforcer_new mc project_root root pin =
    and_then (load_ebpf mc project_root root pin) (\<lambda>ebpf.
    and_then (map_err (\<lambda>e. EbpfError (''enforcement event ring buffer not available: '' @ show_error e)
      ''check the ENFORCEMENT_EVENTS ring buffer map was created'') (take_event_ring_buf mc)) (\<lambda>_.
    Inr \<lparr>le_root = root, le_bpf_pin_dir = pin, le_project_root = project_root, le_ebpf = Some ebpf,
      le_event_tx = True, trait_zones = Map.empty, trait_next_zone_id = 1, le_machine = mc\<rparr>))"

definition le_skipped_hooks :: "LinuxEnforcer \<Rightarrow> string list" where
  "le_skipped_hooks st = (case le_ebpf st of Some m \<Rightarrow> skipped_hooks m | None \<Rightarrow> [])"

definition unavailable :: "string \<Rightarrow> RauhaError" where
  "unavailable operation = EbpfError (''eBPF manager not available during '' @ operation)
    ''restart rauhad after restoring eBPF LSM support''"

definition with_bpf ::
  "string \<Rightarrow> (faults \<Rightarrow> maps \<Rightarrow> 'a rresult \<times> maps) \<Rightarrow> LinuxEnforcer \<Rightarrow> 'a rresult \<times> LinuxEnforcer" where
  "with_bpf operation f st =
    (case le_ebpf st of
       None \<Rightarrow> (Inl (unavailable operation), st)
     | Some mgr \<Rightarrow>
         (case f (mc_faults (le_machine st)) (bpf mgr) of
            (r, m) \<Rightarrow> (r, st\<lparr>le_ebpf := Some (mgr\<lparr>bpf := m\<rparr>)\<rparr>)))"

definition le_set_zone_policy :: "u32 \<Rightarrow> ZonePolicy \<Rightarrow> LinuxEnforcer \<Rightarrow> unit rresult \<times> LinuxEnforcer" where
  "le_set_zone_policy zid policy =
    with_bpf ''policy enforcement'' (\<lambda>f. set_zone_policy f zid policy)"

definition le_hot_reload_policy :: "u32 \<Rightarrow> ZonePolicy \<Rightarrow> LinuxEnforcer \<Rightarrow> unit rresult \<times> LinuxEnforcer" where
  "le_hot_reload_policy zid policy =
    with_bpf ''policy hot reload'' (\<lambda>f. hot_reload_policy f zid policy)"

definition apply_zone_enforcement ::
  "u32 \<Rightarrow> ZoneEnforcement \<Rightarrow> LinuxEnforcer \<Rightarrow> unit rresult \<times> LinuxEnforcer" where
  "apply_zone_enforcement zid zone =
    with_bpf ''zone enforcement'' (\<lambda>f. set_zone_policy_kernel f zid (enforcement_to_kernel zone))"

definition le_add_zone_member ::
  "u64 \<Rightarrow> u32 \<Rightarrow> ZoneType \<Rightarrow> LinuxEnforcer \<Rightarrow> unit rresult \<times> LinuxEnforcer" where
  "le_add_zone_member cgroup_id zid ztype =
    with_bpf ''zone membership'' (\<lambda>f. add_zone_member f cgroup_id zid ztype)"

definition le_remove_zone_member :: "u64 \<Rightarrow> LinuxEnforcer \<Rightarrow> unit rresult \<times> LinuxEnforcer" where
  "le_remove_zone_member cgroup_id =
    with_bpf ''zone membership cleanup'' (\<lambda>f. remove_zone_member f cgroup_id)"

definition zone_member_matches :: "u64 \<Rightarrow> u32 \<Rightarrow> LinuxEnforcer \<Rightarrow> bool rresult" where
  "zone_member_matches cgroup_id zid st =
    (case le_ebpf st of
       None \<Rightarrow> Inl (unavailable ''membership verification'')
     | Some mgr \<Rightarrow>
         and_then (zone_member (mc_faults (le_machine st)) cgroup_id (bpf mgr))
           (\<lambda>m. Inr (case m of Some member \<Rightarrow> zi_zone_id member = zid | None \<Rightarrow> False)))"

definition le_remove_zone_policy :: "u32 \<Rightarrow> LinuxEnforcer \<Rightarrow> unit rresult \<times> LinuxEnforcer" where
  "le_remove_zone_policy zid =
    with_bpf ''zone policy cleanup'' (\<lambda>f. remove_zone_policy f zid)"

definition le_insert_inodes :: "u64 list \<Rightarrow> u32 \<Rightarrow> LinuxEnforcer \<Rightarrow> u64 list rresult \<times> LinuxEnforcer" where
  "le_insert_inodes inodes zid =
    with_bpf ''rootfs inode registration''
      (\<lambda>f m. case insert_inodes f inodes zid m of (done', m') \<Rightarrow> (Inr done', m'))"

definition le_remove_inodes :: "u64 list \<Rightarrow> LinuxEnforcer \<Rightarrow> nat rresult \<times> LinuxEnforcer" where
  "le_remove_inodes inodes = with_bpf ''rootfs inode cleanup'' (\<lambda>f. remove_inodes f inodes)"

fun all_inodes_in :: "faults \<Rightarrow> u64 list \<Rightarrow> u32 \<Rightarrow> maps \<Rightarrow> bool rresult" where
  "all_inodes_in f [] zid m = Inr True"
| "all_inodes_in f (inode # inodes) zid m =
     and_then (inode_zone f inode m)
       (\<lambda>z. if z \<noteq> Some zid then Inr False else all_inodes_in f inodes zid m)"

definition inodes_match :: "u64 list \<Rightarrow> u32 \<Rightarrow> LinuxEnforcer \<Rightarrow> bool rresult \<times> LinuxEnforcer" where
  "inodes_match inodes zid =
    with_bpf ''rootfs inode verification'' (\<lambda>f m. (all_inodes_in f inodes zid m, m))"

definition le_allow_zone_comm :: "u32 \<Rightarrow> u32 \<Rightarrow> LinuxEnforcer \<Rightarrow> unit rresult \<times> LinuxEnforcer" where
  "le_allow_zone_comm src dst =
    with_bpf ''allowed zone communication'' (\<lambda>f. allow_zone_comm f src dst)"

definition le_deny_zone_comm :: "u32 \<Rightarrow> u32 \<Rightarrow> LinuxEnforcer \<Rightarrow> unit rresult \<times> LinuxEnforcer" where
  "le_deny_zone_comm src dst =
    with_bpf ''allowed zone communication cleanup'' (\<lambda>f. deny_zone_comm f src dst)"

definition le_health_check :: "LinuxEnforcer \<Rightarrow> ProgramStatus list rresult" where
  "le_health_check st =
    (case le_ebpf st of
       None \<Rightarrow> Inl (unavailable ''health check'')
     | Some mgr \<Rightarrow> Inr (health_check (le_machine st) mgr))"

definition le_read_enforcement_counters :: "LinuxEnforcer \<Rightarrow> (string \<times> EnforcementCounters) list rresult" where
  "le_read_enforcement_counters st =
    (case le_ebpf st of
       None \<Rightarrow> Inl (EbpfError ''eBPF manager not available while reading counters''
         ''restart rauhad after restoring eBPF LSM support'')
     | Some mgr \<Rightarrow> read_enforcement_counters (le_machine st) mgr)"

definition capabilities_static :: Capabilities where
  "capabilities_static =
    \<lparr>kernel_enforcement = True,
     cap_hooks = HookSet_from_hooks [FileOpen, BprmCheck, SocketConnect, PtraceAccess, Signal, CgroupAttach],
     event_stream = True, cap_counters = True\<rparr>"

fun zone_type_for :: "ZoneKind \<Rightarrow> ZoneType" where
  "zone_type_for PrivilegedKind = Privileged"
| "zone_type_for StandardKind = NonGlobal"
| "zone_type_for IsolatedKind = NonGlobal"

fun to_enforcer_error :: "RauhaError \<Rightarrow> EnforcerError" where
  "to_enforcer_error (EbpfError message hint) = Verifier message"
| "to_enforcer_error (ZoneNotFound name) = Verifier (''zone not found in Rauha metadata: '' @ name)"
| "to_enforcer_error (BackendError message) = Verifier message"
| "to_enforcer_error other = Verifier (show_error other)"

definition lift_err :: "'a rresult \<times> 's \<Rightarrow> (EnforcerError + 'a) \<times> 's" where
  "lift_err = (\<lambda>(r, s). (map_err to_enforcer_error r, s))"

subsection \<open>The name-keyed boundary\<close>

definition linux_load :: "LinuxEnforcer \<Rightarrow> (EnforcerError + unit) \<times> LinuxEnforcer" where
  "linux_load st =
    (if le_ebpf st \<noteq> None then (Inr (), st)
     else case map_err to_enforcer_error
         (load_ebpf (le_machine st) (le_project_root st) (le_root st) (le_bpf_pin_dir st)) of
       Inl e \<Rightarrow> (Inl e, st)
     | Inr ebpf \<Rightarrow> (Inr (), st\<lparr>le_ebpf := Some ebpf\<rparr>))"

definition linux_shutdown :: "LinuxEnforcer \<Rightarrow> (EnforcerError + unit) \<times> LinuxEnforcer" where
  "linux_shutdown st = (Inr (), st\<lparr>le_ebpf := None, trait_zones := Map.empty\<rparr>)"

definition linux_register_zone ::
  "string \<Rightarrow> EnforcementPolicy \<Rightarrow> LinuxEnforcer \<Rightarrow> (EnforcerError + u32) \<times> LinuxEnforcer" where
  "linux_register_zone name policy st =
    (if le_ebpf st = None then (Inl NotLoaded, st)
     else
       let ztype = zone_type_for (ze_kind (ep_zone policy));
           (kernel_id, st1) =
             (case trait_zones st name of
                Some (i, _) \<Rightarrow> (i, st\<lparr>trait_zones := (trait_zones st)(name \<mapsto> (i, ztype))\<rparr>)
              | None \<Rightarrow>
                  let i = trait_next_zone_id st
                  in (i, st\<lparr>trait_next_zone_id := i + 1,
                    trait_zones := (trait_zones st)(name \<mapsto> (i, ztype))\<rparr>))
       in case lift_err (apply_zone_enforcement kernel_id (ep_zone policy) st1) of
            (Inl e, st2) \<Rightarrow> (Inl e, st2)
          | (Inr _, st2) \<Rightarrow> (Inr kernel_id, st2))"

definition linux_remove_zone :: "string \<Rightarrow> bool \<Rightarrow> LinuxEnforcer \<Rightarrow> (EnforcerError + unit) \<times> LinuxEnforcer" where
  "linux_remove_zone name drain st =
    (if le_ebpf st = None then (Inl NotLoaded, st)
     else
       let st1 = st\<lparr>trait_zones := (trait_zones st)(name := None)\<rparr>
       in case trait_zones st name of
            None \<Rightarrow> (Inr (), st1)
          | Some (i, _) \<Rightarrow> lift_err (le_remove_zone_policy i st1))"

fun reject_unsupported :: "string \<Rightarrow> EnforcementRule list \<Rightarrow> EnforcerError + unit" where
  "reject_unsupported zone [] = Inr ()"
| "reject_unsupported zone (rule # rules) =
     (if \<not> supports_rule capabilities_static rule
      then Inl (PolicyUnenforceable zone (er_id rule) (''unsupported hook '' @ show_hook (er_hook rule)))
      else reject_unsupported zone rules)"

definition linux_apply_policy ::
  "ZoneRef \<Rightarrow> EnforcementPolicy \<Rightarrow> LinuxEnforcer \<Rightarrow> (EnforcerError + unit) \<times> LinuxEnforcer" where
  "linux_apply_policy zone policy st =
    (if le_ebpf st = None then (Inl NotLoaded, st)
     else case reject_unsupported (zr_name zone) (ep_rules policy) of
       Inl e \<Rightarrow> (Inl e, st)
     | Inr _ \<Rightarrow> lift_err (apply_zone_enforcement (zr_kernel_id zone) (ep_zone policy) st))"

definition linux_attach_container ::
  "ZoneRef \<Rightarrow> string \<Rightarrow> u64 \<Rightarrow> LinuxEnforcer \<Rightarrow> (EnforcerError + unit) \<times> LinuxEnforcer" where
  "linux_attach_container zone container_id cgroup_id st =
    (let ztype = (case trait_zones st (zr_name zone) of Some (_, t) \<Rightarrow> t | None \<Rightarrow> NonGlobal)
     in lift_err (le_add_zone_member cgroup_id (zr_kernel_id zone) ztype st))"

definition linux_detach_container :: "string \<Rightarrow> u64 \<Rightarrow> LinuxEnforcer \<Rightarrow> (EnforcerError + unit) \<times> LinuxEnforcer" where
  "linux_detach_container container_id cgroup_id st = lift_err (le_remove_zone_member cgroup_id st)"

definition linux_register_host_path ::
  "ZoneRef \<Rightarrow> string \<Rightarrow> bool \<Rightarrow> LinuxEnforcer \<Rightarrow> (EnforcerError + u32) \<times> LinuxEnforcer" where
  "linux_register_host_path zone path recursive st =
    (case collect_rootfs_inodes (mc_dirs (le_machine st)) path MAX_INODES of
       Inl e \<Rightarrow> (Inl (to_enforcer_error e), st)
     | Inr inodes \<Rightarrow>
         (case lift_err (le_insert_inodes inodes (zr_kernel_id zone) st) of
            (Inl e, st1) \<Rightarrow> (Inl e, st1)
          | (Inr inserted, st1) \<Rightarrow> (Inr (of_nat (length inserted)), st1)))"

definition linux_allow_comm :: "ZoneRef \<Rightarrow> ZoneRef \<Rightarrow> LinuxEnforcer \<Rightarrow> (EnforcerError + unit) \<times> LinuxEnforcer" where
  "linux_allow_comm a b st =
    (case lift_err (le_allow_zone_comm (zr_kernel_id a) (zr_kernel_id b) st) of
       (Inl e, st1) \<Rightarrow> (Inl e, st1)
     | (Inr _, st1) \<Rightarrow> lift_err (le_allow_zone_comm (zr_kernel_id b) (zr_kernel_id a) st1))"

definition linux_deny_comm :: "ZoneRef \<Rightarrow> ZoneRef \<Rightarrow> LinuxEnforcer \<Rightarrow> (EnforcerError + unit) \<times> LinuxEnforcer" where
  "linux_deny_comm a b st =
    (case lift_err (le_deny_zone_comm (zr_kernel_id a) (zr_kernel_id b) st) of
       (Inl e, st1) \<Rightarrow> (Inl e, st1)
     | (Inr _, st1) \<Rightarrow> lift_err (le_deny_zone_comm (zr_kernel_id b) (zr_kernel_id a) st1))"

text \<open>The counters are summed over all hooks; the zone is not consulted.\<close>

definition linux_stats :: "ZoneRef \<Rightarrow> LinuxEnforcer \<Rightarrow> EnforcerError + EnforcementStats" where
  "linux_stats zone st =
    and_then (map_err to_enforcer_error (le_read_enforcement_counters st)) (\<lambda>counters.
    Inr (foldl (\<lambda>s (_, c). \<lparr>stat_allowed = stat_allowed s + cnt_allow c,
        stat_denied = stat_denied s + cnt_deny c, stat_errors = stat_errors s + cnt_error c\<rparr>)
      \<lparr>stat_allowed = 0, stat_denied = 0, stat_errors = 0\<rparr> counters))"

definition linux_verify :: "ZoneRef \<Rightarrow> EnforcementPolicy \<Rightarrow> LinuxEnforcer \<Rightarrow> EnforcerError + VerifyReport" where
  "linux_verify zone policy st =
    and_then (map_err to_enforcer_error (le_health_check st)) (\<lambda>statuses.
    let ds = map (\<lambda>s. \<lparr>vd_kind = HookInactive, vd_rule = None,
            vd_message = ''program '' @ ps_name s @ '' is not loaded and attached''\<rparr>)
          (filter (\<lambda>s. \<not> ps_loaded s \<or> \<not> ps_attached s) statuses) @
        map (\<lambda>rule. \<lparr>vd_kind = RuleUnsupported, vd_rule = Some (er_id rule),
            vd_message = ''rule '' @ show_rule_id (er_id rule) @ '' is unsupported''\<rparr>)
          (filter (\<lambda>rule. \<not> supports_rule capabilities_static rule) (ep_rules policy))
    in Inr \<lparr>vr_ok = (ds = []), discrepancies = ds\<rparr>)"

definition LinuxBackendOps :: "LinuxEnforcer EnforcerBackend" where
  "LinuxBackendOps =
    \<lparr>load = linux_load, shutdown = linux_shutdown, register_zone = linux_register_zone,
     remove_zone = linux_remove_zone, apply_policy = linux_apply_policy,
     attach_container = linux_attach_container, detach_container = linux_detach_container,
     register_host_path = linux_register_host_path, allow_comm = linux_allow_comm,
     deny_comm = linux_deny_comm, stats = linux_stats, verify = linux_verify,
     capabilities = (\<lambda>_. capabilities_static)\<rparr>"

subsection \<open>The Linux backend keeps the contract\<close>

text \<open>A machine on which no map operation fails and every tree can be walked, with programs
  whose descriptors are open and counters that can be read.\<close>

definition healthy :: "machine \<Rightarrow> bool" where
  "healthy mc =
    ((\<forall>op. mc_faults mc op = None) \<and>
     (\<forall>p. is_ok (collect_rootfs_inodes (mc_dirs mc) p MAX_INODES)))"

definition manager_ok :: "machine \<Rightarrow> EbpfManager \<Rightarrow> bool" where
  "manager_ok mc mgr =
    (list_all (\<lambda>s. ps_loaded s \<and> ps_attached s) (health_check mc mgr) \<and>
     (\<forall>idx < length LSM_PROGRAMS. ENFORCEMENT_COUNTERS (bpf mgr) (of_nat idx) \<noteq> None))"

definition linux_ready :: "LinuxEnforcer \<Rightarrow> bool" where
  "linux_ready st =
    (healthy (le_machine st) \<and>
     (\<forall>mgr. le_ebpf st = Some mgr \<longrightarrow> manager_ok (le_machine st) mgr) \<and>
     (\<exists>mgr. load_ebpf (le_machine st) (le_project_root st) (le_root st) (le_bpf_pin_dir st) = Inr mgr \<and>
       manager_ok (le_machine st) mgr))"

definition linux_live :: "LinuxEnforcer \<Rightarrow> bool" where "linux_live st = (le_ebpf st \<noteq> None)"

definition linux_known :: "LinuxEnforcer \<Rightarrow> string \<rightharpoonup> u32" where
  "linux_known st = (\<lambda>n. map_option fst (trait_zones st n))"

definition succeeds :: "(maps \<Rightarrow> 'a rresult \<times> maps) \<Rightarrow> bool" where
  "succeeds f = (\<forall>m. \<exists>x m'. f m = (Inr x, m') \<and> ENFORCEMENT_COUNTERS m' = ENFORCEMENT_COUNTERS m)"

lemma health_check_maps: "health_check mc (mgr\<lparr>bpf := m\<rparr>) = health_check mc mgr"
  unfolding health_check_def
  by (intro arg_cong [where f = concat] map_cong) (auto split: option.split)

lemma manager_ok_maps:
  "manager_ok mc mgr \<Longrightarrow> ENFORCEMENT_COUNTERS m = ENFORCEMENT_COUNTERS (bpf mgr) \<Longrightarrow> manager_ok mc (mgr\<lparr>bpf := m\<rparr>)"
  by (simp add: manager_ok_def health_check_maps)

lemma with_bpf_ok:
  assumes "linux_ready st" and "linux_live st" and "succeeds (f (mc_faults (le_machine st)))"
  shows "\<exists>x st'. with_bpf opn f st = (Inr x, st') \<and> linux_ready st' \<and> linux_live st' \<and>
    trait_zones st' = trait_zones st"
proof -
  from assms(2) obtain mgr where mgr: "le_ebpf st = Some mgr" by (auto simp: linux_live_def)
  from assms(3) obtain x m where x: "f (mc_faults (le_machine st)) (bpf mgr) = (Inr x, m)"
      "ENFORCEMENT_COUNTERS m = ENFORCEMENT_COUNTERS (bpf mgr)" by (meson succeeds_def)
  have "manager_ok (le_machine st) (mgr\<lparr>bpf := m\<rparr>)"
    using assms(1) mgr x(2) by (intro manager_ok_maps) (auto simp: linux_ready_def)
  then have "linux_ready (st\<lparr>le_ebpf := Some (mgr\<lparr>bpf := m\<rparr>)\<rparr>)"
    using assms(1) by (simp add: linux_ready_def)
  then show ?thesis using mgr x(1) by (simp add: with_bpf_def linux_live_def)
qed

lemma with_bpf_unit:
  fixes f :: "faults \<Rightarrow> maps \<Rightarrow> unit rresult \<times> maps"
  assumes "linux_ready st" and "linux_live st" and "succeeds (f (mc_faults (le_machine st)))"
  shows "\<exists>st'. lift_err (with_bpf opn f st) = (Inr (), st') \<and> linux_ready st' \<and> linux_live st' \<and>
    trait_zones st' = trait_zones st"
proof -
  from with_bpf_ok [where f = f and st = st and opn = opn, OF assms] obtain x st' where "with_bpf opn f st = (Inr x, st')" and
    "linux_ready st' \<and> linux_live st' \<and> trait_zones st' = trait_zones st" by blast
  then show ?thesis by (intro exI [of _ st']) (simp add: lift_err_def)
qed

lemma insert_inodes_counters: "ENFORCEMENT_COUNTERS (snd (insert_inodes f inos z m)) = ENFORCEMENT_COUNTERS m"
proof (induction inos arbitrary: m)
  case (Cons i inos)
  have "ENFORCEMENT_COUNTERS (snd (set_inode_zone f i z m)) = ENFORCEMENT_COUNTERS m"
    by (simp add: set_inode_zone_def map_op_def split: sum.split option.split)
  then show ?case using Cons by (auto split: sum.splits prod.splits) (metis snd_conv)+
qed simp

lemma map_ops_succeed:
  assumes "\<forall>op. f op = None"
  shows "succeeds (set_zone_policy_kernel f z k)" and "succeeds (add_zone_member f g z t)"
    and "succeeds (remove_zone_member f g)" and "succeeds (remove_zone_policy f z)"
    and "succeeds (\<lambda>m. case insert_inodes f inos z m of (ins, m') \<Rightarrow> (Inr ins, m'))"
  using assms insert_inodes_counters [of f inos z]
  by (auto simp: succeeds_def set_zone_policy_kernel_def add_zone_member_def remove_zone_member_def
    remove_zone_policy_def map_op_healthy split: prod.splits) (metis snd_conv)

lemma healthy_faults: "linux_ready st \<Longrightarrow> \<forall>op. mc_faults (le_machine st) op = None"
  by (simp add: linux_ready_def healthy_def)

lemma linux_apply_enforcement:
  "linux_ready st \<Longrightarrow> linux_live st \<Longrightarrow> \<exists>st'. lift_err (apply_zone_enforcement i z st) = (Inr (), st') \<and>
     linux_ready st' \<and> linux_live st' \<and> trait_zones st' = trait_zones st"
  unfolding apply_zone_enforcement_def by (intro with_bpf_unit map_ops_succeed healthy_faults)

lemma linux_add_member:
  "linux_ready st \<Longrightarrow> linux_live st \<Longrightarrow> \<exists>st'. lift_err (le_add_zone_member g i t st) = (Inr (), st') \<and>
     linux_ready st' \<and> linux_live st' \<and> trait_zones st' = trait_zones st"
  unfolding le_add_zone_member_def by (intro with_bpf_unit map_ops_succeed healthy_faults)

lemma linux_remove_member:
  "linux_ready st \<Longrightarrow> linux_live st \<Longrightarrow> \<exists>st'. lift_err (le_remove_zone_member g st) = (Inr (), st') \<and>
     linux_ready st' \<and> linux_live st' \<and> trait_zones st' = trait_zones st"
  unfolding le_remove_zone_member_def by (intro with_bpf_unit map_ops_succeed healthy_faults)

lemma linux_register_ok:
  assumes "linux_ready s" and "linux_live s"
  shows "\<exists>i s'. linux_register_zone n p s = (Inr i, s') \<and> linux_ready s' \<and> linux_live s' \<and>
    linux_known s' = (linux_known s)(n \<mapsto> i) \<and> (\<forall>j. linux_known s n = Some j \<longrightarrow> i = j)"
proof (cases "trait_zones s n")
  case None
  let ?s = "s\<lparr>trait_next_zone_id := trait_next_zone_id s + 1, trait_zones := (trait_zones s)(n \<mapsto>
    (trait_next_zone_id s, zone_type_for (ze_kind (ep_zone p))))\<rparr>"
  have "linux_ready ?s" "linux_live ?s" using assms by (simp_all add: linux_ready_def linux_live_def)
  from linux_apply_enforcement [OF this, of "trait_next_zone_id s" "ep_zone p"] obtain s' where
    "lift_err (apply_zone_enforcement (trait_next_zone_id s) (ep_zone p) ?s) = (Inr (), s')" "linux_ready s'"
    "linux_live s'" "trait_zones s' = trait_zones ?s" by blast
  then show ?thesis using None assms(2)
    by (auto simp: linux_register_zone_def linux_live_def linux_known_def Let_def fun_eq_iff)
next
  case (Some it)
  then obtain i t where it: "trait_zones s n = Some (i, t)" by (cases it) simp
  let ?s = "s\<lparr>trait_zones := (trait_zones s)(n \<mapsto> (i, zone_type_for (ze_kind (ep_zone p))))\<rparr>"
  have "linux_ready ?s" "linux_live ?s" using assms by (simp_all add: linux_ready_def linux_live_def)
  from linux_apply_enforcement [OF this, of i "ep_zone p"] obtain s' where
    "lift_err (apply_zone_enforcement i (ep_zone p) ?s) = (Inr (), s')" "linux_ready s'" "linux_live s'"
    "trait_zones s' = trait_zones ?s" by blast
  then show ?thesis using it assms(2)
    by (auto simp: linux_register_zone_def linux_live_def linux_known_def Let_def fun_eq_iff)
qed

lemma collect_results_total: "\<forall>x \<in> set xs. \<exists>y. g x = Inr y \<Longrightarrow> \<exists>ys. collect_results g xs = Inr ys"
  by (induction xs) auto

lemma read_counters_ok:
  assumes "healthy mc" and "manager_ok mc mgr"
  shows "\<exists>cs. read_enforcement_counters mc mgr = Inr cs"
proof -
  have "\<forall>x \<in> set (List.enumerate 0 (map fst LSM_PROGRAMS)). \<exists>y. read_counter mc (bpf mgr) x = Inr y"
    using assms by (auto simp: in_set_enumerate_eq read_counter_def healthy_def manager_ok_def)
  from collect_results_total [OF this] show ?thesis
    using assms(1) by (simp add: read_enforcement_counters_def healthy_def)
qed

lemma linux_host_path_ok:
  assumes "linux_ready s" and "linux_live s"
  shows "\<exists>k s'. linux_register_host_path z path r s = (Inr k, s') \<and> linux_ready s' \<and> linux_live s' \<and>
    linux_known s' = linux_known s"
proof -
  obtain inodes where i: "collect_rootfs_inodes (mc_dirs (le_machine s)) path MAX_INODES = Inr inodes"
    using assms(1) unfolding linux_ready_def healthy_def is_ok_iff by blast
  have "\<exists>x st'. le_insert_inodes inodes (zr_kernel_id z) s = (Inr x, st') \<and> linux_ready st' \<and> linux_live st' \<and>
      trait_zones st' = trait_zones s"
    unfolding le_insert_inodes_def using assms by (intro with_bpf_ok map_ops_succeed healthy_faults)
  then show ?thesis using i by (auto simp: linux_register_host_path_def lift_err_def linux_known_def)
qed

lemma linux_verify_ok: "linux_ready s \<Longrightarrow> linux_live s \<Longrightarrow> ep_rules p = [] \<Longrightarrow> \<exists>x. linux_verify z p s = Inr x \<and> vr_ok x"
  by (auto simp: linux_verify_def le_health_check_def linux_live_def linux_ready_def manager_ok_def Let_def
    list_all_iff filter_empty_conv)

lemma linux_remove_ok:
  assumes "linux_ready s" and "linux_live s"
  shows "\<exists>s'. linux_remove_zone n d s = (Inr (), s') \<and> linux_ready s' \<and> linux_live s' \<and>
    linux_known s' = (linux_known s)(n := None)"
proof (cases "trait_zones s n")
  case None
  then show ?thesis using assms
    by (auto simp: linux_remove_zone_def linux_live_def linux_ready_def linux_known_def fun_eq_iff)
next
  case (Some it)
  let ?s = "s\<lparr>trait_zones := (trait_zones s)(n := None)\<rparr>"
  have s: "linux_ready ?s" "linux_live ?s" using assms by (simp_all add: linux_ready_def linux_live_def)
  have "\<exists>st'. lift_err (le_remove_zone_policy (fst it) ?s) = (Inr (), st') \<and> linux_ready st' \<and> linux_live st' \<and>
      trait_zones st' = trait_zones ?s"
    unfolding le_remove_zone_policy_def using s by (intro with_bpf_unit map_ops_succeed healthy_faults)
  then show ?thesis using Some assms(2)
    by (cases it) (auto simp: linux_remove_zone_def linux_live_def linux_known_def fun_eq_iff)
qed

lemmas linux_ops_defs = LinuxBackendOps_def linux_load_def linux_shutdown_def linux_apply_policy_def
  linux_attach_container_def linux_detach_container_def

interpretation linux: enforcer_contract LinuxBackendOps linux_ready linux_live linux_known
proof
  fix s :: LinuxEnforcer
  assume r: "linux_ready s"
  then obtain mgr where mgr:
    "load_ebpf (le_machine s) (le_project_root s) (le_root s) (le_bpf_pin_dir s) = Inr mgr"
    "manager_ok (le_machine s) mgr" by (auto simp: linux_ready_def)
  show "\<exists>s'. load LinuxBackendOps s = (Inr (), s') \<and> linux_ready s' \<and> linux_live s' \<and> linux_known s' = linux_known s"
  proof (cases "le_ebpf s")
    case None
    have "linux_ready (s\<lparr>le_ebpf := Some mgr\<rparr>)" using r mgr by (auto simp: linux_ready_def)
    then show ?thesis using None mgr(1) by (simp add: linux_ops_defs linux_live_def linux_known_def)
  next
    case (Some m)
    then show ?thesis using r by (simp add: linux_ops_defs linux_live_def linux_known_def)
  qed
  show "\<exists>s'. shutdown LinuxBackendOps s = (Inr (), s') \<and> \<not> linux_live s' \<and> linux_known s' = Map.empty"
    by (simp add: linux_ops_defs linux_live_def linux_known_def)
next
  fix s :: LinuxEnforcer and z :: ZoneRef and p :: EnforcementPolicy and n c g path r
  assume a: "linux_ready s" "linux_live s"
  show "\<exists>i s'. register_zone LinuxBackendOps n p s = (Inr i, s') \<and> linux_ready s' \<and> linux_live s' \<and>
      linux_known s' = (linux_known s)(n \<mapsto> i) \<and> (\<forall>j. linux_known s n = Some j \<longrightarrow> i = j)"
    using linux_register_ok [OF a] by (simp add: LinuxBackendOps_def)
  show "\<exists>s'. attach_container LinuxBackendOps z c g s = (Inr (), s') \<and> linux_ready s' \<and> linux_live s' \<and>
      linux_known s' = linux_known s"
    using linux_add_member [OF a] by (simp add: linux_ops_defs linux_known_def) metis
  show "\<exists>s'. detach_container LinuxBackendOps c g s = (Inr (), s') \<and> linux_ready s' \<and> linux_live s' \<and>
      linux_known s' = linux_known s"
    using linux_remove_member [OF a] by (simp add: linux_ops_defs linux_known_def) metis
  show "\<exists>k s'. register_host_path LinuxBackendOps z path r s = (Inr k, s') \<and> linux_ready s' \<and> linux_live s' \<and>
      linux_known s' = linux_known s"
    using linux_host_path_ok [OF a] by (simp add: LinuxBackendOps_def)
  show "\<exists>s'. remove_zone LinuxBackendOps n True s = (Inr (), s') \<and> linux_ready s' \<and> linux_live s' \<and>
      linux_known s' = (linux_known s)(n := None)"
    using linux_remove_ok [OF a] by (simp add: LinuxBackendOps_def)
  show "\<exists>x. stats LinuxBackendOps z s = Inr x"
    using a read_counters_ok
    by (fastforce simp: LinuxBackendOps_def linux_stats_def le_read_enforcement_counters_def linux_live_def
      linux_ready_def)
  assume none: "ep_rules p = []"
  show "\<exists>s'. apply_policy LinuxBackendOps z p s = (Inr (), s') \<and> linux_ready s' \<and> linux_live s' \<and>
      linux_known s' = linux_known s"
    using linux_apply_enforcement [OF a, of "zr_kernel_id z" "ep_zone p"] none a(2)
    by (auto simp: linux_ops_defs linux_known_def linux_live_def)
  show "\<exists>x. verify LinuxBackendOps z p s = Inr x \<and> vr_ok x"
    using linux_verify_ok [OF a none] by (simp add: LinuxBackendOps_def)
next
  fix s :: LinuxEnforcer and n p z d
  assume "\<not> linux_live s"
  then show "register_zone LinuxBackendOps n p s = (Inl NotLoaded, s) \<and> apply_policy LinuxBackendOps z p s = (Inl NotLoaded, s) \<and>
      remove_zone LinuxBackendOps n d s = (Inl NotLoaded, s)"
    by (simp add: LinuxBackendOps_def linux_live_def linux_register_zone_def linux_apply_policy_def linux_remove_zone_def)
qed


definition demo_enforcer :: LinuxEnforcer where
  "demo_enforcer =
    \<lparr>le_root = ''/'', le_bpf_pin_dir = ''/p'', le_project_root = ''/'', le_ebpf = None, le_event_tx = False,
     trait_zones = Map.empty, trait_next_zone_id = 1,
     le_machine = demo_machine\<rparr>"

lemma demo_manager_ok: "manager_ok demo_machine demo_manager"
  by (simp add: manager_ok_def health_check_def demo_manager_def demo_machine_def LSM_PROGRAMS_def)

lemma demo_load_ebpf: "load_ebpf demo_machine ''/'' ''/'' ''/p'' = Inr demo_manager"
proof -
  have "find (mc_exists demo_machine) (ebpf_candidates ''/'' ''/'') = Some ''/rauha-ebpf''"
    by (simp add: ebpf_candidates_def path_join_def starts_with_def demo_machine_def)
  then show ?thesis by (simp add: load_ebpf_def demo_load)
qed

lemma demo_ready: "linux_ready demo_enforcer"
proof -
  have "collect_rootfs_inodes (mc_dirs demo_machine) p MAX_INODES = Inr []" for p
    by (simp add: collect_rootfs_inodes_def demo_machine_def)
  then have "healthy demo_machine" by (simp add: healthy_def) (simp add: demo_machine_def)
  then show ?thesis
    using demo_manager_ok demo_load_ebpf by (simp add: linux_ready_def demo_enforcer_def)
qed


subsection \<open>What registering and attaching achieve\<close>

lemma with_bpf_Inr:
  assumes "with_bpf opn f st = (Inr x, st')"
  obtains mgr m where "le_ebpf st = Some mgr" and "f (mc_faults (le_machine st)) (bpf mgr) = (Inr x, m)"
    and "st' = st\<lparr>le_ebpf := Some (mgr\<lparr>bpf := m\<rparr>)\<rparr>"
  using assms by (auto simp: with_bpf_def split: option.splits prod.splits)

lemma lift_err_Inr: "lift_err r = (Inr x, st) \<longleftrightarrow> r = (Inr x, st)"
  by (cases r) (simp add: lift_err_def map_err_Inr)

lemma linux_register_Inr:
  assumes "linux_register_zone n p st = (Inr i, st')"
  obtains mgr where "le_ebpf st' = Some mgr"
    and "ZONE_POLICY (bpf mgr) i = Some (enforcement_to_kernel (ep_zone p))"
    and "trait_zones st' n = Some (i, zone_type_for (ze_kind (ep_zone p)))"
proof -
  from assms obtain st1 where s1: "apply_zone_enforcement i (ep_zone p) st1 = (Inr (), st')"
      "trait_zones st1 n = Some (i, zone_type_for (ze_kind (ep_zone p)))"
    by (auto simp: linux_register_zone_def Let_def lift_err_Inr split: if_splits option.splits prod.splits sum.splits)
  show ?thesis
  proof (rule with_bpf_Inr [OF s1(1) [unfolded apply_zone_enforcement_def]])
    fix mgr m
    assume "set_zone_policy_kernel (mc_faults (le_machine st1)) i (enforcement_to_kernel (ep_zone p)) (bpf mgr) = (Inr (), m)"
      and st': "st' = st1\<lparr>le_ebpf := Some (mgr\<lparr>bpf := m\<rparr>)\<rparr>"
    then have "ZONE_POLICY m i = Some (enforcement_to_kernel (ep_zone p))"
      by (auto simp: set_zone_policy_kernel_def dest!: map_op_ok)
    then show ?thesis using st' s1(2) by (intro that [of "mgr\<lparr>bpf := m\<rparr>"]) simp_all
  qed
qed

lemma linux_attach_Inr:
  assumes "linux_attach_container z c g st = (Inr (), st')"
  obtains mgr mgr' where "le_ebpf st = Some mgr" and "le_ebpf st' = Some mgr'"
    and "ZONE_POLICY (bpf mgr') = ZONE_POLICY (bpf mgr)"
    and "ZONE_MEMBERSHIP (bpf mgr') g = Some \<lparr>zi_zone_id = zr_kernel_id z, zi_flags = zone_type_flags
      (case trait_zones st (zr_name z) of Some (_, t) \<Rightarrow> t | None \<Rightarrow> NonGlobal)\<rparr>"
proof -
  let ?t = "case trait_zones st (zr_name z) of Some (_, t) \<Rightarrow> t | None \<Rightarrow> NonGlobal"
  have "with_bpf ''zone membership'' (\<lambda>f. add_zone_member f g (zr_kernel_id z) ?t) st = (Inr (), st')"
    using assms by (simp add: linux_attach_container_def lift_err_Inr le_add_zone_member_def)
  then show ?thesis
  proof (rule with_bpf_Inr)
    fix mgr m
    assume mgr: "le_ebpf st = Some mgr" and st': "st' = st\<lparr>le_ebpf := Some (mgr\<lparr>bpf := m\<rparr>)\<rparr>"
      and "add_zone_member (mc_faults (le_machine st)) g (zr_kernel_id z) ?t (bpf mgr) = (Inr (), m)"
    then have "m = (bpf mgr)\<lparr>ZONE_MEMBERSHIP := (ZONE_MEMBERSHIP (bpf mgr))(g \<mapsto>
        \<lparr>zi_zone_id = zr_kernel_id z, zi_flags = zone_type_flags ?t\<rparr>)\<rparr>"
      by (auto simp: add_zone_member_def dest!: map_op_ok)
    then show ?thesis using mgr st' by (intro that [of mgr "mgr\<lparr>bpf := m\<rparr>"]) simp_all
  qed
qed

text \<open>Once a zone is registered and a cgroup attached to it, a process of that cgroup gets a
  capability from the kernel guard exactly when the zone's mask has its bit, whatever the kind of
  the zone.\<close>

lemma registered_zone_is_confined:
  assumes "linux_register_zone n p st = (Inr i, st1)"
    and "linux_attach_container \<lparr>zr_name = n, zr_kernel_id = i\<rparr> c g st1 = (Inr (), st2)"
    and "current_cgroup_id ctx = g"
  shows "\<exists>mgr. le_ebpf st2 = Some mgr \<and>
    (fst (capable ctx (bpf mgr)) = 0 \<longleftrightarrow>
      0 \<le> sint (arg2 ctx) \<and> sint (arg2 ctx) \<le> 63 \<and> bit (ze_caps_mask (ep_zone p)) (unat (arg2 ctx)))"
proof (rule linux_register_Inr [OF assms(1)], rule linux_attach_Inr [OF assms(2)])
  fix mgr1 mgr mgr2
  assume 1: "le_ebpf st1 = Some mgr1" "ZONE_POLICY (bpf mgr1) i = Some (enforcement_to_kernel (ep_zone p))"
      "trait_zones st1 n = Some (i, zone_type_for (ze_kind (ep_zone p)))"
    and 2: "le_ebpf st1 = Some mgr" "le_ebpf st2 = Some mgr2" "ZONE_POLICY (bpf mgr2) = ZONE_POLICY (bpf mgr)"
      "ZONE_MEMBERSHIP (bpf mgr2) g = Some \<lparr>zi_zone_id = zr_kernel_id \<lparr>zr_name = n, zr_kernel_id = i\<rparr>,
        zi_flags = zone_type_flags (case trait_zones st1 (zr_name \<lparr>zr_name = n, zr_kernel_id = i\<rparr>) of
          Some (_, t) \<Rightarrow> t | None \<Rightarrow> NonGlobal)\<rparr>"
  let ?f = "zone_type_flags (zone_type_for (ze_kind (ep_zone p)))"
  have "\<not> is_global \<lparr>zi_zone_id = i, zi_flags = ?f\<rparr>"
    by (cases "ze_kind (ep_zone p)") (simp_all add: is_global_def ZONE_FLAG_GLOBAL_def ZONE_FLAG_PRIVILEGED_def)
  then have "confined ctx (bpf mgr2) \<lparr>zi_zone_id = i, zi_flags = ?f\<rparr>"
    using 1(3) 2(4) assms(3) by (simp add: confined_def lookup_caller_zone_def)
  from capable_verdict [OF this] show ?thesis using 1(1,2) 2 by simp
qed

definition demo_strict :: EnforcementPolicy where
  "demo_strict = EnforcementPolicy_default\<lparr>ep_zone := ZoneEnforcement_default\<lparr>ze_caps_mask := 5\<rparr>\<rparr>"

text \<open>Removing a zone, with or without draining, leaves every cgroup a member of it: the
  drain flag is ignored and nothing is evicted.\<close>

lemma remove_zone_evicts_nobody:
  assumes "le_ebpf st = Some mgr"
  shows "\<exists>mgr'. le_ebpf (snd (linux_remove_zone n drain st)) = Some mgr' \<and>
    ZONE_MEMBERSHIP (bpf mgr') = ZONE_MEMBERSHIP (bpf mgr)"
  using assms
  by (auto simp: linux_remove_zone_def lift_err_def le_remove_zone_policy_def with_bpf_def remove_zone_policy_def
    map_op_def Let_def split: option.split prod.split sum.split)

end
