(* ===== verification/Zone_Network.thy ===== *)
theory Zone_Network
  imports Rust_Net
begin

text \<open>
  Addresses and name servers of zones: the IPv4 allocator of
  \<open>rauhad/src/network/allocator.rs\<close> and the \<open>resolv.conf\<close> generator of
  \<open>rauhad/src/network/dns.rs\<close>. The locale \<open>address_pool\<close> is what a pool of addresses
  promises; the allocator is its model.
\<close>

record IpAllocator =
  ia_subnet :: octets
  ia_prefix_len :: nat
  ia_allocated :: "u32 set"

text \<open>The assertion on the prefix length is the option.\<close>

definition IpAllocator_new :: "octets \<Rightarrow> nat \<Rightarrow> IpAllocator option" where
  "IpAllocator_new net plen =
    (if plen \<le> 30 then Some \<lparr>ia_subnet = net, ia_prefix_len = plen, ia_allocated = {0, 1}\<rparr> else None)"

definition max_host_offset :: "IpAllocator \<Rightarrow> u32" where
  "max_host_offset al = push_bit (32 - ia_prefix_len al) 1 - 2"

definition offset_to_ip :: "IpAllocator \<Rightarrow> u32 \<Rightarrow> octets" where
  "offset_to_ip al off = to_be_bytes (from_be_bytes (ia_subnet al) + off)"

definition ip_to_offset :: "IpAllocator \<Rightarrow> octets \<Rightarrow> u32" where
  "ip_to_offset al ip = from_be_bytes ip - from_be_bytes (ia_subnet al)"

definition validated_offset :: "IpAllocator \<Rightarrow> octets \<Rightarrow> u32 option" where
  "validated_offset al ip =
    (let off = ip_to_offset al ip in if off > 1 \<and> off \<le> max_host_offset al then Some off else None)"

definition ip_gateway :: "IpAllocator \<Rightarrow> octets" where
  "ip_gateway al = offset_to_ip al 1"

definition ip_allocate :: "IpAllocator \<Rightarrow> octets rresult \<times> IpAllocator" where
  "ip_allocate al =
    (case find (\<lambda>off. word_of_nat off \<notin> ia_allocated al) [2..<Suc (unat (max_host_offset al))] of
       Some off \<Rightarrow>
         (Inr (offset_to_ip al (word_of_nat off)), al\<lparr>ia_allocated := insert (word_of_nat off) (ia_allocated al)\<rparr>)
     | None \<Rightarrow>
         (Inl (NetworkError (''IP address pool exhausted ('' @ dec (card (ia_allocated al)) @
             '' addresses allocated out of '' @ dec (unat (max_host_offset al)) @ '')'')
           ''destroy unused zones to free IP addresses''), al))"

definition mark_allocated :: "octets \<Rightarrow> IpAllocator \<Rightarrow> IpAllocator" where
  "mark_allocated ip al =
    (case validated_offset al ip of
       Some off \<Rightarrow> al\<lparr>ia_allocated := insert off (ia_allocated al)\<rparr> | None \<Rightarrow> al)"

definition pool_contains :: "IpAllocator \<Rightarrow> octets \<Rightarrow> bool" where
  "pool_contains al ip = (validated_offset al ip \<noteq> None)"

definition ip_release :: "octets \<Rightarrow> IpAllocator \<Rightarrow> IpAllocator" where
  "ip_release ip al =
    (case validated_offset al ip of
       Some off \<Rightarrow> al\<lparr>ia_allocated := ia_allocated al - {off}\<rparr> | None \<Rightarrow> al)"

subsection \<open>Name servers\<close>

definition LOCAL_STUBS :: "string list" where "LOCAL_STUBS = [''127.0.0.53'', ''127.0.0.1'']"

fun resolv_lines :: "string list \<Rightarrow> string list \<times> string list \<Rightarrow> string list \<times> string list" where
  "resolv_lines [] (nameservers, others) = (nameservers, others)"
| "resolv_lines (line # ls) (nameservers, others) =
     (let trimmed = trim line in
      if starts_with trimmed ''nameserver'' then
        (case split_whitespace trimmed of
           _ # addr # _ \<Rightarrow>
             if addr \<in> set LOCAL_STUBS then resolv_lines ls (nameservers, others)
             else resolv_lines ls (nameservers @ [addr], others)
         | _ \<Rightarrow> resolv_lines ls (nameservers, others))
      else if starts_with trimmed ''search'' \<or> starts_with trimmed ''options'' then
        resolv_lines ls (nameservers, others @ [trimmed])
      else resolv_lines ls (nameservers, others))"

definition generate_resolv_conf_from :: "string \<Rightarrow> string list \<Rightarrow> string" where
  "generate_resolv_conf_from host_content fallback =
    (case resolv_lines (lines host_content) ([], []) of (found, others) \<Rightarrow>
       let nameservers = (if found = [] then fallback else found)
       in ''# Generated by rauha'' @ [CHR 0x0A] @
          concat (map (\<lambda>ns. ''nameserver '' @ ns @ [CHR 0x0A]) nameservers) @
          concat (map (\<lambda>l. l @ [CHR 0x0A]) others))"

text \<open>The host file is read, or empty.\<close>

definition generate_resolv_conf_with_fallback :: "string option \<Rightarrow> string list \<Rightarrow> string" where
  "generate_resolv_conf_with_fallback host fallback =
    generate_resolv_conf_from (case host of Some c \<Rightarrow> c | None \<Rightarrow> []) fallback"

subsection \<open>What a pool of addresses promises\<close>

datatype 'ip pool_op = Take | Give 'ip

text \<open>The addresses held by the clients of a pool along a sequence of requests.\<close>

fun leases ::
  "('s \<Rightarrow> ('e + 'ip) \<times> 's) \<Rightarrow> ('ip \<Rightarrow> 's \<Rightarrow> 's) \<Rightarrow> 'ip pool_op list \<Rightarrow> 'ip list \<times> 's \<Rightarrow> 'ip list \<times> 's" where
  "leases take' give [] (held, s) = (held, s)"
| "leases take' give (Take # ops) (held, s) =
     (case take' s of
        (Inl e, s') \<Rightarrow> leases take' give ops (held, s')
      | (Inr ip, s') \<Rightarrow> leases take' give ops (ip # held, s'))"
| "leases take' give (Give ip # ops) (held, s) =
     leases take' give ops (filter (\<lambda>x. x \<noteq> ip) held, give ip s)"

locale address_pool =
  fixes take_one :: "'s \<Rightarrow> ('e + 'ip) \<times> 's"
    and give_back :: "'ip \<Rightarrow> 's \<Rightarrow> 's"
    and usable :: "'s \<Rightarrow> 'ip set"
    and in_use :: "'s \<Rightarrow> 'ip set"
    and wf :: "'s \<Rightarrow> bool"
  assumes take_ok: "wf s \<Longrightarrow> take_one s = (Inr ip, s') \<Longrightarrow>
      ip \<in> usable s - in_use s \<and> in_use s' = insert ip (in_use s) \<and> usable s' = usable s \<and> wf s'"
    and take_fails: "wf s \<Longrightarrow> take_one s = (Inl e, s') \<Longrightarrow> s' = s \<and> usable s \<subseteq> in_use s"
    and give: "wf s \<Longrightarrow> in_use (give_back ip s) = in_use s - {ip} \<and>
      usable (give_back ip s) = usable s \<and> wf (give_back ip s)"
begin

lemma leases_inv:
  "\<lbrakk>leases take_one give_back ops (held, s) = (held', s'); wf s; distinct held; set held \<subseteq> in_use s \<inter> usable s\<rbrakk> \<Longrightarrow>
   wf s' \<and> distinct held' \<and> set held' \<subseteq> in_use s' \<inter> usable s' \<and> usable s' = usable s"
proof (induction ops arbitrary: held s)
  case (Cons r ops)
  show ?case
  proof (cases r)
    case Take
    show ?thesis
    proof (cases "take_one s")
      case (Pair x t)
      show ?thesis
      proof (cases x)
        case (Inl e)
        then show ?thesis using Cons Take Pair take_fails [OF Cons.prems(2)] by (auto split: prod.splits sum.splits)
      next
        case (Inr ip)
        note ok = take_ok [OF Cons.prems(2) Pair [unfolded Inr]]
        have "leases take_one give_back ops (ip # held, t) = (held', s')"
          using Cons.prems(1) Take Pair Inr by simp
        from Cons.IH [OF this] ok Cons.prems(3,4) show ?thesis by auto
      qed
    qed
  next
    case (Give ip)
    have "leases take_one give_back ops (filter (\<lambda>x. x \<noteq> ip) held, give_back ip s) = (held', s')"
      using Cons.prems(1) Give by simp
    from Cons.IH [OF this] give [OF Cons.prems(2), of ip] Cons.prems(3,4) show ?thesis by auto
  qed
qed simp

end

subsection \<open>The allocator is a pool\<close>

definition usable_ips :: "IpAllocator \<Rightarrow> octets set" where
  "usable_ips al = {ip. pool_contains al ip}"

definition ips_in_use :: "IpAllocator \<Rightarrow> octets set" where
  "ips_in_use al = {ip. pool_contains al ip \<and> ip_to_offset al ip \<in> ia_allocated al}"

definition pool_wf :: "IpAllocator \<Rightarrow> bool" where
  "pool_wf al = (1 \<le> ia_prefix_len al \<and> ia_prefix_len al \<le> 30)"

lemma ip_offset_inverse [simp]:
  "ip_to_offset al (offset_to_ip al off) = off" "offset_to_ip al (ip_to_offset al ip) = ip"
  by (simp_all add: ip_to_offset_def offset_to_ip_def)

lemma ip_to_offset_inj: "ip_to_offset al ip = ip_to_offset al ip' \<Longrightarrow> ip = ip'"
  by (metis ip_offset_inverse(2))

lemma pool_contains_iff: "pool_contains al ip \<longleftrightarrow> 1 < ip_to_offset al ip \<and> ip_to_offset al ip \<le> max_host_offset al"
  by (simp add: pool_contains_def validated_offset_def Let_def)

lemma offset_fields [simp]:
  "ip_to_offset (al\<lparr>ia_allocated := A\<rparr>) = ip_to_offset al"
  "max_host_offset (al\<lparr>ia_allocated := A\<rparr>) = max_host_offset al"
  "pool_contains (al\<lparr>ia_allocated := A\<rparr>) = pool_contains al"
  by (simp_all add: fun_eq_iff ip_to_offset_def max_host_offset_def pool_contains_def validated_offset_def)

lemma word_of_nat_between:
  fixes m :: u32
  assumes "2 \<le> off" and "off \<le> unat m"
  shows "unat (word_of_nat off :: u32) = off" and "1 < (word_of_nat off :: u32)" and "(word_of_nat off :: u32) \<le> m"
proof -
  have "unat m < 2 ^ 32" using unsigned_less [of m] by simp
  then have "off < 2 ^ 32" using assms(2) by simp
  then show u: "unat (word_of_nat off :: u32) = off" by (simp add: unat_of_nat)
  then show "1 < (word_of_nat off :: u32)" "(word_of_nat off :: u32) \<le> m"
    using assms by (simp_all add: word_less_nat_alt word_le_nat_alt)
qed

lemma find_SomeD: "find P xs = Some x \<Longrightarrow> x \<in> set xs \<and> P x"
  by (induction xs) (auto split: if_splits)

lemma ip_allocate_ok:
  assumes "ip_allocate al = (Inr ip, al')"
  shows "ip \<in> usable_ips al - ips_in_use al" and "ips_in_use al' = insert ip (ips_in_use al)"
    and "usable_ips al' = usable_ips al" and "ia_prefix_len al' = ia_prefix_len al" and "ia_subnet al' = ia_subnet al"
proof -
  from assms obtain off where off: "2 \<le> off" "off \<le> unat (max_host_offset al)" "word_of_nat off \<notin> ia_allocated al"
      and ip: "ip = offset_to_ip al (word_of_nat off)"
      and al': "al' = al\<lparr>ia_allocated := insert (word_of_nat off) (ia_allocated al)\<rparr>"
    by (fastforce simp: ip_allocate_def dest!: find_SomeD split: option.splits)
  note b = word_of_nat_between [OF off(1,2)]
  show "ip \<in> usable_ips al - ips_in_use al" "usable_ips al' = usable_ips al" "ia_prefix_len al' = ia_prefix_len al"
      "ia_subnet al' = ia_subnet al"
    using b off(3) by (simp_all add: ip al' usable_ips_def ips_in_use_def pool_contains_iff)
  show "ips_in_use al' = insert ip (ips_in_use al)"
    using b by (auto simp: ip al' ips_in_use_def pool_contains_iff intro: ip_to_offset_inj [of al])
qed

lemma ip_allocate_exhausted:
  assumes "ip_allocate al = (Inl e, al')"
  shows "al' = al" and "usable_ips al \<subseteq> ips_in_use al"
proof -
  from assms show "al' = al" by (auto simp: ip_allocate_def split: option.splits)
  from assms have none: "find (\<lambda>off. word_of_nat off \<notin> ia_allocated al) [2..<Suc (unat (max_host_offset al))] = None"
    by (auto simp: ip_allocate_def split: option.splits)
  show "usable_ips al \<subseteq> ips_in_use al"
  proof
    fix ip
    assume "ip \<in> usable_ips al"
    then have c: "pool_contains al ip" and
        "unat (ip_to_offset al ip) \<in> set [2..<Suc (unat (max_host_offset al))]"
      by (auto simp: usable_ips_def pool_contains_iff word_less_nat_alt word_le_nat_alt)
    with none have "word_of_nat (unat (ip_to_offset al ip)) \<in> ia_allocated al" unfolding find_None_iff by blast
    then show "ip \<in> ips_in_use al" using c by (simp add: ips_in_use_def)
  qed
qed

lemma ip_release_spec:
  "ips_in_use (ip_release ip al) = ips_in_use al - {ip}" "usable_ips (ip_release ip al) = usable_ips al"
  "pool_wf (ip_release ip al) = pool_wf al"
proof -
  have "validated_offset al ip = (if pool_contains al ip then Some (ip_to_offset al ip) else None)"
    by (simp add: pool_contains_iff validated_offset_def Let_def)
  then show "ips_in_use (ip_release ip al) = ips_in_use al - {ip}" "usable_ips (ip_release ip al) = usable_ips al"
      "pool_wf (ip_release ip al) = pool_wf al"
    by (auto simp: ip_release_def ips_in_use_def usable_ips_def pool_wf_def dest: ip_to_offset_inj)
qed

interpretation pool: address_pool ip_allocate ip_release usable_ips ips_in_use pool_wf
proof
  fix s ip s'
  assume "pool_wf s" "ip_allocate s = (Inr ip, s')"
  then show "ip \<in> usable_ips s - ips_in_use s \<and> ips_in_use s' = insert ip (ips_in_use s) \<and>
      usable_ips s' = usable_ips s \<and> pool_wf s'"
    using ip_allocate_ok [of s ip s'] by (simp add: pool_wf_def)
qed (simp_all add: ip_allocate_exhausted ip_release_spec)

text \<open>The allocator reports exhaustion exactly when every usable address is in use.\<close>

lemma exhausted_iff_all_in_use:
  "(\<exists>e. fst (ip_allocate al) = Inl e) \<longleftrightarrow> usable_ips al \<subseteq> ips_in_use al"
proof (cases "ip_allocate al")
  case (Pair r al')
  then show ?thesis
    using ip_allocate_ok(1) [of al _ al'] ip_allocate_exhausted(2) [of al _ al'] by (cases r) auto
qed

text \<open>A host stub resolver never reaches a container.\<close>

lemma resolv_lines_no_stub:
  "resolv_lines ls (ns, os) = (ns', os') \<Longrightarrow> set ns \<inter> set LOCAL_STUBS = {} \<Longrightarrow> set ns' \<inter> set LOCAL_STUBS = {}"
  by (induction ls arbitrary: ns os) (auto simp: Let_def split: if_splits list.splits)

end
