(* ===== verification/Daemon_Config.thy ===== *)
theory Daemon_Config
  imports Zone_Network
begin

text \<open>
  The daemon configuration, \<open>rauhad/src/config.rs\<close>: the schema with its defaults, the file
  lookup, validation and the subnet parser. The TOML reader and the file system are
  parameters.
\<close>

record ServerConfig = sc_addr :: string

record NetworkConfig =
  nc_subnet :: string
  nc_bridge :: string
  nc_dns_fallback :: "string list"

record ExecutorConfig = xc_crun :: string

record PathsConfig =
  pc_run_dir :: string
  pc_netns_dir :: string
  pc_bpf_pin_dir :: string

record EvidenceConfig =
  ec_sandbox_log_max_bytes :: nat
  ec_container_log_max_bytes :: nat
  ec_results_max_bytes :: nat

record LimitsConfig = lc_policy_max_bytes :: nat

record PolicyConfig = safe_writable_roots :: "string list"

record BrokerConfig =
  bc_cache_max_tasks :: nat
  bc_judge_threads :: nat
  bc_handoff_timeout_ms :: nat

record DaemonConfig =
  dc_server :: ServerConfig
  dc_network :: NetworkConfig
  dc_executor :: ExecutorConfig
  dc_paths :: PathsConfig
  dc_evidence :: EvidenceConfig
  dc_limits :: LimitsConfig
  dc_policy :: PolicyConfig
  dc_broker :: BrokerConfig

definition ServerConfig_default :: ServerConfig where
  "ServerConfig_default = \<lparr>sc_addr = ''[::1]:9876''\<rparr>"

definition NetworkConfig_default :: NetworkConfig where
  "NetworkConfig_default =
    \<lparr>nc_subnet = ''10.89.0.0/16'', nc_bridge = ''rauha0'', nc_dns_fallback = [''1.1.1.1'', ''8.8.8.8'']\<rparr>"

definition ExecutorConfig_default :: ExecutorConfig where
  "ExecutorConfig_default = \<lparr>xc_crun = ''auto''\<rparr>"

definition PathsConfig_default :: PathsConfig where
  "PathsConfig_default =
    \<lparr>pc_run_dir = ''/run/rauha'', pc_netns_dir = ''/var/run/netns'', pc_bpf_pin_dir = ''/sys/fs/bpf/rauha''\<rparr>"

definition EvidenceConfig_default :: EvidenceConfig where
  "EvidenceConfig_default =
    \<lparr>ec_sandbox_log_max_bytes = 1024 * 1024, ec_container_log_max_bytes = 1024 * 1024,
     ec_results_max_bytes = 64 * 1024 * 1024\<rparr>"

definition LimitsConfig_default :: LimitsConfig where
  "LimitsConfig_default = \<lparr>lc_policy_max_bytes = 64 * 1024\<rparr>"

definition PolicyConfig_default :: PolicyConfig where
  "PolicyConfig_default = \<lparr>safe_writable_roots = [''/proc'', ''/sys'', ''/dev'', ''/run'']\<rparr>"

definition BrokerConfig_default :: BrokerConfig where
  "BrokerConfig_default =
    \<lparr>bc_cache_max_tasks = 512, bc_judge_threads = 4, bc_handoff_timeout_ms = 30000\<rparr>"

definition DaemonConfig_default :: DaemonConfig where
  "DaemonConfig_default =
    \<lparr>dc_server = ServerConfig_default, dc_network = NetworkConfig_default,
     dc_executor = ExecutorConfig_default, dc_paths = PathsConfig_default,
     dc_evidence = EvidenceConfig_default, dc_limits = LimitsConfig_default,
     dc_policy = PolicyConfig_default, dc_broker = BrokerConfig_default\<rparr>"

definition parse_cidr :: "string \<Rightarrow> (octets \<times> nat) rresult" where
  "parse_cidr cidr =
    (case split_once CHR ''/'' cidr of
       None \<Rightarrow> Inl (InvalidInput (''subnet '' @ debug_str cidr @ '' is not a CIDR (expected e.g. '' @
         debug_str ''10.89.0.0/16'' @ '')''))
     | Some (addr, plen) \<Rightarrow>
         and_then (ok_or (InvalidInput (''subnet address '' @ debug_str addr @ '' is not IPv4'')) (parse_ipv4 addr))
           (\<lambda>net.
         and_then (map_err (\<lambda>_. InvalidInput (''subnet prefix '' @ debug_str plen @ '' is not a number'')) (parse_u8 plen))
           (\<lambda>p.
         if p > 32 then Inl (InvalidInput (''subnet prefix /'' @ dec p @ '' is invalid (max /32)''))
         else if p < 16 then
           Inl (InvalidInput (''subnet /'' @ dec p @ '' is larger than /16 '' @ em_dash @ '' refusing: a zone network that big '' @
             ''exhausts the address space Rauha is allowed to manage''))
         else if p > 30 then
           Inl (InvalidInput (''subnet /'' @ dec p @ '' is too small '' @ em_dash @ '' /30 is the minimum that fits a gateway '' @
             ''plus at least one zone (got '' @ cidr @ '')''))
         else
           let host_mask = (if p = 32 then 0 else drop_bit p (-1 :: u32))
           in if from_be_bytes net AND host_mask \<noteq> 0 then
                Inl (InvalidInput (''subnet '' @ cidr @
                  '' has host bits set (expected a network address like 10.89.0.0/16)''))
              else Inr (net, p))))"

definition subnet_octets :: "DaemonConfig \<Rightarrow> (octets \<times> nat) rresult" where
  "subnet_octets cfg = parse_cidr (nc_subnet (dc_network cfg))"

fun check_nameservers :: "string list \<Rightarrow> unit rresult" where
  "check_nameservers [] = Inr ()"
| "check_nameservers (ns # rest) =
     (if parse_ip ns = None
      then Inl (InvalidInput (''network.dns_fallback entry '' @ debug_str ns @ '' is not an IP address''))
      else check_nameservers rest)"

definition validate :: "DaemonConfig \<Rightarrow> unit rresult" where
  "validate cfg =
    (if parse_socket_addr (sc_addr (dc_server cfg)) = None then
       Inl (InvalidInput (''server.addr '' @ debug_str (sc_addr (dc_server cfg)) @
         '' is not a valid socket address''))
     else
     and_then (subnet_octets cfg) (\<lambda>_.
     and_then (check_nameservers (nc_dns_fallback (dc_network cfg))) (\<lambda>_.
     if nc_bridge (dc_network cfg) = [] then Inl (InvalidInput ''network.bridge is empty'')
     else if xc_crun (dc_executor cfg) \<noteq> ''auto'' \<and> \<not> starts_with (xc_crun (dc_executor cfg)) ''/'' then
       Inl (InvalidInput (''executor.crun must be '' @ debug_str ''auto'' @ '' or an absolute path, got '' @
         debug_str (xc_crun (dc_executor cfg))))
     else if ec_container_log_max_bytes (dc_evidence cfg) = 0 then
       Inl (InvalidInput ''evidence.container_log_max_bytes must be > 0'')
     else if ec_results_max_bytes (dc_evidence cfg) < MAX_RESULT_BYTES then
       Inl (InvalidInput ''evidence.results_max_bytes must hold at least one 4 MiB result'')
     else if ec_sandbox_log_max_bytes (dc_evidence cfg) = 0 \<or> lc_policy_max_bytes (dc_limits cfg) = 0 then
       Inl (InvalidInput ''evidence.sandbox_log_max_bytes and limits.policy_max_bytes must be > 0'')
     else if ec_sandbox_log_max_bytes (dc_evidence cfg) > MAX_RESULT_BYTES div 4 then
       Inl (InvalidInput ''evidence.sandbox_log_max_bytes exceeds the per-stream wire budget (1 MiB)'')
     else if bc_cache_max_tasks (dc_broker cfg) > 2 ^ 20 then
       Inl (InvalidInput (''broker.cache_max_tasks '' @ dec (bc_cache_max_tasks (dc_broker cfg)) @
         '' is unreasonable '' @ em_dash @ '' one cache entry is held per workload thread making brokered calls (max '' @
         dec (2 ^ 20) @ '')''))
     else if bc_judge_threads (dc_broker cfg) = 0 \<or> bc_judge_threads (dc_broker cfg) > 64 then
       Inl (InvalidInput (''broker.judge_threads must be between 1 (serial) and 64, got '' @
         dec (bc_judge_threads (dc_broker cfg))))
     else if \<not> (1000 \<le> bc_handoff_timeout_ms (dc_broker cfg) \<and> bc_handoff_timeout_ms (dc_broker cfg) \<le> 300000) then
       Inl (InvalidInput (''broker.handoff_timeout_ms must be between 1000 and 300000, got '' @
         dec (bc_handoff_timeout_ms (dc_broker cfg))))
     else Inr ())))"

text \<open>What the daemon finds: the file named by \<open>RAUHA_CONFIG\<close> if set, and the file contents.\<close>

datatype file_error = NotFound | Unreadable string

definition config_path :: "string option \<Rightarrow> string \<Rightarrow> string" where
  "config_path env root = (case env of Some explicit \<Rightarrow> explicit | None \<Rightarrow> path_join root ''rauha.toml'')"

definition load_config ::
  "(string \<Rightarrow> string + DaemonConfig) \<Rightarrow> string option \<Rightarrow> (string \<Rightarrow> file_error + string) \<Rightarrow> string \<Rightarrow> DaemonConfig rresult" where
  "load_config toml_from_str env read_file root =
    (let path = config_path env root in
     case read_file path of
       Inr content \<Rightarrow>
         and_then (map_err (\<lambda>e. InvalidInput (''invalid config file '' @ path @ '': '' @ e)) (toml_from_str content))
           (\<lambda>cfg. and_then (validate cfg) (\<lambda>_. Inr cfg))
     | Inl NotFound \<Rightarrow>
         if env \<noteq> None
         then Inl (InvalidInput (''RAUHA_CONFIG points to '' @ path @ '', which does not exist''))
         else Inr DaemonConfig_default
     | Inl (Unreadable e) \<Rightarrow> Inl (InvalidInput (''cannot read config file '' @ path @ '': '' @ e)))"

subsection \<open>A configured subnet gives a sound pool\<close>

lemma parse_cidr_Inr:
  assumes "parse_cidr cidr = Inr (net, p)"
  shows "16 \<le> p" and "p \<le> 30" and "from_be_bytes net AND drop_bit p (-1) = 0"
  using assms by (auto simp: parse_cidr_def result_simps Let_def split: option.splits if_splits)

text \<open>A network address plus a host offset stays in the network.\<close>

lemma aligned_sum:
  fixes base off :: u32
  assumes "base AND drop_bit p (-1) = 0" and "p \<le> 32" and "unat off < 2 ^ (32 - p)"
  shows "unat (base + off) = unat base + unat off" and "drop_bit (32 - p) (base + off) = drop_bit (32 - p) base"
proof -
  have t: "unat off = take_bit (32 - p) (unat off)" using take_bit_nat_eq_self [OF assms(3)] by (rule sym)
  have off: "n < 32 - p" if "bit off n" for n
  proof -
    have "bit (unat off) n" using that by (simp add: bit_unsigned_iff)
    then show ?thesis by (subst (asm) t) (simp add: bit_take_bit_iff)
  qed
  have base: "\<not> bit base n" if "n < 32 - p" for n
  proof
    assume "bit base n"
    moreover have "bit (drop_bit p (-1) :: u32) n" using that by (simp add: bit_drop_bit_eq bit_simps)
    ultimately have "bit (base AND drop_bit p (-1)) n" by (simp add: bit_and_iff)
    then show False using assms(1) by simp
  qed
  have disj: "base AND off = 0" by (rule bit_eqI) (use off base in \<open>auto simp: bit_and_iff\<close>)
  then have sum: "base + off = base OR off" by (rule disjunctive_add_eq_or)
  have "unat base AND unat off = 0" using disj by (simp flip: unsigned_and_eq)
  then have "unat base + unat off = unat base OR unat off" by (rule disjunctive_add_eq_or)
  then show "unat (base + off) = unat base + unat off" by (simp add: sum unsigned_or_eq)
  show "drop_bit (32 - p) (base + off) = drop_bit (32 - p) base"
    unfolding sum by (rule bit_eqI) (use off in \<open>auto simp: bit_or_iff bit_drop_bit_eq\<close>)
qed

lemma unat_power_u32: "k < 32 \<Longrightarrow> unat (2 ^ k :: u32) = 2 ^ k"
proof -
  assume "k < 32"
  then have "(2 :: nat) ^ k < 2 ^ 32" by (rule power_strict_increasing) simp
  moreover have "(2 ^ k :: u32) = word_of_nat (2 ^ k)" by simp
  ultimately show ?thesis by (simp only: unat_of_nat_u32 mod_less)
qed

text \<open>The addresses of a configured network: what the pool may hand out.\<close>

lemma usable_in_subnet:
  assumes "parse_cidr cidr = Inr (net, p)" and "IpAllocator_new net p = Some al" and "ip \<in> usable_ips al"
  shows "drop_bit (32 - p) (from_be_bytes ip) = drop_bit (32 - p) (from_be_bytes net)"
    and "ip \<noteq> net" and "ip \<noteq> ip_gateway al"
    and "unat (from_be_bytes net) + 1 < unat (from_be_bytes ip)"
    and "unat (from_be_bytes ip) < unat (from_be_bytes net) + 2 ^ (32 - p) - 1"
proof -
  note p = parse_cidr_Inr [OF assms(1)]
  have al: "ia_subnet al = net" "ia_prefix_len al = p" using assms(2) by (auto simp: IpAllocator_new_def split: if_splits)
  let ?off = "ip_to_offset al ip"
  have ip: "from_be_bytes ip = from_be_bytes net + ?off" by (simp add: ip_to_offset_def al)
  have r: "1 < ?off" "?off \<le> max_host_offset al" using assms(3) by (simp_all add: usable_ips_def pool_contains_iff)
  have "unat (2 ^ (32 - p) :: u32) = 2 ^ (32 - p)" by (rule unat_power_u32) (use p(1) in simp)
  moreover have two: "(4 :: nat) \<le> 2 ^ (32 - p)"
    using p(2) power_increasing [of 2 "32 - p" "2 :: nat"] by simp
  moreover have "(2 :: nat) \<le> 2 ^ (32 - p)" using two by linarith
  ultimately have "unat (max_host_offset al) = 2 ^ (32 - p) - 2"
    by (simp add: max_host_offset_def al unat_sub word_le_nat_alt)
  then have off: "1 < unat ?off" "unat ?off \<le> 2 ^ (32 - p) - 2"
    using r by (simp_all add: word_less_nat_alt word_le_nat_alt)
  then have lt: "unat ?off < 2 ^ (32 - p)" using two by linarith
  have "p \<le> 32" using p(2) by simp
  note s = aligned_sum [OF p(3) this lt, folded ip]
  show "drop_bit (32 - p) (from_be_bytes ip) = drop_bit (32 - p) (from_be_bytes net)" by (rule s(2))
  show low: "unat (from_be_bytes net) + 1 < unat (from_be_bytes ip)" using s(1) off(1) by simp
  show "unat (from_be_bytes ip) < unat (from_be_bytes net) + 2 ^ (32 - p) - 1" using s(1) off(2) two by linarith
  show "ip \<noteq> net" using low by auto
  show "ip \<noteq> ip_gateway al"
  proof
    assume "ip = ip_gateway al"
    then have "?off = 1" by (simp add: ip_gateway_def)
    then show False using off(1) by simp
  qed
qed

text \<open>C8: with a configuration that validates, the allocator exists, and whatever sequence of
  allocations and releases is made, no address is held twice, and every held address lies
  strictly between the gateway and the broadcast address of the configured subnet.\<close>

theorem zones_never_share_addresses:
  assumes "validate cfg = Inr ()"
  shows "\<exists>net p al. subnet_octets cfg = Inr (net, p) \<and> IpAllocator_new net p = Some al \<and>
    (\<forall>ops held al'. leases ip_allocate ip_release ops ([], al) = (held, al') \<longrightarrow> distinct held \<and>
      (\<forall>ip \<in> set held. drop_bit (32 - p) (from_be_bytes ip) = drop_bit (32 - p) (from_be_bytes net) \<and>
        unat (from_be_bytes (ip_gateway al)) < unat (from_be_bytes ip) \<and>
        unat (from_be_bytes ip) < unat (from_be_bytes net) + 2 ^ (32 - p) - 1))"
proof -
  from assms obtain net p where np: "subnet_octets cfg = Inr (net, p)"
    by (auto simp: validate_def result_simps split: if_splits)
  then have cidr: "parse_cidr (nc_subnet (dc_network cfg)) = Inr (net, p)" by (simp add: subnet_octets_def)
  note p = parse_cidr_Inr [OF cidr]
  then obtain al where al: "IpAllocator_new net p = Some al" by (simp add: IpAllocator_new_def)
  then have wf: "pool_wf al" and sub: "ia_subnet al = net" using p by (auto simp: IpAllocator_new_def pool_wf_def)
  have "unat (1 :: u32) < 2 ^ (32 - p)" using p(2) one_less_power [of "2 :: nat" "32 - p"] by simp
  note gw = aligned_sum(1) [OF p(3) _ this]
  have gateway: "unat (from_be_bytes (ip_gateway al)) = unat (from_be_bytes net) + 1"
    using gw p(2) by (simp add: ip_gateway_def offset_to_ip_def sub)
  have "distinct held \<and> (\<forall>ip \<in> set held. drop_bit (32 - p) (from_be_bytes ip) = drop_bit (32 - p) (from_be_bytes net) \<and>
        unat (from_be_bytes (ip_gateway al)) < unat (from_be_bytes ip) \<and>
        unat (from_be_bytes ip) < unat (from_be_bytes net) + 2 ^ (32 - p) - 1)"
    if l: "leases ip_allocate ip_release ops ([], al) = (held, al')" for ops held al'
  proof -
    have "distinct held" and "set held \<subseteq> usable_ips al" using pool.leases_inv [OF l wf] by auto
    then show ?thesis using usable_in_subnet(1,4,5) [OF cidr al] unfolding gateway by blast
  qed
  then show ?thesis using np al by blast
qed

lemmas read_defs = read_number_def radix_digit_def radix_val_def is_ascii_digit_def
  digit_val_def read_char_def with_sep_def is_hex_digit_def hex_val_def

lemma read_groups_pos:
  "0 < n \<Longrightarrow> read_groups first n s =
     (case (if n - 1 > 0 then with_sep first read_ipv4_addr s else None) of
        Some (v4, r) \<Rightarrow> (octet_groups v4, True, r)
      | None \<Rightarrow>
          (case with_sep first (read_number 16 4 True 65535) s of
             None \<Rightarrow> ([], False, s)
           | Some (g, r) \<Rightarrow>
               (case read_groups False (n - 1) r of (gs, v4, r') \<Rightarrow> (of_nat g # gs, v4, r'))))"
  by (cases n) (simp, hypsubst, simp only: read_groups.simps diff_Suc_1)

lemma default_socket: "parse_socket_addr (sc_addr ServerConfig_default) \<noteq> None"
proof -
  have 1: "read_groups True 8 ''::1]:9876'' = ([], False, ''::1]:9876'')"
    by (simp add: read_groups_pos read_ipv4_addr_def read_octet_def read_defs)
  have 2: "read_groups False 6 '']:9876'' = ([], False, '']:9876'')"
    by (simp add: read_groups_pos read_defs)
  have 3: "read_groups True 7 ''1]:9876'' = ([1], False, '']:9876'')"
    by (simp add: read_groups_pos [of 7] 2 read_ipv4_addr_def read_octet_def read_dot_octet_def read_defs)
  have "read_socket_addr ''[::1]:9876'' = Some ((V6 (replicate 7 0 @ [1]), 9876), [])"
    by (simp add: read_socket_addr_def read_ipv4_addr_def read_octet_def read_ipv6_addr_def 1 3
      read_scope_def read_port_def read_defs)
  then show ?thesis by (simp add: ServerConfig_default_def parse_socket_addr_def parse_with_def)
qed

lemma default_nameservers: "check_nameservers (nc_dns_fallback NetworkConfig_default) = Inr ()"
  by code_simp

lemma default_subnet: "parse_cidr (nc_subnet NetworkConfig_default) = Inr ((10, 89, 0, 0), 16)"
proof -
  have "split_once CHR ''/'' ''10.89.0.0/16'' = Some (''10.89.0.0'', ''16'')" by simp
  moreover have "parse_ipv4 ''10.89.0.0'' = Some (10, 89, 0, 0)" by code_simp
  moreover have "parse_u8 ''16'' = Inr 16"
    by (simp add: parse_int_def starts_with_def is_ascii_digit_def digit_val_def)
  moreover have "from_be_bytes (10, 89, 0, 0) AND drop_bit 16 (-1) = 0"
    by (simp add: from_be_bytes_def mask_eq_exp_minus_1)
  ultimately show ?thesis by (simp add: parse_cidr_def NetworkConfig_default_def)
qed

lemma default_validates: "validate DaemonConfig_default = Inr ()"
  using default_socket default_nameservers default_subnet
  by (simp add: validate_def subnet_octets_def DaemonConfig_default_def ExecutorConfig_default_def
    EvidenceConfig_default_def LimitsConfig_default_def BrokerConfig_default_def MAX_RESULT_BYTES_def)
    (simp add: NetworkConfig_default_def)

theorem zones_never_share_addresses_witness:
  "\<exists>al held al'. IpAllocator_new (10, 89, 0, 0) 16 = Some al \<and>
    leases ip_allocate ip_release [Take, Take] ([], al) = (held, al') \<and> distinct held"
proof -
  have "subnet_octets DaemonConfig_default = Inr ((10, 89, 0, 0), 16)"
    using default_subnet by (simp add: subnet_octets_def DaemonConfig_default_def)
  then obtain al where al: "IpAllocator_new (10, 89, 0, 0) 16 = Some al" and
      d: "\<And>ops held al'. leases ip_allocate ip_release ops ([], al) = (held, al') \<Longrightarrow> distinct held"
    using zones_never_share_addresses [OF default_validates] by (auto simp del: leases.simps)
  obtain held al' where "leases ip_allocate ip_release [Take, Take] ([], al) = (held, al')" by fastforce
  then show ?thesis using al d by blast
qed

text \<open>A configuration that loads is the validated contents of the file or, only when no file
  was named, the default; a named file that is missing is refused.\<close>

lemma loaded_config_is_valid:
  assumes "load_config toml env read_file root = Inr cfg"
  shows "validate cfg = Inr () \<and> (read_file (config_path env root) = Inl NotFound \<longrightarrow> env = None)"
  using assms default_validates
  by (auto simp: load_config_def Let_def result_simps split: sum.splits file_error.splits if_splits)

end
