(* ===== verification/Broker_Classify.thy ===== *)
theory Broker_Classify
  imports Rauha_Prelude
begin

text \<open>
  Judging one suspended open, \<open>rauha-shim/src/broker/abi.rs\<close> and
  \<open>rauha-shim/src/broker/classify.rs\<close>. The \<open>libc\<close> constants are those of x86-64 Linux. An
  open is either classified as a grant, with the resolve flags the broker itself will use, or
  denied with an errno.
\<close>

record SeccompData =
  sd_nr :: i32
  sd_arch :: u32
  sd_instruction_pointer :: u64
  sd_args :: "u64 list"

record SeccompNotif =
  sn_id :: u64
  sn_pid :: u32
  sn_flags :: u32
  sn_data :: SeccompData

record SeccompNotifResp =
  sr_id :: u64
  sr_val :: int
  sr_error :: int
  sr_flags :: u32

record SeccompNotifAddfd =
  sa_id :: u64
  sa_flags :: u32
  sa_srcfd :: u32
  sa_newfd :: u32
  sa_newfd_flags :: u32

record OpenHow =
  how_flags :: u64
  how_mode :: u64
  how_resolve :: u64

definition OPEN_HOW_SIZE :: u64 where "OPEN_HOW_SIZE = 24"

definition RESOLVE_NO_XDEV :: u64 where "RESOLVE_NO_XDEV = 0x1"
definition RESOLVE_NO_MAGICLINKS :: u64 where "RESOLVE_NO_MAGICLINKS = 0x2"
definition RESOLVE_NO_SYMLINKS :: u64 where "RESOLVE_NO_SYMLINKS = 0x4"
definition RESOLVE_BENEATH :: u64 where "RESOLVE_BENEATH = 0x8"
definition RESOLVE_IN_ROOT :: u64 where "RESOLVE_IN_ROOT = 0x10"
definition RESOLVE_CTIME :: u64 where "RESOLVE_CTIME = 0x20"

definition KNOWN_RESOLVE :: u64 where
  "KNOWN_RESOLVE = RESOLVE_NO_XDEV OR RESOLVE_NO_MAGICLINKS OR RESOLVE_NO_SYMLINKS OR RESOLVE_BENEATH
    OR RESOLVE_IN_ROOT OR RESOLVE_CTIME"

definition NATIVE_ARCH :: u32 where "NATIVE_ARCH = 0xC000003E"

definition MAX_PATH :: nat where "MAX_PATH = 4096"

definition NR_OPENAT :: int where "NR_OPENAT = 257"
definition NR_OPENAT2 :: int where "NR_OPENAT2 = 437"

definition brokered_syscall_name :: "int \<Rightarrow> string option" where
  "brokered_syscall_name nr =
    (if nr = NR_OPENAT then Some ''openat'' else if nr = NR_OPENAT2 then Some ''openat2'' else None)"

text \<open>Errnos and open flags.\<close>

definition EPERM :: int where "EPERM = 1"
definition ENOENT :: int where "ENOENT = 2"
definition ESRCH :: int where "ESRCH = 3"
definition E2BIG :: int where "E2BIG = 7"
definition EFAULT :: int where "EFAULT = 14"
definition EXDEV :: int where "EXDEV = 18"
definition EINVAL :: int where "EINVAL = 22"
definition ENAMETOOLONG :: int where "ENAMETOOLONG = 36"

definition O_ACCMODE :: i32 where "O_ACCMODE = 3"
definition O_RDONLY :: i32 where "O_RDONLY = 0"
definition O_CREAT :: i32 where "O_CREAT = 0x40"
definition O_NOCTTY :: i32 where "O_NOCTTY = 0x100"
definition O_TRUNC :: i32 where "O_TRUNC = 0x200"
definition O_NONBLOCK :: i32 where "O_NONBLOCK = 0x800"
definition O_DIRECT :: i32 where "O_DIRECT = 0x4000"
definition O_DIRECTORY :: i32 where "O_DIRECTORY = 0x10000"
definition O_NOFOLLOW :: i32 where "O_NOFOLLOW = 0x20000"
definition O_CLOEXEC :: i32 where "O_CLOEXEC = 0x80000"
definition O_PATH :: i32 where "O_PATH = 0x200000"
definition O_TMPFILE :: i32 where "O_TMPFILE = 0x410000"

definition AT_FDCWD :: i32 where "AT_FDCWD = - 100"

datatype Anchor = TaskRoot | TaskDir u64

record Grant =
  gr_anchored :: Anchor
  gr_resolve :: u64
  gr_cloexec :: bool
  gr_nonblock :: bool

record Denial =
  dn_errno :: int
  dn_reason :: string

definition denial_policy :: "string \<Rightarrow> Denial" where
  "denial_policy reason = \<lparr>dn_errno = EPERM, dn_reason = reason\<rparr>"

definition denial_kernel :: "int \<Rightarrow> string \<Rightarrow> Denial" where
  "denial_kernel errno reason = \<lparr>dn_errno = errno, dn_reason = reason\<rparr>"

definition caller_restrictions :: "u64 \<Rightarrow> u64" where
  "caller_restrictions resolve = resolve AND KNOWN_RESOLVE AND NOT (RESOLVE_BENEATH OR RESOLVE_IN_ROOT)"

definition resolve_flags :: "bool \<Rightarrow> bool \<Rightarrow> u64" where
  "resolve_flags rooted no_follow =
    (if rooted then RESOLVE_IN_ROOT else RESOLVE_BENEATH) OR
    caller_restrictions (if no_follow then RESOLVE_NO_SYMLINKS else RESOLVE_NO_MAGICLINKS)"

fun first_denied :: "(i32 \<times> string) list \<Rightarrow> i32 \<Rightarrow> Denial + unit" where
  "first_denied [] flags = Inr ()"
| "first_denied ((flag, reason) # rest) flags =
     (if flags AND flag \<noteq> 0 then Inl (denial_policy reason) else first_denied rest flags)"

definition check_open_flags :: "i32 \<Rightarrow> Denial + unit" where
  "check_open_flags flags =
    (if flags AND O_ACCMODE \<noteq> O_RDONLY then Inl (denial_policy ''not read-only'')
     else if flags AND O_TMPFILE = O_TMPFILE then Inl (denial_policy ''O_TMPFILE'')
     else first_denied
       [(O_CREAT, ''O_CREAT''), (O_TRUNC, ''O_TRUNC''), (O_PATH, ''O_PATH''), (O_DIRECT, ''O_DIRECT'')] flags)"

definition check_path :: "u8 list \<Rightarrow> Denial + unit" where
  "check_path path =
    (if path = [] then Inl (denial_kernel ENOENT ''empty path'')
     else if length path \<ge> MAX_PATH then Inl (denial_kernel ENAMETOOLONG ''path too long'')
     else if 0 \<in> set path then Inl (denial_kernel EINVAL ''NUL in path'')
     else Inr ())"

definition is_absolute :: "u8 list \<Rightarrow> bool" where
  "is_absolute path = (hd path = 47)"

definition classify_openat :: "u64 \<Rightarrow> i32 \<Rightarrow> u8 list \<Rightarrow> Denial + Grant" where
  "classify_openat dirfd flags path =
    and_then (check_open_flags flags) (\<lambda>_.
    and_then (check_path path) (\<lambda>_.
    Inr \<lparr>gr_anchored = (if is_absolute path then TaskRoot else TaskDir dirfd),
      gr_resolve = resolve_flags (is_absolute path) (flags AND O_NOFOLLOW \<noteq> 0),
      gr_cloexec = (flags AND O_CLOEXEC \<noteq> 0), gr_nonblock = (flags AND O_NONBLOCK \<noteq> 0)\<rparr>))"

definition classify_openat2 :: "u64 \<Rightarrow> u64 \<Rightarrow> OpenHow \<Rightarrow> u8 list \<Rightarrow> Denial + Grant" where
  "classify_openat2 dirfd sz how path =
    (if sz > OPEN_HOW_SIZE then Inl (denial_kernel E2BIG ''oversized open_how'')
     else if sz < OPEN_HOW_SIZE then Inl (denial_kernel EINVAL ''undersized open_how'')
     else if how_resolve how AND NOT KNOWN_RESOLVE \<noteq> 0 then Inl (denial_kernel EINVAL ''unknown resolve flags'')
     else if how_resolve how AND (RESOLVE_BENEATH OR RESOLVE_IN_ROOT) = RESOLVE_BENEATH OR RESOLVE_IN_ROOT then
       Inl (denial_kernel EINVAL ''RESOLVE_BENEATH and RESOLVE_IN_ROOT are mutually exclusive'')
     else if drop_bit 32 (how_flags how) \<noteq> 0 then Inl (denial_kernel EINVAL ''unknown high flag bits'')
     else
       let flags = ucast (how_flags how) :: i32 in
       and_then (check_open_flags flags) (\<lambda>_.
       and_then (check_path path) (\<lambda>_.
       let beneath = (how_resolve how AND RESOLVE_BENEATH \<noteq> 0);
           in_root = (how_resolve how AND RESOLVE_IN_ROOT \<noteq> 0);
           restrictions = caller_restrictions (how_resolve how) OR
             (if flags AND O_NOFOLLOW \<noteq> 0 then RESOLVE_NO_SYMLINKS else RESOLVE_NO_MAGICLINKS)
       in if is_absolute path then
            (if beneath then Inl (denial_kernel EXDEV ''absolute path under RESOLVE_BENEATH'')
             else Inr \<lparr>gr_anchored = TaskRoot, gr_resolve = RESOLVE_IN_ROOT OR restrictions,
               gr_cloexec = (flags AND O_CLOEXEC \<noteq> 0), gr_nonblock = (flags AND O_NONBLOCK \<noteq> 0)\<rparr>)
          else
            Inr \<lparr>gr_anchored = TaskDir dirfd,
              gr_resolve = (if in_root then RESOLVE_IN_ROOT else RESOLVE_BENEATH) OR restrictions,
              gr_cloexec = (flags AND O_CLOEXEC \<noteq> 0), gr_nonblock = (flags AND O_NONBLOCK \<noteq> 0)\<rparr>)))"

subsection \<open>What a grant promises\<close>

lemmas resolve_defs = RESOLVE_NO_XDEV_def RESOLVE_NO_MAGICLINKS_def RESOLVE_NO_SYMLINKS_def
  RESOLVE_BENEATH_def RESOLVE_IN_ROOT_def RESOLVE_CTIME_def KNOWN_RESOLVE_def

lemmas open_flag_defs = O_ACCMODE_def O_RDONLY_def O_CREAT_def O_NOCTTY_def O_TRUNC_def O_NONBLOCK_def
  O_DIRECT_def O_DIRECTORY_def O_NOFOLLOW_def O_CLOEXEC_def O_PATH_def O_TMPFILE_def

lemmas errno_defs = EPERM_def ENOENT_def ESRCH_def E2BIG_def EFAULT_def EXDEV_def EINVAL_def ENAMETOOLONG_def

text \<open>A resolve set confines: exactly one containment flag, and no magic links.\<close>

definition confines :: "u64 \<Rightarrow> bool" where
  "confines r =
    ((r AND RESOLVE_BENEATH \<noteq> 0) \<noteq> (r AND RESOLVE_IN_ROOT \<noteq> 0) \<and>
     r AND (RESOLVE_NO_MAGICLINKS OR RESOLVE_NO_SYMLINKS) \<noteq> 0 \<and> r AND NOT KNOWN_RESOLVE = 0)"

definition side_effect_free :: "i32 \<Rightarrow> bool" where
  "side_effect_free flags =
    (flags AND O_ACCMODE = O_RDONLY \<and> flags AND O_CREAT = 0 \<and> flags AND O_TRUNC = 0 \<and>
     flags AND O_TMPFILE \<noteq> O_TMPFILE \<and> flags AND O_PATH = 0 \<and> flags AND O_DIRECT = 0)"

lemma check_open_flags_Inr: "check_open_flags flags = Inr () \<longleftrightarrow> side_effect_free flags"
  by (auto simp: check_open_flags_def side_effect_free_def)

lemma check_path_Inr:
  "check_path path = Inr () \<longleftrightarrow> path \<noteq> [] \<and> length path < MAX_PATH \<and> 0 \<notin> set path"
  by (auto simp: check_path_def)

text \<open>Every resolve flag is one bit.\<close>

lemma resolve_exps:
  "RESOLVE_NO_XDEV = 2 ^ 0" "RESOLVE_NO_MAGICLINKS = 2 ^ 1" "RESOLVE_NO_SYMLINKS = 2 ^ 2"
  "RESOLVE_BENEATH = 2 ^ 3" "RESOLVE_IN_ROOT = 2 ^ 4" "RESOLVE_CTIME = 2 ^ 5"
  by (simp_all add: resolve_defs)

lemma bit_flag: "bit (2 ^ k :: u64) n \<longleftrightarrow> n = k \<and> k < 64"
  by (auto simp: bit_exp_iff possible_bit_word)

lemma flag_set: "(r AND 2 ^ k \<noteq> 0) = bit r k" for r :: u64
  by (simp add: and_exp_eq_0_iff_not_bit)

lemma bit_resolve_flags:
  "bit RESOLVE_NO_XDEV n \<longleftrightarrow> n = 0" "bit RESOLVE_NO_MAGICLINKS n \<longleftrightarrow> n = 1"
  "bit RESOLVE_NO_SYMLINKS n \<longleftrightarrow> n = 2" "bit RESOLVE_BENEATH n \<longleftrightarrow> n = 3"
  "bit RESOLVE_IN_ROOT n \<longleftrightarrow> n = 4" "bit RESOLVE_CTIME n \<longleftrightarrow> n = 5"
  unfolding resolve_exps bit_flag by auto

lemma bit_known: "bit KNOWN_RESOLVE n \<longleftrightarrow> n < 6"
  by (auto simp: KNOWN_RESOLVE_def bit_or_iff bit_resolve_flags)

lemma bit_caller_restrictions: "bit (caller_restrictions r) n \<longleftrightarrow> bit r n \<and> n < 6 \<and> n \<noteq> 3 \<and> n \<noteq> 4"
proof (cases "n < 64")
  case False
  then have "\<not> bit (r :: u64) n" using bit_imp_le_length [of r n] by auto
  then show ?thesis by (simp add: caller_restrictions_def bit_and_iff)
qed (auto simp: caller_restrictions_def bit_and_iff bit_not_iff bit_or_iff bit_known bit_resolve_flags possible_bit_word)

lemma contained_iff: "x AND NOT y = 0 \<longleftrightarrow> (\<forall>n. bit x n \<longrightarrow> bit y n)" for x y :: u64
proof
  assume a: "x AND NOT y = 0"
  show "\<forall>n. bit x n \<longrightarrow> bit y n"
  proof (intro allI impI, rule ccontr)
    fix n
    assume b: "bit x n" "\<not> bit y n"
    then have "bit (x AND NOT y) n" using bit_imp_le_length [of x n]
      by (simp add: bit_and_iff bit_not_iff possible_bit_word)
    then show False using a by simp
  qed
next
  assume "\<forall>n. bit x n \<longrightarrow> bit y n"
  then show "x AND NOT y = 0" by (intro bit_eqI) (auto simp: bit_and_iff bit_not_iff)
qed

lemma confines_iff:
  "confines r \<longleftrightarrow> bit r 3 \<noteq> bit r 4 \<and> (bit r 1 \<or> bit r 2) \<and> (\<forall>n. bit r n \<longrightarrow> n < 6)"
proof -
  have "(r AND RESOLVE_BENEATH \<noteq> 0) = bit r 3" "(r AND RESOLVE_IN_ROOT \<noteq> 0) = bit r 4"
    unfolding resolve_exps by (rule flag_set)+
  moreover have "(r AND (RESOLVE_NO_MAGICLINKS OR RESOLVE_NO_SYMLINKS) \<noteq> 0) = (bit r 1 \<or> bit r 2)"
    unfolding resolve_exps bit.conj_disj_distrib or_eq_0_iff using flag_set [of r] by blast
  ultimately show ?thesis unfolding confines_def contained_iff bit_known by simp
qed

lemma both_iff:
  "how AND (RESOLVE_BENEATH OR RESOLVE_IN_ROOT) = RESOLVE_BENEATH OR RESOLVE_IN_ROOT \<longleftrightarrow> bit how 3 \<and> bit how 4"
  (is "?l \<longleftrightarrow> ?r")
proof
  assume ?l
  then have "bit (how AND (RESOLVE_BENEATH OR RESOLVE_IN_ROOT)) n = bit (RESOLVE_BENEATH OR RESOLVE_IN_ROOT) n" for n
    by simp
  from this [of 3] this [of 4] show ?r by (simp add: bit_and_iff bit_or_iff bit_resolve_flags)
next
  assume ?r
  then show ?l by (intro bit_eqI) (auto simp: bit_and_iff bit_or_iff bit_resolve_flags)
qed

lemmas resolve_bits = bit_or_iff bit_resolve_flags bit_caller_restrictions

lemma classify_openat_grant:
  assumes "classify_openat dirfd flags path = Inr g"
  shows "side_effect_free flags" and "check_path path = Inr ()" and "confines (gr_resolve g)"
    and "gr_anchored g = (if is_absolute path then TaskRoot else TaskDir dirfd)"
proof -
  from assms have g: "gr_resolve g = resolve_flags (is_absolute path) (flags AND O_NOFOLLOW \<noteq> 0)"
      "gr_anchored g = (if is_absolute path then TaskRoot else TaskDir dirfd)"
      and c: "check_open_flags flags = Inr ()" "check_path path = Inr ()"
    by (auto simp: classify_openat_def result_simps)
  show "side_effect_free flags" "check_path path = Inr ()"
      "gr_anchored g = (if is_absolute path then TaskRoot else TaskDir dirfd)"
    using g c by (simp_all add: check_open_flags_Inr)
  show "confines (gr_resolve g)"
    unfolding g(1) confines_iff by (auto simp: resolve_flags_def resolve_bits split: if_splits)
qed

lemma classify_openat2_grant:
  assumes "classify_openat2 dirfd sz how path = Inr g"
  shows "side_effect_free (ucast (how_flags how))" and "check_path path = Inr ()" and "confines (gr_resolve g)"
    and "gr_anchored g = (if is_absolute path then TaskRoot else TaskDir dirfd)"
    and "how_resolve how AND NOT (gr_resolve g) = 0" and "sz = OPEN_HOW_SIZE"
proof -
  let ?flags = "ucast (how_flags how) :: i32" and ?r = "how_resolve how"
  let ?lim = "if ?flags AND O_NOFOLLOW \<noteq> 0 then RESOLVE_NO_SYMLINKS else RESOLVE_NO_MAGICLINKS"
  have b3: "(?r AND RESOLVE_BENEATH \<noteq> 0) = bit ?r 3" and b4: "(?r AND RESOLVE_IN_ROOT \<noteq> 0) = bit ?r 4"
    unfolding resolve_exps by (rule flag_set)+
  from assms have g: "gr_resolve g = (if is_absolute path \<or> bit ?r 4 then RESOLVE_IN_ROOT else RESOLVE_BENEATH) OR
        (caller_restrictions ?r OR ?lim)"
      "gr_anchored g = (if is_absolute path then TaskRoot else TaskDir dirfd)"
      and c: "check_open_flags ?flags = Inr ()" "check_path path = Inr ()" "sz = OPEN_HOW_SIZE"
      and k: "?r AND NOT KNOWN_RESOLVE = 0" "\<not> (bit ?r 3 \<and> bit ?r 4)" "is_absolute path \<Longrightarrow> \<not> bit ?r 3"
    by (auto simp: classify_openat2_def result_simps Let_def b3 b4 both_iff split: if_splits)
  show "side_effect_free ?flags" "check_path path = Inr ()" "sz = OPEN_HOW_SIZE"
      "gr_anchored g = (if is_absolute path then TaskRoot else TaskDir dirfd)"
    using g c by (simp_all add: check_open_flags_Inr)
  show "confines (gr_resolve g)"
    unfolding g(1) confines_iff by (auto simp: resolve_bits split: if_splits)
  have known: "bit ?r n \<Longrightarrow> n < 6" for n using k(1) unfolding contained_iff bit_known by blast
  show "?r AND NOT (gr_resolve g) = 0"
    unfolding g(1) contained_iff
    using k(2,3) known by (auto simp: resolve_bits split: if_splits)
qed

text \<open>C20: a granted open is read-only and free of side effects, its path is well formed, absolute
  paths are anchored at the task's root and relative ones at its own directory, the broker's
  resolve flags confine it, and for \<open>openat2\<close> they include every restriction the caller asked
  for.\<close>

theorem grants_are_confined:
  "(classify_openat dirfd flags path = Inr g \<longrightarrow>
      side_effect_free flags \<and> check_path path = Inr () \<and> confines (gr_resolve g) \<and>
      gr_anchored g = (if is_absolute path then TaskRoot else TaskDir dirfd)) \<and>
   (classify_openat2 dirfd sz how path = Inr g \<longrightarrow>
      side_effect_free (ucast (how_flags how)) \<and> check_path path = Inr () \<and> confines (gr_resolve g) \<and>
      gr_anchored g = (if is_absolute path then TaskRoot else TaskDir dirfd) \<and>
      how_resolve how AND NOT (gr_resolve g) = 0)"
  using classify_openat_grant [of dirfd flags path g] classify_openat2_grant [of dirfd sz how path g] by blast

definition demo_grant :: Grant where
  "demo_grant = \<lparr>gr_anchored = TaskRoot, gr_resolve = 0x13, gr_cloexec = False, gr_nonblock = False\<rparr>"

lemma demo_grant_openat2:
  "classify_openat2 3 24 \<lparr>how_flags = 0, how_mode = 0, how_resolve = RESOLVE_NO_XDEV\<rparr> [47, 101] = Inr demo_grant"
  by (simp add: classify_openat2_def OPEN_HOW_SIZE_def resolve_defs check_open_flags_def open_flag_defs
    check_path_def MAX_PATH_def is_absolute_def caller_restrictions_def demo_grant_def)

theorem grants_are_confined_witness:
  "classify_openat2 3 24 \<lparr>how_flags = 0, how_mode = 0, how_resolve = RESOLVE_NO_XDEV\<rparr> [47, 101] = Inr demo_grant \<and>
    confines (gr_resolve demo_grant)"
  using grants_are_confined demo_grant_openat2 by blast

end
