(* ===== verification/Shim_Output.thy ===== *)
theory Shim_Output
  imports Rauha_Prelude
begin

text \<open>
  Bounded capture of workload output, \<open>rauha-shim/src/output.rs\<close>. A log is the contents of
  its file, whether its \<open>.incomplete\<close> marker exists, and the budget left. An input/output
  failure is an argument: the error and how many bytes reached the file before it. The capture
  thread is a function of the events it sees.
\<close>

record BoundedLog =
  bl_file :: string
  bl_marker :: bool
  bl_remaining :: nat
  bl_incomplete :: bool

text \<open>\<open>RAUHA_LOG_MAX_BYTES\<close>, one MiB by default, must be a positive \<open>usize\<close>.\<close>

definition log_max_bytes :: "string option \<Rightarrow> string + nat" where
  "log_max_bytes env =
    (case parse_u64 (case env of Some v \<Rightarrow> v | None \<Rightarrow> dec (1024 * 1024)) of
       Inl e \<Rightarrow> Inl (int_error e)
     | Inr value \<Rightarrow>
         if value > 0 then Inr value else Inl ''RAUHA_LOG_MAX_BYTES must be positive'')"

text \<open>The marker is created first; the log file must be new.\<close>

definition BoundedLog_open :: "string option \<Rightarrow> string option \<Rightarrow> nat \<Rightarrow> string + BoundedLog" where
  "BoundedLog_open marker_fault file_fault limit =
    (case marker_fault of
       Some e \<Rightarrow> Inl e
     | None \<Rightarrow>
         (case file_fault of
            Some e \<Rightarrow> Inl e
          | None \<Rightarrow> Inr \<lparr>bl_file = [], bl_marker = True, bl_remaining = limit, bl_incomplete = False\<rparr>))"

definition log_write :: "(string \<times> nat) option \<Rightarrow> string \<Rightarrow> bool \<Rightarrow> BoundedLog \<Rightarrow> (string + unit) \<times> BoundedLog" where
  "log_write fault bytes whole_record lg =
    (let lg1 = (if whole_record \<and> length bytes > bl_remaining lg then lg\<lparr>bl_remaining := 0\<rparr> else lg);
         count = (if whole_record \<and> length bytes > bl_remaining lg then 0
                  else min (length bytes) (bl_remaining lg));
         lg2 = (if count < length bytes then lg1\<lparr>bl_incomplete := True\<rparr> else lg1)
     in case fault of
          Some (e, n) \<Rightarrow>
            (Inl e, lg2\<lparr>bl_file := bl_file lg2 @ take n (take count bytes), bl_incomplete := True,
               bl_remaining := 0\<rparr>)
        | None \<Rightarrow>
            (Inr (), lg2\<lparr>bl_file := bl_file lg2 @ take count bytes,
               bl_remaining := bl_remaining lg2 - count\<rparr>))"

definition log_finish :: "string option \<Rightarrow> string option \<Rightarrow> BoundedLog \<Rightarrow> (string + unit) \<times> BoundedLog" where
  "log_finish sync_fault remove_fault lg =
    (case sync_fault of
       Some e \<Rightarrow> (Inl e, lg)
     | None \<Rightarrow>
         if bl_incomplete lg then (Inr (), lg)
         else (case remove_fault of
           Some e \<Rightarrow> (Inl e, lg)
         | None \<Rightarrow> (Inr (), lg\<lparr>bl_marker := False\<rparr>)))"

text \<open>What one turn of the capture thread sees: whether it was told to stop and its grace period
  is over, and the outcome of the read with what a write then meets.\<close>

datatype capture_read =
    EndOfStream
  | Got string "(string \<times> nat) option"
  | Interrupted
  | TimedOut
  | ReadFailed

record capture_turn =
  ct_stopping :: bool
  ct_grace_over :: bool
  ct_read :: capture_read
  ct_stopping_after :: bool

fun capture_loop :: "capture_turn list \<Rightarrow> BoundedLog \<Rightarrow> BoundedLog" where
  "capture_loop [] lg = lg"
| "capture_loop (t # ts) lg =
     (if ct_stopping t \<and> ct_grace_over t then lg
      else case ct_read t of
        EndOfStream \<Rightarrow> snd (log_finish None None lg)
      | Got bytes fault \<Rightarrow> capture_loop ts (snd (log_write fault bytes False lg))
      | Interrupted \<Rightarrow> capture_loop ts lg
      | TimedOut \<Rightarrow> if ct_stopping_after t then lg else capture_loop ts lg
      | ReadFailed \<Rightarrow> lg)"

subsection \<open>A log keeps a bounded prefix and admits its losses\<close>

text \<open>\<open>written\<close> is everything offered to the log so far, of which the file keeps a prefix.\<close>

definition log_inv :: "nat \<Rightarrow> string \<Rightarrow> BoundedLog \<Rightarrow> bool" where
  "log_inv limit written lg =
    (length (bl_file lg) + bl_remaining lg \<le> limit \<and> prefix (bl_file lg) written \<and>
     (bl_incomplete lg \<longrightarrow> bl_remaining lg = 0) \<and>
     (bl_file lg \<noteq> written \<longrightarrow> bl_incomplete lg) \<and> (bl_incomplete lg \<longrightarrow> bl_marker lg))"

text \<open>Once a byte is lost nothing more is kept, so the file stays a prefix.\<close>

lemma log_inv_write:
  assumes "log_inv limit w lg" and "log_write fault bytes whole lg = (r, lg')" and "bl_marker lg"
  shows "log_inv limit (w @ bytes) lg'" and "bl_marker lg'"
proof -
  let ?skip = "whole \<and> length bytes > bl_remaining lg"
  show "bl_marker lg'" using assms(2,3) by (auto simp: log_write_def Let_def split: option.splits if_splits)
  show "log_inv limit (w @ bytes) lg'"
  proof (cases "bl_file lg = w")
    case True
    then show ?thesis
      using assms
      by (auto simp: log_write_def log_inv_def Let_def min_def take_is_prefix split: option.splits if_splits prod.splits)
  next
    case False
    then have "bl_incomplete lg" "bl_remaining lg = 0" "prefix (bl_file lg) w"
      using assms(1) by (auto simp: log_inv_def)
    then show ?thesis
      using assms False
      by (auto simp: log_write_def log_inv_def Let_def split: option.splits if_splits)
  qed
qed

text \<open>What the workload wrote, as far as the thread read it, and whether it read to the end.\<close>

fun workload_output :: "capture_turn list \<Rightarrow> string \<times> bool" where
  "workload_output [] = ([], False)"
| "workload_output (t # ts) =
     (if ct_stopping t \<and> ct_grace_over t then ([], False)
      else case ct_read t of
        EndOfStream \<Rightarrow> ([], True)
      | Got bytes fault \<Rightarrow> (case workload_output ts of (out, ended) \<Rightarrow> (bytes @ out, ended))
      | Interrupted \<Rightarrow> workload_output ts
      | TimedOut \<Rightarrow> if ct_stopping_after t then ([], False) else workload_output ts
      | ReadFailed \<Rightarrow> ([], False))"

lemma capture_loop_inv:
  "\<lbrakk>log_inv limit w lg; bl_marker lg; workload_output ts = (out, ended); lg' = capture_loop ts lg\<rbrakk> \<Longrightarrow>
   length (bl_file lg') \<le> limit \<and> prefix (bl_file lg') (w @ out) \<and>
   (\<not> bl_marker lg' \<longrightarrow> ended \<and> bl_file lg' = w @ out)"
proof (induction ts arbitrary: w lg out)
  case Nil
  then show ?case by (auto simp: log_inv_def)
next
  case (Cons t ts)
  show ?case
  proof (cases "ct_stopping t \<and> ct_grace_over t")
    case True
    then show ?thesis using Cons.prems by (auto simp: log_inv_def)
  next
    case False
    show ?thesis
    proof (cases "ct_read t")
      case (Got bytes fault)
      obtain r lg1 where w: "log_write fault bytes False lg = (r, lg1)" by (cases "log_write fault bytes False lg")
      obtain out1 where "workload_output ts = (out1, ended)" "out = bytes @ out1"
        using Cons.prems(3) False Got by (auto split: prod.splits)
      with Cons.IH [OF log_inv_write [OF Cons.prems(1) w Cons.prems(2)]] Cons.prems(4) False Got w
      show ?thesis by simp
    qed (use Cons False in \<open>auto simp: log_inv_def log_finish_def split: if_splits\<close>)
  qed
qed

lemma capture_loop_complete:
  "\<lbrakk>log_inv limit w lg; \<not> bl_incomplete lg; length (w @ out) \<le> length (bl_file lg) + bl_remaining lg;
    workload_output ts = (out, True); \<forall>t \<in> set ts. \<forall>b f. ct_read t = Got b f \<longrightarrow> f = None\<rbrakk> \<Longrightarrow>
   bl_file (capture_loop ts lg) = w @ out \<and> \<not> bl_marker (capture_loop ts lg)"
proof (induction ts arbitrary: w lg out)
  case (Cons t ts)
  have go: "\<not> (ct_stopping t \<and> ct_grace_over t)" using Cons.prems(4) by auto
  have whole: "bl_file lg = w" using Cons.prems(1,2) by (auto simp: log_inv_def)
  show ?case
  proof (cases "ct_read t")
    case (Got bytes fault)
    have none: "fault = None" using Cons.prems(5) Got by simp
    obtain out1 where o1: "workload_output ts = (out1, True)" "out = bytes @ out1"
      using Cons.prems(4) go Got by (auto split: prod.splits)
    let ?lg = "lg\<lparr>bl_file := w @ bytes, bl_remaining := bl_remaining lg - length bytes\<rparr>"
    have w: "snd (log_write fault bytes False lg) = ?lg"
      using Cons.prems(3) whole none o1(2) by (simp add: log_write_def)
    have "log_inv limit (w @ bytes) ?lg" using Cons.prems(1,2,3) whole o1(2) by (auto simp: log_inv_def)
    then have "bl_file (capture_loop ts ?lg) = (w @ bytes) @ out1 \<and> \<not> bl_marker (capture_loop ts ?lg)"
      using Cons.prems whole o1 by (intro Cons.IH) auto
    then show ?thesis using go Got w o1(2) by auto
  qed (use Cons go whole in \<open>auto simp: log_finish_def split: if_splits\<close>)
qed simp

text \<open>Whatever the capture thread meets, the log never exceeds its limit and is a prefix of the
  workload's output; a log without its marker is the whole output of a stream that ended; and
  output that fits and meets no write error is kept whole, without a marker.\<close>

lemma capture_is_honest:
  assumes "BoundedLog_open None None limit = Inr lg0" and "workload_output ts = (out, ended)"
  shows "length (bl_file (capture_loop ts lg0)) \<le> limit \<and> prefix (bl_file (capture_loop ts lg0)) out \<and>
    (\<not> bl_marker (capture_loop ts lg0) \<longrightarrow> ended \<and> bl_file (capture_loop ts lg0) = out) \<and>
    (ended \<and> length out \<le> limit \<and> (\<forall>t \<in> set ts. \<forall>b f. ct_read t = Got b f \<longrightarrow> f = None) \<longrightarrow>
      \<not> bl_marker (capture_loop ts lg0) \<and> bl_file (capture_loop ts lg0) = out)"
proof -
  have lg0: "lg0 = \<lparr>bl_file = [], bl_marker = True, bl_remaining = limit, bl_incomplete = False\<rparr>"
    using assms(1) by (simp add: BoundedLog_open_def)
  then have inv: "log_inv limit [] lg0" and m: "bl_marker lg0" by (simp_all add: log_inv_def)
  show ?thesis
    using capture_loop_inv [OF inv m assms(2) refl] capture_loop_complete [OF inv, of out ts] assms(2) lg0
    by (auto simp del: capture_loop.simps)
qed

end
