(* ===== verification/Broker_Judge.thy ===== *)
theory Broker_Judge
  imports Broker_Classify Shim_Output
begin

text \<open>
  The seccomp-notify broker of the shim: task pins and their cache
  (\<open>rauha-shim/src/broker/pins.rs\<close>), the decision log (\<open>decision.rs\<close>) and the judge itself
  (\<open>mod.rs\<close>). What the kernel answers is the record \<open>broker_env\<close>: a system call gives its
  result or the errno that \<open>last_os_error\<close> reports, if any; a descriptor is a number. The judge
  does not panic in the model, since every operation it performs is total here.
\<close>

type_synonym 'a sysret = "int option + 'a"

record broker_env =
  be_pidfd_open :: "u32 \<Rightarrow> nat sysret"
  be_open_mem :: "u32 \<Rightarrow> nat sysret"
  be_open_root :: "u32 \<Rightarrow> nat sysret"
  be_alive :: "nat \<Rightarrow> bool"
  be_id_valid :: "u64 \<Rightarrow> bool"
  be_read_at :: "nat \<Rightarrow> nat \<Rightarrow> u64 \<Rightarrow> u8 list option"
  be_open_cwd :: "u32 \<Rightarrow> nat sysret"
  be_pidfd_getfd :: "nat \<Rightarrow> u32 \<Rightarrow> nat sysret"
  be_openat2 :: "nat \<Rightarrow> u8 list \<Rightarrow> OpenHow \<Rightarrow> nat sysret"
  be_addfd :: "SeccompNotifAddfd \<Rightarrow> (int option \<times> string) + nat"

definition errno_or :: "int \<Rightarrow> int option \<Rightarrow> int" where
  "errno_or dflt e = (case e of Some n \<Rightarrow> n | None \<Rightarrow> dflt)"

subsection \<open>Task pins\<close>

record TaskPins =
  tp_pidfd :: nat
  tp_mem :: nat
  tp_root :: nat

definition TaskPins_open :: "broker_env \<Rightarrow> u32 \<Rightarrow> int + TaskPins" where
  "TaskPins_open env tid =
    and_then (map_err (errno_or ESRCH) (be_pidfd_open env tid)) (\<lambda>pidfd.
    and_then (map_err (errno_or ESRCH) (be_open_mem env tid)) (\<lambda>mem.
    and_then (map_err (errno_or ESRCH) (be_open_root env tid)) (\<lambda>root.
    Inr \<lparr>tp_pidfd = pidfd, tp_mem = mem, tp_root = root\<rparr>)))"

datatype PinHandle = Cached TaskPins | Cold TaskPins

fun pin_deref :: "PinHandle \<Rightarrow> TaskPins" where
  "pin_deref (Cached p) = p"
| "pin_deref (Cold p) = p"

record PinCache =
  pc_pins :: "(u32 \<times> TaskPins) list"
  pc_order :: "u32 list"
  pc_max_tasks :: nat

definition PinCache_new :: "nat \<Rightarrow> PinCache" where
  "PinCache_new max_tasks = \<lparr>pc_pins = [], pc_order = [], pc_max_tasks = max_tasks\<rparr>"

definition pin_remove :: "u32 \<Rightarrow> (u32 \<times> TaskPins) list \<Rightarrow> (u32 \<times> TaskPins) list" where
  "pin_remove tid pins = filter (\<lambda>(t, _). t \<noteq> tid) pins"

fun pin_evict :: "nat \<Rightarrow> (u32 \<times> TaskPins) list \<Rightarrow> u32 list \<Rightarrow> (u32 \<times> TaskPins) list \<times> u32 list" where
  "pin_evict max_tasks pins [] = (pins, [])"
| "pin_evict max_tasks pins (oldest # order) =
     (if length pins \<ge> max_tasks then pin_evict max_tasks (pin_remove oldest pins) order
      else (pins, oldest # order))"

definition pin_fill :: "broker_env \<Rightarrow> u32 \<Rightarrow> PinCache \<Rightarrow> (int + PinHandle) \<times> PinCache" where
  "pin_fill env tid cache =
    (let pins = pin_remove tid (pc_pins cache) in
     if pc_max_tasks cache = 0 then
       ((case TaskPins_open env tid of Inl e \<Rightarrow> Inl e | Inr p \<Rightarrow> Inr (Cold p)),
        cache\<lparr>pc_pins := pins\<rparr>)
     else
       let (pins, order) = pin_evict (pc_max_tasks cache) pins (pc_order cache) in
       case TaskPins_open env tid of
         Inl e \<Rightarrow> (Inl e, cache\<lparr>pc_pins := pins, pc_order := order\<rparr>)
       | Inr p \<Rightarrow> (Inr (Cached p),
           cache\<lparr>pc_pins := (tid, p) # pin_remove tid pins, pc_order := order @ [tid]\<rparr>))"

definition for_task :: "broker_env \<Rightarrow> u32 \<Rightarrow> PinCache \<Rightarrow> (int + PinHandle) \<times> PinCache" where
  "for_task env tid cache =
    (case map_of (pc_pins cache) tid of
       Some p \<Rightarrow>
         if be_alive env (tp_pidfd p) then (Inr (Cached p), cache) else pin_fill env tid cache
     | None \<Rightarrow> pin_fill env tid cache)"

subsection \<open>The decision log\<close>

datatype Decision = Deny int string | InjectFd nat bool

record LogRecord =
  lr_seq :: nat
  lr_ts_ms :: nat
  lr_notif_id :: u64
  lr_tid :: u32
  lr_syscall :: string
  lr_path :: "u8 list"
  lr_decision :: string
  lr_errno :: int
  lr_reason :: "string option"

record DecisionLog =
  dl_log :: "BoundedLog option"
  dl_seq :: nat
  dl_disabled :: bool

definition DecisionLog_open :: "string option \<Rightarrow> string option \<Rightarrow> string option \<Rightarrow> DecisionLog" where
  "DecisionLog_open env marker_fault file_fault =
    (case and_then (log_max_bytes env) (BoundedLog_open marker_fault file_fault) of
       Inr lg \<Rightarrow> \<lparr>dl_log = Some lg, dl_seq = 0, dl_disabled = False\<rparr>
     | Inl e \<Rightarrow> \<lparr>dl_log = None, dl_seq = 0, dl_disabled = True\<rparr>)"

text \<open>The JSON printer \<open>render\<close>, the clock and a failing write are parameters of a record.\<close>

definition log_record ::
  "(LogRecord \<Rightarrow> string) \<Rightarrow> nat \<Rightarrow> (string \<times> nat) option \<Rightarrow> u64 \<Rightarrow> string \<Rightarrow> u32 \<Rightarrow> u8 list \<Rightarrow> int \<Rightarrow>
   string option \<Rightarrow> DecisionLog \<Rightarrow> DecisionLog" where
  "log_record render ts_ms fault nid syscall tid path errno reason log =
    (case dl_log log of
       None \<Rightarrow> log
     | Some lg \<Rightarrow>
         if dl_disabled log then log
         else
           let seq = dl_seq log + 1;
               line = render \<lparr>lr_seq = seq, lr_ts_ms = ts_ms, lr_notif_id = nid, lr_tid = tid,
                 lr_syscall = syscall, lr_path = path,
                 lr_decision = (if reason \<noteq> None then ''denied'' else ''granted''),
                 lr_errno = errno, lr_reason = reason\<rparr> @ [newline];
               (r, lg') = log_write fault line True lg
           in log\<lparr>dl_log := Some lg', dl_seq := seq, dl_disabled := \<not> is_ok r\<rparr>)"

subsection \<open>Reading the caller's memory\<close>

datatype PathRead = Found "u8 list" | TooLong | Unreadable

definition path_want :: "u8 list \<Rightarrow> nat" where
  "path_want buf = max (min (max (length buf) 256) (MAX_PATH - length buf)) 1"

definition checked_add_u64 :: "u64 \<Rightarrow> nat \<Rightarrow> u64 option" where
  "checked_add_u64 a n = (if unat a + n < 2 ^ 64 then Some (a + of_nat n) else None)"

text \<open>
  A positional read fills at most the buffer it is given. The buffer never grows past
  \<open>MAX_PATH\<close>, so the subtraction in \<open>path_want\<close> never underflows: the first branch is not
  reached from the empty buffer.
\<close>

function read_path_loop :: "(nat \<Rightarrow> u64 \<Rightarrow> u8 list option) \<Rightarrow> u64 \<Rightarrow> u8 list \<Rightarrow> nat \<Rightarrow> PathRead" where
  "read_path_loop rd ptr buf offset =
    (if length buf > MAX_PATH then Unreadable
     else let want = path_want buf in
     case checked_add_u64 ptr offset of
       None \<Rightarrow> Unreadable
     | Some at \<Rightarrow>
         (case map_option (take want) (rd want at) of
            None \<Rightarrow> Unreadable
          | Some [] \<Rightarrow> Unreadable
          | Some (b # bs) \<Rightarrow>
              if 0 \<in> set (b # bs) then Found (buf @ takeWhile (\<lambda>c. c \<noteq> 0) (b # bs))
              else if offset + length (b # bs) \<ge> 2 ^ 64 then Unreadable
              else if length (buf @ b # bs) = MAX_PATH then TooLong
              else read_path_loop rd ptr (buf @ b # bs) (offset + length (b # bs))))"
  by pat_completeness auto
termination
  by (relation "measure (\<lambda>(rd, ptr, buf, offset). MAX_PATH + 1 - length buf)") auto

declare read_path_loop.simps [simp del]

definition read_path_into :: "(nat \<Rightarrow> u64 \<Rightarrow> u8 list option) \<Rightarrow> u64 \<Rightarrow> PathRead" where
  "read_path_into rd ptr = read_path_loop rd ptr [] 0"

text \<open>The standard library's \<open>read_exact_at\<close>: read until the buffer is full or a read gives nothing.\<close>

function read_exact_at :: "(nat \<Rightarrow> u64 \<Rightarrow> u8 list option) \<Rightarrow> nat \<Rightarrow> u64 \<Rightarrow> u8 list option" where
  "read_exact_at rd n at =
    (if n = 0 then Some []
     else case map_option (take n) (rd n at) of
       None \<Rightarrow> None
     | Some [] \<Rightarrow> None
     | Some (b # bs) \<Rightarrow>
         map_option ((@) (b # bs))
           (read_exact_at rd (n - length (b # bs)) (at + of_nat (length (b # bs)))))"
  by pat_completeness auto
termination
  by (relation "measure (\<lambda>(rd, n, at). n)") auto

declare read_exact_at.simps [simp del]

definition u64_from_ne_bytes :: "u8 list \<Rightarrow> u64" where
  "u64_from_ne_bytes bs = foldr (\<lambda>b acc. ucast b + 256 * acc) bs 0"

definition read_open_how :: "(nat \<Rightarrow> u64 \<Rightarrow> u8 list option) \<Rightarrow> u64 \<Rightarrow> OpenHow option" where
  "read_open_how rd ptr =
    map_option (\<lambda>buf. \<lparr>how_flags = u64_from_ne_bytes (take 8 buf),
        how_mode = u64_from_ne_bytes (take 8 (drop 8 buf)),
        how_resolve = u64_from_ne_bytes (take 8 (drop 16 buf))\<rparr>)
      (read_exact_at rd (unat OPEN_HOW_SIZE) ptr)"

subsection \<open>Judging one notification\<close>

record Verdict =
  vd_syscall :: string
  vd_tid :: u32
  vd_path_len :: nat
  vd_decision :: Decision

definition verdict_deny :: "string \<Rightarrow> u32 \<Rightarrow> nat \<Rightarrow> int \<Rightarrow> string \<Rightarrow> Verdict" where
  "verdict_deny syscall tid path_len errno reason =
    \<lparr>vd_syscall = syscall, vd_tid = tid, vd_path_len = path_len, vd_decision = Deny errno reason\<rparr>"

definition open_base :: "broker_env \<Rightarrow> TaskPins \<Rightarrow> u32 \<Rightarrow> Anchor \<Rightarrow> (int \<times> string) + nat" where
  "open_base env pins tid anchored =
    (case anchored of
       TaskRoot \<Rightarrow> Inr (tp_root pins)
     | TaskDir dirfd \<Rightarrow>
         if dirfd = scast AT_FDCWD
         then map_err (\<lambda>e. (errno_or EPERM e, ''no cwd fd'')) (be_open_cwd env tid)
         else map_err (\<lambda>e. (errno_or EPERM e, ''borrow dirfd''))
                (be_pidfd_getfd env (tp_pidfd pins) (ucast dirfd)))"

definition open_request :: "Grant \<Rightarrow> OpenHow" where
  "open_request grant =
    \<lparr>how_flags = scast (O_RDONLY OR O_CLOEXEC OR O_NOCTTY OR
        (if gr_nonblock grant then O_NONBLOCK else 0)),
     how_mode = 0, how_resolve = gr_resolve grant\<rparr>"

definition open_for_target ::
  "broker_env \<Rightarrow> TaskPins \<Rightarrow> u32 \<Rightarrow> string \<Rightarrow> Grant \<Rightarrow> u8 list \<Rightarrow> Verdict" where
  "open_for_target env pins tid syscall grant path =
    (case open_base env pins tid (gr_anchored grant) of
       Inl (errno, reason) \<Rightarrow> verdict_deny syscall tid (length path) errno reason
     | Inr dir_fd \<Rightarrow>
         if 0 \<in> set path then verdict_deny syscall tid (length path) EINVAL ''NUL in path''
         else case be_openat2 env dir_fd path (open_request grant) of
           Inl e \<Rightarrow> verdict_deny syscall tid (length path) (errno_or EPERM e) ''open failed''
         | Inr opened \<Rightarrow>
             \<lparr>vd_syscall = syscall, vd_tid = tid, vd_path_len = length path,
              vd_decision = InjectFd opened (gr_cloexec grant)\<rparr>)"

definition judge_path :: "broker_env \<Rightarrow> SeccompNotif \<Rightarrow> string \<Rightarrow> TaskPins \<Rightarrow> u8 list \<Rightarrow> Verdict" where
  "judge_path env notif syscall pins path =
    (let tid = sn_pid notif; args = sd_args (sn_data notif); dirfd = args ! 0;
         rd = be_read_at env (tp_mem pins);
         answer = (\<lambda>grant. case grant of
             Inr g \<Rightarrow> open_for_target env pins tid syscall g path
           | Inl d \<Rightarrow> verdict_deny syscall tid (length path) (dn_errno d) (dn_reason d))
     in
     if syscall = ''openat'' then answer (classify_openat dirfd (ucast (args ! 2)) path)
     else if syscall = ''openat2'' then
       (case read_open_how rd (args ! 2) of
          None \<Rightarrow> verdict_deny syscall tid (length path) EFAULT ''unreadable open_how''
        | Some how \<Rightarrow> answer (classify_openat2 dirfd (args ! 3) how path))
     else verdict_deny syscall tid (length path) EPERM ''not brokerable (policy/shim mismatch)'')"

text \<open>
  The scratch buffer is a result of the judge. It is updated when a path is found; what the other
  outcomes leave in it is never read, because their verdicts have path length 0.
\<close>

definition judge ::
  "broker_env \<Rightarrow> SeccompNotif \<Rightarrow> PinCache \<Rightarrow> u8 list \<Rightarrow> Verdict \<times> PinCache \<times> u8 list" where
  "judge env notif cache scratch =
    (let tid = sn_pid notif in
     case brokered_syscall_name (sint (sd_nr (sn_data notif))) of
       None \<Rightarrow> (verdict_deny ''unknown'' tid 0 EPERM ''not brokerable (policy/shim mismatch)'', cache, scratch)
     | Some syscall \<Rightarrow>
         if sd_arch (sn_data notif) \<noteq> NATIVE_ARCH
         then (verdict_deny syscall tid 0 EPERM ''non-native arch'', cache, scratch)
         else
           (case for_task env tid cache of
              (Inl errno, cache') \<Rightarrow> (verdict_deny syscall tid 0 errno ''task pins'', cache', scratch)
            | (Inr handle, cache') \<Rightarrow>
                if \<not> be_id_valid env (sn_id notif)
                then (verdict_deny syscall tid 0 ESRCH ''notification expired'', cache', scratch)
                else
                  (let pins = pin_deref handle in
                   case read_path_into (be_read_at env (tp_mem pins)) (sd_args (sn_data notif) ! 1) of
                     TooLong \<Rightarrow> (verdict_deny syscall tid 0 ENAMETOOLONG ''path too long'', cache', scratch)
                   | Unreadable \<Rightarrow> (verdict_deny syscall tid 0 EFAULT ''unreadable path'', cache', scratch)
                   | Found path \<Rightarrow> (judge_path env notif syscall pins path, cache', path))))"

subsection \<open>Answering\<close>

definition addfd_request :: "u64 \<Rightarrow> nat \<Rightarrow> bool \<Rightarrow> SeccompNotifAddfd" where
  "addfd_request nid src cloexec =
    \<lparr>sa_id = nid, sa_flags = 0, sa_srcfd = of_nat src, sa_newfd = 0,
     sa_newfd_flags = (if cloexec then O_CLOEXEC else 0)\<rparr>"

text \<open>
  \<open>respond\<close> gives the response it sends, the ADDFD request it makes first (if any) and the log. A
  failing SEND changes nothing the broker keeps.
\<close>

definition decide_response ::
  "broker_env \<Rightarrow> u64 \<Rightarrow> Decision \<Rightarrow> SeccompNotifResp \<times> SeccompNotifAddfd option \<times> int \<times> string option" where
  "decide_response env nid decision =
    (let resp = \<lparr>sr_id = nid, sr_val = 0, sr_error = 0, sr_flags = 0\<rparr> in
     case decision of
       Deny errno reason \<Rightarrow> (resp\<lparr>sr_error := - errno\<rparr>, None, errno, Some reason)
     | InjectFd src cloexec \<Rightarrow>
         let addfd = addfd_request nid src cloexec in
         (case be_addfd env addfd of
            Inl (e, shown) \<Rightarrow>
              (resp\<lparr>sr_error := - errno_or EPERM e\<rparr>, Some addfd, errno_or EPERM e,
               Some (''addfd: '' @ shown))
          | Inr target_fd \<Rightarrow> (resp\<lparr>sr_val := int target_fd\<rparr>, Some addfd, 0, None)))"

datatype recv_outcome = RecvFailed "int option" | Received SeccompNotif

record judge_turn =
  jt_recv :: recv_outcome
  jt_env :: broker_env
  jt_poisoned :: bool
  jt_ts_ms :: nat
  jt_fault :: "(string \<times> nat) option"

type_synonym answer = "SeccompNotifResp \<times> SeccompNotifAddfd option"

definition respond ::
  "(LogRecord \<Rightarrow> string) \<Rightarrow> judge_turn \<Rightarrow> u64 \<Rightarrow> Verdict \<Rightarrow> u8 list \<Rightarrow> DecisionLog \<Rightarrow> answer \<times> DecisionLog" where
  "respond render t nid verdict path log =
    (let (resp, addfd, errno, reason) = decide_response (jt_env t) nid (vd_decision verdict);
         log' = (if jt_poisoned t then log
                 else log_record render (jt_ts_ms t) (jt_fault t) nid (vd_syscall verdict)
                        (vd_tid verdict) path errno reason log)
     in ((resp, addfd), log'))"

definition ENOTTY :: int where "ENOTTY = 25"
definition EINTR :: int where "EINTR = 4"

datatype loop_end = Ended | Bailed | StillServing

text \<open>
  One turn of the loop per element: what RECV gave and how the kernel behaves during the judgment.
  Without a further turn the loop is blocked in RECV.
\<close>

fun judge_loop ::
  "(LogRecord \<Rightarrow> string) \<Rightarrow> judge_turn list \<Rightarrow> PinCache \<Rightarrow> u8 list \<Rightarrow> DecisionLog \<Rightarrow>
   answer list \<times> loop_end \<times> PinCache \<times> DecisionLog" where
  "judge_loop render [] cache scratch log = ([], StillServing, cache, log)"
| "judge_loop render (t # ts) cache scratch log =
    (case jt_recv t of
       RecvFailed e \<Rightarrow>
         if e = Some ENOTTY then ([], Bailed, cache, log)
         else if e = Some EINTR then judge_loop render ts cache scratch log
         else ([], Ended, cache, log)
     | Received notif \<Rightarrow>
         let (verdict, cache', scratch') = judge (jt_env t) notif cache scratch;
             path = take (min (vd_path_len verdict) (length scratch')) scratch';
             (a, log') = respond render t (sn_id notif) verdict path log;
             (as, e, cache'', log'') = judge_loop render ts cache' scratch' log'
         in (a # as, e, cache'', log''))"

subsection \<open>Setting up the pool\<close>

definition DEFAULT_JUDGE_THREADS :: nat where "DEFAULT_JUDGE_THREADS = 4"
definition DEFAULT_CACHE_MAX_TASKS :: nat where "DEFAULT_CACHE_MAX_TASKS = 512"
definition FD_HEADROOM :: nat where "FD_HEADROOM = 96"
definition MIN_JUDGE_THREADS :: nat where "MIN_JUDGE_THREADS = 1"
definition MAX_JUDGE_THREADS :: nat where "MAX_JUDGE_THREADS = 64"

definition env_usize :: "nat \<Rightarrow> string option \<Rightarrow> nat" where
  "env_usize dflt configured =
    (case configured of None \<Rightarrow> dflt
     | Some v \<Rightarrow> (case parse_uint (2 ^ 64 - 1) v of None \<Rightarrow> dflt | Some n \<Rightarrow> n))"

definition judge_threads_from :: "string option \<Rightarrow> nat" where
  "judge_threads_from configured =
    min (max (env_usize DEFAULT_JUDGE_THREADS configured) MIN_JUDGE_THREADS) MAX_JUDGE_THREADS"

definition cache_max_tasks_from :: "string option \<Rightarrow> nat" where
  "cache_max_tasks_from configured = env_usize DEFAULT_CACHE_MAX_TASKS configured"

definition cache_cap_within :: "nat \<Rightarrow> nat \<Rightarrow> nat" where
  "cache_cap_within configured nofile =
    (if configured = 0 then 0 else min configured ((nofile - FD_HEADROOM) div 3))"

definition pool_caches :: "nat \<Rightarrow> nat \<Rightarrow> PinCache list" where
  "pool_caches cache_cap threads =
    (if threads = 1 then [PinCache_new cache_cap]
     else replicate threads (PinCache_new (max (cache_cap div threads) 1)))"

text \<open>
  The hand-off of the notify descriptor. A received message is the control message the kernel
  delivered, if any, with its flags; \<open>recv_fd\<close> gives its result and the descriptors it closed.
\<close>

record cmsg =
  cm_level :: int
  cm_type :: int
  cm_bytes :: nat
  cm_fds :: "int list"

record recv_msg =
  rm_error :: "string option"
  rm_cmsg :: "cmsg option"
  rm_flags :: u32

definition SOL_SOCKET :: int where "SOL_SOCKET = 1"
definition SCM_RIGHTS :: int where "SCM_RIGHTS = 1"
definition MSG_CTRUNC :: u32 where "MSG_CTRUNC = 8"

definition recv_fd :: "recv_msg \<Rightarrow> (string + int) \<times> int list" where
  "recv_fd m =
    (case rm_error m of
       Some e \<Rightarrow> (Inl (''recvmsg on seccomp listener: '' @ e), [])
     | None \<Rightarrow>
        (case rm_cmsg m of
           None \<Rightarrow> (Inl ''no control message on seccomp listener'', [])
         | Some c \<Rightarrow>
             if cm_level c \<noteq> SOL_SOCKET \<or> cm_type c \<noteq> SCM_RIGHTS then
               (Inl ''unexpected cmsg on seccomp listener'', [])
             else if cm_bytes c mod 4 \<noteq> 0 then (Inl ''malformed SCM_RIGHTS cmsg on seccomp listener'', [])
             else
               let fds = take (cm_bytes c div 4) (cm_fds c) in
               if rm_flags m AND MSG_CTRUNC \<noteq> 0 then
                 (Inl ''truncated SCM_RIGHTS cmsg on seccomp listener'', fds)
               else if length fds \<noteq> 1 then
                 (Inl (''expected exactly one fd from the seccomp listener, got '' @ dec (length fds)), fds)
               else if fds ! 0 < 0 then (Inl ''invalid fd from seccomp listener'', [])
               else (Inr (fds ! 0), [])))"

record hand_off =
  ho_bind :: "string option"
  ho_accept :: "string option"
  ho_peer :: "string + nat \<times> nat"
  ho_uid :: nat
  ho_timeout :: "string option"
  ho_msg :: recv_msg
  ho_nofile :: "nat option"
  ho_judge_threads :: "string option"
  ho_cache_max :: "string option"

definition io_step :: "string \<Rightarrow> string option \<Rightarrow> string + unit" where
  "io_step ctx fault = (case fault of None \<Rightarrow> Inr () | Some e \<Rightarrow> Inl ctx)"

text \<open>
  \<open>serve\<close> up to the start of its judges: the notify descriptor and one pin cache per judge, or the
  (outermost) error. The loop of each judge is \<open>judge_loop\<close>.
\<close>

definition serve :: "string \<Rightarrow> hand_off \<Rightarrow> string + (int \<times> PinCache list)" where
  "serve listener_path h =
    and_then (io_step (''bind seccomp listener '' @ listener_path) (ho_bind h)) (\<lambda>_.
    and_then (io_step ''accept seccomp listener'' (ho_accept h)) (\<lambda>_.
    and_then (ho_peer h) (\<lambda>(uid, pid).
    if uid \<noteq> ho_uid h then
      Inl (''refusing seccomp hand-off from uid '' @ dec uid @ '' (pid '' @ dec pid @ '') '' @ em_dash @
        '' expected our own uid'')
    else
    and_then (io_step ''set seccomp hand-off timeout'' (ho_timeout h)) (\<lambda>_.
    and_then (map_err (\<lambda>_. ''receive seccomp notify fd'') (fst (recv_fd (ho_msg h)))) (\<lambda>notify_fd.
    let nofile = (case ho_nofile h of Some n \<Rightarrow> n | None \<Rightarrow> DEFAULT_CACHE_MAX_TASKS * 3 + FD_HEADROOM);
        cache_cap = cache_cap_within (cache_max_tasks_from (ho_cache_max h)) nofile
    in Inr (notify_fd, pool_caches cache_cap (judge_threads_from (ho_judge_threads h))))))))"

lemma singleton_take: "min (length xs) n = Suc 0 \<Longrightarrow> take n xs = [xs ! 0]"
  by (cases xs; cases n) (auto simp: min_def split: if_splits)

lemma serve_accepts:
  assumes "serve listener_path h = Inr (fd, caches)"
  obtains c where "rm_cmsg (ho_msg h) = Some c" "take (cm_bytes c div 4) (cm_fds c) = [fd]" "0 \<le> fd"
    "cm_level c = SOL_SOCKET" "cm_type c = SCM_RIGHTS" "rm_flags (ho_msg h) AND MSG_CTRUNC = 0"
    "snd (recv_fd (ho_msg h)) = []" "\<exists>pid. ho_peer h = Inr (ho_uid h, pid)"
proof -
  have r: "fst (recv_fd (ho_msg h)) = Inr fd" and p: "\<exists>pid. ho_peer h = Inr (ho_uid h, pid)"
    using assms by (auto simp: serve_def result_simps Let_def split: if_splits)
  show ?thesis
    using r p that
    by (auto simp: recv_fd_def Let_def singleton_take split: option.splits if_splits)
qed

text \<open>A refused hand-off leaves no descriptor open.\<close>

lemma recv_fd_closes:
  assumes "rm_cmsg m = Some c" "rm_error m = None" "cm_level c = SOL_SOCKET" "cm_type c = SCM_RIGHTS"
    and "cm_bytes c = 4 * length (cm_fds c)" "\<forall>f \<in> set (cm_fds c). 0 \<le> f"
  shows "(case fst (recv_fd m) of Inl e \<Rightarrow> snd (recv_fd m) = cm_fds c | Inr f \<Rightarrow> cm_fds c = [f] \<and> snd (recv_fd m) = [])"
  using assms by (auto simp: recv_fd_def Let_def length_Suc_conv)

subsection \<open>The path reader against a byte-at-a-time reference\<close>

text \<open>
  \<open>mem\<close> is the caller's address space: the byte at an address, if mapped. \<open>c_string\<close> is the
  kernel's rule: the bytes before the first NUL, at most \<open>n\<close> bytes in all.
\<close>

fun c_string :: "(nat \<Rightarrow> u8 option) \<Rightarrow> nat \<Rightarrow> nat \<Rightarrow> u8 list \<Rightarrow> PathRead" where
  "c_string mem a 0 acc = TooLong"
| "c_string mem a (Suc n) acc =
     (case mem a of
        None \<Rightarrow> Unreadable
      | Some b \<Rightarrow> if b = 0 then Found acc else c_string mem (Suc a) n (acc @ [b]))"

text \<open>A read of \<open>/proc/<tid>/mem\<close> gives some of the bytes at the address, at least one if it is mapped.\<close>

definition faithful_reads :: "(nat \<Rightarrow> u64 \<Rightarrow> u8 list option) \<Rightarrow> (nat \<Rightarrow> u8 option) \<Rightarrow> bool" where
  "faithful_reads rd mem =
    ((\<forall>a \<ge> 2 ^ 64. mem a = None) \<and>
     (\<forall>n a. 0 < n \<longrightarrow>
       (if mem (unat a) = None then rd n a \<in> {None, Some []}
        else \<exists>bs. rd n a = Some bs \<and> bs \<noteq> [] \<and> length bs \<le> n \<and>
               (\<forall>i < length bs. mem (unat a + i) = Some (bs ! i)))))"

lemma c_string_run:
  assumes "\<forall>i < length bs. mem (a + i) = Some (bs ! i)" "length bs \<le> n"
  shows "c_string mem a n acc =
    (if 0 \<in> set bs then Found (acc @ takeWhile (\<lambda>c. c \<noteq> 0) bs)
     else c_string mem (a + length bs) (n - length bs) (acc @ bs))"
  using assms
proof (induction bs arbitrary: a n acc)
  case (Cons b bs)
  then obtain m where n: "n = Suc m" by (cases n) auto
  from Cons.prems have "\<forall>i < length bs. mem (Suc a + i) = Some (bs ! i)" by fastforce
  moreover have "mem a = Some b" using Cons.prems(1) by fastforce
  ultimately show ?case using Cons.IH [of "Suc a" m "acc @ [b]"] Cons.prems(2) by (auto simp: n)
qed simp

lemma faithful_reads_None:
  assumes "faithful_reads rd mem" "0 < n" "mem (unat a) = None"
  shows "rd n a = None \<or> rd n a = Some []"
proof -
  have "if mem (unat a) = None then rd n a \<in> {None, Some []} else
      \<exists>bs. rd n a = Some bs \<and> bs \<noteq> [] \<and> length bs \<le> n \<and> (\<forall>i < length bs. mem (unat a + i) = Some (bs ! i))"
    using assms(1,2) unfolding faithful_reads_def by blast
  with assms(3) show ?thesis by simp
qed

lemma faithful_reads_Some:
  assumes "faithful_reads rd mem" "0 < n" "mem (unat a) \<noteq> None"
  obtains bs where "rd n a = Some bs" "bs \<noteq> []" "length bs \<le> n" "\<forall>i < length bs. mem (unat a + i) = Some (bs ! i)"
proof -
  have "if mem (unat a) = None then rd n a \<in> {None, Some []} else
      \<exists>bs. rd n a = Some bs \<and> bs \<noteq> [] \<and> length bs \<le> n \<and> (\<forall>i < length bs. mem (unat a + i) = Some (bs ! i))"
    using assms(1,2) unfolding faithful_reads_def by blast
  with assms(3) show ?thesis using that by auto
qed

lemma path_want_bounds: "length buf < MAX_PATH \<Longrightarrow> 0 < path_want buf \<and> path_want buf \<le> MAX_PATH - length buf"
  by (auto simp: path_want_def)

lemma read_path_loop_c_string:
  assumes "faithful_reads rd mem" "length buf < MAX_PATH"
  shows "read_path_loop rd ptr buf (length buf) =
    c_string mem (unat ptr + length buf) (MAX_PATH - length buf) buf"
  using assms(2)
proof (induction "MAX_PATH - length buf" arbitrary: buf rule: less_induct)
  case less
  note unfold = read_path_loop.simps [of rd ptr buf "length buf"]
  let ?a = "unat ptr + length buf" and ?at = "ptr + of_nat (length buf)"
  obtain m where m: "MAX_PATH - length buf = Suc m" using less.prems by (cases "MAX_PATH - length buf") auto
  have len: "length buf < 2 ^ 64" using less.prems by (simp add: MAX_PATH_def)
  show ?case
  proof (cases "?a < 2 ^ 64")
    case False
    then have "mem ?a = None" using assms(1) by (simp add: faithful_reads_def)
    with False less.prems show ?thesis by (simp add: unfold checked_add_u64_def m)
  next
    case True
    then have at: "unat ?at = ?a" using len by (simp add: unat_word_ariths unsigned_of_nat take_bit_nat_eq_self)
    have want: "0 < path_want buf" "path_want buf \<le> MAX_PATH - length buf"
      using path_want_bounds less.prems by auto
    show ?thesis
    proof (cases "mem ?a")
      case None
      then have "rd (path_want buf) ?at = None \<or> rd (path_want buf) ?at = Some []"
        using faithful_reads_None [OF assms(1) want(1), of ?at] at by simp
      with None True less.prems show ?thesis by (auto simp: unfold checked_add_u64_def m Let_def)
    next
      case (Some c)
      then obtain bs where bs: "rd (path_want buf) ?at = Some bs" "bs \<noteq> []" "length bs \<le> path_want buf"
          "\<forall>i < length bs. mem (?a + i) = Some (bs ! i)"
        using faithful_reads_Some [OF assms(1) want(1), of ?at] at by (metis option.distinct(1))
      have run: "c_string mem ?a (MAX_PATH - length buf) buf =
          (if 0 \<in> set bs then Found (buf @ takeWhile (\<lambda>c. c \<noteq> 0) bs)
           else c_string mem (?a + length bs) (MAX_PATH - length buf - length bs) (buf @ bs))"
        using bs(3,4) want(2) by (intro c_string_run) auto
      have small: "length buf + length bs \<le> MAX_PATH" using bs(3) want(2) less.prems by linarith
      have step: "read_path_loop rd ptr buf (length buf) =
          (if 0 \<in> set bs then Found (buf @ takeWhile (\<lambda>c. c \<noteq> 0) bs)
           else if length buf + length bs = MAX_PATH then TooLong
           else read_path_loop rd ptr (buf @ bs) (length (buf @ bs)))"
        using bs(1-3) True less.prems small
        by (cases bs) (auto simp: unfold checked_add_u64_def Let_def MAX_PATH_def)
      show ?thesis
      proof (cases "0 \<in> set bs \<or> length buf + length bs = MAX_PATH")
        case True
        then show ?thesis using step run small by auto
      next
        case False
        then have "read_path_loop rd ptr (buf @ bs) (length (buf @ bs)) =
            c_string mem (unat ptr + length (buf @ bs)) (MAX_PATH - length (buf @ bs)) (buf @ bs)"
          using length_greater_0_conv [THEN iffD2, OF bs(2)] small less.prems by (intro less.hyps) (simp_all only: length_append, linarith+)
        with False step run show ?thesis by (simp add: add.assoc)
      qed
    qed
  qed
qed

text \<open>C24: whatever partial reads the kernel answers with, the geometric reader terminates and returns
  what the byte-at-a-time rule gives: the bytes before the first NUL within \<open>MAX_PATH\<close>,
  "too long" when there is none, "unreadable" when an unmapped byte, or the end of the address
  space, comes first. A pointer near the top of the address space never wraps.\<close>

theorem read_path_into_spec:
  assumes "faithful_reads rd mem"
  shows "read_path_into rd ptr = c_string mem (unat ptr) MAX_PATH []"
  using read_path_loop_c_string [OF assms, of "[]" ptr] by (simp add: read_path_into_def MAX_PATH_def)

text \<open>An address space with the path \<open>/e\<close> at its very top, read one byte at a time.\<close>

definition demo_mem :: "nat \<Rightarrow> u8 option" where
  "demo_mem a = (if a = 2 ^ 64 - 3 then Some 47 else if a = 2 ^ 64 - 2 then Some 101
     else if a = 2 ^ 64 - 1 then Some 0 else None)"

definition demo_read :: "nat \<Rightarrow> u64 \<Rightarrow> u8 list option" where
  "demo_read n a = map_option (\<lambda>b. [b]) (demo_mem (unat a))"

lemma demo_faithful: "faithful_reads demo_read demo_mem"
proof -
  have "\<exists>bs. demo_read n a = Some bs \<and> bs \<noteq> [] \<and> length bs \<le> n \<and>
      (\<forall>i < length bs. demo_mem (unat a + i) = Some (bs ! i))"
    if "0 < n" "demo_mem (unat a) \<noteq> None" for n a
    using that by (auto simp: demo_read_def)
  moreover have "demo_read n a \<in> {None, Some []}" if "demo_mem (unat a) = None" for n a
    using that by (simp add: demo_read_def)
  moreover have "\<forall>a \<ge> 2 ^ 64. demo_mem a = None" by (auto simp: demo_mem_def)
  ultimately show ?thesis unfolding faithful_reads_def by simp
qed

lemma demo_c_string: "c_string demo_mem (unat (- 3 :: u64)) MAX_PATH [] = Found [47, 101]"
proof -
  have "c_string demo_mem (2 ^ 64 - 3) (Suc (Suc (Suc 4093))) [] = Found [47, 101]"
    unfolding c_string.simps by (simp add: demo_mem_def)
  then show ?thesis by (simp add: MAX_PATH_def)
qed

lemma demo_read_path: "read_path_into demo_read (- 3) = Found [47, 101]"
  using read_path_loop_c_string [OF demo_faithful, of "[]" "- 3"] demo_c_string
  by (simp add: read_path_into_def MAX_PATH_def)

theorem read_path_into_spec_witness:
  "faithful_reads demo_read demo_mem \<and> read_path_into demo_read (- 3) = Found [47, 101]"
  using read_path_into_spec [OF demo_faithful, of "- 3"] demo_faithful demo_c_string by simp

subsection \<open>The pin cache as a source of pins\<close>

text \<open>
  What the judge relies on: the pins it is given were opened for the task it asked about. \<open>owns t p\<close>
  is any such ownership relation that opening establishes (\<open>honest\<close>).
\<close>

locale pin_source =
  fixes fetch :: "'env \<Rightarrow> u32 \<Rightarrow> 'c \<Rightarrow> (int + PinHandle) \<times> 'c"
    and inv :: "'c \<Rightarrow> bool"
    and honest :: "'env \<Rightarrow> bool"
    and owns :: "u32 \<Rightarrow> TaskPins \<Rightarrow> bool"
  assumes fetch_inv: "inv c \<Longrightarrow> honest env \<Longrightarrow> inv (snd (fetch env t c))"
    and fetch_owned: "inv c \<Longrightarrow> honest env \<Longrightarrow> fst (fetch env t c) = Inr h \<Longrightarrow> owns t (pin_deref h)"
begin

lemma fetches_inv: "inv c \<Longrightarrow> \<forall>(env, t) \<in> set hist. honest env \<Longrightarrow>
    inv (fold (\<lambda>(env, t) c. snd (fetch env t c)) hist c)"
  by (induction hist arbitrary: c) (auto intro: fetch_inv)

lemma fetched_after_any_history:
  assumes "inv c" "\<forall>(env, t) \<in> set hist. honest env" "honest env"
    and "fst (fetch env t (fold (\<lambda>(env, t) c. snd (fetch env t c)) hist c)) = Inr h"
  shows "owns t (pin_deref h)"
  using fetch_owned [OF fetches_inv [OF assms(1,2)] assms(3,4)] .

end

definition pin_inv :: "(u32 \<Rightarrow> TaskPins \<Rightarrow> bool) \<Rightarrow> PinCache \<Rightarrow> bool" where
  "pin_inv owns cache =
    (distinct (map fst (pc_pins cache)) \<and> length (pc_pins cache) \<le> pc_max_tasks cache \<and>
     fst ` set (pc_pins cache) \<subseteq> set (pc_order cache) \<and> (\<forall>(t, p) \<in> set (pc_pins cache). owns t p))"

definition pins_honest :: "(u32 \<Rightarrow> TaskPins \<Rightarrow> bool) \<Rightarrow> broker_env \<Rightarrow> bool" where
  "pins_honest owns env = (\<forall>t p. TaskPins_open env t = Inr p \<longrightarrow> owns t p)"

lemma pin_remove_set: "set (pin_remove t pins) = {x \<in> set pins. fst x \<noteq> t}"
  by (auto simp: pin_remove_def)

lemma pin_remove_distinct: "distinct (map fst pins) \<Longrightarrow> distinct (map fst (pin_remove t pins))"
  by (induction pins) (auto simp: pin_remove_def)

lemma pin_remove_length: "length (pin_remove t pins) \<le> length pins"
  by (simp add: pin_remove_def)

lemmas pin_remove_simps = pin_remove_set pin_remove_distinct

lemma pin_evict_keeps:
  assumes "distinct (map fst pins)" "fst ` set pins \<subseteq> set order" "0 < m" "pin_evict m pins order = (pins', order')"
  shows "distinct (map fst pins') \<and> fst ` set pins' \<subseteq> set order' \<and> set pins' \<subseteq> set pins \<and> length pins' < m"
  using assms
proof (induction m pins order rule: pin_evict.induct)
  case (2 m pins oldest order)
  then show ?case
  proof (cases "length pins \<ge> m")
    case True
    have "distinct (map fst (pin_remove oldest pins))" "fst ` set (pin_remove oldest pins) \<subseteq> set order"
      using 2(2,3) by (auto simp: pin_remove_simps)
    from 2(1) [OF True this 2(4)] 2(5) True show ?thesis by (auto simp: pin_remove_set)
  next
    case False
    with 2 show ?thesis by auto
  qed
qed simp

lemma pin_fill_keeps:
  assumes "pin_inv owns cache" "pins_honest owns env"
  shows "pin_inv owns (snd (pin_fill env t cache))"
    and "fst (pin_fill env t cache) = Inr h \<Longrightarrow> owns t (pin_deref h)"
    and "pc_max_tasks (snd (pin_fill env t cache)) = pc_max_tasks cache"
proof -
  let ?pins = "pin_remove t (pc_pins cache)"
  have base: "distinct (map fst ?pins)" "fst ` set ?pins \<subseteq> set (pc_order cache)"
      "\<forall>(t, p) \<in> set ?pins. owns t p" "length ?pins \<le> pc_max_tasks cache"
    using assms(1) pin_remove_length [of t "pc_pins cache"] by (auto simp: pin_inv_def pin_remove_simps)
  obtain pins' order' where ev: "pin_evict (pc_max_tasks cache) ?pins (pc_order cache) = (pins', order')"
    by fastforce
  have own: "owns t p" if "TaskPins_open env t = Inr p" for p using assms(2) that by (simp add: pins_honest_def)
  show "fst (pin_fill env t cache) = Inr h \<Longrightarrow> owns t (pin_deref h)"
    using own by (auto simp: pin_fill_def Let_def ev split: if_splits sum.splits)
  show "pc_max_tasks (snd (pin_fill env t cache)) = pc_max_tasks cache"
    by (auto simp: pin_fill_def Let_def ev split: if_splits sum.splits)
  show "pin_inv owns (snd (pin_fill env t cache))"
  proof (cases "pc_max_tasks cache = 0")
    case True
    with base show ?thesis by (simp add: pin_fill_def Let_def pin_inv_def)
  next
    case False
    have k: "distinct (map fst pins')" "fst ` set pins' \<subseteq> set order'" "set pins' \<subseteq> set ?pins"
        "length pins' < pc_max_tasks cache"
      using pin_evict_keeps [OF base(1,2) _ ev] False by auto
    have "length (pin_remove t pins') < pc_max_tasks cache"
      using k(4) pin_remove_length [of t pins'] by linarith
    then show ?thesis using k base(3) own False
      by (auto simp: pin_fill_def Let_def ev pin_inv_def pin_remove_simps split: sum.splits)
  qed
qed

lemma for_task_cases:
  obtains (live) p where "map_of (pc_pins cache) t = Some p" "be_alive env (tp_pidfd p)"
      "for_task env t cache = (Inr (Cached p), cache)"
  | (fill) "for_task env t cache = pin_fill env t cache"
proof (cases "\<exists>p. map_of (pc_pins cache) t = Some p \<and> be_alive env (tp_pidfd p)")
  case True
  then show ?thesis using live by (auto simp: for_task_def)
next
  case False
  then show ?thesis using fill by (auto simp: for_task_def split: option.splits)
qed

lemma for_task_keeps:
  assumes "pin_inv owns cache" "pins_honest owns env"
  shows "pin_inv owns (snd (for_task env t cache))"
    and "fst (for_task env t cache) = Inr h \<Longrightarrow> owns t (pin_deref h)"
    and "pc_max_tasks (snd (for_task env t cache)) = pc_max_tasks cache"
  using pin_fill_keeps [OF assms] assms(1)
  by (cases rule: for_task_cases [where env = env and t = t and cache = cache];
      auto simp: pin_inv_def dest: map_of_SomeD)+

interpretation pins: pin_source for_task "pin_inv owns" "pins_honest owns" owns for owns
  by unfold_locales (auto intro: for_task_keeps)

subsection \<open>Every descriptor the broker hands out\<close>

text \<open>How an injected descriptor came about: a confined, read-only open at the task's own anchor.\<close>

definition task_anchor :: "broker_env \<Rightarrow> TaskPins \<Rightarrow> u32 \<Rightarrow> nat \<Rightarrow> bool" where
  "task_anchor env pins tid base =
    (base = tp_root pins \<or> be_open_cwd env tid = Inr base \<or>
     (\<exists>d. be_pidfd_getfd env (tp_pidfd pins) d = Inr base))"

definition confined_open :: "broker_env \<Rightarrow> TaskPins \<Rightarrow> u32 \<Rightarrow> u8 list \<Rightarrow> nat \<Rightarrow> bool" where
  "confined_open env pins tid path opened =
    (\<exists>base how. be_openat2 env base path how = Inr opened \<and>
       (if is_absolute path then base = tp_root pins else task_anchor env pins tid base) \<and>
       side_effect_free (ucast (how_flags how)) \<and> how_mode how = 0 \<and> confines (how_resolve how))"

lemma open_request_side_effect_free: "side_effect_free (ucast (how_flags (open_request g)))"
  by (cases "gr_nonblock g") (simp_all add: open_request_def side_effect_free_def open_flag_defs)

lemma open_for_target_inject:
  assumes "vd_decision (open_for_target env pins tid syscall g path) = InjectFd opened c"
    and "confines (gr_resolve g)" "gr_anchored g = (if is_absolute path then TaskRoot else TaskDir d)"
  shows "confined_open env pins tid path opened"
proof -
  obtain base where b: "open_base env pins tid (gr_anchored g) = Inr base"
      "be_openat2 env base path (open_request g) = Inr opened"
    using assms(1)
    by (auto simp: open_for_target_def verdict_deny_def split: sum.splits if_splits prod.splits)
  have "if is_absolute path then base = tp_root pins else task_anchor env pins tid base"
    using b(1) assms(3) by (auto simp: open_base_def task_anchor_def map_err_Inr split: if_splits)
  moreover have "how_mode (open_request g) = 0" "how_resolve (open_request g) = gr_resolve g"
    by (simp_all add: open_request_def)
  ultimately show ?thesis
    unfolding confined_open_def using b(2) open_request_side_effect_free [of g] assms(2) by metis
qed

lemma judge_path_inject:
  assumes "vd_decision (judge_path env notif syscall pins path) = InjectFd opened c"
  shows "confined_open env pins (sn_pid notif) path opened"
proof -
  let ?args = "sd_args (sn_data notif)"
  obtain g d where "confines (gr_resolve g)"
      "gr_anchored g = (if is_absolute path then TaskRoot else TaskDir d)"
      "vd_decision (open_for_target env pins (sn_pid notif) syscall g path) = InjectFd opened c"
    using assms
    by (auto simp: judge_path_def verdict_deny_def Let_def split: if_splits option.splits sum.splits
      dest: classify_openat_grant(3,4) classify_openat2_grant(3,4))
  then show ?thesis using open_for_target_inject by blast
qed

text \<open>C11: when the judge decides to inject a descriptor, the notification is for a brokered native
  call, its identity was still valid after the task was pinned, the pins used were opened for the
  calling task, the path was read from that task's memory, and the descriptor comes from a
  read-only open confined by its resolve flags at that task's own root or directory.\<close>

theorem injected_fds_are_confined:
  assumes "pin_inv owns cache" "pins_honest owns env"
    and "judge env notif cache scratch = (v, cache', scratch')" "vd_decision v = InjectFd opened c"
  shows "\<exists>pins. owns (sn_pid notif) pins \<and> be_id_valid env (sn_id notif) \<and>
    sd_arch (sn_data notif) = NATIVE_ARCH \<and>
    brokered_syscall_name (sint (sd_nr (sn_data notif))) = Some (vd_syscall v) \<and>
    read_path_into (be_read_at env (tp_mem pins)) (sd_args (sn_data notif) ! 1) = Found scratch' \<and>
    confined_open env pins (sn_pid notif) scratch' opened"
proof -
  obtain h syscall where h: "fst (for_task env (sn_pid notif) cache) = Inr h"
      "brokered_syscall_name (sint (sd_nr (sn_data notif))) = Some syscall"
      "be_id_valid env (sn_id notif)" "sd_arch (sn_data notif) = NATIVE_ARCH"
      "read_path_into (be_read_at env (tp_mem (pin_deref h))) (sd_args (sn_data notif) ! 1) = Found scratch'"
      "v = judge_path env notif syscall (pin_deref h) scratch'"
    using assms(3,4)
    by (auto simp: judge_def verdict_deny_def Let_def
      split: option.splits if_splits prod.splits sum.splits PathRead.splits)
  have "vd_syscall (judge_path env notif syscall p q) = syscall" for p q
    by (auto simp: judge_path_def open_for_target_def verdict_deny_def Let_def
      split: option.splits if_splits prod.splits sum.splits)
  with h show ?thesis
    using pins.fetch_owned [OF assms(1,2) h(1)] judge_path_inject [of env notif syscall "pin_deref h" scratch'] assms(4)
    by (intro exI [of _ "pin_deref h"]) auto
qed

definition demo_pins :: TaskPins where
  "demo_pins = \<lparr>tp_pidfd = 10, tp_mem = 11, tp_root = 12\<rparr>"

definition demo_env :: broker_env where
  "demo_env =
    \<lparr>be_pidfd_open = (\<lambda>_. Inr 10), be_open_mem = (\<lambda>_. Inr 11), be_open_root = (\<lambda>_. Inr 12),
     be_alive = (\<lambda>_. True), be_id_valid = (\<lambda>_. True), be_read_at = (\<lambda>_. demo_read),
     be_open_cwd = (\<lambda>_. Inr 13), be_pidfd_getfd = (\<lambda>_ _. Inr 14),
     be_openat2 = (\<lambda>base path how. if base = 12 \<and> path = [47, 101] then Inr 20 else Inl (Some ENOENT)),
     be_addfd = (\<lambda>a. Inr 5)\<rparr>"

definition demo_notif :: SeccompNotif where
  "demo_notif = \<lparr>sn_id = 77, sn_pid = 7, sn_flags = 0,
     sn_data = \<lparr>sd_nr = 257, sd_arch = NATIVE_ARCH, sd_instruction_pointer = 0,
       sd_args = [0, - 3, 0, 0, 0, 0]\<rparr>\<rparr>"

lemma demo_judge:
  "judge demo_env demo_notif (PinCache_new 8) [] =
    (\<lparr>vd_syscall = ''openat'', vd_tid = 7, vd_path_len = 2, vd_decision = InjectFd 20 False\<rparr>,
     \<lparr>pc_pins = [(7, demo_pins)], pc_order = [7], pc_max_tasks = 8\<rparr>, [47, 101])"
proof -
  have name: "brokered_syscall_name 257 = Some ''openat''"
    by (simp add: brokered_syscall_name_def NR_OPENAT_def)
  have pins: "for_task demo_env 7 (PinCache_new 8) =
      (Inr (Cached demo_pins), \<lparr>pc_pins = [(7, demo_pins)], pc_order = [7], pc_max_tasks = 8\<rparr>)"
    by (simp add: for_task_def pin_fill_def PinCache_new_def pin_remove_def TaskPins_open_def demo_env_def demo_pins_def)
  have "judge_path demo_env demo_notif ''openat'' demo_pins [47, 101] =
      \<lparr>vd_syscall = ''openat'', vd_tid = 7, vd_path_len = 2, vd_decision = InjectFd 20 False\<rparr>"
    by (simp add: judge_path_def demo_notif_def classify_openat_def check_open_flags_def open_flag_defs
      check_path_def MAX_PATH_def is_absolute_def open_for_target_def open_base_def demo_env_def demo_pins_def)
  then show ?thesis
    using pins by (simp add: judge_def demo_notif_def name demo_read_path demo_env_def demo_pins_def)
qed

theorem injected_fds_are_confined_witness:
  "vd_decision (fst (judge demo_env demo_notif (PinCache_new 8) [])) = InjectFd 20 False \<and>
   (\<exists>pins. pins = demo_pins \<and> confined_open demo_env pins 7 [47, 101] 20)"
proof -
  let ?owns = "\<lambda>(t :: u32) p. p = demo_pins"
  have inv: "pin_inv ?owns (PinCache_new 8)" by (simp add: pin_inv_def PinCache_new_def)
  have honest: "pins_honest ?owns demo_env"
    by (simp add: pins_honest_def TaskPins_open_def demo_env_def demo_pins_def)
  from injected_fds_are_confined [OF inv honest demo_judge, where opened = 20 and c = False] show ?thesis
    unfolding demo_judge by (simp add: demo_notif_def)
qed

subsection \<open>Every notification is answered\<close>

text \<open>Errnos are positive; \<open>served\<close> lists the notifications received before a terminal RECV error.\<close>

definition positive_errno :: "int option \<Rightarrow> bool" where
  "positive_errno e = (case e of None \<Rightarrow> True | Some n \<Rightarrow> 0 < n)"

definition positive_errnos :: "broker_env \<Rightarrow> bool" where
  "positive_errnos env =
    (\<forall>t e. (be_pidfd_open env t = Inl e \<or> be_open_mem env t = Inl e \<or> be_open_root env t = Inl e \<or>
            be_open_cwd env t = Inl e \<or> (\<exists>p d. be_pidfd_getfd env p d = Inl e) \<or>
            (\<exists>b p h. be_openat2 env b p h = Inl e) \<or> (\<exists>a s. be_addfd env a = Inl (e, s))) \<longrightarrow> positive_errno e)"

fun served :: "judge_turn list \<Rightarrow> (judge_turn \<times> SeccompNotif) list" where
  "served [] = []"
| "served (t # ts) =
     (case jt_recv t of
        Received n \<Rightarrow> (t, n) # served ts
      | RecvFailed e \<Rightarrow> if e = Some EINTR then served ts else [])"

definition honest_answer :: "broker_env \<Rightarrow> SeccompNotif \<Rightarrow> answer \<Rightarrow> bool" where
  "honest_answer env n a =
    (sr_id (fst a) = sn_id n \<and> sr_flags (fst a) = 0 \<and>
     (sr_error (fst a) < 0 \<and> sr_val (fst a) = 0 \<or>
      sr_error (fst a) = 0 \<and>
      (\<exists>req target. snd a = Some req \<and> sa_id req = sn_id n \<and> be_addfd env req = Inr target \<and>
         sr_val (fst a) = int target)))"

lemma errno_or_pos: "positive_errno e \<Longrightarrow> 0 < d \<Longrightarrow> 0 < errno_or d e"
  by (cases e) (auto simp: positive_errno_def errno_or_def)

lemma pins_errno_pos:
  assumes "positive_errnos env" "TaskPins_open env t = Inl e"
  shows "0 < e"
proof -
  have "positive_errno x" if "be_pidfd_open env t = Inl x \<or> be_open_mem env t = Inl x \<or> be_open_root env t = Inl x" for x
    using assms(1) that unfolding positive_errnos_def by blast
  then show ?thesis using assms(2)
    by (cases "be_pidfd_open env t"; cases "be_open_mem env t"; cases "be_open_root env t")
      (auto simp: TaskPins_open_def ESRCH_def intro!: errno_or_pos)
qed

definition deny_pos :: "Decision \<Rightarrow> bool" where
  "deny_pos d = (case d of Deny e r \<Rightarrow> 0 < e | InjectFd f c \<Rightarrow> True)"

lemma deny_pos_simps [simp]: "deny_pos (Deny e r) = (0 < e)" "deny_pos (InjectFd f c)"
    "deny_pos (vd_decision (verdict_deny s t l e r)) = (0 < e)"
  by (simp_all add: deny_pos_def verdict_deny_def)

lemma open_for_target_deny_pos:
  assumes "positive_errnos env"
  shows "deny_pos (vd_decision (open_for_target env pins tid syscall g path))"
proof -
  have pos: "be_open_cwd env t = Inl e \<Longrightarrow> positive_errno e" "be_pidfd_getfd env p d = Inl e \<Longrightarrow> positive_errno e"
      "be_openat2 env b q h = Inl e \<Longrightarrow> positive_errno e" for e t p d b q h
    using assms unfolding positive_errnos_def by blast+
  have "0 < fst er" if "open_base env pins tid a = Inl er" for a er
    using that
    by (auto simp: open_base_def EPERM_def intro!: errno_or_pos elim!: map_err.elims dest: pos
      split: Anchor.splits if_splits)
  then show ?thesis
    by (auto simp: open_for_target_def EINVAL_def EPERM_def intro!: errno_or_pos dest: pos split: sum.splits)
qed

lemma first_denied_pos: "first_denied fs flags = Inl d \<Longrightarrow> 0 < dn_errno d"
  by (induction fs flags rule: first_denied.induct) (auto simp: denial_policy_def denial_kernel_def errno_defs split: if_splits)

lemma check_pos:
  "check_open_flags flags = Inl d \<Longrightarrow> 0 < dn_errno d" "check_path path = Inl d \<Longrightarrow> 0 < dn_errno d"
  by (auto simp: check_open_flags_def check_path_def denial_policy_def denial_kernel_def errno_defs
    dest: first_denied_pos split: if_splits)

lemma classify_pos:
  "classify_openat dirfd flags path = Inl d \<Longrightarrow> 0 < dn_errno d"
  "classify_openat2 dirfd sz how path = Inl d \<Longrightarrow> 0 < dn_errno d"
  by (auto simp: classify_openat_def classify_openat2_def denial_kernel_def errno_defs Let_def
    result_simps dest: check_pos split: if_splits)

lemma judge_deny_pos:
  assumes "positive_errnos env"
  shows "deny_pos (vd_decision (fst (judge env notif cache scratch)))"
proof -
  have path: "deny_pos (vd_decision (judge_path env notif syscall pins path))" for syscall pins path
    using open_for_target_deny_pos [OF assms]
    by (auto simp: judge_path_def Let_def errno_defs dest: classify_pos split: sum.splits option.splits)
  have "0 < e" if "for_task env t cache = (Inl e, c)" for t e c
    using that pins_errno_pos [OF assms, of t e]
    by (cases rule: for_task_cases [where env = env and t = t and cache = cache])
      (auto simp: pin_fill_def Let_def split: if_splits sum.splits prod.splits)
  then show ?thesis using path
    by (auto simp: judge_def Let_def errno_defs split: option.splits prod.splits sum.splits PathRead.splits)
qed

lemma respond_honest:
  assumes "positive_errnos (jt_env t)" "deny_pos (vd_decision v)"
  shows "honest_answer (jt_env t) n (fst (respond render t (sn_id n) v path log))"
proof (cases "vd_decision v")
  case (Deny e r)
  with assms(2) show ?thesis by (simp add: respond_def decide_response_def honest_answer_def)
next
  case (InjectFd f c)
  have "0 < errno_or EPERM e" if "be_addfd (jt_env t) a = Inl (e, s)" for a e s
    using assms(1) that errno_or_pos [of e EPERM] unfolding positive_errnos_def EPERM_def by fastforce
  then show ?thesis
    by (cases "be_addfd (jt_env t) (addfd_request (sn_id n) f c)")
      (auto simp: InjectFd respond_def decide_response_def honest_answer_def Let_def
        addfd_request_def)
qed

text \<open>C13: the loop answers every notification it receives exactly once and in order, until RECV fails
  terminally: the response never lets the kernel continue the call (its flags are 0), and it is
  either a negative errno or the number that ADDFD installed for this very notification. Nothing
  else ends the loop.\<close>

theorem every_call_is_answered:
  assumes "\<forall>t \<in> set turns. positive_errnos (jt_env t)"
  shows "list_all2 (\<lambda>(t, n) a. honest_answer (jt_env t) n a) (served turns)
      (fst (judge_loop render turns cache scratch log)) \<and>
    (fst (snd (judge_loop render turns cache scratch log)) = StillServing \<longleftrightarrow>
      (\<forall>t \<in> set turns. \<forall>e. jt_recv t = RecvFailed e \<longrightarrow> e = Some EINTR))"
  using assms
proof (induction turns arbitrary: cache scratch log)
  case (Cons t ts)
  show ?case
  proof (cases "jt_recv t")
    case (RecvFailed e)
    with Cons show ?thesis by (auto simp: ENOTTY_def EINTR_def)
  next
    case (Received n)
    obtain v cache' scratch' where j: "judge (jt_env t) n cache scratch = (v, cache', scratch')"
      by (cases "judge (jt_env t) n cache scratch") auto
    let ?path = "take (min (vd_path_len v) (length scratch')) scratch'"
    obtain a log' where r: "respond render t (sn_id n) v ?path log = (a, log')"
      by fastforce
    have "honest_answer (jt_env t) n a"
      using respond_honest [of t v n render ?path log] judge_deny_pos [of "jt_env t" n cache scratch] Cons.prems j r
      by simp
    with Cons.IH [of cache' scratch' log'] Cons.prems show ?thesis
      by (auto simp: Received j r Let_def split: prod.splits)
  qed
qed simp

definition demo_turn :: judge_turn where
  "demo_turn = \<lparr>jt_recv = Received demo_notif, jt_env = demo_env, jt_poisoned = False,
     jt_ts_ms = 0, jt_fault = None\<rparr>"

definition demo_turns :: "judge_turn list" where
  "demo_turns = [demo_turn, demo_turn\<lparr>jt_recv := RecvFailed (Some EINTR)\<rparr>, demo_turn,
     demo_turn\<lparr>jt_recv := RecvFailed (Some ENOENT)\<rparr>]"

lemma demo_positive: "positive_errnos demo_env"
  by (auto simp: positive_errnos_def positive_errno_def demo_env_def ENOENT_def split: if_splits option.splits)

theorem every_call_is_answered_witness:
  "list_all2 (\<lambda>(t, n) a. honest_answer (jt_env t) n a) [(demo_turn, demo_notif), (demo_turn, demo_notif)]
     (fst (judge_loop (\<lambda>_. []) demo_turns (PinCache_new 8) [] (DecisionLog_open None None None)))"
proof -
  have "served demo_turns = [(demo_turn, demo_notif), (demo_turn, demo_notif)]"
    by (simp add: demo_turns_def demo_turn_def ENOENT_def EINTR_def)
  moreover have "\<forall>t \<in> set demo_turns. positive_errnos (jt_env t)"
    using demo_positive by (simp add: demo_turns_def demo_turn_def)
  ultimately show ?thesis using every_call_is_answered [of demo_turns] by metis
qed

subsection \<open>Bounds of the pool\<close>

lemma judge_pins:
  assumes "pin_inv owns cache" "pins_honest owns env"
  shows "pin_inv owns (fst (snd (judge env n cache scratch))) \<and>
    pc_max_tasks (fst (snd (judge env n cache scratch))) = pc_max_tasks cache"
  using for_task_keeps(1,3) [OF assms, of "sn_pid n"] assms(1)
  by (auto simp: judge_def Let_def split: option.splits prod.splits sum.splits PathRead.splits)

lemma judge_loop_pins:
  assumes "pin_inv owns cache" "\<forall>t \<in> set turns. pins_honest owns (jt_env t)"
    and "judge_loop render turns cache scratch log = (answers, e, cache', log')"
  shows "pin_inv owns cache' \<and> pc_max_tasks cache' = pc_max_tasks cache"
  using assms
proof (induction turns arbitrary: cache scratch log answers)
  case (Cons t ts)
  show ?case
  proof (cases "jt_recv t")
    case (RecvFailed x)
    with Cons show ?thesis by (auto split: if_splits)
  next
    case (Received n)
    obtain v cache1 scratch1 where j: "judge (jt_env t) n cache scratch = (v, cache1, scratch1)"
      by (cases "judge (jt_env t) n cache scratch") auto
    have "pin_inv owns cache1" "pc_max_tasks cache1 = pc_max_tasks cache"
      using judge_pins [OF Cons.prems(1), of "jt_env t" n scratch] Cons.prems(2) j by auto
    with Cons show ?thesis by (auto simp: Received j Let_def split: prod.splits)
  qed
qed simp

definition pool_capacity :: "PinCache list \<Rightarrow> nat" where
  "pool_capacity caches = sum_list (map pc_max_tasks caches)"

lemma pool_capacity_eq:
  "pool_capacity (pool_caches cap threads) = (if threads = 1 then cap else threads * max (cap div threads) 1)"
  by (simp add: pool_capacity_def pool_caches_def PinCache_new_def sum_list_replicate)

lemma cache_cap_budget: "3 * cache_cap_within configured nofile + FD_HEADROOM \<le> max nofile FD_HEADROOM"
proof -
  have "3 * ((nofile - FD_HEADROOM) div 3) \<le> nofile - FD_HEADROOM" by simp
  then show ?thesis unfolding cache_cap_within_def by (auto simp: max_def min_def)
qed

text \<open>C39: a judge's pin cache never holds more tasks than its share, through any run of its loop, and
  the shares of the whole pool stay within the descriptor budget whenever there is at least one
  entry per thread. With fewer entries than threads, caching disabled included, every thread of
  a pool still caches one task.\<close>

theorem pool_bounds:
  assumes "cache \<in> set (pool_caches (cache_cap_within configured nofile) threads)" "0 < threads"
    and "judge_loop render turns cache scratch log = (answers, e, cache', log')"
  shows "length (pc_pins cache') \<le> pc_max_tasks cache \<and>
    (threads = 1 \<or> threads \<le> cache_cap_within configured nofile \<longrightarrow>
      3 * pool_capacity (pool_caches (cache_cap_within configured nofile) threads) + FD_HEADROOM
        \<le> max nofile FD_HEADROOM) \<and>
    (threads \<noteq> 1 \<and> cache_cap_within configured nofile < threads \<longrightarrow> pc_max_tasks cache = 1)"
proof -
  let ?cap = "cache_cap_within configured nofile"
  obtain m where m: "cache = PinCache_new m" and small: "threads \<noteq> 1 \<and> ?cap < threads \<longrightarrow> m = 1"
    using assms(1) by (auto simp: pool_caches_def split: if_splits)
  have "pin_inv (\<lambda>_ _. True) cache" by (simp add: m pin_inv_def PinCache_new_def)
  with judge_loop_pins [OF _ _ assms(3), of "\<lambda>_ _. True"] have "length (pc_pins cache') \<le> pc_max_tasks cache"
    by (simp add: pin_inv_def pins_honest_def)
  moreover have "pool_capacity (pool_caches ?cap threads) \<le> ?cap" if "threads = 1 \<or> threads \<le> ?cap"
    using that assms(2) by (auto simp: pool_capacity_eq max_def div_eq_0_iff le_less_trans Suc_le_eq)
  moreover note cache_cap_budget [of configured nofile]
  ultimately show ?thesis using small by (auto simp: m PinCache_new_def dest: order_trans)
qed

theorem pool_bounds_witness:
  "length (pc_pins (fst (snd (snd (judge_loop (\<lambda>_. []) demo_turns (PinCache_new 1) []
     (DecisionLog_open None None None)))))) \<le> pc_max_tasks (PinCache_new 1) \<and> pc_max_tasks (PinCache_new 1) = 1"
proof -
  let ?c = "PinCache_new 1"
  have mem: "?c \<in> set (pool_caches (cache_cap_within 0 1024) 4)"
    by (simp add: pool_caches_def cache_cap_within_def)
  obtain as e c' l where run: "judge_loop (\<lambda>_. []) demo_turns ?c [] (DecisionLog_open None None None) = (as, e, c', l)"
    by (metis prod.exhaust)
  from pool_bounds [OF mem _ run] show ?thesis unfolding run by (simp add: cache_cap_within_def)
qed

subsection \<open>Where the broker departs from its description\<close>

text \<open>A task that is dead at every lookup and pinned again: its \<open>order\<close> entry is never reclaimed.\<close>

definition churn_env :: broker_env where
  "churn_env = demo_env\<lparr>be_alive := (\<lambda>_. False)\<rparr>"

definition churn :: "u32 \<Rightarrow> PinCache \<Rightarrow> PinCache" where
  "churn tid cache = snd (for_task churn_env tid cache)"

lemma churn_step:
  "churn t \<lparr>pc_pins = [(t, demo_pins)], pc_order = order, pc_max_tasks = Suc (Suc m)\<rparr> =
    \<lparr>pc_pins = [(t, demo_pins)], pc_order = order @ [t], pc_max_tasks = Suc (Suc m)\<rparr>"
  by (cases order)
    (simp_all add: churn_def for_task_def pin_fill_def pin_remove_def TaskPins_open_def churn_env_def demo_env_def demo_pins_def)

text \<open>The cache is described as bounded, and its pins are; the eviction queue beside them is not.
  A task identifier that is found dead and pinned again leaves one more entry behind each time,
  however small the cache.\<close>

lemma pin_order_grows:
  "pc_order ((churn 7 ^^ n) \<lparr>pc_pins = [(7, demo_pins)], pc_order = [7], pc_max_tasks = 2\<rparr>) = replicate (Suc n) 7"
proof -
  have "(churn 7 ^^ n) \<lparr>pc_pins = [(7, demo_pins)], pc_order = [7], pc_max_tasks = 2\<rparr> =
      \<lparr>pc_pins = [(7, demo_pins)], pc_order = replicate (Suc n) 7, pc_max_tasks = 2\<rparr>"
  proof (induction n)
    case (Suc n)
    have "replicate (Suc n) (7 :: u32) @ [7] = replicate (Suc (Suc n)) 7"
      by (simp add: replicate_append_same)
    with Suc churn_step [of 7 "replicate (Suc n) 7" 0] show ?case by (simp add: numeral_2_eq_2)
  qed simp
  then show ?thesis by simp
qed

text \<open>The directory argument is compared as a 64-bit register, while the kernel reads its low 32
  bits. Of all the registers the kernel takes for \<open>AT_FDCWD\<close> only the sign-extended one is opened
  at the task's working directory; for every other one, the zero-extended one included, the broker
  asks for a descriptor numbered \<open>0xFFFFFF9C\<close> instead.\<close>

lemma cwd_only_sign_extended:
  assumes "ucast dirfd = AT_FDCWD"
  shows "open_base env pins tid (TaskDir dirfd) =
    (if dirfd = 0xFFFFFFFFFFFFFF9C
     then map_err (\<lambda>e. (errno_or EPERM e, ''no cwd fd'')) (be_open_cwd env tid)
     else map_err (\<lambda>e. (errno_or EPERM e, ''borrow dirfd'')) (be_pidfd_getfd env (tp_pidfd pins) 0xFFFFFF9C))"
proof -
  have "(scast AT_FDCWD :: u64) = 0xFFFFFFFFFFFFFF9C" "AT_FDCWD = 0xFFFFFF9C" by (simp_all add: AT_FDCWD_def)
  then show ?thesis using assms unfolding open_base_def by (simp only: Anchor.case)
qed

end
