(* ===== verification/Evidence_Journal.thy ===== *)
theory Evidence_Journal
  imports Rauha_Prelude "HOL-Library.Sublist"
begin

text \<open>
  The run journal (\<open>rauha-evidence/src/journal.rs\<close>): an append-only, hash-chained log beside a
  manifest and a head that commits a prefix of it. The run directory is the record \<open>run_dir\<close>; a
  file is its bytes. The JSON library and SHA-256 are the record \<open>serde\<close>: canonical compact output
  (without the newline) and a reader, for each serialised type. Objects of a JSON value are the
  lists of their members in key order, so sorting them is the identity. A failing or interrupted
  file operation is a fault argument naming the step that fails, with the number of bytes a torn
  write leaves behind.
\<close>

datatype Value = VNull | VBool bool | VNumber string | VString string
  | VArray "Value list" | VObject "(string \<times> Value) list"

fun is_object :: "Value \<Rightarrow> bool" where
  "is_object (VObject members) = True"
| "is_object _ = False"

definition MAX_RECORD_BYTES :: nat where "MAX_RECORD_BYTES = 1024 * 1024"
definition MAX_INPUT_DEPTH :: nat where "MAX_INPUT_DEPTH = 120"

datatype journal_error = JIo | JJson | JBusy | JInvalid string | UncommittedTail | ReopenRequired

record JournalHead =
  jh_manifest_sha256 :: string
  jh_sequence :: nat
  jh_journal_root :: string
  jh_journal_bytes :: nat

record Entry =
  en_seq :: nat
  en_ts :: string
  en_kind :: string
  en_epoch :: nat
  en_prev :: string
  en_body :: Value

record serde =
  sd_value :: "Value \<Rightarrow> string option"
  sd_value_from :: "string \<Rightarrow> Value option"
  sd_entry :: "Entry \<Rightarrow> string option"
  sd_entry_from :: "string \<Rightarrow> Entry option"
  sd_head :: "JournalHead \<Rightarrow> string option"
  sd_head_from :: "string \<Rightarrow> JournalHead option"
  sd_sha256 :: "string \<Rightarrow> string"

record run_dir =
  rd_locked :: bool
  rd_manifest :: "string option"
  rd_journal :: "string option"
  rd_head :: "string option"
  rd_next :: "string option"

record Journal =
  jn_manifest :: Value
  jn_head :: JournalHead
  jn_tail_bytes :: nat
  jn_write_failed :: bool

subsection \<open>Records\<close>

definition valid_kind :: "string \<Rightarrow> bool" where
  "valid_kind kind =
    (CHR ''.'' \<in> set kind \<and>
     (\<forall>part \<in> set (split_on CHR ''.'' kind). part \<noteq> [] \<and>
        (\<forall>b \<in> set part. is_ascii_lowercase b \<or> is_ascii_digit b \<or> b = CHR ''_'')))"

fun fits :: "Value \<Rightarrow> nat \<Rightarrow> bool" where
  "fits (VArray values) remaining = (remaining > 0 \<and> (\<forall>v \<in> set values. fits v (remaining - 1)))"
| "fits (VObject members) remaining = (remaining > 0 \<and> (\<forall>m \<in> set members. fits (snd m) (remaining - 1)))"
| "fits _ remaining = True"

definition bounded_input :: "Value \<Rightarrow> journal_error + Value" where
  "bounded_input v =
    (if fits v MAX_INPUT_DEPTH then Inr v else Inl (JInvalid ''input exceeds maximum JSON depth''))"

definition digest :: "serde \<Rightarrow> ('a \<Rightarrow> string option) \<Rightarrow> 'a \<Rightarrow> journal_error + string" where
  "digest sd ser v = (case ser v of None \<Rightarrow> Inl JJson | Some s \<Rightarrow> Inr (sd_sha256 sd s))"

definition record_bytes :: "serde \<Rightarrow> ('a \<Rightarrow> string option) \<Rightarrow> 'a \<Rightarrow> journal_error + string" where
  "record_bytes sd ser v =
    (case ser v of
       None \<Rightarrow> Inl JJson
     | Some s \<Rightarrow>
         let bytes = s @ [newline] in
         if length bytes > MAX_RECORD_BYTES then Inl (JInvalid ''record exceeds 1 MiB'')
         else case sd_value_from sd bytes of None \<Rightarrow> Inl JJson | Some _ \<Rightarrow> Inr bytes)"

definition parse_record ::
  "serde \<Rightarrow> ('a \<Rightarrow> string option) \<Rightarrow> (string \<Rightarrow> 'a option) \<Rightarrow> string \<Rightarrow> journal_error + 'a" where
  "parse_record sd ser de bytes =
    (case de bytes of
       None \<Rightarrow> Inl JJson
     | Some v \<Rightarrow>
         and_then (record_bytes sd ser v) (\<lambda>b.
         if b \<noteq> bytes then Inl (JInvalid ''record is not canonical JSON plus newline'') else Inr v))"

definition upto_newline :: "string \<Rightarrow> string" where
  "upto_newline s = takeWhile (\<lambda>c. c \<noteq> newline) s @ (if newline \<in> set s then [newline] else [])"

definition read_line :: "string \<Rightarrow> journal_error + string" where
  "read_line s =
    (let bytes = take (MAX_RECORD_BYTES + 1) (upto_newline s) in
     if length bytes > MAX_RECORD_BYTES then Inl (JInvalid ''record exceeds 1 MiB'') else Inr bytes)"

definition read_record_file ::
  "serde \<Rightarrow> ('a \<Rightarrow> string option) \<Rightarrow> (string \<Rightarrow> 'a option) \<Rightarrow> string option \<Rightarrow> journal_error + 'a" where
  "read_record_file sd ser de contents =
    (case contents of
       None \<Rightarrow> Inl JIo
     | Some s \<Rightarrow>
         let bytes = take (MAX_RECORD_BYTES + 1) s in
         if length bytes > MAX_RECORD_BYTES then Inl (JInvalid ''record exceeds 1 MiB'')
         else parse_record sd ser de bytes)"

subsection \<open>Verifying the committed prefix\<close>

lemma upto_newline_nonempty: "s \<noteq> [] \<Longrightarrow> upto_newline s \<noteq> []"
  by (cases s) (auto simp: upto_newline_def)

text \<open>The line read is empty exactly when the stream is exhausted.\<close>

function scan_loop ::
  "serde \<Rightarrow> string \<Rightarrow> nat \<Rightarrow> string \<Rightarrow> nat \<Rightarrow> journal_error + (Entry list \<times> nat \<times> string \<times> nat)" where
  "scan_loop sd s seq root consumed =
    and_then (read_line s) (\<lambda>bytes.
    if s = [] then Inr ([], seq, root, consumed)
    else
      and_then (parse_record sd (sd_entry sd) (sd_entry_from sd) bytes) (\<lambda>entry.
      if seq + 1 \<ge> 2 ^ 64 then Inl (JInvalid ''sequence overflow'')
      else if en_seq entry \<noteq> seq + 1 \<or> en_prev entry \<noteq> root then
        Inl (JInvalid ''sequence or hash chain mismatch'')
      else if \<not> valid_kind (en_kind entry) \<or> \<not> is_object (en_body entry) then
        Inl (JInvalid ''invalid event kind or body'')
      else
        and_then (digest sd (sd_entry sd) entry) (\<lambda>root'.
        and_then (scan_loop sd (drop (length (upto_newline s)) s) (seq + 1) root' (consumed + length bytes))
          (\<lambda>(entries, r). Inr (entry # entries, r)))))"
  by pat_completeness auto
termination
  by (relation "measure (\<lambda>(sd, s, _). length s)") (auto simp: upto_newline_nonempty)

declare scan_loop.simps [simp del]

definition scan :: "serde \<Rightarrow> JournalHead \<Rightarrow> string option \<Rightarrow> journal_error + Entry list" where
  "scan sd head log =
    (case log of
       None \<Rightarrow> Inl JIo
     | Some bytes \<Rightarrow>
         and_then (scan_loop sd (take (jh_journal_bytes head) bytes) 0 (jh_manifest_sha256 head) 0)
           (\<lambda>(entries, seq, root, consumed).
             if seq \<noteq> jh_sequence head \<or> root \<noteq> jh_journal_root head \<or> consumed \<noteq> jh_journal_bytes head
             then Inl (JInvalid ''committed head does not match journal'') else Inr entries))"

subsection \<open>Opening, creating and appending\<close>

definition journal_open :: "serde \<Rightarrow> run_dir \<Rightarrow> journal_error + Journal" where
  "journal_open sd d =
    (if rd_locked d then Inl JBusy
     else
       and_then (read_record_file sd (sd_value sd) (sd_value_from sd) (rd_manifest d)) (\<lambda>manifest.
       if \<not> is_object manifest then Inl (JInvalid ''manifest must be an object'')
       else
         and_then (read_record_file sd (sd_head sd) (sd_head_from sd) (rd_head d)) (\<lambda>head.
         and_then (digest sd (sd_value sd) manifest) (\<lambda>sha.
         if sha \<noteq> jh_manifest_sha256 head then Inl (JInvalid ''manifest digest mismatch'')
         else
           and_then (ok_or JIo (rd_journal d)) (\<lambda>log.
           if length log < jh_journal_bytes head then Inl (JInvalid ''journal shorter than committed head'')
           else
             and_then (scan sd head (rd_journal d)) (\<lambda>_.
             Inr \<lparr>jn_manifest = manifest, jn_head = head,
               jn_tail_bytes = length log - jh_journal_bytes head, jn_write_failed = False\<rparr>))))))"

definition journal_replay :: "serde \<Rightarrow> Journal \<Rightarrow> run_dir \<Rightarrow> journal_error + Entry list" where
  "journal_replay sd j d =
    and_then (scan sd (jn_head j) (rd_journal d)) (\<lambda>_. scan sd (jn_head j) (rd_journal d))"

datatype publish_fault = NextCreate | NextTorn nat | NextSync | Rename | DirSync

definition publish_head :: "serde \<Rightarrow> publish_fault option \<Rightarrow> JournalHead \<Rightarrow> run_dir \<Rightarrow> (journal_error + unit) \<times> run_dir" where
  "publish_head sd fault head d =
    (if rd_next d \<noteq> None \<or> fault = Some NextCreate then (Inl JIo, d)
     else case record_bytes sd (sd_head sd) head of
       Inl e \<Rightarrow> (Inl e, d\<lparr>rd_next := Some []\<rparr>)
     | Inr b \<Rightarrow>
         (case fault of
            Some (NextTorn n) \<Rightarrow> (Inl JIo, d\<lparr>rd_next := Some (take n b)\<rparr>)
          | Some NextSync \<Rightarrow> (Inl JIo, d\<lparr>rd_next := Some b\<rparr>)
          | Some Rename \<Rightarrow> (Inl JIo, d\<lparr>rd_next := Some b\<rparr>)
          | Some DirSync \<Rightarrow> (Inl JIo, d\<lparr>rd_head := Some b, rd_next := None\<rparr>)
          | _ \<Rightarrow> (Inr (), d\<lparr>rd_head := Some b, rd_next := None\<rparr>)))"

datatype create_fault = MakeDir | TakeLock | ManifestTorn nat | LogCreate | CreatePublish publish_fault

text \<open>\<open>None\<close> as the directory: it does not exist (creation refuses an existing one).\<close>

definition journal_create ::
  "serde \<Rightarrow> create_fault option \<Rightarrow> Value \<Rightarrow> run_dir option \<Rightarrow> (journal_error + Journal) \<times> run_dir option" where
  "journal_create sd fault manifest d =
    (case and_then (bounded_input manifest) (\<lambda>m.
        if \<not> is_object m then Inl (JInvalid ''manifest must be an object'')
        else record_bytes sd (sd_value sd) m) of
       Inl e \<Rightarrow> (Inl e, d)
     | Inr bytes \<Rightarrow>
         if d \<noteq> None \<or> fault = Some MakeDir then (Inl JIo, d)
         else
           let d0 = \<lparr>rd_locked = False, rd_manifest = None, rd_journal = None, rd_head = None, rd_next = None\<rparr> in
           case fault of
             Some TakeLock \<Rightarrow> (Inl JIo, Some d0)
           | Some (ManifestTorn n) \<Rightarrow> (Inl JIo, Some (d0\<lparr>rd_manifest := Some (take n bytes)\<rparr>))
           | Some LogCreate \<Rightarrow> (Inl JIo, Some (d0\<lparr>rd_manifest := Some bytes\<rparr>))
           | _ \<Rightarrow>
               let d1 = d0\<lparr>rd_manifest := Some bytes, rd_journal := Some []\<rparr> in
               (case digest sd (sd_value sd) manifest of
                  Inl e \<Rightarrow> (Inl e, Some d1)
                | Inr root \<Rightarrow>
                    let head = \<lparr>jh_manifest_sha256 = root, jh_sequence = 0, jh_journal_root = root, jh_journal_bytes = 0\<rparr>;
                        (r, d2) = publish_head sd (case fault of Some (CreatePublish f) \<Rightarrow> Some f | _ \<Rightarrow> None) head d1
                    in (case r of
                          Inl e \<Rightarrow> (Inl e, Some d2)
                        | Inr _ \<Rightarrow> (Inr \<lparr>jn_manifest = manifest, jn_head = head, jn_tail_bytes = 0, jn_write_failed = False\<rparr>,
                            Some (d2\<lparr>rd_locked := True\<rparr>)))))"

datatype append_fault = LogTorn nat | LogSync | AppendPublish publish_fault

definition next_entry :: "string \<Rightarrow> string \<Rightarrow> nat \<Rightarrow> Value \<Rightarrow> Journal \<Rightarrow> Entry" where
  "next_entry ts kind epoch body j =
    \<lparr>en_seq = jh_sequence (jn_head j) + 1, en_ts = ts, en_kind = kind, en_epoch = epoch,
     en_prev = jh_journal_root (jn_head j), en_body = body\<rparr>"

text \<open>The checks of \<open>append\<close> before its first write: the entry, its bytes and the head that commits it.\<close>

definition prepare_append ::
  "serde \<Rightarrow> string \<Rightarrow> string \<Rightarrow> nat \<Rightarrow> Value \<Rightarrow> Journal \<Rightarrow> journal_error + (Entry \<times> string \<times> JournalHead)" where
  "prepare_append sd ts kind epoch body j =
    and_then (bounded_input body) (\<lambda>body.
    if jn_write_failed j then Inl ReopenRequired
    else if jn_tail_bytes j \<noteq> 0 then Inl UncommittedTail
    else if \<not> valid_kind kind \<or> \<not> is_object body then
      Inl (JInvalid ''event needs a namespaced kind and object body'')
    else if jh_sequence (jn_head j) + 1 \<ge> 2 ^ 64 then Inl (JInvalid ''sequence overflow'')
    else
      let entry = next_entry ts kind epoch body j in
      and_then (record_bytes sd (sd_entry sd) entry) (\<lambda>bytes.
      and_then (digest sd (sd_entry sd) entry) (\<lambda>root.
      if jh_journal_bytes (jn_head j) + length bytes \<ge> 2 ^ 64 then Inl (JInvalid ''journal size overflow'')
      else Inr (entry, bytes,
        \<lparr>jh_manifest_sha256 = jh_manifest_sha256 (jn_head j), jh_sequence = en_seq entry,
         jh_journal_root = root, jh_journal_bytes = jh_journal_bytes (jn_head j) + length bytes\<rparr>))))"

definition log_append :: "string \<Rightarrow> run_dir \<Rightarrow> run_dir" where
  "log_append bytes d = d\<lparr>rd_journal := map_option (\<lambda>log. log @ bytes) (rd_journal d)\<rparr>"

definition journal_append ::
  "serde \<Rightarrow> append_fault option \<Rightarrow> string \<Rightarrow> string \<Rightarrow> nat \<Rightarrow> Value \<Rightarrow> Journal \<Rightarrow> run_dir \<Rightarrow>
   (journal_error + Entry) \<times> Journal \<times> run_dir" where
  "journal_append sd fault ts kind epoch body j d =
    (case prepare_append sd ts kind epoch body j of
       Inl e \<Rightarrow> (Inl e, j, d)
     | Inr (entry, bytes, head') \<Rightarrow>
         let failed = j\<lparr>jn_write_failed := True\<rparr> in
         (case fault of
            Some (LogTorn n) \<Rightarrow> (Inl JIo, failed, log_append (take n bytes) d)
          | Some LogSync \<Rightarrow> (Inl JIo, failed, log_append bytes d)
          | _ \<Rightarrow>
              let (r, d') = publish_head sd (case fault of Some (AppendPublish f) \<Rightarrow> Some f | _ \<Rightarrow> None)
                    head' (log_append bytes d)
              in (case r of
                    Inl e \<Rightarrow> (Inl e, failed, d')
                  | Inr _ \<Rightarrow> (Inr entry, j\<lparr>jn_head := head', jn_write_failed := False\<rparr>, d'))))"

subsection \<open>What a verified prefix is\<close>

text \<open>\<open>links sd root seq es root'\<close>: the entries continue the chain from \<open>root\<close> at \<open>seq\<close> to \<open>root'\<close>.\<close>

fun links :: "serde \<Rightarrow> string \<Rightarrow> nat \<Rightarrow> Entry list \<Rightarrow> string \<Rightarrow> bool" where
  "links sd root seq [] root' = (root' = root)"
| "links sd root seq (e # es) root' =
     (en_seq e = seq + 1 \<and> en_prev e = root \<and> valid_kind (en_kind e) \<and> is_object (en_body e) \<and>
      (\<exists>r. digest sd (sd_entry sd) e = Inr r \<and> links sd r (seq + 1) es root'))"

definition entry_bytes :: "serde \<Rightarrow> Entry \<Rightarrow> string" where
  "entry_bytes sd e = (case sd_entry sd e of None \<Rightarrow> [] | Some s \<Rightarrow> s @ [newline])"

definition log_bytes :: "serde \<Rightarrow> Entry list \<Rightarrow> string" where
  "log_bytes sd es = concat (map (entry_bytes sd) es)"

definition readable :: "serde \<Rightarrow> Entry \<Rightarrow> bool" where
  "readable sd e = (parse_record sd (sd_entry sd) (sd_entry_from sd) (entry_bytes sd e) = Inr e)"

lemma log_bytes_simps [simp]:
  "log_bytes sd [] = []" "log_bytes sd (e # es) = entry_bytes sd e @ log_bytes sd es"
  "log_bytes sd (es @ es') = log_bytes sd es @ log_bytes sd es'"
  by (simp_all add: log_bytes_def)

lemma record_bytes_Inr:
  "record_bytes sd ser v = Inr b \<longleftrightarrow>
    (\<exists>s. ser v = Some s \<and> b = s @ [newline] \<and> length b \<le> MAX_RECORD_BYTES \<and> sd_value_from sd b \<noteq> None)"
  by (auto simp: record_bytes_def Let_def not_less not_less_eq_eq split: option.splits)

lemma parse_record_Inr:
  "parse_record sd ser de b = Inr v \<longleftrightarrow> de b = Some v \<and> record_bytes sd ser v = Inr b"
  by (auto simp: parse_record_def result_simps split: option.splits)

lemma parse_entry_readable:
  assumes "parse_record sd (sd_entry sd) (sd_entry_from sd) b = Inr e"
  shows "readable sd e \<and> entry_bytes sd e = b"
  using assms by (auto simp: readable_def parse_record_Inr record_bytes_Inr entry_bytes_def)

lemma links_snoc:
  "links sd root seq (es @ [e]) root' \<longleftrightarrow>
    (\<exists>r. links sd root seq es r \<and> en_seq e = seq + length es + 1 \<and> en_prev e = r \<and>
      valid_kind (en_kind e) \<and> is_object (en_body e) \<and> digest sd (sd_entry sd) e = Inr root')"
  by (induction es arbitrary: root seq) auto

lemma upto_newline_split: "upto_newline s @ drop (length (upto_newline s)) s = s"
  by (induction s) (auto simp: upto_newline_def)

lemma scan_loop_Nil [simp]: "scan_loop sd [] seq root c = Inr ([], seq, root, c)"
  by (subst scan_loop.simps) (simp add: read_line_def upto_newline_def)

lemma read_line_Inr: "read_line s = Inr b \<longleftrightarrow> b = upto_newline s \<and> length b \<le> MAX_RECORD_BYTES"
  by (auto simp: read_line_def Let_def)

lemma scan_loop_Cons_Inr:
  assumes "s \<noteq> []"
  shows "scan_loop sd s seq root c = Inr (es, x) \<longleftrightarrow>
    (\<exists>e r es1. length (upto_newline s) \<le> MAX_RECORD_BYTES \<and> es = e # es1 \<and> seq + 1 < 2 ^ 64 \<and>
      parse_record sd (sd_entry sd) (sd_entry_from sd) (upto_newline s) = Inr e \<and>
      en_seq e = seq + 1 \<and> en_prev e = root \<and> valid_kind (en_kind e) \<and> is_object (en_body e) \<and>
      digest sd (sd_entry sd) e = Inr r \<and>
      scan_loop sd (drop (length (upto_newline s)) s) (seq + 1) r (c + length (upto_newline s)) = Inr (es1, x))"
  (is "?l \<longleftrightarrow> ?r")
proof
  assume ?l
  then show ?r using assms
    by (subst (asm) scan_loop.simps) (auto simp: result_simps read_line_Inr split: if_splits)
next
  assume ?r
  moreover from this have "read_line s = Inr (upto_newline s)" by (auto simp: read_line_Inr)
  ultimately show ?l using assms by (subst scan_loop.simps) (auto simp: not_le)
qed

text \<open>Whatever the scan accepts is a readable chain of entries that accounts for every byte.\<close>

lemma scan_loop_sound:
  assumes "scan_loop sd s seq root c = Inr (es, seq', root', c')"
  shows "links sd root seq es root' \<and> seq' = seq + length es \<and> s = log_bytes sd es \<and>
    (\<forall>e \<in> set es. readable sd e) \<and> c' = c + length s"
  using assms
proof (induction "length s" arbitrary: s seq root c es rule: less_induct)
  case less
  show ?case
  proof (cases "s = []")
    case True
    with less.prems show ?thesis by simp
  next
    case False
    let ?b = "upto_newline s"
    obtain e r es1 where e: "es = e # es1" "parse_record sd (sd_entry sd) (sd_entry_from sd) ?b = Inr e"
        "en_seq e = seq + 1" "en_prev e = root" "valid_kind (en_kind e)" "is_object (en_body e)"
        "digest sd (sd_entry sd) e = Inr r"
      and rec: "scan_loop sd (drop (length ?b) s) (seq + 1) r (c + length ?b) = Inr (es1, seq', root', c')"
      using less.prems scan_loop_Cons_Inr [OF False] by auto
    have "length (drop (length ?b) s) < length s" using upto_newline_nonempty [OF False] False by simp
    then have ih: "links sd r (seq + 1) es1 root'" "seq' = seq + 1 + length es1"
        "drop (length ?b) s = log_bytes sd es1" "\<forall>e \<in> set es1. readable sd e"
        "c' = c + length ?b + length (drop (length ?b) s)"
      using less.hyps [OF _ rec] by blast+
    have b: "readable sd e" "entry_bytes sd e = ?b" using parse_entry_readable [OF e(2)] by auto
    have "length s = length ?b + length (drop (length ?b) s)" by (metis length_append upto_newline_split)
    then have "c' = c + length s" using ih(5) by linarith
    moreover have "s = log_bytes sd es"
      unfolding e(1) log_bytes_simps b(2) ih(3) [symmetric] by (rule upto_newline_split [symmetric])
    ultimately show ?thesis using e ih(1,2,4) b(1) by auto
  qed
qed

lemma scan_sound:
  assumes "scan sd h log = Inr es"
  shows "links sd (jh_manifest_sha256 h) 0 es (jh_journal_root h)" "jh_sequence h = length es"
    "\<forall>e \<in> set es. readable sd e" "\<exists>rest. log = Some (log_bytes sd es @ rest)"
    "jh_journal_bytes h = length (log_bytes sd es)"
proof -
  obtain bytes where log: "log = Some bytes" using assms by (cases log) (auto simp: scan_def)
  let ?t = "take (jh_journal_bytes h) bytes"
  have "scan_loop sd ?t 0 (jh_manifest_sha256 h) 0 = Inr (es, jh_sequence h, jh_journal_root h, jh_journal_bytes h)"
    using assms by (auto simp: scan_def log result_simps split: if_splits)
  note s = scan_loop_sound [OF this]
  then show "links sd (jh_manifest_sha256 h) 0 es (jh_journal_root h)" "jh_sequence h = length es"
      "\<forall>e \<in> set es. readable sd e" by auto
  from s show "jh_journal_bytes h = length (log_bytes sd es)" by (metis add_0)
  show "\<exists>rest. log = Some (log_bytes sd es @ rest)"
    using s log append_take_drop_id [of "jh_journal_bytes h" bytes] by metis
qed

subsection \<open>A head commits to its history\<close>

definition sha_collision :: "serde \<Rightarrow> bool" where
  "sha_collision sd = (\<exists>s s'. s \<noteq> s' \<and> sd_sha256 sd s = sd_sha256 sd s')"

lemma digest_binds:
  assumes "digest sd (sd_entry sd) e = Inr r" "digest sd (sd_entry sd) e' = Inr r" "\<not> sha_collision sd"
    and "readable sd e" "readable sd e'"
  shows "e = e'"
proof -
  have "sd_entry sd e = sd_entry sd e'"
    using assms(1-3) by (auto simp: digest_def sha_collision_def split: option.splits) metis
  then have "entry_bytes sd e = entry_bytes sd e'" by (simp add: entry_bytes_def)
  then show ?thesis using assms(4,5) unfolding readable_def by (metis sum.inject(2))
qed

lemma links_bind:
  assumes "\<not> sha_collision sd" "links sd a 0 es r" "links sd b 0 es' r" "length es = length es'"
    and "\<forall>e \<in> set es. readable sd e" "\<forall>e \<in> set es'. readable sd e"
  shows "es = es' \<and> a = b"
  using assms
proof (induction es arbitrary: es' r rule: rev_induct)
  case (snoc e es)
  then obtain e' fs where es': "es' = fs @ [e']" by (cases es' rule: rev_cases) auto
  obtain q where q: "links sd a 0 es q" "en_prev e = q" "digest sd (sd_entry sd) e = Inr r"
    using snoc.prems(2) by (auto simp: links_snoc)
  obtain q' where q': "links sd b 0 fs q'" "en_prev e' = q'" "digest sd (sd_entry sd) e' = Inr r"
    using snoc.prems(3) by (auto simp: es' links_snoc)
  have "e = e'" using digest_binds [OF q(3) q'(3) assms(1)] snoc.prems(5,6) es' by simp
  moreover from this have "es = fs \<and> a = b" using snoc.IH [of q fs] q q' snoc.prems es' by simp
  ultimately show ?case by (simp add: es')
qed simp

text \<open>C17: a head commits to the whole history. Two logs that both verify against heads with the same
  root and sequence hold exactly the same entries, byte for byte in their committed prefix, and
  their heads name the same manifest digest, unless SHA-256 has a collision.\<close>

theorem head_binds_history:
  assumes "scan sd h log = Inr es" "scan sd h' log' = Inr es'"
    and "jh_journal_root h = jh_journal_root h'" "jh_sequence h = jh_sequence h'"
  shows "sha_collision sd \<or>
    (es = es' \<and> h = h' \<and> take (jh_journal_bytes h) (the log) = take (jh_journal_bytes h) (the log'))"
proof (cases "sha_collision sd")
  case False
  note a = scan_sound [OF assms(1)] and b = scan_sound [OF assms(2)]
  have eq: "es = es' \<and> jh_manifest_sha256 h = jh_manifest_sha256 h'"
    using links_bind [OF False a(1) _ _ a(3) b(3)] b(1) assms(3,4) a(2) b(2) by simp
  then have "h = h'" using a(5) b(5) assms(3,4) by simp
  moreover have "take (jh_journal_bytes h) (the log) = take (jh_journal_bytes h) (the log')"
    using a(4,5) b(4) eq by auto
  ultimately show ?thesis using eq by simp
qed simp

subsection \<open>Acknowledged entries survive\<close>

text \<open>
  Documented behaviour of the JSON library: compact output has no raw newline, and what its reader
  accepts at all it reads back unchanged.
\<close>

definition serde_ok :: "serde \<Rightarrow> bool" where
  "serde_ok sd =
    ((\<forall>e s. sd_entry sd e = Some s \<longrightarrow> newline \<notin> set s \<and>
       (sd_value_from sd (s @ [newline]) \<noteq> None \<longrightarrow> sd_entry_from sd (s @ [newline]) = Some e)) \<and>
     (\<forall>h s. sd_head sd h = Some s \<longrightarrow> sd_value_from sd (s @ [newline]) \<noteq> None \<longrightarrow>
       sd_head_from sd (s @ [newline]) = Some h) \<and>
     (\<forall>v s. sd_value sd v = Some s \<longrightarrow> sd_value_from sd (s @ [newline]) \<in> {None, Some v}))"

definition committed :: "serde \<Rightarrow> run_dir \<Rightarrow> Value \<Rightarrow> JournalHead \<Rightarrow> Entry list \<Rightarrow> string \<Rightarrow> bool" where
  "committed sd d m h es tail =
    ((\<exists>mb. rd_manifest d = Some mb \<and> record_bytes sd (sd_value sd) m = Inr mb) \<and> is_object m \<and>
     digest sd (sd_value sd) m = Inr (jh_manifest_sha256 h) \<and>
     (\<exists>hb. rd_head d = Some hb \<and> record_bytes sd (sd_head sd) h = Inr hb) \<and>
     rd_journal d = Some (log_bytes sd es @ tail) \<and>
     links sd (jh_manifest_sha256 h) 0 es (jh_journal_root h) \<and> jh_sequence h = length es \<and>
     length es < 2 ^ 64 \<and> jh_journal_bytes h = length (log_bytes sd es) \<and> (\<forall>e \<in> set es. readable sd e))"

lemma parse_after_record:
  assumes "serde_ok sd"
  shows "record_bytes sd (sd_entry sd) e = Inr b \<Longrightarrow> readable sd e \<and> entry_bytes sd e = b"
    and "record_bytes sd (sd_head sd) h = Inr b \<Longrightarrow> read_record_file sd (sd_head sd) (sd_head_from sd) (Some b) = Inr h"
    and "record_bytes sd (sd_value sd) v = Inr b \<Longrightarrow> read_record_file sd (sd_value sd) (sd_value_from sd) (Some b) = Inr v"
proof -
  show "record_bytes sd (sd_entry sd) e = Inr b \<Longrightarrow> readable sd e \<and> entry_bytes sd e = b"
    using assms by (auto simp: serde_ok_def readable_def parse_record_Inr record_bytes_Inr entry_bytes_def)
  show "record_bytes sd (sd_head sd) h = Inr b \<Longrightarrow> read_record_file sd (sd_head sd) (sd_head_from sd) (Some b) = Inr h"
    using assms by (auto simp: serde_ok_def read_record_file_def parse_record_Inr record_bytes_Inr Let_def)
  show "record_bytes sd (sd_value sd) v = Inr b \<Longrightarrow> read_record_file sd (sd_value sd) (sd_value_from sd) (Some b) = Inr v"
    using assms by (auto simp: serde_ok_def read_record_file_def parse_record_Inr record_bytes_Inr Let_def) fastforce
qed

lemma upto_newline_entry:
  assumes "serde_ok sd" "readable sd e"
  shows "upto_newline (entry_bytes sd e @ rest) = entry_bytes sd e" "entry_bytes sd e \<noteq> []"
    "length (entry_bytes sd e) \<le> MAX_RECORD_BYTES"
  using assms
  by (auto simp: serde_ok_def readable_def parse_record_Inr record_bytes_Inr upto_newline_def entry_bytes_def
    takeWhile_append split: option.splits)

lemma scan_loop_complete:
  assumes "serde_ok sd" "links sd root seq es root'" "\<forall>e \<in> set es. readable sd e" "seq + length es < 2 ^ 64"
  shows "scan_loop sd (log_bytes sd es) seq root c = Inr (es, seq + length es, root', c + length (log_bytes sd es))"
  using assms(2-)
proof (induction es arbitrary: root seq c)
  case (Cons e es)
  let ?s = "log_bytes sd (e # es)"
  have u: "upto_newline ?s = entry_bytes sd e" "?s \<noteq> []" "length (entry_bytes sd e) \<le> MAX_RECORD_BYTES"
    using upto_newline_entry [OF assms(1)] Cons.prems(2) by auto
  obtain r where r: "digest sd (sd_entry sd) e = Inr r" "links sd r (seq + 1) es root'"
    using Cons.prems(1) by auto
  have "scan_loop sd (log_bytes sd es) (seq + 1) r (c + length (entry_bytes sd e)) =
      Inr (es, seq + 1 + length es, root', c + length (entry_bytes sd e) + length (log_bytes sd es))"
    using Cons.IH [OF r(2)] Cons.prems(2,3) by simp
  then show ?case
    unfolding scan_loop_Cons_Inr [OF u(2)] u(1)
    using Cons.prems r u(3) by (intro exI [of _ e] exI [of _ r] exI [of _ es]) (auto simp: readable_def ac_simps)
qed simp

lemma committed_scan: "serde_ok sd \<Longrightarrow> committed sd d m h es tail \<Longrightarrow> scan sd h (rd_journal d) = Inr es"
  using scan_loop_complete [of sd "jh_manifest_sha256 h" 0 es "jh_journal_root h" 0]
  by (auto simp: committed_def scan_def)

lemma committed_open:
  assumes "serde_ok sd" "committed sd d m h es tail" "\<not> rd_locked d"
  shows "journal_open sd d = Inr \<lparr>jn_manifest = m, jn_head = h, jn_tail_bytes = length tail, jn_write_failed = False\<rparr>"
proof -
  obtain mb hb where "rd_manifest d = Some mb" "record_bytes sd (sd_value sd) m = Inr mb"
      "rd_head d = Some hb" "record_bytes sd (sd_head sd) h = Inr hb"
    using assms(2) by (auto simp: committed_def)
  then show ?thesis
    using parse_after_record(2,3) [OF assms(1)] committed_scan [OF assms(1,2)] assms(2,3)
    by (simp add: journal_open_def committed_def)
qed

text \<open>
  A run of one journal: created, then appended to by whoever holds the writer lock, closed or killed
  at any moment (a writer killed inside \<open>append\<close> is an append that fails at that step, then
  closed) and opened again. The last argument collects the entries whose \<open>append\<close> returned \<open>Ok\<close>.
\<close>

inductive journal_run :: "serde \<Rightarrow> run_dir \<Rightarrow> Journal option \<Rightarrow> Entry list \<Rightarrow> bool" for sd where
  created: "journal_create sd fault manifest None = (Inr j, Some d) \<Longrightarrow> journal_run sd d (Some j) []"
| appended: "journal_run sd d (Some j) acked \<Longrightarrow>
    journal_append sd fault ts kind epoch body j d = (Inr e, j', d') \<Longrightarrow> journal_run sd d' (Some j') (acked @ [e])"
| failed: "journal_run sd d (Some j) acked \<Longrightarrow>
    journal_append sd fault ts kind epoch body j d = (Inl err, j', d') \<Longrightarrow> journal_run sd d' (Some j') acked"
| closed: "journal_run sd d j acked \<Longrightarrow> journal_run sd (d\<lparr>rd_locked := False\<rparr>) None acked"
| reopened: "journal_run sd d None acked \<Longrightarrow> journal_open sd d = Inr j \<Longrightarrow>
    journal_run sd (d\<lparr>rd_locked := True\<rparr>) (Some j) acked"

definition handle_ok :: "Journal \<Rightarrow> Value \<Rightarrow> JournalHead \<Rightarrow> string \<Rightarrow> bool" where
  "handle_ok j m h tail =
    (jn_write_failed j \<or> jn_head j = h \<and> jn_manifest j = m \<and> jn_tail_bytes j = length tail)"

lemma publish_head_cases:
  assumes "publish_head sd fault head d = (r, d')"
  obtains (old) e n where "r = Inl e" "d' = d\<lparr>rd_next := n\<rparr>"
  | (new) b where "record_bytes sd (sd_head sd) head = Inr b" "d' = d\<lparr>rd_head := Some b, rd_next := None\<rparr>"
proof -
  have same: "d = d\<lparr>rd_next := rd_next d\<rparr>" by simp
  show ?thesis
  proof (cases "rd_next d \<noteq> None \<or> fault = Some NextCreate")
    case True
    with assms have "r = Inl JIo" "d' = d" by (auto simp: publish_head_def)
    then show ?thesis using old same by metis
  next
    case False
    then show ?thesis using assms old new
      by (cases "record_bytes sd (sd_head sd) head"; cases "the fault")
        (auto simp: publish_head_def split: option.splits publish_fault.splits)
  qed
qed

lemma prepare_append_Inr:
  assumes "prepare_append sd ts kind epoch body j = Inr (entry, bytes, head')"
  shows "\<not> jn_write_failed j" "jn_tail_bytes j = 0" "record_bytes sd (sd_entry sd) entry = Inr bytes"
    "valid_kind (en_kind entry)" "is_object (en_body entry)" "en_seq entry = jh_sequence (jn_head j) + 1"
    "en_prev entry = jh_journal_root (jn_head j)" "digest sd (sd_entry sd) entry = Inr (jh_journal_root head')"
    "jh_manifest_sha256 head' = jh_manifest_sha256 (jn_head j)" "jh_sequence head' = jh_sequence (jn_head j) + 1"
    "jh_journal_bytes head' = jh_journal_bytes (jn_head j) + length bytes" "jh_sequence head' < 2 ^ 64"
  using assms
  by (auto simp: prepare_append_def result_simps bounded_input_def Let_def next_entry_def split: if_splits)

text \<open>The core of the argument: an append leaves the old history committed, or exactly one more entry.\<close>

lemma append_commits:
  assumes "serde_ok sd" "committed sd d m h es tail" "handle_ok j m h tail"
    and "journal_append sd fault ts kind epoch body j d = (r, j', d')"
  shows "(\<exists>tail' e. r = Inl e \<and> committed sd d' m h es tail' \<and> handle_ok j' m h tail') \<or>
    (\<exists>h' entry. committed sd d' m h' (es @ [entry]) [] \<and> handle_ok j' m h' [] \<and> (\<forall>x. r = Inr x \<longrightarrow> x = entry))"
proof (cases "prepare_append sd ts kind epoch body j")
  case (Inl e)
  with assms show ?thesis by (auto simp: journal_append_def)
next
  case (Inr p)
  obtain entry bytes head' where p: "p = (entry, bytes, head')" by (cases p) auto
  note prep = prepare_append_Inr [OF Inr [unfolded p]]
  have j: "jn_head j = h" "jn_manifest j = m" "tail = []" using assms(3) prep(1,2) by (auto simp: handle_ok_def)
  have torn: "committed sd (log_append x d) m h es x" for x
    using assms(2) j(3) by (auto simp: committed_def log_append_def)
  have entry: "readable sd entry" "entry_bytes sd entry = bytes" using parse_after_record(1) [OF assms(1) prep(3)] by auto
  have renamed: "committed sd ((log_append bytes d)\<lparr>rd_head := Some b, rd_next := None\<rparr>) m head' (es @ [entry]) []"
    if "record_bytes sd (sd_head sd) head' = Inr b" for b
    using assms(2) prep(3-) entry that unfolding j by (auto simp: committed_def log_append_def links_snoc)
  have failed: "handle_ok (j\<lparr>jn_write_failed := True\<rparr>) m x t" for x t by (simp add: handle_ok_def)
  show ?thesis
  proof (cases "fault = Some LogSync \<or> (\<exists>n. fault = Some (LogTorn n))")
    case True
    then obtain x where "r = Inl JIo" "j' = j\<lparr>jn_write_failed := True\<rparr>" "d' = log_append x d"
      using assms(4) by (auto simp: journal_append_def Inr p Let_def)
    then show ?thesis using torn failed by blast
  next
    case False
    let ?f = "case fault of Some (AppendPublish f) \<Rightarrow> Some f | _ \<Rightarrow> None"
    obtain r1 d1 where pub: "publish_head sd ?f head' (log_append bytes d) = (r1, d1)" by fastforce
    have app: "(r, j', d') = (case r1 of Inl e \<Rightarrow> (Inl e, j\<lparr>jn_write_failed := True\<rparr>, d1)
        | Inr _ \<Rightarrow> (Inr entry, j\<lparr>jn_head := head', jn_write_failed := False\<rparr>, d1))"
      using assms(4) pub False
      by (auto simp: journal_append_def Inr p Let_def split: option.splits append_fault.splits)
    from pub show ?thesis
    proof (cases rule: publish_head_cases)
      case (old e n)
      with app torn [of bytes] failed show ?thesis by (auto simp: committed_def)
    next
      case (new b)
      have "handle_ok (j\<lparr>jn_head := head', jn_write_failed := False\<rparr>) m head' []"
        using j prep(2) by (simp add: handle_ok_def)
      moreover have "committed sd d1 m head' (es @ [entry]) []" using renamed new by simp
      ultimately show ?thesis using app failed by (cases r1) auto
    qed
  qed
qed

lemma create_commits:
  assumes "journal_create sd fault manifest None = (Inr j, Some d)"
  shows "\<exists>h. committed sd d manifest h [] [] \<and> handle_ok j manifest h []"
proof -
  obtain bytes where m: "record_bytes sd (sd_value sd) manifest = Inr bytes" "is_object manifest"
    using assms
    by (auto simp: journal_create_def result_simps bounded_input_def split: sum.splits if_splits)
  obtain root where root: "digest sd (sd_value sd) manifest = Inr root"
    using m(1) by (auto simp: digest_def record_bytes_Inr)
  let ?h = "\<lparr>jh_manifest_sha256 = root, jh_sequence = 0, jh_journal_root = root, jh_journal_bytes = 0\<rparr>"
  let ?d1 = "\<lparr>rd_locked = False, rd_manifest = Some bytes, rd_journal = Some [], rd_head = None, rd_next = None\<rparr>"
  let ?f = "case fault of Some (CreatePublish f) \<Rightarrow> Some f | _ \<Rightarrow> None"
  obtain r d2 where pub: "publish_head sd ?f ?h ?d1 = (r, d2)" by fastforce
  have d: "\<exists>u. r = Inr u" "d = d2\<lparr>rd_locked := True\<rparr>"
      "j = \<lparr>jn_manifest = manifest, jn_head = ?h, jn_tail_bytes = 0, jn_write_failed = False\<rparr>"
    using assms m root pub
    by (auto simp: journal_create_def bounded_input_def Let_def split: if_splits option.splits create_fault.splits sum.splits prod.splits)
  from pub show ?thesis
  proof (cases rule: publish_head_cases)
    case (old e n)
    with d(1) show ?thesis by simp
  next
    case (new b)
    then have "committed sd d manifest ?h [] []" using m root d(2) by (simp add: committed_def)
    then show ?thesis using d(3) by (auto simp: handle_ok_def)
  qed
qed

lemma run_committed:
  assumes "serde_ok sd" "journal_run sd d j acked"
  shows "\<exists>m h es tail. committed sd d m h es tail \<and> (\<forall>j'. j = Some j' \<longrightarrow> handle_ok j' m h tail) \<and>
    subseq acked es \<and> (j = None \<longrightarrow> \<not> rd_locked d)"
  using assms(2)
proof (induction rule: journal_run.induct)
  case (created fault manifest j d)
  then show ?case using create_commits by fastforce
next
  case (appended d j acked fault ts kind epoch body e j' d')
  then obtain m h es tail where i: "committed sd d m h es tail" "handle_ok j m h tail" "subseq acked es" by auto
  from append_commits [OF assms(1) i(1,2) appended.hyps(2)] obtain h' where
      "committed sd d' m h' (es @ [e]) []" "handle_ok j' m h' []" by auto
  moreover have "subseq (acked @ [e]) (es @ [e])" using i(3) by simp
  ultimately show ?case by blast
next
  case (failed d j acked fault ts kind epoch body err j' d')
  then obtain m h es tail where i: "committed sd d m h es tail" "handle_ok j m h tail" "subseq acked es" by auto
  moreover have "subseq acked (es @ [e])" for e
    using list_emb_append_mono [OF i(3) list_emb_Nil, of "[e]"] by simp
  ultimately show ?case using append_commits [OF assms(1) i(1,2) failed.hyps(2)] by blast
next
  case (closed d j acked)
  then show ?case by (fastforce simp: committed_def)
next
  case (reopened d acked j)
  then obtain m h es tail where i: "committed sd d m h es tail" "subseq acked es" "\<not> rd_locked d" by auto
  then have "handle_ok j m h tail"
    using committed_open [OF assms(1) i(1,3)] reopened.hyps(2) by (auto simp: handle_ok_def)
  then show ?case using i by (fastforce simp: committed_def)
qed

text \<open>C5: whatever faults and crashes a journal goes through after its creation, closing it and opening
  it again succeeds, and replaying it yields every entry whose append was acknowledged, in order.
  A torn or uncommitted tail is never read as an entry.\<close>

theorem acknowledged_entries_survive:
  assumes "serde_ok sd" "journal_run sd d j acked"
  shows "\<exists>j' es. journal_open sd (d\<lparr>rd_locked := False\<rparr>) = Inr j' \<and>
    journal_replay sd j' d = Inr es \<and> subseq acked es \<and>
    prefix (log_bytes sd es) (the (rd_journal d)) \<and>
    jn_tail_bytes j' = length (the (rd_journal d)) - length (log_bytes sd es)"
proof -
  obtain m h es tail where i: "committed sd d m h es tail" "subseq acked es" using run_committed [OF assms] by blast
  have "committed sd (d\<lparr>rd_locked := False\<rparr>) m h es tail" using i(1) by (auto simp: committed_def)
  from committed_open [OF assms(1) this] committed_scan [OF assms(1) i(1)] i
  show ?thesis by (auto simp: journal_replay_def committed_def)
qed

text \<open>A run with one acknowledged entry and one torn append, over a JSON library that knows just its values.\<close>

definition demo_head :: "nat \<Rightarrow> JournalHead" where
  "demo_head n = (if n = 0
     then \<lparr>jh_manifest_sha256 = ''{}'', jh_sequence = 0, jh_journal_root = ''{}'', jh_journal_bytes = 0\<rparr>
     else \<lparr>jh_manifest_sha256 = ''{}'', jh_sequence = 1, jh_journal_root = ''e'', jh_journal_bytes = 2\<rparr>)"

definition demo_entry :: Entry where
  "demo_entry = \<lparr>en_seq = 1, en_ts = ''t'', en_kind = ''a.b'', en_epoch = 0, en_prev = ''{}'', en_body = VObject []\<rparr>"

definition demo_second :: Entry where
  "demo_second = \<lparr>en_seq = 2, en_ts = ''t'', en_kind = ''a.b'', en_epoch = 0, en_prev = ''e'', en_body = VObject []\<rparr>"

definition demo_serde :: serde where
  "demo_serde =
    \<lparr>sd_value = (\<lambda>v. if v = VObject [] then Some ''{}'' else None),
     sd_value_from = (\<lambda>s. Some (VObject [])),
     sd_entry = (\<lambda>e. if e = demo_entry then Some ''e'' else if e = demo_second then Some ''ff'' else None),
     sd_entry_from = (\<lambda>s. Some (if s = ''e'' @ [newline] then demo_entry else demo_second)),
     sd_head = (\<lambda>h. if h = demo_head 0 then Some ''0'' else if h = demo_head 1 then Some ''1'' else None),
     sd_head_from = (\<lambda>s. Some (demo_head (if s = ''0'' @ [newline] then 0 else 1))),
     sd_sha256 = (\<lambda>s. s)\<rparr>"

definition demo_dir :: "nat \<Rightarrow> run_dir" where
  "demo_dir n = \<lparr>rd_locked = True, rd_manifest = Some (''{}'' @ [newline]),
     rd_journal = Some (if n = 0 then [] else if n = 1 then ''e'' @ [newline] else ''e'' @ [newline] @ ''f''),
     rd_head = Some ((if n = 0 then ''0'' else ''1'') @ [newline]), rd_next = None\<rparr>"

definition demo_journal :: "nat \<Rightarrow> Journal" where
  "demo_journal n = \<lparr>jn_manifest = VObject [], jn_head = demo_head n, jn_tail_bytes = 0, jn_write_failed = False\<rparr>"

lemma demo_serde_ok: "serde_ok demo_serde"
  by (auto simp: serde_ok_def demo_serde_def demo_head_def newline_def split: if_splits)

lemma demo_kind: "valid_kind ''a.b''"
  by (simp add: valid_kind_def is_ascii_lowercase_def)

lemma demo_create: "journal_create demo_serde None (VObject []) None = (Inr (demo_journal 0), Some (demo_dir 0))"
  by (simp add: journal_create_def bounded_input_def MAX_INPUT_DEPTH_def record_bytes_def demo_serde_def
    MAX_RECORD_BYTES_def digest_def publish_head_def demo_head_def demo_journal_def demo_dir_def)

lemma demo_append: "journal_append demo_serde None ''t'' ''a.b'' 0 (VObject []) (demo_journal 0) (demo_dir 0) =
    (Inr demo_entry, demo_journal 1, demo_dir 1)"
proof -
  have "prepare_append demo_serde ''t'' ''a.b'' 0 (VObject []) (demo_journal 0) =
      Inr (demo_entry, ''e'' @ [newline], demo_head 1)"
    by (simp add: prepare_append_def bounded_input_def MAX_INPUT_DEPTH_def demo_journal_def demo_kind
      demo_head_def next_entry_def demo_entry_def demo_serde_def record_bytes_def digest_def MAX_RECORD_BYTES_def)
  then show ?thesis
    by (simp add: journal_append_def publish_head_def log_append_def demo_dir_def demo_serde_def record_bytes_def
      MAX_RECORD_BYTES_def demo_head_def demo_journal_def)
qed

lemma demo_torn: "journal_append demo_serde (Some (LogTorn 1)) ''t'' ''a.b'' 0 (VObject []) (demo_journal 1) (demo_dir 1) =
    (Inl JIo, (demo_journal 1)\<lparr>jn_write_failed := True\<rparr>, demo_dir 2)"
proof -
  have ne: "demo_second \<noteq> demo_entry" by (simp add: demo_second_def demo_entry_def)
  have "next_entry ''t'' ''a.b'' 0 (VObject []) (demo_journal 1) = demo_second"
    by (simp add: next_entry_def demo_second_def demo_journal_def demo_head_def)
  then have "prepare_append demo_serde ''t'' ''a.b'' 0 (VObject []) (demo_journal 1) =
      Inr (demo_second, ''ff'' @ [newline], \<lparr>jh_manifest_sha256 = ''{}'', jh_sequence = 2,
        jh_journal_root = ''ff'', jh_journal_bytes = 5\<rparr>)"
    using ne by (simp add: prepare_append_def bounded_input_def MAX_INPUT_DEPTH_def demo_kind
      demo_serde_def record_bytes_def digest_def MAX_RECORD_BYTES_def)
      (simp add: demo_journal_def demo_head_def demo_second_def)
  then show ?thesis by (simp add: journal_append_def log_append_def demo_dir_def)
qed

lemma demo_run: "journal_run demo_serde (demo_dir 2) (Some ((demo_journal 1)\<lparr>jn_write_failed := True\<rparr>)) [demo_entry]"
  using journal_run.failed [OF journal_run.appended [OF journal_run.created [OF demo_create] demo_append] demo_torn]
  by simp

theorem acknowledged_entries_survive_witness:
  "\<exists>j es. journal_open demo_serde ((demo_dir 2)\<lparr>rd_locked := False\<rparr>) = Inr j \<and>
    journal_replay demo_serde j (demo_dir 2) = Inr es \<and> subseq [demo_entry] es"
  using acknowledged_entries_survive [OF demo_serde_ok demo_run] by blast

theorem head_binds_history_witness:
  "scan demo_serde (demo_head 1) (rd_journal (demo_dir 1)) = Inr [demo_entry] \<and>
   scan demo_serde (demo_head 1) (rd_journal (demo_dir 2)) = Inr [demo_entry] \<and>
   (sha_collision demo_serde \<or> take 2 (the (rd_journal (demo_dir 1))) = take 2 (the (rd_journal (demo_dir 2))))"
proof -
  have scanned: "scan demo_serde (demo_head 1) (rd_journal (demo_dir n)) = Inr [demo_entry]" if "n > 0" for n
  proof (rule committed_scan [OF demo_serde_ok])
    show "committed demo_serde (demo_dir n) (VObject []) (demo_head 1) [demo_entry] (if n = 1 then [] else ''f'')"
      using that demo_kind by (auto simp: committed_def demo_dir_def demo_serde_def demo_head_def record_bytes_def
        MAX_RECORD_BYTES_def digest_def demo_entry_def entry_bytes_def readable_def parse_record_def)
  qed
  show ?thesis
    using head_binds_history [OF scanned [of 1] scanned [of 2]] scanned [of 1] scanned [of 2]
    by (auto simp: demo_head_def)
qed

end
