(* ===== verification/Evidence_Receipt.thy ===== *)
theory Evidence_Receipt
  imports Rauha_Prelude
begin

text \<open>
  Execution receipts: the signed payload (\<open>rauha-evidence/src/receipt.rs\<close>) and its DSSE envelope
  (\<open>dsse.rs\<close>). Bytes are characters. Ed25519, SHA-256, hex, base64 and the JSON library are the
  record \<open>tools\<close>; a key file is its bytes and its mode.
\<close>

record ImageAdmission =
  ia_reference :: string
  ia_manifest_digest :: string
  ia_digest_verified :: bool

record EnforcementTotals =
  et_allow :: nat
  et_deny :: nat
  et_error :: nat
  et_dropped :: nat

record ExecutionReceiptPayload =
  rp_schema :: string
  rp_task_id :: string
  rp_zone_id :: string
  rp_image :: ImageAdmission
  rp_policy_sha256 :: string
  rp_inputs_sha256 :: string
  rp_outputs_sha256 :: string
  rp_status :: string
  rp_exit_code :: "int option"
  rp_started_at :: "string option"
  rp_finished_at :: "string option"
  rp_enforcement :: EnforcementTotals
  rp_unavailable_controls :: "string list"
  rp_capture_issues :: "string list"

record SignedExecutionReceipt =
  sr_payload :: ExecutionReceiptPayload
  sr_public_key :: string
  sr_signature :: string

record StatementSubject =
  ss_name :: string
  ss_digest :: "(string \<times> string) list"

record InTotoStatement =
  st_type :: string
  st_subject :: "StatementSubject list"
  st_predicate_type :: string
  st_predicate :: ExecutionReceiptPayload

record DsseSignature =
  ds_keyid :: string
  ds_sig :: string

record DsseEnvelope =
  de_payload_type :: string
  de_payload :: string
  de_signatures :: "DsseSignature list"

record tools =
  tl_payload_json :: "ExecutionReceiptPayload \<Rightarrow> string"
  tl_statement_json :: "InTotoStatement \<Rightarrow> string"
  tl_statement_from :: "string \<Rightarrow> string + InTotoStatement"
  tl_hex :: "string \<Rightarrow> string"
  tl_unhex :: "string \<Rightarrow> string option"
  tl_b64 :: "string \<Rightarrow> string"
  tl_unb64 :: "string \<Rightarrow> string + string"
  tl_sha256 :: "string \<Rightarrow> string"
  tl_public :: "string \<Rightarrow> string"
  tl_sign :: "string \<Rightarrow> string \<Rightarrow> string"
  tl_key_ok :: "string \<Rightarrow> bool"
  tl_verify :: "string \<Rightarrow> string \<Rightarrow> string \<Rightarrow> bool"
  tl_verify_strict :: "string \<Rightarrow> string \<Rightarrow> string \<Rightarrow> bool"

definition EXECUTION_RECEIPT_SCHEMA :: string where
  "EXECUTION_RECEIPT_SCHEMA = ''rauha.execution-receipt.v1''"
definition DSSE_PAYLOAD_TYPE :: string where "DSSE_PAYLOAD_TYPE = ''application/vnd.in-toto+json''"
definition STATEMENT_TYPE :: string where "STATEMENT_TYPE = ''https://in-toto.io/Statement/v1''"
definition PREDICATE_TYPE :: string where "PREDICATE_TYPE = ''https://rauha.dev/execution/v0''"

subsection \<open>The signing key\<close>

type_synonym key_file = "string \<times> nat"

datatype read_failure = NotFound | ReadFailed string

definition read_key :: "key_file option \<Rightarrow> read_failure + string" where
  "read_key f =
    (case f of
       None \<Rightarrow> Inl NotFound
     | Some (bytes, mode) \<Rightarrow>
         if mode mod 64 \<noteq> 0 then
           Inl (ReadFailed ''receipt signing key must not be accessible by group or others'')
         else if length bytes < 32 then Inl (ReadFailed ''failed to fill whole buffer'')
         else if length bytes > 32 then Inl (ReadFailed ''receipt signing key must be exactly 32 bytes'')
         else Inr bytes)"

fun show_failure :: "read_failure \<Rightarrow> string" where
  "show_failure NotFound = ''No such file or directory (os error 2)''"
| "show_failure (ReadFailed e) = e"

text \<open>
  What the file system does while the key is created: each step's error, and the key file another
  process created since the first read.
\<close>

record key_steps =
  ke_mkdir :: "string option"
  ke_random :: "string + string"
  ke_race :: "key_file option"
  ke_create :: "string option"
  ke_write :: "string option"

definition load_or_create :: "key_steps \<Rightarrow> key_file option \<Rightarrow> (string + string) \<times> key_file option" where
  "load_or_create k f =
    (case read_key f of
       Inr key \<Rightarrow> (Inr key, f)
     | Inl (ReadFailed e) \<Rightarrow> (Inl (''failed to read receipt signing key: '' @ e), f)
     | Inl NotFound \<Rightarrow>
         (case ke_mkdir k of
            Some e \<Rightarrow> (Inl (''failed to create receipt key directory: '' @ e), f)
          | None \<Rightarrow>
             (case ke_random k of
                Inl e \<Rightarrow> (Inl (''failed to generate receipt signing key: '' @ e), f)
              | Inr key \<Rightarrow>
                 (case ke_race k of
                    Some g \<Rightarrow>
                      (map_err (\<lambda>e. ''failed to read concurrent receipt key: '' @ show_failure e) (read_key (Some g)), Some g)
                  | None \<Rightarrow>
                     (case ke_create k of
                        Some e \<Rightarrow> (Inl (''failed to create receipt signing key: '' @ e), f)
                      | None \<Rightarrow>
                         (case ke_write k of
                            Some e \<Rightarrow> (Inl (''failed to persist receipt signing key: '' @ e), Some ([], 384))
                          | None \<Rightarrow> (Inr key, Some (key, 384))))))))"

definition publish_public_key ::
  "tools \<Rightarrow> string option \<Rightarrow> string \<Rightarrow> string option \<Rightarrow> (string + unit) \<times> string option" where
  "publish_public_key tk fault key f =
    (let expected = tl_hex tk (tl_public tk key) @ [newline] in
     case f of
       None \<Rightarrow>
         (case fault of
            Some e \<Rightarrow> (Inl (''failed to publish receipt public key: '' @ e), Some [])
          | None \<Rightarrow> (Inr (), Some expected))
     | Some actual \<Rightarrow>
         if trim actual = trim expected then (Inr (), f)
         else (Inl ''receipt public key does not match the signing key'', f))"

subsection \<open>Signed receipts\<close>

definition sign_receipt :: "tools \<Rightarrow> string \<Rightarrow> ExecutionReceiptPayload \<Rightarrow> SignedExecutionReceipt" where
  "sign_receipt tk key payload =
    \<lparr>sr_payload = payload, sr_public_key = tl_hex tk (tl_public tk key),
     sr_signature = tl_hex tk (tl_sign tk key (tl_payload_json tk payload))\<rparr>"

definition verify_receipt :: "tools \<Rightarrow> SignedExecutionReceipt \<Rightarrow> string + unit" where
  "verify_receipt tk r =
    (if rp_schema (sr_payload r) \<noteq> EXECUTION_RECEIPT_SCHEMA then
       Inl (''unsupported receipt schema: '' @ rp_schema (sr_payload r))
     else
       and_then (ok_or ''receipt public key is not hexadecimal'' (tl_unhex tk (sr_public_key r))) (\<lambda>pk.
       if length pk \<noteq> 32 then Inl ''receipt public key must be 32 bytes''
       else
         and_then (ok_or ''receipt signature is not hexadecimal'' (tl_unhex tk (sr_signature r))) (\<lambda>sig.
         if length sig \<noteq> 64 then Inl ''receipt signature must be 64 bytes''
         else if \<not> tl_key_ok tk pk then Inl ''receipt public key is invalid''
         else if \<not> tl_verify_strict tk pk (tl_payload_json tk (sr_payload r)) sig then
           Inl ''receipt signature verification failed''
         else Inr ())))"

definition verify_trusted :: "tools \<Rightarrow> string \<Rightarrow> SignedExecutionReceipt \<Rightarrow> string + unit" where
  "verify_trusted tk trusted_public_key r =
    (if sr_public_key r \<noteq> trim trusted_public_key then
       Inl ''receipt signer does not match the trusted public key''
     else verify_receipt tk r)"

definition enforcement_totals :: "string list \<Rightarrow> nat \<Rightarrow> EnforcementTotals" where
  "enforcement_totals decisions dropped =
    \<lparr>et_allow = count_list decisions ''allow'', et_deny = count_list decisions ''deny'',
     et_error = count_list decisions ''error'', et_dropped = dropped\<rparr>"

subsection \<open>The DSSE envelope\<close>

definition statement_from_payload :: "ExecutionReceiptPayload \<Rightarrow> InTotoStatement" where
  "statement_from_payload payload =
    (let digest = ia_manifest_digest (rp_image payload);
         digest_hex = (case strip_prefix digest ''sha256:'' of Some h \<Rightarrow> h | None \<Rightarrow> digest)
     in \<lparr>st_type = STATEMENT_TYPE,
         st_subject = [\<lparr>ss_name = ia_reference (rp_image payload), ss_digest = [(''sha256'', digest_hex)]\<rparr>],
         st_predicate_type = PREDICATE_TYPE, st_predicate = payload\<rparr>)"

definition pae :: "string \<Rightarrow> string \<Rightarrow> string" where
  "pae payload_type payload =
    ''DSSEv1 '' @ dec (length payload_type) @ '' '' @ payload_type @ '' '' @ dec (length payload) @ '' '' @ payload"

definition keyid :: "tools \<Rightarrow> string \<Rightarrow> string" where
  "keyid tk pk = ''sha256:'' @ tl_hex tk (tl_sha256 tk pk)"

definition sign_dsse :: "tools \<Rightarrow> string \<Rightarrow> ExecutionReceiptPayload \<Rightarrow> DsseEnvelope" where
  "sign_dsse tk key payload =
    (let raw = tl_statement_json tk (statement_from_payload payload) in
     \<lparr>de_payload_type = DSSE_PAYLOAD_TYPE, de_payload = tl_b64 tk raw,
      de_signatures = [\<lparr>ds_keyid = keyid tk (tl_public tk key),
        ds_sig = tl_b64 tk (tl_sign tk key (pae DSSE_PAYLOAD_TYPE raw))\<rparr>]\<rparr>)"

definition verify_dsse :: "tools \<Rightarrow> string \<Rightarrow> DsseEnvelope \<Rightarrow> string + InTotoStatement" where
  "verify_dsse tk pk env =
    (if de_payload_type env \<noteq> DSSE_PAYLOAD_TYPE then
       Inl (''unexpected DSSE payload type: '' @ de_payload_type env @ '' (expected '' @ DSSE_PAYLOAD_TYPE @ '')'')
     else
       and_then (map_err (\<lambda>e. ''DSSE payload is not valid base64: '' @ e) (tl_unb64 tk (de_payload env))) (\<lambda>raw.
       case de_signatures env of
         [] \<Rightarrow> Inl ''DSSE envelope has no signatures''
       | signature # _ \<Rightarrow>
         and_then (map_err (\<lambda>e. ''DSSE signature is not valid base64: '' @ e) (tl_unb64 tk (ds_sig signature))) (\<lambda>sig.
         if length sig \<noteq> 64 then Inl ''DSSE signature must be 64 bytes''
         else if \<not> tl_verify tk pk (pae (de_payload_type env) raw) sig then Inl ''DSSE signature verification failed''
         else
           and_then (map_err (\<lambda>e. ''DSSE payload is not a valid in-toto statement: '' @ e) (tl_statement_from tk raw)) (\<lambda>st.
           if st_type st \<noteq> STATEMENT_TYPE then
             Inl (''unexpected statement type: '' @ st_type st @ '' (expected '' @ STATEMENT_TYPE @ '')'')
           else if st_predicate_type st \<noteq> PREDICATE_TYPE then
             Inl (''unexpected predicate type: '' @ st_predicate_type st @ '' (expected '' @ PREDICATE_TYPE @ '')'')
           else if rp_schema (st_predicate st) \<noteq> EXECUTION_RECEIPT_SCHEMA then
             Inl (''unexpected predicate schema: '' @ rp_schema (st_predicate st))
           else Inr st))))"

definition verify_public_hex :: "tools \<Rightarrow> string \<Rightarrow> DsseEnvelope \<Rightarrow> string + InTotoStatement" where
  "verify_public_hex tk public_key_hex env =
    and_then (ok_or ''receipt public key is not hexadecimal'' (tl_unhex tk (trim public_key_hex))) (\<lambda>key.
    if length key \<noteq> 32 then Inl ''receipt public key must be 32 bytes''
    else if \<not> tl_key_ok tk key then Inl ''receipt public key is invalid''
    else verify_dsse tk key env)"

function chunks :: "nat \<Rightarrow> 'a list \<Rightarrow> 'a list list" where
  "chunks n xs = (if xs = [] \<or> n = 0 then [] else take n xs # chunks n (drop n xs))"
  by pat_completeness auto
termination
  by (relation "measure (\<lambda>(n, xs). length xs)") auto

declare chunks.simps [simp del]

definition verifying_key_spki_pem :: "tools \<Rightarrow> string \<Rightarrow> string" where
  "verifying_key_spki_pem tk pk =
    (let spki = [CHR 0x30, CHR 0x2A, CHR 0x30, CHR 0x05, CHR 0x06, CHR 0x03, CHR 0x2B, CHR 0x65, CHR 0x70,
                 CHR 0x03, CHR 0x21, CHR 0x00] @ pk
     in ''-----BEGIN PUBLIC KEY-----'' @ [newline] @
        concat (map (\<lambda>chunk. chunk @ [newline]) (chunks 64 (tl_b64 tk spki))) @
        ''-----END PUBLIC KEY-----'' @ [newline])"

subsection \<open>What the encoding binds\<close>

lemma split_at_space:
  assumes "x @ '' '' @ y = x' @ '' '' @ y'" "CHR '' '' \<notin> set x" "CHR '' '' \<notin> set x'"
  shows "x = x' \<and> y = y'"
  using assms
proof (induction x arbitrary: x')
  case Nil
  then show ?case by (cases x') auto
next
  case (Cons c x)
  then show ?case by (cases x') auto
qed

lemma dec_space_free: "CHR '' '' \<notin> set (dec n)"
  using dec_digits [of n] by (auto simp: list_all_iff is_ascii_digit_def)

lemma pae_injective: "pae t p = pae t' p' \<Longrightarrow> t = t' \<and> p = p'"
proof -
  assume "pae t p = pae t' p'"
  then have "dec (length t) @ '' '' @ t @ '' '' @ dec (length p) @ '' '' @ p =
      dec (length t') @ '' '' @ t' @ '' '' @ dec (length p') @ '' '' @ p'" by (simp add: pae_def)
  from split_at_space [OF this dec_space_free dec_space_free] have
    "length t = length t'" "t @ '' '' @ dec (length p) @ '' '' @ p = t' @ '' '' @ dec (length p') @ '' '' @ p'"
    using dec_inj by blast+
  then have t: "t = t'" and "dec (length p) @ '' '' @ p = dec (length p') @ '' '' @ p'" by auto
  from split_at_space [OF this(2) dec_space_free dec_space_free] t show ?thesis by simp
qed

lemma trim_line:
  assumes "list_all (\<lambda>c. \<not> is_whitespace c) s"
  shows "trim (s @ [newline]) = s"
proof (cases s rule: rev_cases)
  case Nil
  then show ?thesis by (simp add: trim_def is_whitespace_def newline_def)
next
  case (snoc xs c)
  then have "dropWhile is_whitespace (s @ [newline]) = s @ [newline]"
    using assms by (cases xs) auto
  then show ?thesis using assms snoc by (simp add: trim_def is_whitespace_def newline_def)
qed

text \<open>
  The messages a key signs: the payloads of the receipts it issues, bare and enveloped.
\<close>

definition signed_messages :: "tools \<Rightarrow> ExecutionReceiptPayload set \<Rightarrow> string set" where
  "signed_messages tk issued =
    tl_payload_json tk ` issued \<union>
    (\<lambda>p. pae DSSE_PAYLOAD_TYPE (tl_statement_json tk (statement_from_payload p))) ` issued"

text \<open>
  Documented behaviour of the tools: decoders invert encoders, hexadecimal text has no white space,
  keys and signatures have their lengths, what a key signed verifies, statements are read back as
  written, and a JSON object starts with a brace.
\<close>

definition tools_ok :: "tools \<Rightarrow> string \<Rightarrow> ExecutionReceiptPayload set \<Rightarrow> bool" where
  "tools_ok tk key issued =
    ((\<forall>x. tl_unb64 tk (tl_b64 tk x) = Inr x) \<and>
     (\<forall>x. tl_unhex tk (tl_hex tk x) = Some x \<and> list_all (\<lambda>c. \<not> is_whitespace c) (tl_hex tk x)) \<and>
     length (tl_public tk key) = 32 \<and> tl_key_ok tk (tl_public tk key) \<and>
     (\<forall>m \<in> signed_messages tk issued. length (tl_sign tk key m) = 64 \<and>
        tl_verify tk (tl_public tk key) m (tl_sign tk key m) \<and>
        tl_verify_strict tk (tl_public tk key) m (tl_sign tk key m)) \<and>
     (\<forall>p \<in> issued. tl_statement_from tk (tl_statement_json tk (statement_from_payload p)) = Inr (statement_from_payload p)) \<and>
     (\<forall>p. \<exists>rest. tl_payload_json tk p = CHR ''{'' # rest))"

text \<open>A key is unforgeable when signatures verify only for messages it signed.\<close>

definition unforgeable :: "tools \<Rightarrow> string \<Rightarrow> ExecutionReceiptPayload set \<Rightarrow> bool" where
  "unforgeable tk key issued =
    (\<forall>m s. tl_verify tk (tl_public tk key) m s \<or> tl_verify_strict tk (tl_public tk key) m s \<longrightarrow>
      m \<in> signed_messages tk issued)"

text \<open>C34: a receipt issued by the daemon, in either format, verifies against the public key file the
  daemon published, and the envelope decodes to the statement about the very payload that was
  signed.\<close>

theorem signed_receipts_verify:
  assumes "tools_ok tk key issued" "payload \<in> issued" "rp_schema payload = EXECUTION_RECEIPT_SCHEMA"
    and "publish_public_key tk fault key None = (Inr (), Some published)"
  shows "verify_trusted tk published (sign_receipt tk key payload) = Inr () \<and>
    verify_public_hex tk published (sign_dsse tk key payload) = Inr (statement_from_payload payload)"
proof -
  have "published = tl_hex tk (tl_public tk key) @ [newline]"
    using assms(4) by (auto simp: publish_public_key_def Let_def split: option.splits)
  then have "trim published = tl_hex tk (tl_public tk key)" using assms(1) trim_line by (simp add: tools_ok_def)
  moreover have "tl_payload_json tk payload \<in> signed_messages tk issued"
      "pae DSSE_PAYLOAD_TYPE (tl_statement_json tk (statement_from_payload payload)) \<in> signed_messages tk issued"
    using assms(2) by (auto simp: signed_messages_def)
  moreover have "st_type (statement_from_payload payload) = STATEMENT_TYPE"
      "st_predicate_type (statement_from_payload payload) = PREDICATE_TYPE"
      "st_predicate (statement_from_payload payload) = payload"
    by (simp_all add: statement_from_payload_def Let_def)
  ultimately show ?thesis
    using assms(1-3)
    by (simp add: tools_ok_def verify_trusted_def sign_receipt_def verify_receipt_def verify_public_hex_def
      verify_dsse_def sign_dsse_def Let_def)
qed

lemma formats_disjoint:
  assumes "tools_ok tk key issued"
  shows "pae t raw \<noteq> tl_payload_json tk p"
proof
  obtain rest where "tl_payload_json tk p = CHR ''{'' # rest" using assms unfolding tools_ok_def by blast
  moreover assume "pae t raw = tl_payload_json tk p"
  ultimately show False by (simp add: pae_def)
qed

text \<open>C14: with an unforgeable key, whatever verifies was issued. A receipt accepted against the trusted
  key has a payload with the same serialisation as one the daemon signed, and an accepted envelope
  decodes to the statement of such a payload. The two formats share the key, and neither can be
  passed off as the other.\<close>

theorem verified_receipts_were_issued:
  assumes "tools_ok tk key issued" "unforgeable tk key issued"
  shows "(verify_trusted tk (tl_hex tk (tl_public tk key)) r = Inr () \<longrightarrow>
      tl_payload_json tk (sr_payload r) \<in> tl_payload_json tk ` issued) \<and>
    (verify_dsse tk (tl_public tk key) env = Inr st \<longrightarrow> st \<in> statement_from_payload ` issued)"
proof (intro conjI impI)
  have hex: "trim (tl_hex tk x) = tl_hex tk x" "tl_unhex tk (tl_hex tk x) = Some x" for x
    using assms(1) trim_no_space by (simp_all add: tools_ok_def)
  assume "verify_trusted tk (tl_hex tk (tl_public tk key)) r = Inr ()"
  then have "\<exists>s. tl_verify_strict tk (tl_public tk key) (tl_payload_json tk (sr_payload r)) s"
    by (auto simp: verify_trusted_def verify_receipt_def result_simps hex split: if_splits)
  then have "tl_payload_json tk (sr_payload r) \<in> signed_messages tk issued"
    using assms(2) by (auto simp: unforgeable_def)
  then show "tl_payload_json tk (sr_payload r) \<in> tl_payload_json tk ` issued"
    unfolding signed_messages_def using formats_disjoint [OF assms(1), symmetric] by blast
next
  assume "verify_dsse tk (tl_public tk key) env = Inr st"
  then obtain raw s where raw: "tl_verify tk (tl_public tk key) (pae DSSE_PAYLOAD_TYPE raw) s" "tl_statement_from tk raw = Inr st"
    by (cases "de_signatures env") (auto simp: verify_dsse_def result_simps split: if_splits)
  from raw(1) assms(2) have "pae DSSE_PAYLOAD_TYPE raw \<in> signed_messages tk issued"
    by (auto simp: unforgeable_def)
  then obtain p where p: "p \<in> issued"
      "pae DSSE_PAYLOAD_TYPE raw = pae DSSE_PAYLOAD_TYPE (tl_statement_json tk (statement_from_payload p))"
    unfolding signed_messages_def using formats_disjoint [OF assms(1)] by blast
  have "tl_statement_from tk (tl_statement_json tk (statement_from_payload p)) = Inr (statement_from_payload p)"
    using assms(1) p(1) unfolding tools_ok_def by blast
  with pae_injective [OF p(2)] raw(2) p(1) show "st \<in> statement_from_payload ` issued" by auto
qed

text \<open>A key that has issued one receipt.\<close>

definition demo_payload :: ExecutionReceiptPayload where
  "demo_payload = \<lparr>rp_schema = EXECUTION_RECEIPT_SCHEMA, rp_task_id = ''t'', rp_zone_id = ''z'',
     rp_image = \<lparr>ia_reference = ''a'', ia_manifest_digest = ''sha256:d'', ia_digest_verified = False\<rparr>,
     rp_policy_sha256 = [], rp_inputs_sha256 = [], rp_outputs_sha256 = [], rp_status = ''succeeded'',
     rp_exit_code = Some 0, rp_started_at = None, rp_finished_at = None,
     rp_enforcement = enforcement_totals [] 0, rp_unavailable_controls = [], rp_capture_issues = []\<rparr>"

fun bits_hex :: "string \<Rightarrow> string" where
  "bits_hex [] = []"
| "bits_hex (Char a b c d e f g h # s) =
     map (\<lambda>x. if x then CHR ''1'' else CHR ''0'') [a, b, c, d, e, f, g, h] @ bits_hex s"

fun bits_unhex :: "string \<Rightarrow> string option" where
  "bits_unhex (a # b # c # d # e # f # g # h # s) =
     map_option ((#) (Char (a = CHR ''1'') (b = CHR ''1'') (c = CHR ''1'') (d = CHR ''1'')
       (e = CHR ''1'') (f = CHR ''1'') (g = CHR ''1'') (h = CHR ''1''))) (bits_unhex s)"
| "bits_unhex s = Some []"

lemma bits_unhex_hex: "bits_unhex (bits_hex s) = Some s"
  by (induction s rule: bits_hex.induct) auto

lemma bits_hex_text: "list_all (\<lambda>c. \<not> is_whitespace c) (bits_hex s)"
  by (induction s rule: bits_hex.induct) (auto simp: is_whitespace_def)

definition demo_tools :: tools where
  "demo_tools =
    (let accept = (\<lambda>pk m s. m \<in> {''{}'', pae DSSE_PAYLOAD_TYPE ''s''} \<and> s = replicate 64 CHR ''g'') in
     \<lparr>tl_payload_json = (\<lambda>p. if p = demo_payload then ''{}'' else ''{_}''), tl_statement_json = (\<lambda>s. ''s''),
      tl_statement_from = (\<lambda>_. Inr (statement_from_payload demo_payload)), tl_hex = bits_hex, tl_unhex = bits_unhex,
      tl_b64 = (\<lambda>x. x), tl_unb64 = Inr, tl_sha256 = (\<lambda>x. x), tl_public = (\<lambda>k. replicate 32 CHR ''k''),
      tl_sign = (\<lambda>k m. replicate 64 CHR ''g''), tl_key_ok = (\<lambda>_. True), tl_verify = accept, tl_verify_strict = accept\<rparr>)"

lemma demo_tools_ok: "tools_ok demo_tools key {demo_payload}" "unforgeable demo_tools key {demo_payload}"
  by (auto simp: tools_ok_def unforgeable_def demo_tools_def bits_unhex_hex bits_hex_text signed_messages_def Let_def)

theorem signed_receipts_verify_witness:
  "verify_trusted demo_tools (bits_hex (replicate 32 CHR ''k'') @ [newline]) (sign_receipt demo_tools [] demo_payload) = Inr () \<and>
   verify_public_hex demo_tools (bits_hex (replicate 32 CHR ''k'') @ [newline]) (sign_dsse demo_tools [] demo_payload) =
     Inr (statement_from_payload demo_payload)"
proof (rule signed_receipts_verify [OF demo_tools_ok(1)])
  show "publish_public_key demo_tools None [] None = (Inr (), Some (bits_hex (replicate 32 CHR ''k'') @ [newline]))"
    by (simp add: publish_public_key_def demo_tools_def Let_def)
qed (simp_all add: demo_payload_def)

theorem verified_receipts_were_issued_witness:
  "verify_dsse demo_tools (tl_public demo_tools []) (sign_dsse demo_tools [] demo_payload) = Inr (statement_from_payload demo_payload) \<and>
   statement_from_payload demo_payload \<in> statement_from_payload ` {demo_payload}"
proof -
  have "verify_dsse demo_tools (tl_public demo_tools []) (sign_dsse demo_tools [] demo_payload) = Inr (statement_from_payload demo_payload)"
    by (simp add: verify_dsse_def sign_dsse_def demo_tools_def statement_from_payload_def demo_payload_def Let_def)
  then show ?thesis using verified_receipts_were_issued [OF demo_tools_ok] by blast
qed

end
