(* ===== verification/Rauha_Tables.thy ===== *)
theory Rauha_Tables
  imports Rauha_Prelude "HOL-Library.List_Lexorder" "HOL-Library.Char_ord"
begin

text \<open>
  Key-value tables as lists in key order: the tables of the embedded database and the directories of
  the content store. The facts on lookups after updates are collected in \<open>table_simps\<close>.
\<close>

fun table_insert :: "'k::linorder \<Rightarrow> 'v \<Rightarrow> ('k \<times> 'v) list \<Rightarrow> ('k \<times> 'v) list" where
  "table_insert k v [] = [(k, v)]"
| "table_insert k v ((k', v') # t) =
     (if k < k' then (k, v) # (k', v') # t
      else if k = k' then (k, v) # t
      else (k', v') # table_insert k v t)"

definition table_remove :: "'k \<Rightarrow> ('k \<times> 'v) list \<Rightarrow> ('k \<times> 'v) list" where
  "table_remove k t = filter (\<lambda>e. fst e \<noteq> k) t"

definition table_ok :: "('k::linorder \<times> 'v) list \<Rightarrow> bool" where
  "table_ok t = (sorted (map fst t) \<and> distinct (map fst t))"

named_theorems table_simps "lookups after updates of a table"

lemma map_of_table_insert [table_simps]: "map_of (table_insert k v t) = (map_of t)(k \<mapsto> v)"
  by (induction t) (auto simp: fun_eq_iff)

lemma map_of_table_remove [table_simps]: "map_of (table_remove k t) = (map_of t)(k := None)"
  by (induction t) (auto simp: table_remove_def fun_eq_iff)

lemma table_insert_keys: "fst ` set (table_insert k v t) = insert k (fst ` set t)"
  by (induction k v t rule: table_insert.induct) (simp_all add: insert_commute)

lemma table_ok_insert: "table_ok t \<Longrightarrow> table_ok (table_insert k v t)"
proof (induction t)
  case (Cons e t)
  then show ?case using table_insert_keys [of k v t] by (cases e) (force simp: table_ok_def)
qed (simp add: table_ok_def)

lemma table_ok_remove: "table_ok t \<Longrightarrow> table_ok (table_remove k t)"
  by (auto simp: table_ok_def table_remove_def sorted_filter distinct_map inj_on_def)

lemma table_ok_map_of: "table_ok t \<Longrightarrow> (k, v) \<in> set t \<longleftrightarrow> map_of t k = Some v"
  by (auto simp: table_ok_def dest: map_of_SomeD)

end
