(* ===== verification/Metadata_Store.thy ===== *)
theory Metadata_Store
  imports Zone_Policy Evidence_Receipt Rauha_Tables
begin

text \<open>
  The daemon's metadata store (\<open>rauhad/src/metadata\<close>): zones and containers (\<open>db.rs\<close>), task results
  with their capacity reservations (\<open>results.rs\<close>) and recovery contexts (\<open>recovery.rs\<close>). The embedded
  database is a list of key-value pairs per table, in key order; an operation is one transaction,
  and a database error is a fault argument. A stored zone, container or recovery context that its
  decoder rejects is \<open>None\<close>. Containers are those of \<open>rauha-common/src/container.rs\<close>.
\<close>

datatype ContainerState = ContainerCreated | ContainerRunning | ContainerStopped | ContainerPaused

record Container =
  cn_id :: string
  cn_name :: string
  cn_zone_id :: string
  cn_image :: string
  cn_state :: ContainerState
  cn_pid :: "u32 option"
  cn_created_at :: nat
  cn_started_at :: "nat option"
  cn_finished_at :: "nat option"
  cn_exit_code :: "int option"

record ContainerHandle =
  ch_id :: string
  ch_zone_id :: string
  ch_pid :: u32
  ch_platform_id :: u64

record ContainerSpec =
  cs_name :: string
  cs_image :: string
  cs_command :: "string list"
  cs_env :: "(string \<times> string) list"
  cs_working_dir :: "string option"
  cs_rootfs_path :: "string option"
  cs_overlay_layers :: "string list option"

record RecoveryRecord =
  rr_zone_name :: string
  rr_container_id :: "string option"
  rr_cleanup_zone :: bool
  rr_command :: "string list"
  rr_admission :: PolicyAdmission
  rr_receipt :: ExecutionReceiptPayload

record MetadataStore =
  ms_zones :: "(string \<times> Zone option) list"
  ms_containers :: "(string \<times> Container option) list"
  ms_results :: "(string \<times> string) list"
  ms_recovery :: "(string \<times> RecoveryRecord option) list"

subsection \<open>Zones and containers\<close>

definition db_fault :: "string option \<Rightarrow> 'a rresult \<Rightarrow> 'a rresult" where
  "db_fault fault r = (case fault of Some e \<Rightarrow> Inl (MetadataError e) | None \<Rightarrow> r)"

definition put_zone :: "string option \<Rightarrow> Zone \<Rightarrow> MetadataStore \<Rightarrow> unit rresult \<times> MetadataStore" where
  "put_zone fault zone ms =
    (case fault of
       Some e \<Rightarrow> (Inl (MetadataError e), ms)
     | None \<Rightarrow> (Inr (), ms\<lparr>ms_zones := table_insert (zone_name zone) (Some zone) (ms_zones ms)\<rparr>))"

definition db_get_zone :: "string option \<Rightarrow> string \<Rightarrow> MetadataStore \<Rightarrow> Zone option rresult" where
  "db_get_zone fault name ms = db_fault fault (Inr (case map_of (ms_zones ms) name of Some v \<Rightarrow> v | None \<Rightarrow> None))"

definition db_delete_zone :: "string option \<Rightarrow> string \<Rightarrow> MetadataStore \<Rightarrow> unit rresult \<times> MetadataStore" where
  "db_delete_zone fault name ms =
    (case fault of
       Some e \<Rightarrow> (Inl (MetadataError e), ms)
     | None \<Rightarrow> (Inr (), ms\<lparr>ms_zones := table_remove name (ms_zones ms)\<rparr>))"

definition db_list_zones :: "string option \<Rightarrow> MetadataStore \<Rightarrow> Zone list rresult" where
  "db_list_zones fault ms = db_fault fault (Inr (List.map_filter snd (ms_zones ms)))"

definition put_container :: "string option \<Rightarrow> Container \<Rightarrow> MetadataStore \<Rightarrow> unit rresult \<times> MetadataStore" where
  "put_container fault c ms =
    (case fault of
       Some e \<Rightarrow> (Inl (MetadataError e), ms)
     | None \<Rightarrow> (Inr (), ms\<lparr>ms_containers := table_insert (cn_id c) (Some c) (ms_containers ms)\<rparr>))"

definition incompatible :: string where "incompatible = ''Hit the end of buffer, expected more data''"

definition db_get_container :: "string option \<Rightarrow> string \<Rightarrow> MetadataStore \<Rightarrow> Container option rresult" where
  "db_get_container fault cid ms =
    db_fault fault
      (case map_of (ms_containers ms) cid of
         None \<Rightarrow> Inr None
       | Some None \<Rightarrow> Inl (MetadataError incompatible)
       | Some (Some c) \<Rightarrow> Inr (Some c))"

definition db_delete_container :: "string option \<Rightarrow> string \<Rightarrow> MetadataStore \<Rightarrow> unit rresult \<times> MetadataStore" where
  "db_delete_container fault cid ms =
    (case fault of
       Some e \<Rightarrow> (Inl (MetadataError e), ms)
     | None \<Rightarrow> (Inr (), ms\<lparr>ms_containers := table_remove cid (ms_containers ms)\<rparr>))"

definition db_list_containers :: "string option \<Rightarrow> string option \<Rightarrow> MetadataStore \<Rightarrow> Container list rresult" where
  "db_list_containers fault zid ms =
    db_fault fault
      (and_then (collect_results (\<lambda>e. ok_or (MetadataError incompatible) (snd e)) (ms_containers ms)) (\<lambda>cs.
       Inr (case zid of None \<Rightarrow> cs | Some z \<Rightarrow> filter (\<lambda>c. cn_zone_id c = z) cs)))"

subsection \<open>Results and recovery contexts\<close>

definition usize_max :: nat where "usize_max = 2 ^ 64 - 1"

definition saturating_add :: "nat \<Rightarrow> nat \<Rightarrow> nat" where
  "saturating_add a b = min (a + b) usize_max"

definition result_charge :: "MetadataStore \<Rightarrow> string \<times> string \<Rightarrow> nat" where
  "result_charge ms e =
    (if snd e = [] \<or> map_of (ms_recovery ms) (fst e) \<noteq> None then MAX_RESULT_BYTES else length (snd e))"

definition used_bytes :: "MetadataStore \<Rightarrow> nat" where
  "used_bytes ms = fold (\<lambda>e used. saturating_add used (result_charge ms e)) (ms_results ms) 0"

definition reserve_result :: "string option \<Rightarrow> string \<Rightarrow> nat \<Rightarrow> MetadataStore \<Rightarrow> (string + bool) \<times> MetadataStore" where
  "reserve_result fault tid max_bytes ms =
    (case fault of
       Some e \<Rightarrow> (Inl e, ms)
     | None \<Rightarrow>
         if map_of (ms_results ms) tid \<noteq> None then (Inr False, ms)
         else if \<not> saturating_add (used_bytes ms) MAX_RESULT_BYTES \<le> max_bytes then
           (Inl ''result capacity exhausted; delete retained results before starting another task'', ms)
         else (Inr True, ms\<lparr>ms_results := table_insert tid [] (ms_results ms)\<rparr>))"

definition save_result :: "string option \<Rightarrow> string \<Rightarrow> string \<Rightarrow> MetadataStore \<Rightarrow> (string + unit) \<times> MetadataStore" where
  "save_result fault tid bytes ms =
    (if \<not> (bytes \<noteq> [] \<and> length bytes \<le> MAX_RESULT_BYTES) then (Inl ''result exceeds wire budget'', ms)
     else case fault of
       Some e \<Rightarrow> (Inl e, ms)
     | None \<Rightarrow>
         if map_of (ms_results ms) tid \<noteq> Some [] then (Inl ''result reservation missing or already completed'', ms)
         else (Inr (), ms\<lparr>ms_results := table_insert tid bytes (ms_results ms)\<rparr>))"

definition get_result :: "string \<Rightarrow> MetadataStore \<Rightarrow> string option" where
  "get_result tid ms = map_of (ms_results ms) tid"

definition delete_result :: "string option \<Rightarrow> string \<Rightarrow> MetadataStore \<Rightarrow> (string + bool) \<times> MetadataStore" where
  "delete_result fault tid ms =
    (case fault of
       Some e \<Rightarrow> (Inl e, ms)
     | None \<Rightarrow>
         if map_of (ms_recovery ms) tid \<noteq> None then (Inl ''task still requires recovery or cleanup'', ms)
         else (Inr (map_of (ms_results ms) tid \<noteq> None), ms\<lparr>ms_results := table_remove tid (ms_results ms)\<rparr>))"

text \<open>\<open>json_len\<close> is the length of the JSON text of a recovery context.\<close>

definition put_recovery ::
  "string option \<Rightarrow> nat \<Rightarrow> RecoveryRecord \<Rightarrow> MetadataStore \<Rightarrow> (string + unit) \<times> MetadataStore" where
  "put_recovery fault json_len rec ms =
    (if \<not> json_len \<le> MAX_RESULT_BYTES then (Inl ''recovery context exceeds metadata budget'', ms)
     else case fault of
       Some e \<Rightarrow> (Inl e, ms)
     | None \<Rightarrow>
         if map_of (ms_results ms) (rp_task_id (rr_receipt rec)) \<noteq> Some [] then
           (Inl ''recovery context requires an unfinished result reservation'', ms)
         else (Inr (), ms\<lparr>ms_recovery := table_insert (rp_task_id (rr_receipt rec)) (Some rec) (ms_recovery ms)\<rparr>))"

definition recovery_records :: "string option \<Rightarrow> MetadataStore \<Rightarrow> string + RecoveryRecord list" where
  "recovery_records fault ms =
    (case fault of
       Some e \<Rightarrow> Inl e
     | None \<Rightarrow>
         collect_results (\<lambda>(k, v).
           case v of
             None \<Rightarrow> Inl ''EOF while parsing a value''
           | Some r \<Rightarrow> if k = rp_task_id (rr_receipt r) then Inr r else Inl ''recovery task identity mismatch'')
           (ms_recovery ms))"

definition finish_recovery :: "string option \<Rightarrow> string \<Rightarrow> MetadataStore \<Rightarrow> (string + unit) \<times> MetadataStore" where
  "finish_recovery fault tid ms =
    (case fault of
       Some e \<Rightarrow> (Inl e, ms)
     | None \<Rightarrow>
         (case map_of (ms_results ms) tid of
            Some (b # bs) \<Rightarrow> (Inr (), ms\<lparr>ms_recovery := table_remove tid (ms_recovery ms)\<rparr>)
          | _ \<Rightarrow> (Inl ''cannot discard recovery context before result commit'', ms)))"

subsection \<open>What the result store guarantees\<close>

text \<open>The operations on results and recovery contexts, as one step relation.\<close>

inductive result_step :: "nat \<Rightarrow> MetadataStore \<Rightarrow> MetadataStore \<Rightarrow> bool" for max_bytes where
  reserve: "reserve_result fault tid max_bytes ms = (r, ms') \<Longrightarrow> result_step max_bytes ms ms'"
| save: "save_result fault tid bytes ms = (r, ms') \<Longrightarrow> result_step max_bytes ms ms'"
| delete: "delete_result fault tid ms = (r, ms') \<Longrightarrow> result_step max_bytes ms ms'"
| put_recovery: "put_recovery fault n rec ms = (r, ms') \<Longrightarrow> result_step max_bytes ms ms'"
| finish: "finish_recovery fault tid ms = (r, ms') \<Longrightarrow> result_step max_bytes ms ms'"

definition charges :: "MetadataStore \<Rightarrow> nat" where
  "charges ms = sum_list (map (result_charge ms) (ms_results ms))"

definition store_inv :: "nat \<Rightarrow> MetadataStore \<Rightarrow> bool" where
  "store_inv max_bytes ms =
    (table_ok (ms_results ms) \<and> charges ms \<le> max_bytes \<and>
     (\<forall>(k, v) \<in> set (ms_results ms). length v \<le> MAX_RESULT_BYTES) \<and>
     (\<forall>k. map_of (ms_recovery ms) k \<noteq> None \<longrightarrow> map_of (ms_results ms) k \<noteq> None))"

lemma used_bytes_eq: "used_bytes ms = min (charges ms) usize_max"
proof -
  have "fold (\<lambda>e used. saturating_add used (result_charge ms e)) es a =
      min (a + sum_list (map (result_charge ms) es)) usize_max" if "a \<le> usize_max" for es a
    using that by (induction es arbitrary: a) (auto simp: saturating_add_def min_def)
  from this [of 0 "ms_results ms"] show ?thesis by (simp add: used_bytes_def charges_def)
qed

text \<open>Charges as a sum over the keys of the table.\<close>

lemma charges_insert:
  assumes "table_ok t"
  shows "sum_list (map f (table_insert k v t)) + (case map_of t k of Some v' \<Rightarrow> f (k, v') | None \<Rightarrow> 0) =
    sum_list (map f t) + (f (k, v) :: nat)"
  using assms
proof (induction t)
  case (Cons e t)
  obtain k' v' where e: "e = (k', v')" by (cases e)
  have "map_of t k = None" if "k \<le> k'"
    using Cons.prems that by (force simp: table_ok_def e map_of_eq_None_iff)
  moreover have "table_ok t" using Cons.prems by (simp add: table_ok_def)
  ultimately show ?case using Cons.IH by (auto simp: e)
qed simp

lemma charges_remove: "sum_list (map f (table_remove k t)) \<le> sum_list (map (f :: _ \<Rightarrow> nat) t)"
  by (induction t) (auto simp: table_remove_def)

lemma charges_mono:
  "(\<And>e. e \<in> set (ms_results ms) \<Longrightarrow> result_charge ms' e \<le> result_charge ms e) \<Longrightarrow>
   ms_results ms' = ms_results ms \<Longrightarrow> charges ms' \<le> charges ms"
  unfolding charges_def by (auto intro: sum_list_mono)

lemma result_step_inv:
  assumes "result_step max_bytes ms ms'" "store_inv max_bytes ms" "max_bytes < usize_max"
  shows "store_inv max_bytes ms'"
  using assms(1)
proof cases
  case (reserve fault tid r)
  show ?thesis
  proof (cases "ms' = ms")
    case False
    then have new: "map_of (ms_results ms) tid = None" "saturating_add (used_bytes ms) MAX_RESULT_BYTES \<le> max_bytes"
        "ms' = ms\<lparr>ms_results := table_insert tid [] (ms_results ms)\<rparr>"
      using reserve by (auto simp: reserve_result_def split: option.splits if_splits)
    have "charges ms + MAX_RESULT_BYTES \<le> max_bytes"
      using new(2) assms(3) by (auto simp: used_bytes_eq saturating_add_def min_def split: if_splits)
    moreover have "charges ms' = charges ms + MAX_RESULT_BYTES"
      using charges_insert [of "ms_results ms" "result_charge ms" tid "[]"] assms(2) new(1)
      by (simp add: new(3) charges_def store_inv_def result_charge_def [abs_def])
    ultimately show ?thesis
      using assms(2) new
      by (auto simp: store_inv_def table_simps table_ok_insert table_ok_map_of split: if_splits)
  qed (simp add: assms(2))
next
  case (save fault tid bytes r)
  show ?thesis
  proof (cases "ms' = ms")
    case False
    then have new: "map_of (ms_results ms) tid = Some []" "bytes \<noteq> []" "length bytes \<le> MAX_RESULT_BYTES"
        "ms' = ms\<lparr>ms_results := table_insert tid bytes (ms_results ms)\<rparr>"
      using save by (auto simp: save_result_def split: option.splits if_splits)
    have "charges ms' + result_charge ms (tid, []) = charges ms + result_charge ms (tid, bytes)"
      using charges_insert [of "ms_results ms" "result_charge ms" tid bytes] assms(2) new(1)
      by (simp add: new(4) charges_def store_inv_def result_charge_def [abs_def])
    then have "charges ms' \<le> charges ms" using new(3) by (auto simp: result_charge_def split: if_splits)
    then show ?thesis
      using assms(2) new
      by (auto simp: store_inv_def table_simps table_ok_insert table_ok_map_of split: if_splits)
  qed (simp add: assms(2))
next
  case (delete fault tid r)
  show ?thesis
  proof (cases "ms' = ms")
    case False
    then have new: "map_of (ms_recovery ms) tid = None" "ms' = ms\<lparr>ms_results := table_remove tid (ms_results ms)\<rparr>"
      using delete by (auto simp: delete_result_def split: option.splits if_splits)
    have "charges ms' \<le> charges ms"
      using charges_remove [of "result_charge ms" tid "ms_results ms"]
      by (simp add: new(2) charges_def result_charge_def [abs_def])
    then show ?thesis
      using assms(2) new
      by (auto simp: store_inv_def table_simps table_ok_remove table_ok_map_of split: if_splits)
  qed (simp add: assms(2))
next
  case (put_recovery fault n rec r)
  show ?thesis
  proof (cases "ms' = ms")
    case False
    let ?k = "rp_task_id (rr_receipt rec)"
    have new: "map_of (ms_results ms) ?k = Some []" "ms' = ms\<lparr>ms_recovery := table_insert ?k (Some rec) (ms_recovery ms)\<rparr>"
      using put_recovery False by (auto simp: put_recovery_def split: option.splits if_splits)
    have "v = []" if "(?k, v) \<in> set (ms_results ms)" for v
      using that new(1) assms(2) by (simp add: store_inv_def table_ok_map_of)
    then have "charges ms' \<le> charges ms"
      by (intro charges_mono) (auto simp: new(2) result_charge_def table_simps)
    then show ?thesis using assms(2) new by (auto simp: store_inv_def table_simps split: if_splits)
  qed (simp add: assms(2))
next
  case (finish fault tid r)
  show ?thesis
  proof (cases "ms' = ms")
    case False
    then have new: "ms' = ms\<lparr>ms_recovery := table_remove tid (ms_recovery ms)\<rparr>"
      using finish by (auto simp: finish_recovery_def split: option.splits list.splits)
    have "charges ms' \<le> charges ms"
      using assms(2) by (intro charges_mono) (auto simp: new result_charge_def table_simps store_inv_def)
    then show ?thesis using assms(2) new by (auto simp: store_inv_def table_simps split: if_splits)
  qed (simp add: assms(2))
qed

text \<open>A stored result changes only by being deleted, and only once its recovery context is gone.\<close>

lemma result_step_final:
  assumes "result_step max_bytes ms ms'" "get_result tid ms = Some v" "v \<noteq> []"
  shows "get_result tid ms' = Some v \<or> (get_result tid ms' = None \<and> map_of (ms_recovery ms) tid = None)"
  using assms
  by cases (auto simp: get_result_def reserve_result_def save_result_def delete_result_def put_recovery_def
      finish_recovery_def table_simps split: option.splits if_splits list.splits)

lemma stored_le_charges:
  assumes "store_inv max_bytes ms"
  shows "sum_list (map (\<lambda>e. length (snd e)) (ms_results ms)) \<le> charges ms"
  unfolding charges_def
proof (rule sum_list_mono)
  fix e assume "e \<in> set (ms_results ms)"
  then have "length (snd e) \<le> MAX_RESULT_BYTES" using assms by (auto simp: store_inv_def)
  then show "length (snd e) \<le> result_charge ms e" by (auto simp: result_charge_def)
qed

definition empty_store :: MetadataStore where
  "empty_store = \<lparr>ms_zones = [], ms_containers = [], ms_results = [], ms_recovery = []\<rparr>"

text \<open>C32: through any sequence of reservations, results, deletions and recovery contexts, database errors
  included, the stored results never exceed the configured capacity, whatever is still reserved
  counted at its full wire budget; every recovery context belongs to a reserved task; and the next
  operation leaves a stored result as it is, or deletes it when no recovery context refers to it.\<close>

theorem result_store_sound:
  assumes "(result_step max_bytes)\<^sup>*\<^sup>* empty_store ms" "max_bytes < usize_max"
  shows "sum_list (map (\<lambda>e. length (snd e)) (ms_results ms)) \<le> max_bytes \<and>
    MAX_RESULT_BYTES * length (filter (\<lambda>e. snd e = []) (ms_results ms)) \<le> max_bytes \<and>
    dom (map_of (ms_recovery ms)) \<subseteq> dom (map_of (ms_results ms)) \<and>
    (result_step max_bytes ms ms' \<and> get_result tid ms = Some v \<and> v \<noteq> [] \<longrightarrow>
      get_result tid ms' = Some v \<or> (get_result tid ms' = None \<and> map_of (ms_recovery ms) tid = None))"
proof -
  have "store_inv max_bytes empty_store" by (simp add: store_inv_def empty_store_def table_ok_def charges_def)
  with assms(1) have inv: "store_inv max_bytes ms"
    by (induction rule: rtranclp_induct) (auto intro: result_step_inv [OF _ _ assms(2)])
  have "MAX_RESULT_BYTES * length (filter (\<lambda>e. snd e = []) es) \<le> sum_list (map (result_charge ms) es)" for es
    by (induction es) (auto simp: result_charge_def)
  from this [of "ms_results ms"] have "MAX_RESULT_BYTES * length (filter (\<lambda>e. snd e = []) (ms_results ms)) \<le> max_bytes"
    using inv by (simp add: store_inv_def charges_def)
  moreover have "sum_list (map (\<lambda>e. length (snd e)) (ms_results ms)) \<le> max_bytes"
    using stored_le_charges [OF inv] inv by (simp add: store_inv_def)
  moreover have "dom (map_of (ms_recovery ms)) \<subseteq> dom (map_of (ms_results ms))"
    using inv by (auto simp: store_inv_def dom_def)
  ultimately show ?thesis using result_step_final by blast
qed

definition demo_store :: MetadataStore where
  "demo_store = empty_store\<lparr>ms_results := [(''a'', ''r'')]\<rparr>"

theorem result_store_sound_witness:
  "(result_step (2 * MAX_RESULT_BYTES))\<^sup>*\<^sup>* empty_store demo_store \<and>
   sum_list (map (\<lambda>e. length (snd e)) (ms_results demo_store)) \<le> 2 * MAX_RESULT_BYTES"
proof -
  have "reserve_result None ''a'' (2 * MAX_RESULT_BYTES) empty_store = (Inr True, empty_store\<lparr>ms_results := [(''a'', [])]\<rparr>)"
    by (simp add: reserve_result_def empty_store_def used_bytes_def saturating_add_def MAX_RESULT_BYTES_def)
  moreover have "save_result None ''a'' ''r'' (empty_store\<lparr>ms_results := [(''a'', [])]\<rparr>) = (Inr (), demo_store)"
    by (simp add: save_result_def empty_store_def demo_store_def MAX_RESULT_BYTES_def)
  ultimately have run: "(result_step (2 * MAX_RESULT_BYTES))\<^sup>*\<^sup>* empty_store demo_store"
    by (meson converse_rtranclp_into_rtranclp rtranclp.rtrancl_refl result_step.reserve result_step.save)
  then show ?thesis using result_store_sound [OF run] by (simp add: MAX_RESULT_BYTES_def usize_max_def)
qed

end
