(* ===== verification/Shim_Wire.thy ===== *)
theory Shim_Wire
  imports Rauha_Prelude
begin

text \<open>
  The protocol between the daemon and a zone's shim (\<open>rauha-common/src/shim.rs\<close>): requests, responses
  and the length-prefixed framing. The serialiser of a message is a pair of parameters. A stream is
  the list of bytes still to be read.
\<close>

datatype ShimRequest =
    CreateContainer string string
  | StartContainer string
  | StopContainer string int
  | SignalContainer string int
  | GetState string
  | Shutdown
  | GetStats
  | Attach string bool
  | Exec string "string list" "string list" bool
  | ResizePty string "string option" u32 u32
  | DeleteContainer string

datatype ShimResponse =
    ShimOk
  | Created u32
  | StateOf u32 string "int option"
  | ErrorMsg string
  | Stats u64 u64 u32 u32 u64 u64
  | AttachReady string "string option"
  | ExecReady "string option" string

datatype ShimIoError = IoEof | EncodeError | DecodeError | MessageTooLarge nat

definition MAX_FRAME :: nat where "MAX_FRAME = 1024 * 1024"

definition u32_to_le_bytes :: "u32 \<Rightarrow> u8 list" where
  "u32_to_le_bytes w = [ucast w, ucast (drop_bit 8 w), ucast (drop_bit 16 w), ucast (drop_bit 24 w)]"

definition u32_from_le_bytes :: "u8 list \<Rightarrow> u32" where
  "u32_from_le_bytes bs = foldr (\<lambda>b acc. ucast b + 256 * acc) bs 0"

definition encode :: "('m \<Rightarrow> u8 list option) \<Rightarrow> 'm \<Rightarrow> u8 list option" where
  "encode ser msg = map_option (\<lambda>payload. u32_to_le_bytes (of_nat (length payload)) @ payload) (ser msg)"

definition read_exact :: "nat \<Rightarrow> u8 list \<Rightarrow> ShimIoError + (u8 list \<times> u8 list)" where
  "read_exact n s = (if length s < n then Inl IoEof else Inr (take n s, drop n s))"

definition decode_from :: "(u8 list \<Rightarrow> 'm option) \<Rightarrow> u8 list \<Rightarrow> ShimIoError + ('m \<times> u8 list)" where
  "decode_from de s =
    and_then (read_exact 4 s) (\<lambda>(len_buf, s1).
    let len = unat (u32_from_le_bytes len_buf) in
    if len > MAX_FRAME then Inl (MessageTooLarge len)
    else
      and_then (read_exact len s1) (\<lambda>(payload, s2).
      case de payload of None \<Rightarrow> Inl DecodeError | Some m \<Rightarrow> Inr (m, s2)))"

definition encode_to :: "('m \<Rightarrow> u8 list option) \<Rightarrow> u8 list \<Rightarrow> 'm \<Rightarrow> ShimIoError + u8 list" where
  "encode_to ser sink msg = and_then (ok_or EncodeError (encode ser msg)) (\<lambda>buf. Inr (sink @ buf))"

fun show_shim_io_error :: "ShimIoError \<Rightarrow> string" where
  "show_shim_io_error IoEof = ''shim I/O error: failed to fill whole buffer''"
| "show_shim_io_error EncodeError = ''shim encode error''"
| "show_shim_io_error DecodeError = ''shim decode error''"
| "show_shim_io_error (MessageTooLarge n) = ''shim message too large: '' @ dec n @ '' bytes''"

subsection \<open>Framing\<close>

lemma le_bytes_round_trip: "u32_from_le_bytes (u32_to_le_bytes w) = w"
proof (rule bit_word_eqI)
  fix n assume n: "n < LENGTH(32)"
  have parts: "ucast (ucast x :: u8) = (take_bit 8 x :: u32)" for x :: u32
    by (rule bit_word_eqI) (simp add: bit_simps)
  have or: "a + 256 * b = a OR push_bit 8 b" if "take_bit 8 a = a" for a b :: u32
  proof -
    have lt: "bit a m \<Longrightarrow> m < 8" for m using that by (metis bit_take_bit_iff)
    have "a AND push_bit 8 b = 0" by (intro bit_word_eqI) (auto simp: bit_simps dest!: lt)
    then have "a + push_bit 8 b = a OR push_bit 8 b" by (rule disjunctive_add_eq_or)
    then show ?thesis by (simp add: push_bit_eq_mult mult.commute)
  qed
  show "bit (u32_from_le_bytes (u32_to_le_bytes w)) n = bit w n"
    using n by (auto simp: u32_from_le_bytes_def u32_to_le_bytes_def parts or bit_simps)
      (cases "n < 24"; simp)
qed

lemma le_bytes_length [simp]: "length (u32_to_le_bytes w) = 4"
  by (simp add: u32_to_le_bytes_def)

lemma decode_frame:
  "decode_from de (u32_to_le_bytes (of_nat n) @ s) =
    (let len = take_bit 32 n in
     if len > MAX_FRAME then Inl (MessageTooLarge len)
     else and_then (read_exact len s) (\<lambda>(payload, s2).
       case de payload of None \<Rightarrow> Inl DecodeError | Some m \<Rightarrow> Inr (m, s2)))"
  by (simp add: decode_from_def read_exact_def le_bytes_round_trip unsigned_of_nat)

text \<open>What one side encodes, the other decodes to the same message and leaves the rest of the stream
  untouched, so messages can follow one another; but the sender does not share the receiver's limit:
  a message between 1 MiB and 4 GiB is framed and sent, and then refused.\<close>

lemma frames_round_trip:
  assumes "ser m = Some payload" "de payload = Some m" "length payload < 2 ^ 32"
  shows "\<exists>buf. encode ser m = Some buf \<and>
    decode_from de (buf @ rest) =
      (if length payload \<le> MAX_FRAME then Inr (m, rest) else Inl (MessageTooLarge (length payload)))"
proof -
  have "take_bit 32 (length payload) = length payload" using assms(3) by (rule take_bit_nat_eq_self)
  then show ?thesis using assms(1,2) by (simp add: encode_def decode_frame read_exact_def)
qed

end
