(* ===== verification/Zone_Registry.thy ===== *)
theory Zone_Registry
  imports Metadata_Store Shim_Wire
begin

text \<open>
  The zone registry of the daemon (\<open>rauhad/src/zone/registry.rs\<close>): zone and container lifecycle over
  the metadata store and an isolation backend. The backend is the trait object the registry calls,
  a record of operations over a state of its own (\<open>rauha-common/src/backend.rs\<close>); the image service,
  the shim and the file system are arguments. Database errors come from \<open>faults\<close>, one per
  database call in the order of the calls. Events are logging only and leave no state behind.

  Operations run under the registry's locks. Creating and deleting zones excludes one another; a
  policy change and a container creation look the zone up before they take the handle lock, so each
  is modelled as that lookup and the rest, and other operations may come in between.
\<close>

record ZoneStats =
  zs_memory_limit_bytes :: u64
  zs_memory_usage_bytes :: u64

record 'b IsolationBackend =
  ib_create_zone :: "ZoneConfig \<Rightarrow> 'b \<Rightarrow> ZoneHandle rresult \<times> 'b"
  ib_destroy_zone :: "ZoneHandle \<Rightarrow> 'b \<Rightarrow> unit rresult \<times> 'b"
  ib_enforce_policy :: "ZoneHandle \<Rightarrow> ZonePolicy \<Rightarrow> 'b \<Rightarrow> unit rresult \<times> 'b"
  ib_hot_reload_policy :: "ZoneHandle \<Rightarrow> ZonePolicy \<Rightarrow> 'b \<Rightarrow> unit rresult \<times> 'b"
  ib_create_container :: "ZoneHandle \<Rightarrow> ContainerSpec \<Rightarrow> 'b \<Rightarrow> ContainerHandle rresult \<times> 'b"
  ib_start_container :: "ContainerHandle \<Rightarrow> 'b \<Rightarrow> u32 rresult \<times> 'b"
  ib_stop_container :: "ContainerHandle \<Rightarrow> 'b \<Rightarrow> unit rresult \<times> 'b"
  ib_zone_stats :: "ZoneHandle \<Rightarrow> 'b \<Rightarrow> ZoneStats rresult"
  ib_recover_zone :: "ZoneHandle \<Rightarrow> ZoneType \<Rightarrow> ZonePolicy \<Rightarrow> 'b \<Rightarrow> unit rresult \<times> 'b"
  ib_cleanup_orphans :: "ZoneHandle list \<Rightarrow> 'b \<Rightarrow> unit rresult \<times> 'b"

record 'b ZoneRegistry =
  zr_metadata :: MetadataStore
  zr_backend :: 'b
  zr_handles :: "(string \<times> ZoneHandle) list"
  zr_container_handles :: "(string \<times> ContainerHandle) list"

definition validate_zone_name :: "string \<Rightarrow> unit rresult" where
  "validate_zone_name name =
    (if name = [] then Inl (InvalidInput ''zone name cannot be empty'')
     else if CHR ''/'' \<in> set name \<or> CHR 0x5C \<in> set name \<or> CHR 0x00 \<in> set name then
       Inl (InvalidInput ''zone name must not contain path separators'')
     else if name = ''.'' \<or> name = ''..'' then Inl (InvalidInput (''zone name must not be '' @ [CHR 0x27] @ ''.'' @ [CHR 0x27] @ '' or '' @ [CHR 0x27] @ ''..'' @ [CHR 0x27]))
     else if length name > 128 then Inl (InvalidInput ''zone name must be 128 characters or fewer'')
     else Inr ())"

definition new_registry :: "MetadataStore \<Rightarrow> 'b \<Rightarrow> 'b ZoneRegistry" where
  "new_registry ms b = \<lparr>zr_metadata = ms, zr_backend = b, zr_handles = [], zr_container_handles = []\<rparr>"

definition registry_get_zone :: "string option \<Rightarrow> string \<Rightarrow> 'b ZoneRegistry \<Rightarrow> Zone rresult" where
  "registry_get_zone fault name r =
    and_then (db_get_zone fault name (zr_metadata r)) (\<lambda>z. ok_or (ZoneNotFound name) z)"

subsection \<open>Startup\<close>

text \<open>\<open>cgroup_id\<close> is the inode of the zone's cgroup directory, if it can be read.\<close>

definition recovered_containers :: "Container list \<Rightarrow> (string \<times> ContainerHandle) list \<Rightarrow> (string \<times> ContainerHandle) list" where
  "recovered_containers cs hs =
    fold (\<lambda>c hs. table_insert (cn_id c)
        \<lparr>ch_id = cn_id c, ch_zone_id = cn_zone_id c,
         ch_pid = (case cn_pid c of Some p \<Rightarrow> p | None \<Rightarrow> 0), ch_platform_id = 0\<rparr> hs) cs hs"

definition zone_handle :: "Zone \<Rightarrow> ZoneHandle" where
  "zone_handle z = \<lparr>zh_id = zone_id z, zh_name = zone_name z, zh_platform_id = 0,
     zh_network_state = zone_network_state z\<rparr>"

fun reconcile_zones ::
  "'b IsolationBackend \<Rightarrow> (string \<Rightarrow> u64 option) \<Rightarrow> (Zone \<Rightarrow> string option) \<Rightarrow> Zone list \<Rightarrow> 'b ZoneRegistry \<Rightarrow>
   unit rresult \<times> 'b ZoneRegistry" where
  "reconcile_zones ib cgroup_id fault [] r = (Inr (), r)"
| "reconcile_zones ib cgroup_id fault (z # zs) r =
     (case ib_recover_zone ib (zone_handle z) (zone_type z) (zone_policy z) (zr_backend r) of
        (Inl e, b) \<Rightarrow> reconcile_zones ib cgroup_id fault zs (r\<lparr>zr_backend := b\<rparr>)
      | (Inr _, b) \<Rightarrow>
          let h = (case cgroup_id (zone_name z) of Some c \<Rightarrow> (zone_handle z)\<lparr>zh_platform_id := c\<rparr> | None \<Rightarrow> zone_handle z);
              r1 = r\<lparr>zr_backend := b, zr_handles := table_insert (zone_name z) h (zr_handles r)\<rparr>
          in (case db_list_containers (fault z) (Some (zone_id z)) (zr_metadata r) of
                Inl e \<Rightarrow> (Inl e, r1)
              | Inr cs \<Rightarrow>
                  reconcile_zones ib cgroup_id fault zs
                    (r1\<lparr>zr_container_handles := recovered_containers cs (zr_container_handles r1)\<rparr>)))"

definition reconcile ::
  "'b IsolationBackend \<Rightarrow> (string \<Rightarrow> u64 option) \<Rightarrow> string option \<Rightarrow> (Zone \<Rightarrow> string option) \<Rightarrow> 'b ZoneRegistry \<Rightarrow>
   unit rresult \<times> 'b ZoneRegistry" where
  "reconcile ib cgroup_id fault container_fault r =
    (case db_list_zones fault (zr_metadata r) of
       Inl e \<Rightarrow> (Inl e, r)
     | Inr [] \<Rightarrow> (let (x, b) = ib_cleanup_orphans ib [] (zr_backend r) in (x, r\<lparr>zr_backend := b\<rparr>))
     | Inr zs \<Rightarrow>
         (case reconcile_zones ib cgroup_id container_fault zs r of
            (Inl e, r1) \<Rightarrow> (Inl e, r1)
          | (Inr _, r1) \<Rightarrow>
              let (_, b) = ib_cleanup_orphans ib (map zone_handle zs) (zr_backend r1)
              in (Inr (), r1\<lparr>zr_backend := b\<rparr>)))"

subsection \<open>Zones\<close>

definition registry_create_zone ::
  "'b IsolationBackend \<Rightarrow> string option \<Rightarrow> string option \<Rightarrow> string \<Rightarrow> ZoneType \<Rightarrow> ZonePolicy \<Rightarrow> 'b ZoneRegistry \<Rightarrow>
   Zone rresult \<times> 'b ZoneRegistry" where
  "registry_create_zone ib get_fault put_fault name ztype policy r =
    (case validate_zone_name name of
       Inl e \<Rightarrow> (Inl e, r)
     | Inr _ \<Rightarrow>
        (case db_get_zone get_fault name (zr_metadata r) of
           Inl e \<Rightarrow> (Inl e, r)
         | Inr (Some _) \<Rightarrow> (Inl (ZoneAlreadyExists name), r)
         | Inr None \<Rightarrow>
            (case ib_create_zone ib \<lparr>zc_name = name, zc_zone_type = ztype, zc_policy = policy\<rparr> (zr_backend r) of
               (Inl e, b) \<Rightarrow> (Inl e, r\<lparr>zr_backend := b\<rparr>)
             | (Inr h, b) \<Rightarrow>
                (case ib_enforce_policy ib h policy b of
                   (Inl e, b1) \<Rightarrow> (Inl e, r\<lparr>zr_backend := snd (ib_destroy_zone ib h b1)\<rparr>)
                 | (Inr _, b1) \<Rightarrow>
                     let zone = \<lparr>zone_id = zh_id h, zone_name = name, zone_type = ztype, zone_state = Ready,
                           zone_policy = policy, zone_network_state = zh_network_state h\<rparr>
                     in (case put_zone put_fault zone (zr_metadata r) of
                           (Inl e, ms) \<Rightarrow> (Inl e, r\<lparr>zr_backend := b1, zr_metadata := ms\<rparr>)
                         | (Inr _, ms) \<Rightarrow>
                             (Inr zone, r\<lparr>zr_backend := b1, zr_metadata := ms,
                               zr_handles := table_insert name h (zr_handles r)\<rparr>))))))"

text \<open>Stopping the running containers of a zone; a container without a handle is skipped.\<close>

fun stop_running ::
  "'b IsolationBackend \<Rightarrow> (string \<times> ContainerHandle) list \<Rightarrow> Container list \<Rightarrow> 'b \<Rightarrow> 'b" where
  "stop_running ib hs [] b = b"
| "stop_running ib hs (c # cs) b =
     stop_running ib hs cs
       (if cn_state c = ContainerRunning then
          (case map_of hs (cn_id c) of Some h \<Rightarrow> snd (ib_stop_container ib h b) | None \<Rightarrow> b)
        else b)"

text \<open>
  Removing the records of a zone's containers: the logs of a container may fail to be removed
  (\<open>log_fault\<close>), and so may its record.
\<close>

fun drop_containers ::
  "(string \<Rightarrow> string option) \<Rightarrow> (string \<Rightarrow> string option) \<Rightarrow> Container list \<Rightarrow> 'b ZoneRegistry \<Rightarrow> unit rresult \<times> 'b ZoneRegistry" where
  "drop_containers log_fault db_fault' [] r = (Inr (), r)"
| "drop_containers log_fault db_fault' (c # cs) r =
     (case log_fault (cn_id c) of
        Some e \<Rightarrow> (Inl (BackendError (''cannot remove container logs: '' @ e)), r)
      | None \<Rightarrow>
         (case db_delete_container (db_fault' (cn_id c)) (cn_id c) (zr_metadata r) of
            (Inl e, ms) \<Rightarrow> (Inl e, r\<lparr>zr_metadata := ms\<rparr>)
          | (Inr _, ms) \<Rightarrow>
              drop_containers log_fault db_fault' cs
                (r\<lparr>zr_metadata := ms, zr_container_handles := table_remove (cn_id c) (zr_container_handles r)\<rparr>)))"

record delete_faults =
  df_get :: "string option"
  df_list :: "string option"
  df_log :: "string \<Rightarrow> string option"
  df_container :: "string \<Rightarrow> string option"
  df_zone :: "string option"

definition registry_delete_zone ::
  "'b IsolationBackend \<Rightarrow> delete_faults \<Rightarrow> string \<Rightarrow> bool \<Rightarrow> 'b ZoneRegistry \<Rightarrow> unit rresult \<times> 'b ZoneRegistry" where
  "registry_delete_zone ib f name force r =
    (case and_then (db_get_zone (df_get f) name (zr_metadata r)) (\<lambda>z. ok_or (ZoneNotFound name) z) of
       Inl e \<Rightarrow> (Inl e, r)
     | Inr zone \<Rightarrow>
        (case map_of (zr_handles r) name of
           None \<Rightarrow> (Inl (BackendError (''zone '' @ name @ '' has no recovered backend handle'')), r)
         | Some h \<Rightarrow>
            (case db_list_containers (df_list f) (Some (zone_id zone)) (zr_metadata r) of
               Inl e \<Rightarrow> (Inl e, r)
             | Inr cs \<Rightarrow>
                if cs \<noteq> [] \<and> \<not> force then (Inl (ZoneNotEmpty (length cs)), r)
                else
                  let b = (if force then stop_running ib (zr_container_handles r) cs (zr_backend r) else zr_backend r)
                  in (case ib_destroy_zone ib h b of
                        (Inl e, b1) \<Rightarrow> (Inl e, r\<lparr>zr_backend := b1\<rparr>)
                      | (Inr _, b1) \<Rightarrow>
                         (case drop_containers (df_log f) (df_container f) cs (r\<lparr>zr_backend := b1\<rparr>) of
                            (Inl e, r1) \<Rightarrow> (Inl e, r1)
                          | (Inr _, r1) \<Rightarrow>
                             (case db_delete_zone (df_zone f) name (zr_metadata r1) of
                                (Inl e, ms) \<Rightarrow> (Inl e, r1\<lparr>zr_metadata := ms\<rparr>)
                              | (Inr _, ms) \<Rightarrow>
                                  (Inr (), r1\<lparr>zr_metadata := ms, zr_handles := table_remove name (zr_handles r1)\<rparr>)))))))"

text \<open>The part of \<open>apply_policy\<close> after the zone has been read.\<close>

definition apply_policy_to ::
  "'b IsolationBackend \<Rightarrow> string option \<Rightarrow> string \<Rightarrow> ZonePolicy \<Rightarrow> Zone \<Rightarrow> 'b ZoneRegistry \<Rightarrow> unit rresult \<times> 'b ZoneRegistry" where
  "apply_policy_to ib put_fault name policy zone r =
    (case map_of (zr_handles r) name of
       None \<Rightarrow> (Inl (ZoneNotFound name), r)
     | Some h \<Rightarrow>
        (case ib_hot_reload_policy ib h policy (zr_backend r) of
           (Inl (ZoneNotFound x), b) \<Rightarrow> (Inl (ZoneNotFound name), r\<lparr>zr_backend := b\<rparr>)
         | (Inl e, b) \<Rightarrow> (Inl e, r\<lparr>zr_backend := b\<rparr>)
         | (Inr _, b) \<Rightarrow>
             let (x, ms) = put_zone put_fault (zone\<lparr>zone_policy := policy\<rparr>) (zr_metadata r)
             in (x, r\<lparr>zr_backend := b, zr_metadata := ms\<rparr>)))"

definition apply_policy ::
  "'b IsolationBackend \<Rightarrow> string option \<Rightarrow> string option \<Rightarrow> string \<Rightarrow> ZonePolicy \<Rightarrow> 'b ZoneRegistry \<Rightarrow> unit rresult \<times> 'b ZoneRegistry" where
  "apply_policy ib get_fault put_fault name policy r =
    (case registry_get_zone get_fault name r of
       Inl e \<Rightarrow> (Inl e, r)
     | Inr zone \<Rightarrow> apply_policy_to ib put_fault name policy zone r)"

subsection \<open>Containers\<close>

definition new_container :: "nat \<Rightarrow> Zone \<Rightarrow> ContainerSpec \<Rightarrow> ContainerHandle \<Rightarrow> Container" where
  "new_container now zone spec ch =
    \<lparr>cn_id = ch_id ch, cn_name = cs_name spec, cn_zone_id = zone_id zone, cn_image = cs_image spec,
     cn_state = ContainerCreated, cn_pid = Some (ch_pid ch), cn_created_at = now, cn_started_at = None,
     cn_finished_at = None, cn_exit_code = None\<rparr>"

text \<open>
  The part of \<open>create_container\<close> after the zone has been read. \<open>layers\<close> is what preparing the image
  gives: the layer directories, or its error.
\<close>

definition create_container_in ::
  "'b IsolationBackend \<Rightarrow> string option \<Rightarrow> nat \<Rightarrow> string list rresult \<Rightarrow> string \<Rightarrow> ContainerSpec \<Rightarrow> Zone \<Rightarrow> 'b ZoneRegistry \<Rightarrow>
   Container rresult \<times> 'b ZoneRegistry" where
  "create_container_in ib put_fault now layers name spec zone r =
    (case (if cs_image spec = [] then Inr spec
           else and_then layers (\<lambda>ls. Inr (spec\<lparr>cs_overlay_layers := Some ls\<rparr>))) of
       Inl e \<Rightarrow> (Inl e, r)
     | Inr spec \<Rightarrow>
        (case map_of (zr_handles r) name of
           None \<Rightarrow> (Inl (ZoneNotFound name), r)
         | Some h \<Rightarrow>
            (case ib_create_container ib h spec (zr_backend r) of
               (Inl e, b) \<Rightarrow> (Inl e, r\<lparr>zr_backend := b\<rparr>)
             | (Inr ch, b) \<Rightarrow>
                let c = new_container now zone spec ch
                in (case put_container put_fault c (zr_metadata r) of
                      (Inl e, ms) \<Rightarrow> (Inl e, r\<lparr>zr_backend := b, zr_metadata := ms\<rparr>)
                    | (Inr _, ms) \<Rightarrow>
                        (Inr c, r\<lparr>zr_backend := b, zr_metadata := ms,
                          zr_container_handles := table_insert (ch_id ch) ch (zr_container_handles r)\<rparr>)))))"

definition registry_create_container ::
  "'b IsolationBackend \<Rightarrow> string option \<Rightarrow> string option \<Rightarrow> nat \<Rightarrow> string list rresult \<Rightarrow> string \<Rightarrow> ContainerSpec \<Rightarrow>
   'b ZoneRegistry \<Rightarrow> Container rresult \<times> 'b ZoneRegistry" where
  "registry_create_container ib get_fault put_fault now layers name spec r =
    (case registry_get_zone get_fault name r of
       Inl e \<Rightarrow> (Inl e, r)
     | Inr zone \<Rightarrow> create_container_in ib put_fault now layers name spec zone r)"

definition known_container :: "string option \<Rightarrow> string \<Rightarrow> 'b ZoneRegistry \<Rightarrow> (Container \<times> ContainerHandle) rresult" where
  "known_container fault cid r =
    and_then (db_get_container fault cid (zr_metadata r)) (\<lambda>c.
    and_then (ok_or (ContainerNotFound cid) c) (\<lambda>c.
    and_then (ok_or (ContainerNotFound cid) (map_of (zr_container_handles r) cid)) (\<lambda>h. Inr (c, h))))"

definition registry_start_container ::
  "'b IsolationBackend \<Rightarrow> string option \<Rightarrow> string option \<Rightarrow> nat \<Rightarrow> string \<Rightarrow> 'b ZoneRegistry \<Rightarrow> unit rresult \<times> 'b ZoneRegistry" where
  "registry_start_container ib get_fault put_fault now cid r =
    (case known_container get_fault cid r of
       Inl e \<Rightarrow> (Inl e, r)
     | Inr (c, h) \<Rightarrow>
        (case ib_start_container ib h (zr_backend r) of
           (Inl e, b) \<Rightarrow> (Inl e, r\<lparr>zr_backend := b\<rparr>)
         | (Inr pid, b) \<Rightarrow>
            (case put_container put_fault (c\<lparr>cn_state := ContainerRunning, cn_started_at := Some now, cn_pid := Some pid\<rparr>) (zr_metadata r) of
               (Inl e, ms) \<Rightarrow> (Inl e, r\<lparr>zr_backend := b, zr_metadata := ms\<rparr>)
             | (Inr _, ms) \<Rightarrow>
                 (Inr (), r\<lparr>zr_backend := b, zr_metadata := ms,
                   zr_container_handles := table_insert cid (h\<lparr>ch_pid := pid\<rparr>) (zr_container_handles r)\<rparr>))))"

definition registry_stop_container ::
  "'b IsolationBackend \<Rightarrow> string option \<Rightarrow> string option \<Rightarrow> nat \<Rightarrow> string \<Rightarrow> 'b ZoneRegistry \<Rightarrow> unit rresult \<times> 'b ZoneRegistry" where
  "registry_stop_container ib get_fault put_fault now cid r =
    (case known_container get_fault cid r of
       Inl e \<Rightarrow> (Inl e, r)
     | Inr (c, h) \<Rightarrow>
        (case ib_stop_container ib h (zr_backend r) of
           (Inl e, b) \<Rightarrow> (Inl e, r\<lparr>zr_backend := b\<rparr>)
         | (Inr _, b) \<Rightarrow>
             let (x, ms) = put_container put_fault (c\<lparr>cn_state := ContainerStopped, cn_finished_at := Some now\<rparr>) (zr_metadata r)
             in (x, r\<lparr>zr_backend := b, zr_metadata := ms\<rparr>)))"

definition zone_name_for_container :: "string \<Rightarrow> 'b ZoneRegistry \<Rightarrow> string option" where
  "zone_name_for_container zid r =
    map_option fst (List.find (\<lambda>(_, h). zh_id h = zid) (zr_handles r))"

text \<open>The state of a container as its shim reports it; an exit is recorded. \<open>response\<close> is the exchange.\<close>

definition get_container_state ::
  "string option \<Rightarrow> string option \<Rightarrow> nat \<Rightarrow> (ShimResponse \<Rightarrow> string) \<Rightarrow> (string \<Rightarrow> ShimRequest \<Rightarrow> ShimResponse rresult) \<Rightarrow> string \<Rightarrow>
   'b ZoneRegistry \<Rightarrow> (string \<times> int option) rresult \<times> 'b ZoneRegistry" where
  "get_container_state get_fault put_fault now debug response cid r =
    (case and_then (db_get_container get_fault cid (zr_metadata r)) (\<lambda>c. ok_or (ContainerNotFound cid) c) of
       Inl e \<Rightarrow> (Inl e, r)
     | Inr c \<Rightarrow>
        (case zone_name_for_container (cn_zone_id c) r of
           None \<Rightarrow> (Inl (ZoneNotFound (cn_zone_id c)), r)
         | Some name \<Rightarrow>
            (case response name (GetState cid) of
               Inl e \<Rightarrow> (Inl e, r)
             | Inr (StateOf pid status exit_code) \<Rightarrow>
                 if status = ''stopped'' \<and> (cn_state c \<noteq> ContainerStopped \<or> cn_exit_code c \<noteq> exit_code) then
                   (case put_container put_fault
                       (c\<lparr>cn_state := ContainerStopped,
                         cn_finished_at := Some (case cn_finished_at c of Some t \<Rightarrow> t | None \<Rightarrow> now),
                         cn_exit_code := exit_code\<rparr>) (zr_metadata r) of
                      (Inl e, ms) \<Rightarrow> (Inl e, r\<lparr>zr_metadata := ms\<rparr>)
                    | (Inr _, ms) \<Rightarrow> (Inr (status, exit_code), r\<lparr>zr_metadata := ms\<rparr>))
                 else (Inr (status, exit_code), r)
             | Inr (ErrorMsg message) \<Rightarrow> (Inl (ShimError name message), r)
             | Inr other \<Rightarrow> (Inl (ShimError name (''unexpected shim response to GetState: '' @ debug other)), r))))"

text \<open>
  Deleting a container: \<open>shim_delete\<close> is the answer of the zone's shim (\<open>None\<close>: it deleted the
  container), asked only if the zone has a handle.
\<close>

definition registry_delete_container ::
  "'b IsolationBackend \<Rightarrow> (string option \<times> string option) \<Rightarrow> (string \<Rightarrow> RauhaError option) \<Rightarrow> string option \<Rightarrow> string option \<Rightarrow> nat \<Rightarrow>
   string \<Rightarrow> bool \<Rightarrow> 'b ZoneRegistry \<Rightarrow> unit rresult \<times> 'b ZoneRegistry" where
  "registry_delete_container ib faults shim_delete log_fault del_fault now cid force r =
    (case and_then (db_get_container (fst faults) cid (zr_metadata r)) (\<lambda>c. ok_or (ContainerNotFound cid) c) of
       Inl e \<Rightarrow> (Inl e, r)
     | Inr c \<Rightarrow>
        (case (if cn_state c = ContainerRunning then
                 (if force then registry_stop_container ib None (snd faults) now cid r
                  else (Inl (BackendError (''container '' @ cid @ '' is running, use force to stop it first'')), r))
               else (Inr (), r)) of
           (Inl e, r1) \<Rightarrow> (Inl e, r1)
         | (Inr _, r1) \<Rightarrow>
            (case (case zone_name_for_container (cn_zone_id c) r1 of None \<Rightarrow> None | Some name \<Rightarrow> shim_delete name) of
               Some e \<Rightarrow> (Inl e, r1)
             | None \<Rightarrow>
                (case log_fault of
                   Some e \<Rightarrow> (Inl (BackendError (''cannot remove container logs: '' @ e)), r1)
                 | None \<Rightarrow>
                     let (x, ms) = db_delete_container del_fault cid (zr_metadata r1)
                     in (x, r1\<lparr>zr_metadata := ms, zr_container_handles := table_remove cid (zr_container_handles r1)\<rparr>)))))"

text \<open>Lazily noticing that a running container's process is gone; a failing write is ignored.\<close>

definition maybe_reap_container ::
  "(u32 \<Rightarrow> bool) \<Rightarrow> string option \<Rightarrow> nat \<Rightarrow> Container \<Rightarrow> 'b ZoneRegistry \<Rightarrow> Container \<times> 'b ZoneRegistry" where
  "maybe_reap_container dead fault now c r =
    (case cn_pid c of
       Some p \<Rightarrow>
         if cn_state c = ContainerRunning \<and> p > 0 \<and> dead p then
           let c' = c\<lparr>cn_state := ContainerStopped, cn_finished_at := Some now\<rparr>
           in (c', r\<lparr>zr_metadata := snd (put_container fault c' (zr_metadata r))\<rparr>)
         else (c, r)
     | None \<Rightarrow> (c, r))"

definition registry_get_container ::
  "(u32 \<Rightarrow> bool) \<Rightarrow> string option \<Rightarrow> string option \<Rightarrow> nat \<Rightarrow> string \<Rightarrow> 'b ZoneRegistry \<Rightarrow> Container rresult \<times> 'b ZoneRegistry" where
  "registry_get_container dead fault put_fault now cid r =
    (case and_then (db_get_container fault cid (zr_metadata r)) (\<lambda>c. ok_or (ContainerNotFound cid) c) of
       Inl e \<Rightarrow> (Inl e, r)
     | Inr c \<Rightarrow> (let (c', r') = maybe_reap_container dead put_fault now c r in (Inr c', r')))"

fun reap_all ::
  "(u32 \<Rightarrow> bool) \<Rightarrow> string option \<Rightarrow> nat \<Rightarrow> Container list \<Rightarrow> 'b ZoneRegistry \<Rightarrow> Container list \<times> 'b ZoneRegistry" where
  "reap_all dead fault now [] r = ([], r)"
| "reap_all dead fault now (c # cs) r =
     (let (c', r1) = maybe_reap_container dead fault now c r; (cs', r2) = reap_all dead fault now cs r1 in (c' # cs', r2))"

definition registry_list_containers ::
  "(u32 \<Rightarrow> bool) \<Rightarrow> string option \<Rightarrow> string option \<Rightarrow> nat \<Rightarrow> string option \<Rightarrow> 'b ZoneRegistry \<Rightarrow>
   Container list rresult \<times> 'b ZoneRegistry" where
  "registry_list_containers dead fault put_fault now name r =
    (case (case name of
             Some n \<Rightarrow> and_then (registry_get_zone fault n r) (\<lambda>z. db_list_containers fault (Some (zone_id z)) (zr_metadata r))
           | None \<Rightarrow> db_list_containers fault None (zr_metadata r)) of
       Inl e \<Rightarrow> (Inl e, r)
     | Inr cs \<Rightarrow> (let (cs', r') = reap_all dead put_fault now cs r in (Inr cs', r')))"

definition registry_zone_stats :: "'b IsolationBackend \<Rightarrow> string option \<Rightarrow> string \<Rightarrow> 'b ZoneRegistry \<Rightarrow> ZoneStats rresult" where
  "registry_zone_stats ib fault name r =
    and_then (ok_or (ZoneNotFound name) (map_of (zr_handles r) name)) (\<lambda>h.
    and_then (ib_zone_stats ib h (zr_backend r)) (\<lambda>stats.
    Inr (if zs_memory_limit_bytes stats = 0 then
           (case db_get_zone fault name (zr_metadata r) of
              Inr (Some zone) \<Rightarrow> stats\<lparr>zs_memory_limit_bytes := memory_limit (zpol_resources (zone_policy zone))\<rparr>
            | _ \<Rightarrow> stats)
         else stats)))"

subsection \<open>The registry invariant\<close>

definition stored :: "('k \<times> 'v option) list \<Rightarrow> 'k \<Rightarrow> 'v option" where
  "stored t k = (case map_of t k of Some v \<Rightarrow> v | None \<Rightarrow> None)"

lemma stored_simps [table_simps]:
  "stored (table_insert k (Some v) t) = (stored t)(k \<mapsto> v)" "stored (table_remove k t) = (stored t)(k := None)"
  by (auto simp: stored_def table_simps fun_eq_iff)

lemma stored_Some: "stored t k = Some v \<longleftrightarrow> map_of t k = Some (Some v)"
  by (auto simp: stored_def split: option.splits)

definition zone_ids :: "(string \<times> Zone option) list \<Rightarrow> string set" where
  "zone_ids zs = {zone_id z | n z. stored zs n = Some z}"

text \<open>
  Zones are stored under their names with distinct identifiers, and a handle is for the stored zone
  of that name.
\<close>

definition zones_inv :: "(string \<times> Zone option) list \<Rightarrow> (string \<times> ZoneHandle) list \<Rightarrow> bool" where
  "zones_inv zs hs =
    (table_ok zs \<and> (\<forall>n z. stored zs n = Some z \<longrightarrow> zone_name z = n) \<and>
     (\<forall>n m z w. stored zs n = Some z \<longrightarrow> stored zs m = Some w \<longrightarrow> zone_id z = zone_id w \<longrightarrow> n = m) \<and>
     (\<forall>n h. map_of hs n = Some h \<longrightarrow> (\<exists>z. stored zs n = Some z \<and> zone_id z = zh_id h)))"

text \<open>
  A container is stored under its identifier and belongs to one of the zones \<open>ids\<close>, and only stored
  containers have handles.
\<close>

definition containers_inv ::
  "string set \<Rightarrow> (string \<times> Container option) list \<Rightarrow> (string \<times> ContainerHandle) list \<Rightarrow> bool" where
  "containers_inv ids cs chs =
    (table_ok cs \<and> (\<forall>k c. stored cs k = Some c \<longrightarrow> cn_id c = k \<and> cn_zone_id c \<in> ids) \<and>
     (\<forall>k. map_of chs k \<noteq> None \<longrightarrow> map_of cs k \<noteq> None))"

definition registry_inv :: "'b ZoneRegistry \<Rightarrow> bool" where
  "registry_inv r =
    (zones_inv (ms_zones (zr_metadata r)) (zr_handles r) \<and>
     containers_inv (zone_ids (ms_zones (zr_metadata r))) (ms_containers (zr_metadata r)) (zr_container_handles r))"

lemma zones_invI:
  assumes "table_ok zs" "\<And>n z. stored zs n = Some z \<Longrightarrow> zone_name z = n"
    and "\<And>n m z w. stored zs n = Some z \<Longrightarrow> stored zs m = Some w \<Longrightarrow> zone_id z = zone_id w \<Longrightarrow> n = m"
    and "\<And>n h. map_of hs n = Some h \<Longrightarrow> \<exists>z. stored zs n = Some z \<and> zone_id z = zh_id h"
  shows "zones_inv zs hs"
  using assms unfolding zones_inv_def by blast

lemma zones_invD:
  assumes "zones_inv zs hs"
  shows "table_ok zs" "stored zs n = Some z \<Longrightarrow> zone_name z = n"
    "stored zs n = Some z \<Longrightarrow> stored zs m = Some w \<Longrightarrow> zone_id z = zone_id w \<Longrightarrow> n = m"
    "map_of hs n = Some h \<Longrightarrow> \<exists>z. stored zs n = Some z \<and> zone_id z = zh_id h"
  using assms unfolding zones_inv_def by blast+

lemma zone_idsI: "stored zs n = Some z \<Longrightarrow> zone_id z \<in> zone_ids zs"
  unfolding zone_ids_def by blast

lemma stored_insertD: "stored (table_insert n (Some z) zs) k = Some u \<Longrightarrow> k = n \<and> u = z \<or> k \<noteq> n \<and> stored zs k = Some u"
  by (auto simp: table_simps split: if_splits)

lemma zones_inv_new:
  assumes "zones_inv zs hs" "stored zs n = None" "zone_name z = n" "zone_id z \<notin> zone_ids zs" "zh_id h = zone_id z"
  shows "zones_inv (table_insert n (Some z) zs) (table_insert n h hs)"
proof (rule zones_invI)
  fix k m u w
  assume "stored (table_insert n (Some z) zs) k = Some u" "stored (table_insert n (Some z) zs) m = Some w" "zone_id u = zone_id w"
  then show "k = m"
    using zones_invD(3) [OF assms(1), of k u m w] zone_idsI [of zs k u] zone_idsI [of zs m w] assms(4)
    by (metis stored_insertD)
next
  fix k g assume "map_of (table_insert n h hs) k = Some g"
  then show "\<exists>w. stored (table_insert n (Some z) zs) k = Some w \<and> zone_id w = zh_id g"
    using zones_invD(4) [OF assms(1), of k g] assms(5) by (cases "k = n") (auto simp: table_simps)
qed (use zones_invD(1,2) [OF assms(1)] assms(3) in \<open>auto simp: table_simps table_ok_insert split: if_splits\<close>)

lemma zones_inv_update:
  assumes "zones_inv zs hs" "stored zs n = Some z" "zone_name z' = n" "zone_id z' = zone_id z"
  shows "zones_inv (table_insert n (Some z') zs) hs"
proof (rule zones_invI)
  fix k m u w
  assume "stored (table_insert n (Some z') zs) k = Some u" "stored (table_insert n (Some z') zs) m = Some w" "zone_id u = zone_id w"
  then show "k = m"
    using zones_invD(3) [OF assms(1), of k u m w] zones_invD(3) [OF assms(1), of n z m w]
      zones_invD(3) [OF assms(1), of k u n z] assms(2,4)
    by (metis stored_insertD)
next
  fix k g assume "map_of hs k = Some g"
  then show "\<exists>w. stored (table_insert n (Some z') zs) k = Some w \<and> zone_id w = zh_id g"
    using zones_invD(4) [OF assms(1), of k g] assms(2,4) by (cases "k = n") (auto simp: table_simps)
qed (use zones_invD(1,2) [OF assms(1)] assms(3) in \<open>auto simp: table_simps table_ok_insert split: if_splits\<close>)

lemma zones_inv_remove:
  assumes "zones_inv zs hs" shows "zones_inv (table_remove n zs) (table_remove n hs)"
proof (rule zones_invI)
  fix k m u w
  assume "stored (table_remove n zs) k = Some u" "stored (table_remove n zs) m = Some w" "zone_id u = zone_id w"
  then show "k = m"
    using zones_invD(3) [OF assms, of k u m w] by (auto simp: table_simps split: if_splits)
next
  fix k g assume "map_of (table_remove n hs) k = Some g"
  then show "\<exists>w. stored (table_remove n zs) k = Some w \<and> zone_id w = zh_id g"
    using zones_invD(4) [OF assms, of k g] by (auto simp: table_simps split: if_splits)
qed (use zones_invD(1,2) [OF assms] in \<open>auto simp: table_simps table_ok_remove split: if_splits\<close>)

lemma zones_inv_handle:
  assumes "zones_inv zs hs" "stored zs n = Some z" "zh_id h = zone_id z"
  shows "zones_inv zs (table_insert n h hs)"
proof (rule zones_invI)
  fix k g assume "map_of (table_insert n h hs) k = Some g"
  then show "\<exists>w. stored zs k = Some w \<and> zone_id w = zh_id g"
    using zones_invD(4) [OF assms(1), of k g] assms(2,3) by (cases "k = n") (auto simp: table_simps)
qed (use zones_invD(1-3) [OF assms(1)] in blast)+

lemma zone_ids_new: "stored zs n = None \<Longrightarrow> zone_ids zs \<subseteq> zone_ids (table_insert n (Some z) zs)"
proof
  fix x assume n: "stored zs n = None" "x \<in> zone_ids zs"
  then obtain m w where w: "x = zone_id w" "stored zs m = Some w" unfolding zone_ids_def by blast
  then have "((stored zs)(n \<mapsto> z)) m = Some w" using n(1) by (cases "m = n") auto
  then show "x \<in> zone_ids (table_insert n (Some z) zs)" unfolding zone_ids_def table_simps using w(1) by blast
qed

lemma zone_ids_update:
  "stored zs n = Some z \<Longrightarrow> zone_id z' = zone_id z \<Longrightarrow> zone_ids (table_insert n (Some z') zs) = zone_ids zs"
proof (rule set_eqI)
  fix x
  assume z: "stored zs n = Some z" "zone_id z' = zone_id z"
  show "x \<in> zone_ids (table_insert n (Some z') zs) \<longleftrightarrow> x \<in> zone_ids zs"
  proof
    assume "x \<in> zone_ids (table_insert n (Some z') zs)"
    then obtain m w where "x = zone_id w" "((stored zs)(n \<mapsto> z')) m = Some w"
      unfolding zone_ids_def table_simps by blast
    then show "x \<in> zone_ids zs" using z by (cases "m = n") (auto simp: zone_ids_def)
  next
    assume "x \<in> zone_ids zs"
    then obtain m w where "x = zone_id w" "stored zs m = Some w" unfolding zone_ids_def by blast
    then have "\<exists>w. x = zone_id w \<and> ((stored zs)(n \<mapsto> z')) m = Some w" using z by (cases "m = n") auto
    then show "x \<in> zone_ids (table_insert n (Some z') zs)" unfolding zone_ids_def table_simps by blast
  qed
qed

lemma zone_ids_remove:
  assumes "zones_inv zs hs" "stored zs n = Some z"
  shows "zone_ids zs - {zone_id z} \<subseteq> zone_ids (table_remove n zs)"
proof
  fix x assume "x \<in> zone_ids zs - {zone_id z}"
  then obtain m w where w: "x = zone_id w" "stored zs m = Some w" "zone_id w \<noteq> zone_id z" unfolding zone_ids_def by blast
  then have "((stored zs)(n := None)) m = Some w" using assms(2) by (cases "m = n") auto
  then show "x \<in> zone_ids (table_remove n zs)" unfolding zone_ids_def table_simps using w(1) by blast
qed

lemma containers_inv_put:
  assumes "containers_inv ids cs chs" "cn_zone_id c \<in> ids"
  shows "containers_inv ids (table_insert (cn_id c) (Some c) cs) chs"
    and "containers_inv ids (table_insert (cn_id c) (Some c) cs) (table_insert (cn_id c) h chs)"
  using assms by (auto simp: containers_inv_def table_simps table_ok_insert split: if_splits)

lemma containers_inv_handle:
  assumes "containers_inv ids cs chs" "map_of cs k \<noteq> None"
  shows "containers_inv ids cs (table_insert k h chs)"
  using assms by (auto simp: containers_inv_def table_simps split: if_splits)

lemma containers_inv_remove:
  assumes "containers_inv ids cs chs"
  shows "containers_inv ids (table_remove k cs) (table_remove k chs)" "containers_inv ids cs (table_remove k chs)"
  using assms by (auto simp: containers_inv_def table_simps table_ok_remove split: if_splits)

lemma containers_inv_mono: "containers_inv ids cs chs \<Longrightarrow> ids \<subseteq> ids' \<Longrightarrow> containers_inv ids' cs chs"
  by (auto simp: containers_inv_def)

lemma containers_inv_ids:
  assumes "containers_inv ids cs chs" "\<forall>k c. stored cs k = Some c \<longrightarrow> cn_zone_id c \<noteq> z" "ids - {z} \<subseteq> ids'"
  shows "containers_inv ids' cs chs"
  using assms unfolding containers_inv_def by blast

subsection \<open>What the lookups return\<close>

lemma db_get_zone_Inr: "db_get_zone f n ms = Inr z \<Longrightarrow> z = stored (ms_zones ms) n"
  by (auto simp: db_get_zone_def db_fault_def stored_def split: option.splits)

lemma registry_get_zone_Inr: "registry_get_zone f n r = Inr z \<Longrightarrow> stored (ms_zones (zr_metadata r)) n = Some z"
  by (auto simp: registry_get_zone_def result_simps dest!: db_get_zone_Inr)

lemma db_get_container_Inr: "db_get_container f k ms = Inr (Some c) \<Longrightarrow> stored (ms_containers ms) k = Some c"
  by (auto simp: db_get_container_def db_fault_def stored_def split: option.splits)

lemma known_container_Inr:
  "known_container f k r = Inr (c, h) \<Longrightarrow>
    stored (ms_containers (zr_metadata r)) k = Some c \<and> map_of (zr_container_handles r) k = Some h"
  by (auto simp: known_container_def result_simps dest!: db_get_container_Inr)

lemma db_list_containers_Inr:
  assumes "db_list_containers f zid ms = Inr cs" "table_ok (ms_containers ms)"
  shows "c \<in> set cs \<longleftrightarrow> (\<exists>k. stored (ms_containers ms) k = Some c) \<and> (\<forall>z. zid = Some z \<longrightarrow> cn_zone_id c = z)"
proof -
  obtain all where all: "list_all2 (\<lambda>e c. snd e = Some c) (ms_containers ms) all"
      "cs = (case zid of None \<Rightarrow> all | Some z \<Rightarrow> filter (\<lambda>c. cn_zone_id c = z) all)"
    using assms(1) by (auto simp: db_list_containers_def db_fault_def result_simps split: option.splits)
  have "c \<in> set all \<longleftrightarrow> (\<exists>k. (k, Some c) \<in> set (ms_containers ms))"
    using all(1) by (induction rule: list_all2_induct) auto
  then have "c \<in> set all \<longleftrightarrow> (\<exists>k. stored (ms_containers ms) k = Some c)"
    by (simp add: table_ok_map_of [OF assms(2)] stored_Some)
  then show ?thesis by (auto simp: all(2) split: option.splits)
qed

lemma db_list_zones_Inr:
  assumes "db_list_zones f ms = Inr zs" "table_ok (ms_zones ms)" "z \<in> set zs"
  shows "\<exists>n. stored (ms_zones ms) n = Some z"
proof -
  obtain k where "(k, Some z) \<in> set (ms_zones ms)"
    using assms(1,3) by (auto simp: db_list_zones_def db_fault_def List.map_filter_def split: option.splits)
  then show ?thesis using assms(2) by (auto simp: stored_Some table_ok_map_of)
qed

subsection \<open>Every operation keeps the invariant\<close>

lemma registry_inv_backend [simp]: "registry_inv (r\<lparr>zr_backend := b\<rparr>) = registry_inv r"
  by (simp add: registry_inv_def)

lemma registry_inv_same_metadata: "registry_inv (r\<lparr>zr_metadata := zr_metadata r\<rparr>) = registry_inv r"
  by simp

lemma registry_put_container:
  assumes "registry_inv r" "cn_zone_id c \<in> zone_ids (ms_zones (zr_metadata r))" "put_container f c (zr_metadata r) = (x, ms)"
  shows "registry_inv (r\<lparr>zr_metadata := ms\<rparr>)"
    and "x = Inr () \<Longrightarrow> registry_inv (r\<lparr>zr_metadata := ms, zr_container_handles := table_insert (cn_id c) h (zr_container_handles r)\<rparr>)"
  using assms by (auto simp: put_container_def registry_inv_def containers_inv_put split: option.splits)

lemma stored_container:
  assumes "registry_inv r" "stored (ms_containers (zr_metadata r)) k = Some c"
  shows "cn_id c = k" "cn_zone_id c \<in> zone_ids (ms_zones (zr_metadata r))"
  using assms by (auto simp: registry_inv_def containers_inv_def)

lemma create_zone_inv:
  assumes "registry_inv r" "\<forall>h b. ib_create_zone ib \<lparr>zc_name = name, zc_zone_type = t, zc_policy = p\<rparr> (zr_backend r) = (Inr h, b) \<longrightarrow>
      zh_id h \<notin> zone_ids (ms_zones (zr_metadata r))"
    and "registry_create_zone ib gf pf name t p r = (x, r')"
  shows "registry_inv r'"
proof (cases x)
  case (Inl e)
  then show ?thesis using assms(1,3)
    by (auto simp: registry_create_zone_def put_zone_def Let_def
      split: sum.splits option.splits prod.splits)
next
  case (Inr z)
  then obtain h b b1 where h: "db_get_zone gf name (zr_metadata r) = Inr None"
      "ib_create_zone ib \<lparr>zc_name = name, zc_zone_type = t, zc_policy = p\<rparr> (zr_backend r) = (Inr h, b)"
      "zone_name z = name" "zone_id z = zh_id h"
      "r' = r\<lparr>zr_backend := b1, zr_metadata := (zr_metadata r)\<lparr>ms_zones := table_insert name (Some z) (ms_zones (zr_metadata r))\<rparr>,
        zr_handles := table_insert name h (zr_handles r)\<rparr>"
    using assms(3)
    by (auto simp: registry_create_zone_def put_zone_def Let_def split: sum.splits option.splits prod.splits)
  let ?zs = "ms_zones (zr_metadata r)"
  have none: "stored ?zs name = None" using db_get_zone_Inr [OF h(1)] by simp
  have fresh: "zone_id z \<notin> zone_ids ?zs" using assms(2) h(2,4) by simp
  have "zones_inv (table_insert name (Some z) ?zs) (table_insert name h (zr_handles r))"
    using zones_inv_new [OF _ none h(3) fresh] assms(1) h(4) by (simp add: registry_inv_def)
  moreover have "containers_inv (zone_ids (table_insert name (Some z) ?zs)) (ms_containers (zr_metadata r)) (zr_container_handles r)"
    using containers_inv_mono [OF _ zone_ids_new [OF none]] assms(1) by (simp add: registry_inv_def)
  ultimately show ?thesis by (simp add: h(5) registry_inv_def)
qed

lemma drop_containers_inv:
  assumes "registry_inv r" "drop_containers lf df cs r = (x, r')"
  shows "registry_inv r' \<and> ms_zones (zr_metadata r') = ms_zones (zr_metadata r) \<and> zr_handles r' = zr_handles r \<and>
    (\<forall>k c. stored (ms_containers (zr_metadata r')) k = Some c \<longrightarrow> stored (ms_containers (zr_metadata r)) k = Some c) \<and>
    (x = Inr () \<longrightarrow> (\<forall>c \<in> set cs. stored (ms_containers (zr_metadata r')) (cn_id c) = None))"
  using assms
proof (induction cs arbitrary: r)
  case (Cons c cs)
  show ?case
  proof (cases "lf (cn_id c) = None \<and> df (cn_id c) = None")
    case True
    let ?r1 = "r\<lparr>zr_metadata := (zr_metadata r)\<lparr>ms_containers := table_remove (cn_id c) (ms_containers (zr_metadata r))\<rparr>,
      zr_container_handles := table_remove (cn_id c) (zr_container_handles r)\<rparr>"
    have "registry_inv ?r1" using Cons.prems(1) containers_inv_remove(1) by (simp add: registry_inv_def)
    moreover have "drop_containers lf df cs ?r1 = (x, r')"
      using Cons.prems(2) True by (simp add: db_delete_container_def)
    ultimately have ih: "registry_inv r' \<and> ms_zones (zr_metadata r') = ms_zones (zr_metadata ?r1) \<and> zr_handles r' = zr_handles ?r1 \<and>
        (\<forall>k d. stored (ms_containers (zr_metadata r')) k = Some d \<longrightarrow> stored (ms_containers (zr_metadata ?r1)) k = Some d) \<and>
        (x = Inr () \<longrightarrow> (\<forall>d \<in> set cs. stored (ms_containers (zr_metadata r')) (cn_id d) = None))"
      by (rule Cons.IH)
    have sub: "stored (ms_containers (zr_metadata r)) k = Some d \<and> k \<noteq> cn_id c"
      if "stored (ms_containers (zr_metadata r')) k = Some d" for k d
    proof -
      have "stored (ms_containers (zr_metadata ?r1)) k = Some d" using ih that by blast
      then show ?thesis by (simp add: table_simps split: if_splits)
    qed
    then have "stored (ms_containers (zr_metadata r')) (cn_id c) = None" by (cases "stored (ms_containers (zr_metadata r')) (cn_id c)") auto
    with ih sub show ?thesis by auto
  next
    case False
    then have "r' = r \<and> x \<noteq> Inr ()"
      using Cons.prems(2) by (auto simp: db_delete_container_def split: option.splits)
    then show ?thesis using Cons.prems(1) by auto
  qed
qed simp

lemma delete_zone_inv:
  assumes "registry_inv r" "registry_delete_zone ib f name force r = (x, r')"
  shows "registry_inv r'"
proof (cases "\<exists>b. r' = r\<lparr>zr_backend := b\<rparr>")
  case True
  with assms(1) show ?thesis by auto
next
  case False
  have "r = r\<lparr>zr_backend := zr_backend r\<rparr>" by simp
  with False have "r' \<noteq> r" by metis
  with False assms(2) obtain zone h cs b y r1 where
      z: "db_get_zone (df_get f) name (zr_metadata r) = Inr (Some zone)"
    and cs: "db_list_containers (df_list f) (Some (zone_id zone)) (zr_metadata r) = Inr cs"
    and dr: "drop_containers (df_log f) (df_container f) cs (r\<lparr>zr_backend := b\<rparr>) = (y, r1)"
    and out: "y = Inr () \<and> df_zone f = None \<and> r' = r1\<lparr>zr_metadata := (zr_metadata r1)\<lparr>ms_zones := table_remove name (ms_zones (zr_metadata r1))\<rparr>,
        zr_handles := table_remove name (zr_handles r1)\<rparr> \<or> r' = r1"
    by (auto simp: registry_delete_zone_def db_delete_zone_def result_simps Let_def
      split: sum.splits option.splits prod.splits if_splits)
  let ?zs = "ms_zones (zr_metadata r)"
  have d: "registry_inv r1" "ms_zones (zr_metadata r1) = ?zs"
      "\<forall>k c. stored (ms_containers (zr_metadata r1)) k = Some c \<longrightarrow> stored (ms_containers (zr_metadata r)) k = Some c"
      "y = Inr () \<Longrightarrow> c \<in> set cs \<Longrightarrow> stored (ms_containers (zr_metadata r1)) (cn_id c) = None" for c
    using drop_containers_inv [OF _ dr] assms(1) by auto
  have st: "stored ?zs name = Some zone" using db_get_zone_Inr [OF z] by simp
  show ?thesis
  proof (cases "r' = r1")
    case False
    then have y: "y = Inr ()" and r': "r' = r1\<lparr>zr_metadata := (zr_metadata r1)\<lparr>ms_zones := table_remove name ?zs\<rparr>,
        zr_handles := table_remove name (zr_handles r1)\<rparr>" using out d(2) by auto
    have "cn_zone_id c \<noteq> zone_id zone" if c: "stored (ms_containers (zr_metadata r1)) k = Some c" for k c
    proof
      assume "cn_zone_id c = zone_id zone"
      moreover have "table_ok (ms_containers (zr_metadata r))" using assms(1) by (simp add: registry_inv_def containers_inv_def)
      moreover have "stored (ms_containers (zr_metadata r)) k = Some c" using d(3) c by blast
      ultimately have "c \<in> set cs" using db_list_containers_Inr [OF cs] by blast
      then show False using d(4) [OF y \<open>c \<in> set cs\<close>] stored_container(1) [OF d(1) c] c by simp
    qed
    moreover have "zones_inv ?zs (zr_handles r1)" using d(1,2) by (simp add: registry_inv_def)
    ultimately have "containers_inv (zone_ids (table_remove name ?zs)) (ms_containers (zr_metadata r1)) (zr_container_handles r1)"
      using containers_inv_ids [OF _ _ zone_ids_remove [OF _ st]] d(1,2) by (auto simp: registry_inv_def)
    then show ?thesis
      using zones_inv_remove d(1,2) by (simp add: r' registry_inv_def)
  qed (simp add: d(1))
qed

lemma apply_policy_inv:
  assumes "registry_inv r" "apply_policy ib gf pf name p r = (x, r')"
  shows "registry_inv r'"
proof (cases "\<exists>b. r' = r\<lparr>zr_backend := b\<rparr>")
  case True
  with assms(1) show ?thesis by auto
next
  case False
  have "r = r\<lparr>zr_backend := zr_backend r\<rparr>" by simp
  with False have ne: "r' \<noteq> r" by metis
  obtain zone b where z: "registry_get_zone gf name r = Inr zone"
      "r' = r\<lparr>zr_backend := b, zr_metadata := snd (put_zone pf (zone\<lparr>zone_policy := p\<rparr>) (zr_metadata r))\<rparr>"
    using assms(2) False ne
    by (auto simp: apply_policy_def apply_policy_to_def Let_def
      split: sum.splits option.splits prod.splits RauhaError.splits)
  let ?zs = "ms_zones (zr_metadata r)"
  have st: "stored ?zs name = Some zone" using registry_get_zone_Inr [OF z(1)] .
  have n: "zone_name zone = name" using zones_invD(2) st assms(1) by (auto simp: registry_inv_def)
  have "zones_inv (table_insert name (Some (zone\<lparr>zone_policy := p\<rparr>)) ?zs) (zr_handles r)"
    using zones_inv_update [OF _ st, of "zr_handles r" "zone\<lparr>zone_policy := p\<rparr>"] assms(1) n by (simp add: registry_inv_def)
  moreover have "zone_ids (table_insert name (Some (zone\<lparr>zone_policy := p\<rparr>)) ?zs) = zone_ids ?zs"
    using zone_ids_update [OF st] by simp
  ultimately show ?thesis using assms(1) n by (auto simp: z(2) put_zone_def registry_inv_def split: option.splits)
qed

lemma create_container_inv:
  assumes "registry_inv r" "registry_create_container ib gf pf now layers name spec r = (x, r')"
  shows "registry_inv r'"
proof (cases "\<exists>b. r' = r\<lparr>zr_backend := b\<rparr>")
  case True
  with assms(1) show ?thesis by auto
next
  case False
  have "r = r\<lparr>zr_backend := zr_backend r\<rparr>" by simp
  with False have ne: "r' \<noteq> r" by metis
  obtain zone sp ch b where z: "registry_get_zone gf name r = Inr zone"
      "r' = r\<lparr>zr_backend := b, zr_metadata := (zr_metadata r)\<lparr>ms_containers :=
          table_insert (cn_id (new_container now zone sp ch)) (Some (new_container now zone sp ch)) (ms_containers (zr_metadata r))\<rparr>,
        zr_container_handles := table_insert (ch_id ch) ch (zr_container_handles r)\<rparr>"
    using assms(2) False ne
    by (auto simp: registry_create_container_def create_container_in_def put_container_def Let_def
      split: sum.splits option.splits prod.splits)
  let ?c = "new_container now zone sp ch"
  have "cn_zone_id ?c \<in> zone_ids (ms_zones (zr_metadata r))" "cn_id ?c = ch_id ch"
    using zone_idsI [OF registry_get_zone_Inr [OF z(1)]] by (simp_all add: new_container_def)
  then show ?thesis
    using containers_inv_put(2) [of _ _ _ ?c ch] assms(1) by (simp add: z(2) registry_inv_def)
qed

text \<open>Rewriting a stored container under its own identifier and zone.\<close>

lemma rewrite_container_inv:
  assumes "registry_inv r" "stored (ms_containers (zr_metadata r)) k = Some c"
    and "cn_id c' = cn_id c" "cn_zone_id c' = cn_zone_id c"
  shows "registry_inv (r\<lparr>zr_metadata := snd (put_container f c' (zr_metadata r))\<rparr>)"
  using registry_put_container(1) [OF assms(1), of c' f] stored_container [OF assms(1,2)] assms(3,4)
  by (metis prod.collapse)

lemma registry_inv_handle:
  assumes "registry_inv r" "map_of (ms_containers (zr_metadata r)) k \<noteq> None"
  shows "registry_inv (r\<lparr>zr_container_handles := table_insert k h (zr_container_handles r)\<rparr>)"
  using containers_inv_handle assms by (simp add: registry_inv_def)

lemma start_container_inv:
  assumes "registry_inv r" "registry_start_container ib gf pf now cid r = (x, r')"
  shows "registry_inv r'"
proof (cases "\<exists>b. r' = r\<lparr>zr_backend := b\<rparr>")
  case True
  with assms(1) show ?thesis by auto
next
  case False
  have "r = r\<lparr>zr_backend := zr_backend r\<rparr>" by simp
  with False have ne: "r' \<noteq> r" by metis
  obtain c h pid b where z: "known_container gf cid r = Inr (c, h)"
    and r': "r' = r\<lparr>zr_backend := b, zr_metadata := snd (put_container pf (c\<lparr>cn_state := ContainerRunning, cn_started_at := Some now, cn_pid := Some pid\<rparr>) (zr_metadata r))\<rparr> \<or>
        pf = None \<and> r' = r\<lparr>zr_backend := b, zr_metadata := snd (put_container pf (c\<lparr>cn_state := ContainerRunning, cn_started_at := Some now, cn_pid := Some pid\<rparr>) (zr_metadata r)),
          zr_container_handles := table_insert cid (h\<lparr>ch_pid := pid\<rparr>) (zr_container_handles r)\<rparr>"
    using assms(2) False ne
    by (auto simp: registry_start_container_def put_container_def split: sum.splits option.splits prod.splits)
  have st: "stored (ms_containers (zr_metadata r)) cid = Some c" using known_container_Inr [OF z] by simp
  let ?c = "c\<lparr>cn_state := ContainerRunning, cn_started_at := Some now, cn_pid := Some pid\<rparr>"
  let ?r1 = "r\<lparr>zr_metadata := snd (put_container pf ?c (zr_metadata r))\<rparr>"
  have r1: "registry_inv ?r1" by (rule rewrite_container_inv [OF assms(1) st]) simp_all
  have "map_of (ms_containers (zr_metadata ?r1)) cid \<noteq> None"
    using st by (auto simp: put_container_def table_simps stored_Some split: option.splits)
  then have "registry_inv (?r1\<lparr>zr_container_handles := table_insert cid (h\<lparr>ch_pid := pid\<rparr>) (zr_container_handles ?r1)\<rparr>)"
    by (rule registry_inv_handle [OF r1])
  with r1 r' show ?thesis by (auto simp: registry_inv_def)
qed

lemma stop_container_inv:
  assumes "registry_inv r" "registry_stop_container ib gf pf now cid r = (x, r')"
  shows "registry_inv r'"
proof (cases "\<exists>b. r' = r\<lparr>zr_backend := b\<rparr>")
  case True
  with assms(1) show ?thesis by auto
next
  case False
  have "r = r\<lparr>zr_backend := zr_backend r\<rparr>" by simp
  with False have ne: "r' \<noteq> r" by metis
  obtain c h b where z: "known_container gf cid r = Inr (c, h)"
    "r' = r\<lparr>zr_backend := b, zr_metadata := snd (put_container pf (c\<lparr>cn_state := ContainerStopped, cn_finished_at := Some now\<rparr>) (zr_metadata r))\<rparr>"
    using assms(2) False ne
    by (auto simp: registry_stop_container_def Let_def split: sum.splits prod.splits)
  have "registry_inv (r\<lparr>zr_metadata := snd (put_container pf (c\<lparr>cn_state := ContainerStopped, cn_finished_at := Some now\<rparr>) (zr_metadata r))\<rparr>)"
    by (rule rewrite_container_inv [OF assms(1)]) (use known_container_Inr [OF z(1)] in auto)
  then show ?thesis by (simp add: z(2) registry_inv_def)
qed

lemma delete_container_inv:
  assumes "registry_inv r" "registry_delete_container ib fs sd lf df now cid force r = (x, r')"
  shows "registry_inv r'"
proof -
  have drop: "registry_inv (q\<lparr>zr_metadata := snd (db_delete_container df cid (zr_metadata q)),
      zr_container_handles := table_remove cid (zr_container_handles q)\<rparr>)" if "registry_inv q" for q :: "'a ZoneRegistry"
    using that containers_inv_remove by (auto simp: db_delete_container_def registry_inv_def split: option.splits)
  have stop: "registry_inv q" if "registry_stop_container ib None f now cid r = (y, q)" for f y q
    using stop_container_inv [OF assms(1) that] .
  show ?thesis
    using assms drop stop
    by (auto simp: registry_delete_container_def Let_def split: sum.splits prod.splits option.splits if_splits) (metis snd_conv)+
qed

lemma reap_inv:
  assumes "registry_inv r" "stored (ms_containers (zr_metadata r)) k = Some c" "maybe_reap_container dead f now c r = (c', r')"
  shows "registry_inv r'"
proof (cases "r' = r")
  case False
  then have "r' = r\<lparr>zr_metadata := snd (put_container f (c\<lparr>cn_state := ContainerStopped, cn_finished_at := Some now\<rparr>) (zr_metadata r))\<rparr>"
    using assms(3) by (auto simp: maybe_reap_container_def Let_def split: option.splits if_splits)
  then show ?thesis using rewrite_container_inv [OF assms(1,2)] by simp
qed (simp add: assms(1))

lemma get_container_inv:
  assumes "registry_inv r" "registry_get_container dead f pf now cid r = (x, r')"
  shows "registry_inv r'"
  using assms reap_inv [OF assms(1)]
  by (auto simp: registry_get_container_def result_simps Let_def dest!: db_get_container_Inr split: sum.splits prod.splits)

lemma reap_in_zone:
  assumes "registry_inv r" "cn_zone_id c \<in> zone_ids (ms_zones (zr_metadata r))" "maybe_reap_container dead f now c r = (c', r')"
  shows "registry_inv r' \<and> ms_zones (zr_metadata r') = ms_zones (zr_metadata r)"
proof (cases "r' = r")
  case False
  let ?c = "c\<lparr>cn_state := ContainerStopped, cn_finished_at := Some now\<rparr>"
  have r': "r' = r\<lparr>zr_metadata := snd (put_container f ?c (zr_metadata r))\<rparr>"
    using False assms(3) by (auto simp: maybe_reap_container_def Let_def split: option.splits if_splits)
  obtain x ms where p: "put_container f ?c (zr_metadata r) = (x, ms)" by fastforce
  have "registry_inv r'" using registry_put_container(1) [OF assms(1) _ p] assms(2) by (simp add: r' p)
  moreover have "ms_zones (zr_metadata r') = ms_zones (zr_metadata r)"
    by (auto simp: r' put_container_def split: option.splits)
  ultimately show ?thesis by simp
qed (simp add: assms(1))

lemma reap_all_inv:
  "registry_inv r \<Longrightarrow> \<forall>c \<in> set cs. cn_zone_id c \<in> zone_ids (ms_zones (zr_metadata r)) \<Longrightarrow>
    reap_all dead f now cs r = (cs', r') \<Longrightarrow> registry_inv r'"
proof (induction cs arbitrary: r cs')
  case (Cons c cs)
  obtain d r1 where d: "maybe_reap_container dead f now c r = (d, r1)" by fastforce
  obtain ds where ds: "reap_all dead f now cs r1 = (ds, r')" using Cons.prems(3) d by (auto simp: Let_def split: prod.splits)
  from reap_in_zone [OF Cons.prems(1) _ d] Cons.prems(2)
  have "registry_inv r1" "\<forall>c \<in> set cs. cn_zone_id c \<in> zone_ids (ms_zones (zr_metadata r1))" by auto
  from Cons.IH [OF this ds] show ?case .
qed simp

lemma list_containers_inv:
  assumes "registry_inv r" "registry_list_containers dead f pf now name r = (x, r')"
  shows "registry_inv r'"
proof (cases "r' = r")
  case False
  then obtain zid cs cs' where cs: "db_list_containers f zid (zr_metadata r) = Inr cs" "reap_all dead pf now cs r = (cs', r')"
    using assms(2)
    by (auto simp: registry_list_containers_def result_simps Let_def split: sum.splits option.splits prod.splits)
  have "cn_zone_id c \<in> zone_ids (ms_zones (zr_metadata r))" if "c \<in> set cs" for c
    using db_list_containers_Inr [OF cs(1)] that assms(1) stored_container(2) [OF assms(1)]
    by (auto simp: registry_inv_def containers_inv_def)
  then show ?thesis using reap_all_inv [OF assms(1) _ cs(2)] by blast
qed (simp add: assms(1))

lemma container_state_inv:
  assumes "registry_inv r" "get_container_state gf pf now dbg resp cid r = (x, r')"
  shows "registry_inv r'"
proof (cases "r' = r")
  case False
  then obtain c t e where c: "db_get_container gf cid (zr_metadata r) = Inr (Some c)"
      "r' = r\<lparr>zr_metadata := (zr_metadata r)\<lparr>ms_containers := table_insert (cn_id c)
        (Some (c\<lparr>cn_state := ContainerStopped, cn_finished_at := t, cn_exit_code := e\<rparr>)) (ms_containers (zr_metadata r))\<rparr>\<rparr>"
    using assms(2)
    by (auto simp: get_container_state_def result_simps put_container_def
      split: sum.splits option.splits prod.splits ShimResponse.splits if_splits)
  let ?c = "c\<lparr>cn_state := ContainerStopped, cn_finished_at := t, cn_exit_code := e\<rparr>"
  have "registry_inv (r\<lparr>zr_metadata := snd (put_container None ?c (zr_metadata r))\<rparr>)"
    by (rule rewrite_container_inv [OF assms(1) db_get_container_Inr [OF c(1)]]) simp_all
  then show ?thesis by (simp add: c(2) put_container_def)
qed (simp add: assms(1))

lemma recovered_containers_inv:
  assumes "containers_inv ids t chs" "\<forall>c \<in> set cs. map_of t (cn_id c) \<noteq> None"
  shows "containers_inv ids t (recovered_containers cs chs)"
  using assms
  by (induction cs arbitrary: chs) (auto simp: recovered_containers_def intro: containers_inv_handle)

lemma reconcile_zones_inv:
  assumes "registry_inv r" "\<forall>z \<in> set zs. \<exists>n. stored (ms_zones (zr_metadata r)) n = Some z"
    and "reconcile_zones ib cg cf zs r = (x, r')"
  shows "registry_inv r'"
  using assms
proof (induction zs arbitrary: r)
  case (Cons z zs)
  obtain y b where rec: "ib_recover_zone ib (zone_handle z) (zone_type z) (zone_policy z) (zr_backend r) = (y, b)" by fastforce
  obtain n where n: "stored (ms_zones (zr_metadata r)) n = Some z" using Cons.prems(2) by auto
  then have name: "n = zone_name z" using zones_invD(2) Cons.prems(1) by (auto simp: registry_inv_def)
  show ?case
  proof (cases y)
    case (Inl e)
    then show ?thesis using Cons.IH [of "r\<lparr>zr_backend := b\<rparr>"] Cons.prems rec by simp
  next
    case (Inr u)
    let ?h = "case cg (zone_name z) of Some c \<Rightarrow> (zone_handle z)\<lparr>zh_platform_id := c\<rparr> | None \<Rightarrow> zone_handle z"
    let ?r1 = "r\<lparr>zr_backend := b, zr_handles := table_insert (zone_name z) ?h (zr_handles r)\<rparr>"
    have "zh_id ?h = zone_id z" by (auto simp: zone_handle_def split: option.splits)
    then have r1: "registry_inv ?r1"
      using zones_inv_handle [OF _ n, of _ ?h] Cons.prems(1) by (simp add: registry_inv_def name)
    show ?thesis
    proof (cases "db_list_containers (cf z) (Some (zone_id z)) (zr_metadata r)")
      case (Inl e)
      then show ?thesis using r1 Cons.prems(3) rec Inr by (auto simp: Let_def)
    next
      case cs: (Inr cs)
      let ?r2 = "?r1\<lparr>zr_container_handles := recovered_containers cs (zr_container_handles ?r1)\<rparr>"
      have "map_of (ms_containers (zr_metadata r)) (cn_id c) \<noteq> None" if "c \<in> set cs" for c
        using db_list_containers_Inr [OF cs] that Cons.prems(1) stored_container(1) [OF Cons.prems(1)]
        by (fastforce simp: registry_inv_def containers_inv_def stored_Some)
      then have "registry_inv ?r2" using r1 recovered_containers_inv by (simp add: registry_inv_def)
      moreover have "reconcile_zones ib cg cf zs ?r2 = (x, r')" using Cons.prems(3) rec Inr cs by (simp add: Let_def)
      ultimately show ?thesis using Cons.IH [of ?r2] Cons.prems(2) by simp
    qed
  qed
qed simp

lemma reconcile_inv:
  assumes "registry_inv r" "reconcile ib cg f cf r = (x, r')"
  shows "registry_inv r'"
proof (cases "db_list_zones f (zr_metadata r)")
  case (Inl e)
  then show ?thesis using assms by (simp add: reconcile_def)
next
  case (Inr zs)
  obtain y r1 where rz: "reconcile_zones ib cg cf zs r = (y, r1)" by fastforce
  have "\<forall>z \<in> set zs. \<exists>n. stored (ms_zones (zr_metadata r)) n = Some z"
    using db_list_zones_Inr [OF Inr] assms(1) by (auto simp: registry_inv_def zones_inv_def)
  from reconcile_zones_inv [OF assms(1) this rz] have "registry_inv r1" .
  then show ?thesis
    using assms Inr rz
    by (cases zs; cases y) (auto simp: reconcile_def Let_def simp del: reconcile_zones.simps split: prod.splits)
qed

subsection \<open>Histories of the registry\<close>

text \<open>
  One step is one operation, run to its end. A new zone's identifier is not in use: the backend draws
  a random UUID.
\<close>

inductive registry_step :: "'b IsolationBackend \<Rightarrow> 'b ZoneRegistry \<Rightarrow> 'b ZoneRegistry \<Rightarrow> bool" for ib where
  create_zone: "registry_create_zone ib gf pf name t p r = (z, r') \<Longrightarrow>
    (\<forall>h b. ib_create_zone ib \<lparr>zc_name = name, zc_zone_type = t, zc_policy = p\<rparr> (zr_backend r) = (Inr h, b) \<longrightarrow>
      zh_id h \<notin> zone_ids (ms_zones (zr_metadata r))) \<Longrightarrow> registry_step ib r r'"
| delete_zone: "registry_delete_zone ib fs name force r = (u, r') \<Longrightarrow> registry_step ib r r'"
| apply_policy: "apply_policy ib gf pf name p r = (u, r') \<Longrightarrow> registry_step ib r r'"
| create_container: "registry_create_container ib gf pf now layers name spec r = (c, r') \<Longrightarrow> registry_step ib r r'"
| start_container: "registry_start_container ib gf pf now cid r = (u, r') \<Longrightarrow> registry_step ib r r'"
| stop_container: "registry_stop_container ib gf pf now cid r = (u, r') \<Longrightarrow> registry_step ib r r'"
| delete_container: "registry_delete_container ib fs' sd lf df now cid force r = (u, r') \<Longrightarrow> registry_step ib r r'"
| container_state: "get_container_state gf pf now dbg resp cid r = (s, r') \<Longrightarrow> registry_step ib r r'"
| get_container: "registry_get_container dead gf pf now cid r = (c, r') \<Longrightarrow> registry_step ib r r'"
| list_containers: "registry_list_containers dead gf pf now zn r = (cs, r') \<Longrightarrow> registry_step ib r r'"
| restart: "reconcile ib cg gf cf (new_registry (zr_metadata r) b) = (u, r') \<Longrightarrow> registry_step ib r r'"

lemma registry_step_inv: "registry_step ib r r' \<Longrightarrow> registry_inv r \<Longrightarrow> registry_inv r'"
proof (induction rule: registry_step.induct)
  case (restart cg gf cf r b u r')
  then have "registry_inv (new_registry (zr_metadata r) b)"
    by (auto simp: registry_inv_def new_registry_def zones_inv_def containers_inv_def)
  with restart.hyps show ?case by (blast intro: reconcile_inv)
qed (blast intro: create_zone_inv delete_zone_inv apply_policy_inv create_container_inv start_container_inv
    stop_container_inv delete_container_inv container_state_inv get_container_inv list_containers_inv)+

text \<open>C12: whatever operations run to their end, in any order, with any database, log, shim or backend
  error and with daemon restarts in between: zones are stored under their names with distinct
  identifiers, each cached zone handle belongs to the stored zone of that name, every stored
  container belongs to a stored zone, and only stored containers have handles.\<close>

theorem registry_stays_consistent:
  assumes "(registry_step ib)\<^sup>*\<^sup>* (new_registry empty_store b) r"
  shows "zones_inv (ms_zones (zr_metadata r)) (zr_handles r) \<and>
    containers_inv (zone_ids (ms_zones (zr_metadata r))) (ms_containers (zr_metadata r)) (zr_container_handles r)"
proof -
  have "registry_inv (new_registry empty_store b)"
    by (simp add: registry_inv_def zones_inv_def containers_inv_def new_registry_def empty_store_def stored_def table_ok_def)
  with assms have "registry_inv r" by (induction rule: rtranclp_induct) (auto intro: registry_step_inv)
  then show ?thesis by (simp add: registry_inv_def)
qed

text \<open>A backend that succeeds and numbers what it creates.\<close>

definition demo_backend :: "nat IsolationBackend" where
  "demo_backend =
    \<lparr>ib_create_zone = (\<lambda>cfg n. (Inr \<lparr>zh_id = dec n, zh_name = zc_name cfg, zh_platform_id = 0, zh_network_state = None\<rparr>, Suc n)),
     ib_destroy_zone = (\<lambda>h n. (Inr (), n)), ib_enforce_policy = (\<lambda>h p n. (Inr (), n)),
     ib_hot_reload_policy = (\<lambda>h p n. (Inr (), n)),
     ib_create_container = (\<lambda>h spec n. (Inr \<lparr>ch_id = dec n, ch_zone_id = zh_id h, ch_pid = 0, ch_platform_id = 0\<rparr>, Suc n)),
     ib_start_container = (\<lambda>h n. (Inr 1, n)), ib_stop_container = (\<lambda>h n. (Inr (), n)),
     ib_zone_stats = (\<lambda>h n. Inr \<lparr>zs_memory_limit_bytes = 0, zs_memory_usage_bytes = 0\<rparr>),
     ib_recover_zone = (\<lambda>h t p n. (Inr (), n)), ib_cleanup_orphans = (\<lambda>hs n. (Inr (), n))\<rparr>"

definition demo_zone :: "nat \<Rightarrow> Zone" where
  "demo_zone n = \<lparr>zone_id = dec n, zone_name = ''a'', zone_type = NonGlobal, zone_state = Ready,
     zone_policy = ZonePolicy_default, zone_network_state = None\<rparr>"

definition demo_registry :: "nat \<Rightarrow> nat ZoneRegistry" where
  "demo_registry n =
    \<lparr>zr_metadata = empty_store\<lparr>ms_zones := [(''a'', Some (demo_zone n))]\<rparr>, zr_backend = Suc n,
     zr_handles = [(''a'', (zone_handle (demo_zone n)))], zr_container_handles = []\<rparr>"

lemma demo_create_zone:
  "registry_create_zone demo_backend None None ''a'' NonGlobal ZonePolicy_default (new_registry empty_store n) =
    (Inr (demo_zone n), demo_registry n)"
  by (simp add: registry_create_zone_def validate_zone_name_def db_get_zone_def db_fault_def new_registry_def empty_store_def
    demo_backend_def put_zone_def demo_zone_def demo_registry_def zone_handle_def Let_def)

lemma demo_step: "registry_step demo_backend (new_registry empty_store n) (demo_registry n)"
  by (rule registry_step.create_zone [OF demo_create_zone])
    (simp add: new_registry_def empty_store_def zone_ids_def stored_def)

theorem registry_stays_consistent_witness:
  "(registry_step demo_backend)\<^sup>*\<^sup>* (new_registry empty_store 0) (demo_registry 0) \<and>
   zones_inv [(''a'', Some (demo_zone 0))] [(''a'', zone_handle (demo_zone 0))]"
proof -
  have run: "(registry_step demo_backend)\<^sup>*\<^sup>* (new_registry empty_store 0) (demo_registry 0)" using demo_step by blast
  then show ?thesis using registry_stays_consistent [OF run] by (simp add: demo_registry_def)
qed

subsection \<open>Lookups that go stale\<close>

definition demo_faults :: delete_faults where
  "demo_faults = \<lparr>df_get = None, df_list = None, df_log = (\<lambda>_. None), df_container = (\<lambda>_. None), df_zone = None\<rparr>"

definition demo_spec :: ContainerSpec where
  "demo_spec = \<lparr>cs_name = ''c'', cs_image = [], cs_command = [], cs_env = [], cs_working_dir = None,
     cs_rootfs_path = None, cs_overlay_layers = None\<rparr>"

text \<open>Deleting and creating zone \<open>a\<close> while another operation still holds what it looked up.\<close>

definition recreated :: "nat ZoneRegistry \<Rightarrow> nat ZoneRegistry" where
  "recreated r = snd (registry_create_zone demo_backend None None ''a'' NonGlobal ZonePolicy_default
     (snd (registry_delete_zone demo_backend demo_faults ''a'' False r)))"

lemma recreated_demo: "recreated (demo_registry n) = demo_registry (Suc n)"
proof -
  have "registry_delete_zone demo_backend demo_faults ''a'' False (demo_registry n) = (Inr (), new_registry empty_store (Suc n))"
    by (simp add: registry_delete_zone_def demo_faults_def demo_registry_def db_get_zone_def db_fault_def empty_store_def
      db_list_containers_def demo_backend_def db_delete_zone_def table_remove_def new_registry_def Let_def)
  then show ?thesis by (simp add: recreated_def demo_create_zone)
qed

lemma demo_dec: "dec 0 = ''0''" "dec (Suc 0) = ''1''" "dec (Suc (Suc 0)) = ''2''"
  by (simp_all add: dec.simps digit_char_def char_of_def bit_iff_odd)

text \<open>\<open>create_container\<close> and \<open>apply_policy\<close> look the zone up before they take the handle lock. If the zone
  is deleted and created again in between, the first stores a container that belongs to no zone,
  although its process runs in the new one, and the second overwrites the new zone's record with
  the old identifier, which the new handle does not have.\<close>

lemma stale_lookup_breaks_consistency:
  "registry_get_zone None ''a'' (demo_registry 0) = Inr (demo_zone 0) \<and>
   (let r = snd (create_container_in demo_backend None 0 (Inr []) ''a'' demo_spec (demo_zone 0) (recreated (demo_registry 0)))
    in \<not> containers_inv (zone_ids (ms_zones (zr_metadata r))) (ms_containers (zr_metadata r)) (zr_container_handles r)) \<and>
   (let r = snd (apply_policy_to demo_backend None ''a'' ZonePolicy_default (demo_zone 0) (recreated (demo_registry 0)))
    in \<not> zones_inv (ms_zones (zr_metadata r)) (zr_handles r))"
proof (intro conjI)
  show "registry_get_zone None ''a'' (demo_registry 0) = Inr (demo_zone 0)"
    by (simp add: registry_get_zone_def db_get_zone_def db_fault_def demo_registry_def)
  let ?r = "snd (create_container_in demo_backend None 0 (Inr []) ''a'' demo_spec (demo_zone 0) (recreated (demo_registry 0)))"
  have tables: "ms_zones (zr_metadata ?r) = [(''a'', Some (demo_zone 1))]"
      "\<exists>c. ms_containers (zr_metadata ?r) = [(''2'', Some c)] \<and> cn_zone_id c = ''0''"
    unfolding recreated_demo
    by (simp_all add: create_container_in_def demo_registry_def demo_spec_def demo_backend_def put_container_def
      empty_store_def new_container_def demo_zone_def zone_handle_def demo_dec Let_def)
  have "zone_ids (ms_zones (zr_metadata ?r)) = {''1''}"
    unfolding tables by (auto simp: zone_ids_def stored_def demo_zone_def demo_dec split: if_splits)
  with tables(2) show "let r = ?r in \<not> containers_inv (zone_ids (ms_zones (zr_metadata r))) (ms_containers (zr_metadata r)) (zr_container_handles r)"
    by (auto simp: Let_def containers_inv_def stored_def)
  let ?q = "snd (apply_policy_to demo_backend None ''a'' ZonePolicy_default (demo_zone 0) (recreated (demo_registry 0)))"
  have q: "ms_zones (zr_metadata ?q) = [(''a'', Some (demo_zone 0))]" "zr_handles ?q = [(''a'', zone_handle (demo_zone 1))]"
    unfolding recreated_demo
    by (simp_all add: apply_policy_to_def demo_registry_def demo_backend_def put_zone_def empty_store_def demo_zone_def Let_def)
  have "\<not> zones_inv (ms_zones (zr_metadata ?q)) (zr_handles ?q)"
  proof
    assume "zones_inv (ms_zones (zr_metadata ?q)) (zr_handles ?q)"
    from zones_invD(4) [OF this, of "''a''" "zone_handle (demo_zone 1)"] show False
      unfolding q by (simp add: stored_def demo_zone_def zone_handle_def demo_dec)
  qed
  then show "let r = ?q in \<not> zones_inv (ms_zones (zr_metadata r)) (zr_handles r)" by (simp add: Let_def)
qed

end
