(* ===== verification/Oci_Reference.thy ===== *)
theory Oci_Reference
  imports Rauha_Prelude
begin

text \<open>
  Image references (\<open>rauha-oci/src/reference.rs\<close>): the parser of Docker and OCI reference strings and
  the canonical form under which images are stored.
\<close>

record ImageReference =
  ir_registry :: string
  ir_repository :: string
  ir_tag :: string
  ir_digest :: "string option"

text \<open>The three splits of \<open>ImageReference::parse\<close>: the digest, the tag and the registry.\<close>

definition split_digest :: "string \<Rightarrow> string + string \<times> string option" where
  "split_digest input =
    (case find_str input ''@'' of
       Some at_pos \<Rightarrow>
         let digest = drop (at_pos + 1) input in
         if \<not> starts_with digest ''sha256:'' then Inl (''unsupported digest algorithm: '' @ digest)
         else Inr (take at_pos input, Some digest)
     | None \<Rightarrow> Inr (input, None))"

definition split_tag :: "string \<Rightarrow> string \<times> string" where
  "split_tag name_tag =
    (case rfind_str name_tag '':'' of
       Some colon_pos \<Rightarrow>
         let last_slash = (case rfind_str name_tag ''/'' of Some n \<Rightarrow> n | None \<Rightarrow> 0) in
         if colon_pos > last_slash
         then (take colon_pos name_tag, drop (colon_pos + 1) name_tag)
         else (name_tag, ''latest'')
     | None \<Rightarrow> (name_tag, ''latest''))"

definition split_registry :: "string \<Rightarrow> string \<times> string" where
  "split_registry name =
    (let (registry, repository) =
           (case find_str name ''/'' of
              Some slash_pos \<Rightarrow>
                let first_part = take slash_pos name in
                if CHR ''.'' \<in> set first_part \<or> CHR '':'' \<in> set first_part \<or> first_part = ''localhost''
                then (first_part, drop (slash_pos + 1) name)
                else (''registry-1.docker.io'', name)
            | None \<Rightarrow> (''registry-1.docker.io'', ''library/'' @ name))
     in (if registry = ''docker.io'' \<or> registry = ''index.docker.io''
         then ''registry-1.docker.io'' else registry, repository))"

definition ImageReference_parse :: "string \<Rightarrow> string + ImageReference" where
  "ImageReference_parse text =
    (let input = trim text in
     if input = [] then Inl ''empty image reference''
     else
       and_then (split_digest input) (\<lambda>(name_tag, digest).
         let (name, tag) = split_tag name_tag;
             (registry, repository) = split_registry name
         in Inr \<lparr>ir_registry = registry, ir_repository = repository, ir_tag = tag, ir_digest = digest\<rparr>))"

definition to_string_canonical :: "ImageReference \<Rightarrow> string" where
  "to_string_canonical r =
    (case ir_digest r of
       Some digest \<Rightarrow> ir_registry r @ ''/'' @ ir_repository r @ ''@'' @ digest
     | None \<Rightarrow> ir_registry r @ ''/'' @ ir_repository r @ '':'' @ ir_tag r)"

subsection \<open>Positions of a character\<close>

lemma find_char_None: "find_str s [c] = None \<longleftrightarrow> c \<notin> set s"
  by (induction s) (auto simp: starts_with_def)

lemma find_char_at [simp]: "c \<notin> set a \<Longrightarrow> find_str (a @ c # b) [c] = Some (length a)"
  by (induction a) (auto simp: starts_with_def)

lemma find_char_Some:
  assumes "find_str s [c] = Some n"
  obtains a b where "s = a @ c # b" "length a = n" "c \<notin> set a"
proof -
  have "c \<in> set s" using assms find_char_None [of s c] by auto
  then obtain a b where ab: "s = a @ c # b" "c \<notin> set a" by (meson split_list_first)
  then show thesis using assms that by simp
qed

lemma rfind_char_None: "rfind_str s [c] = None \<longleftrightarrow> c \<notin> set s"
  by (induction s) (auto simp: starts_with_def split: option.splits)

lemma rfind_char_at [simp]: "c \<notin> set b \<Longrightarrow> rfind_str (a @ c # b) [c] = Some (length a)"
  using rfind_char_None [of b c] by (induction a) (auto simp: starts_with_def)

lemma rfind_char_Some:
  assumes "rfind_str s [c] = Some n"
  obtains a b where "s = a @ c # b" "length a = n" "c \<notin> set b"
proof -
  have "c \<in> set s" using assms rfind_char_None [of s c] by auto
  then obtain a b where ab: "s = a @ c # b" "c \<notin> set b" by (meson split_list_last)
  then show thesis using assms that by simp
qed

lemma trim_ends:
  assumes "trim s \<noteq> []"
  shows "\<not> is_whitespace (hd (trim s)) \<and> \<not> is_whitespace (last (trim s))"
proof -
  let ?d = "dropWhile is_whitespace s" and ?r = "dropWhile is_whitespace (rev (dropWhile is_whitespace s))"
  have r: "?r \<noteq> []" using assms by (simp add: trim_def)
  then have "\<not> is_whitespace (hd ?r)" by (rule hd_dropWhile)
  then have l: "\<not> is_whitespace (last (trim s))" using r by (simp add: trim_def last_rev)
  have "rev ?d = takeWhile is_whitespace (rev ?d) @ ?r" by simp
  then have "?d = rev ?r @ rev (takeWhile is_whitespace (rev ?d))" by (metis rev_append rev_rev_ident)
  then have h: "hd (trim s) = hd ?d" using assms by (metis hd_append2 trim_def)
  have "?d \<noteq> []" using r by (metis dropWhile.simps(1) rev.simps(1))
  then show ?thesis using l h hd_dropWhile by metis
qed

subsection \<open>The shape of a parsed reference\<close>

definition ref_ok :: "ImageReference \<Rightarrow> bool" where
  "ref_ok r \<longleftrightarrow>
    CHR ''@'' \<notin> set (ir_registry r @ ir_repository r @ ir_tag r) \<and>
    CHR ''/'' \<notin> set (ir_registry r) \<and>
    (CHR ''.'' \<in> set (ir_registry r) \<or> CHR '':'' \<in> set (ir_registry r) \<or> ir_registry r = ''localhost'') \<and>
    ir_registry r \<notin> {''docker.io'', ''index.docker.io''} \<and> \<not> is_whitespace (hd (ir_registry r)) \<and>
    CHR ''/'' \<notin> set (ir_tag r) \<and> CHR '':'' \<notin> set (ir_tag r) \<and>
    (case ir_digest r of
       None \<Rightarrow> ir_tag r = [] \<or> \<not> is_whitespace (last (ir_tag r))
     | Some d \<Rightarrow> starts_with d ''sha256:'' \<and> \<not> is_whitespace (last d))"

definition last_segment :: "string \<Rightarrow> string" where
  "last_segment s = rev (takeWhile (\<lambda>c. c \<noteq> CHR ''/'') (rev s))"

lemma last_segment_slash [simp]: "last_segment (a @ CHR ''/'' # b) = last_segment b"
  by (simp add: last_segment_def takeWhile_tail)

lemma last_segment_id: "CHR ''/'' \<notin> set s \<Longrightarrow> last_segment s = s"
proof -
  assume "CHR ''/'' \<notin> set s"
  then have "takeWhile (\<lambda>c. c \<noteq> CHR ''/'') (rev s) = rev s" by (intro takeWhile_eq_all_conv [THEN iffD2]) auto
  then show ?thesis by (simp only: last_segment_def rev_rev_ident)
qed

lemma rfind_slash_before:
  assumes "CHR ''/'' \<in> set a" "CHR ''/'' \<notin> set b"
  shows "\<exists>n. rfind_str (a @ b) ''/'' = Some n \<and> n < length a"
proof -
  obtain u v where "a = u @ CHR ''/'' # v" "CHR ''/'' \<notin> set v" using assms(1) by (meson split_list_last)
  then show ?thesis using assms(2) rfind_char_at [of "CHR ''/''" "v @ b" u] by simp
qed

lemma colon_after_slash:
  assumes "s = a @ CHR '':'' # b" and "case rfind_str s ''/'' of Some n \<Rightarrow> n < length a | None \<Rightarrow> True"
  shows "CHR ''/'' \<notin> set b"
proof
  assume "CHR ''/'' \<in> set b"
  then obtain u v where "b = u @ CHR ''/'' # v" "CHR ''/'' \<notin> set v" by (meson split_list_last)
  then have "rfind_str s ''/'' = Some (length (a @ CHR '':'' # u))"
    using assms(1) rfind_char_at [of "CHR ''/''" v "a @ CHR '':'' # u"] by simp
  then show False using assms(2) by simp
qed

lemma last_segment_colon:
  assumes "s = a @ CHR '':'' # b" "rfind_str s ''/'' = Some n" "n < length a"
  shows "CHR '':'' \<in> set (last_segment s)"
proof -
  obtain u v where uv: "s = u @ CHR ''/'' # v" "length u = n" "CHR ''/'' \<notin> set v"
    using rfind_char_Some [OF assms(2)] by blast
  have "CHR '':'' \<in> set v"
  proof -
    have "drop (Suc n) s = drop (Suc n) a @ CHR '':'' # b" using assms by (simp add: Suc_leI)
    moreover have "drop (Suc n) s = v" using uv by simp
    ultimately show ?thesis by (metis in_set_conv_decomp)
  qed
  then show ?thesis using uv by (simp add: last_segment_id)
qed

lemma split_digest_spec:
  assumes "split_digest s = Inr (nt, d)"
  shows "CHR ''@'' \<notin> set nt \<and>
    (case d of None \<Rightarrow> nt = s | Some h \<Rightarrow> s = nt @ CHR ''@'' # h \<and> starts_with h ''sha256:'')"
proof (cases "find_str s ''@''")
  case None
  then show ?thesis using assms find_char_None [of s "CHR ''@''"] by (auto simp: split_digest_def)
next
  case (Some n)
  obtain a b where "s = a @ CHR ''@'' # b" "length a = n" "CHR ''@'' \<notin> set a"
    using find_char_Some [OF Some] by blast
  then show ?thesis using assms Some by (auto simp: split_digest_def Let_def split: if_splits)
qed

lemma split_tag_cases:
  assumes "split_tag nt = (name, tag)"
  shows "(nt = name @ CHR '':'' # tag \<and> CHR '':'' \<notin> set tag \<and> CHR ''/'' \<notin> set tag) \<or>
    (name = nt \<and> tag = ''latest'')"
proof (cases "rfind_str nt '':''")
  case None
  then show ?thesis using assms by (auto simp: split_tag_def)
next
  case (Some n)
  obtain a b where ab: "nt = a @ CHR '':'' # b" "length a = n" "CHR '':'' \<notin> set b"
    using rfind_char_Some [OF Some] by blast
  then have "case rfind_str nt ''/'' of Some k \<Rightarrow> k < length a | None \<Rightarrow> True \<Longrightarrow> CHR ''/'' \<notin> set b"
    by (intro colon_after_slash) auto
  then show ?thesis using assms Some ab
    by (auto simp: split_tag_def Let_def split: if_splits option.splits)
qed

lemma split_tag_at:
  assumes "CHR '':'' \<notin> set tag" "CHR ''/'' \<notin> set tag" "CHR ''/'' \<in> set name"
  shows "split_tag (name @ CHR '':'' # tag) = (name, tag)"
proof -
  obtain n where "rfind_str (name @ CHR '':'' # tag) ''/'' = Some n" "n < length name"
    using rfind_slash_before [of name "CHR '':'' # tag"] assms by auto
  then show ?thesis using assms(1) by (simp add: split_tag_def)
qed

lemma split_tag_none:
  assumes "CHR ''/'' \<in> set name" "CHR '':'' \<notin> set (last_segment name)"
  shows "split_tag name = (name, ''latest'')"
proof (cases "rfind_str name '':''")
  case None
  then show ?thesis by (simp add: split_tag_def)
next
  case (Some n)
  obtain a b where ab: "name = a @ CHR '':'' # b" "length a = n" using rfind_char_Some [OF Some] by blast
  obtain k where k: "rfind_str name ''/'' = Some k" using assms(1) rfind_char_None [of name "CHR ''/''"] by fastforce
  have "\<not> k < n" using last_segment_colon [OF ab(1) k] assms(2) ab(2) by blast
  then show ?thesis using Some k by (simp add: split_tag_def)
qed

lemma split_registry_spec:
  assumes "split_registry name = (reg, repo)"
  shows "CHR ''/'' \<notin> set reg \<and>
    (CHR ''.'' \<in> set reg \<or> CHR '':'' \<in> set reg \<or> reg = ''localhost'') \<and>
    reg \<notin> {''docker.io'', ''index.docker.io''}" and "set repo \<subseteq> set name \<union> set ''library/''"
    and "reg = ''registry-1.docker.io'' \<or> (\<exists>rest. name = reg @ rest)"
proof -
  have "(CHR ''/'' \<notin> set reg \<and> (CHR ''.'' \<in> set reg \<or> CHR '':'' \<in> set reg \<or> reg = ''localhost'') \<and>
      reg \<notin> {''docker.io'', ''index.docker.io''}) \<and> set repo \<subseteq> set name \<union> set ''library/'' \<and>
      (reg = ''registry-1.docker.io'' \<or> (\<exists>rest. name = reg @ rest))" (is "?A \<and> ?B \<and> ?C")
  proof (cases "find_str name ''/''")
    case None
    then show ?thesis using assms by (auto simp: split_registry_def)
  next
    case (Some n)
    obtain a b where "name = a @ CHR ''/'' # b" "length a = n" "CHR ''/'' \<notin> set a"
      using find_char_Some [OF Some] by blast
    then show ?thesis using assms Some by (auto simp: split_registry_def Let_def split: if_splits)
  qed
  then show ?A ?B ?C by simp_all
qed

lemma split_registry_at:
  assumes "CHR ''/'' \<notin> set reg" "CHR ''.'' \<in> set reg \<or> CHR '':'' \<in> set reg \<or> reg = ''localhost''"
    "reg \<notin> {''docker.io'', ''index.docker.io''}"
  shows "split_registry (reg @ CHR ''/'' # repo) = (reg, repo)"
  using assms by (simp add: split_registry_def Let_def)

lemma registry_chars:
  "CHR ''@'' \<notin> set ''registry-1.docker.io''" "CHR ''@'' \<notin> set ''library/''" "CHR ''@'' \<notin> set ''latest''"
  "CHR ''/'' \<notin> set ''latest''" "CHR '':'' \<notin> set ''latest''"
  "\<not> is_whitespace (hd ''registry-1.docker.io'')" "\<not> is_whitespace (last ''latest'')"
  by (simp_all add: is_whitespace_def)

lemma parse_ref_ok:
  assumes "ImageReference_parse s = Inr r"
  shows "ref_ok r"
proof -
  let ?i = "trim s"
  have i: "?i \<noteq> []" using assms by (auto simp: ImageReference_parse_def Let_def split: if_splits)
  obtain nt d where d: "split_digest ?i = Inr (nt, d)"
    using assms i by (auto simp: ImageReference_parse_def Let_def result_simps)
  obtain name tag where t: "split_tag nt = (name, tag)" by (cases "split_tag nt")
  obtain reg repo where g: "split_registry name = (reg, repo)" by (cases "split_registry name")
  note sp = d t g
  have r: "r = \<lparr>ir_registry = reg, ir_repository = repo, ir_tag = tag, ir_digest = d\<rparr>"
    using assms i sp by (simp add: ImageReference_parse_def Let_def)
  note D = split_digest_spec [OF sp(1)] and T = split_tag_cases [OF sp(2)] and R = split_registry_spec [OF sp(3)]
  have nm: "set name \<subseteq> set nt" "\<exists>rest. nt = name @ rest" using T by auto
  have at_free: "CHR ''@'' \<notin> set (reg @ repo @ tag)"
  proof -
    have n: "CHR ''@'' \<notin> set nt" "CHR ''@'' \<notin> set name" using D nm(1) by blast+
    have "CHR ''@'' \<notin> set repo" using R(2) n(2) registry_chars(2) by blast
    moreover have "CHR ''@'' \<notin> set tag" using T n(1) registry_chars(3) by auto
    moreover have "CHR ''@'' \<notin> set reg"
    proof (cases "reg = ''registry-1.docker.io''")
      case False
      then obtain rest where "name = reg @ rest" using R(3) by blast
      then show ?thesis using n(2) by simp
    qed simp
    ultimately show ?thesis by simp
  qed
  have "\<not> is_whitespace (hd reg)"
  proof (cases "reg = ''registry-1.docker.io''")
    case False
    then obtain rest where n: "?i = reg @ rest" using R(3) nm(2) D by (auto split: option.splits)
    moreover have "reg \<noteq> []" using R(1) by auto
    ultimately show ?thesis using trim_ends [OF i] by simp
  qed (simp add: is_whitespace_def)
  moreover have "case d of None \<Rightarrow> tag = [] \<or> \<not> is_whitespace (last tag)
      | Some h \<Rightarrow> starts_with h ''sha256:'' \<and> \<not> is_whitespace (last h)"
  proof (cases d)
    case None
    then show ?thesis using D T trim_ends [OF i] registry_chars by auto
  next
    case (Some h)
    then have h: "?i = nt @ CHR ''@'' # h" "starts_with h ''sha256:''" using D by auto
    then have "h \<noteq> []" by (auto simp: starts_with_def)
    then show ?thesis using h Some trim_ends [OF i] by simp
  qed
  moreover have "CHR ''/'' \<notin> set tag" "CHR '':'' \<notin> set tag" using T registry_chars by auto
  ultimately show ?thesis using R(1) at_free by (cases d) (simp_all add: ref_ok_def r)
qed

text \<open>A parsed reference is recovered from its canonical form. With a digest the tag is not part
  of the canonical form and becomes \<open>latest\<close>; there the last segment of the repository must be free
  of colons, or the parser takes the rest of that segment for a tag.\<close>

lemma canonical_round_trip:
  assumes "ImageReference_parse s = Inr r"
    and "ir_digest r \<noteq> None \<longrightarrow> CHR '':'' \<notin> set (last_segment (ir_repository r))"
  shows "ImageReference_parse (to_string_canonical r) =
    Inr (if ir_digest r = None then r else r\<lparr>ir_tag := ''latest''\<rparr>)"
proof -
  have ok: "ref_ok r" by (rule parse_ref_ok [OF assms(1)])
  let ?n = "ir_registry r @ CHR ''/'' # ir_repository r" and ?c = "to_string_canonical r"
  have reg: "split_registry ?n = (ir_registry r, ir_repository r)" "ir_registry r \<noteq> []"
    using ok by (auto simp: ref_ok_def intro!: split_registry_at)
  have c: "?c = ?n @ (case ir_digest r of Some d \<Rightarrow> CHR ''@'' # d | None \<Rightarrow> CHR '':'' # ir_tag r)"
    by (simp add: to_string_canonical_def split: option.splits)
  have at_free: "CHR ''@'' \<notin> set ?n" using ok by (simp add: ref_ok_def)
  have ends: "trim ?c = ?c"
    using ok reg(2) by (intro trim_id) (auto simp: c ref_ok_def starts_with_def is_whitespace_def split: option.splits)
  show ?thesis
  proof (cases "ir_digest r")
    case None
    then have "split_digest ?c = Inr (?c, None)" using at_free ok find_char_None [of ?c "CHR ''@''"]
      by (auto simp: split_digest_def c ref_ok_def)
    moreover have "split_tag ?c = (?n, ir_tag r)"
      using None ok split_tag_at [of "ir_tag r" ?n] by (simp add: c ref_ok_def)
    ultimately show ?thesis using None reg ends by (simp add: ImageReference_parse_def Let_def c)
  next
    case (Some d)
    then have "split_digest ?c = Inr (?n, Some d)" using at_free ok find_char_at [of "CHR ''@''" ?n d]
      by (simp add: split_digest_def c ref_ok_def)
    moreover have "split_tag ?n = (?n, ''latest'')"
      using Some assms(2) by (intro split_tag_none) simp_all
    ultimately show ?thesis using Some reg ends by (simp add: ImageReference_parse_def Let_def c)
  qed
qed

text \<open>Without the condition the canonical form of a reference names another repository.\<close>

lemma canonical_form_shifts:
  "\<exists>r r'. ImageReference_parse ''a:b:c@sha256:0'' = Inr r \<and>
     ImageReference_parse (to_string_canonical r) = Inr r' \<and>
     ir_repository r = ''library/a:b'' \<and> ir_repository r' = ''library/a''"
proof -
  have "ImageReference_parse ''a:b:c@sha256:0'' = Inr \<lparr>ir_registry = ''registry-1.docker.io'',
      ir_repository = ''library/a:b'', ir_tag = ''c'', ir_digest = Some ''sha256:0''\<rparr>" by code_simp
  moreover have "ImageReference_parse (to_string_canonical \<lparr>ir_registry = ''registry-1.docker.io'',
      ir_repository = ''library/a:b'', ir_tag = ''c'', ir_digest = Some ''sha256:0''\<rparr>) =
      Inr \<lparr>ir_registry = ''registry-1.docker.io'', ir_repository = ''library/a'', ir_tag = ''b'',
        ir_digest = Some ''sha256:0''\<rparr>" by code_simp
  ultimately show ?thesis by (metis ImageReference.select_convs(2))
qed

end
