(* ===== verification/Oci_Content.thy ===== *)
theory Oci_Content
  imports Oci_Reference Rauha_Tables Rust_Net
begin

text \<open>
  The content store of images (\<open>rauha-oci/src/content.rs\<close>): digests, blobs named by their digest and
  the files that link an image reference to its manifest. The hash function is a parameter that gives
  the hexadecimal SHA-256 of some bytes. The two directories of the store are tables from file names
  to contents. A write can be refused, or it can fail half-way and leave a prefix of the data.
\<close>

datatype Digest = Digest string

fun digest_as_str :: "Digest \<Rightarrow> string" where "digest_as_str (Digest s) = s"

definition Digest_parse :: "string \<Rightarrow> Digest option" where
  "Digest_parse s =
    (case strip_prefix s ''sha256:'' of
       None \<Rightarrow> None
     | Some hex_part \<Rightarrow>
         if length hex_part = 64 \<and> list_all is_hex_digit hex_part then Some (Digest s) else None)"

definition digest_from_data :: "(string \<Rightarrow> string) \<Rightarrow> string \<Rightarrow> Digest" where
  "digest_from_data sha data = Digest (''sha256:'' @ sha data)"

definition digest_validate :: "(string \<Rightarrow> string) \<Rightarrow> Digest \<Rightarrow> string \<Rightarrow> bool" where
  "digest_validate sha d data = (digest_from_data sha data = d)"

definition digest_hex :: "Digest \<Rightarrow> string" where
  "digest_hex d = drop (length ''sha256:'') (digest_as_str d)"

subsection \<open>Files\<close>

datatype write_fault = WriteRefused string | WriteTorn nat string

fun fs_write :: "write_fault option \<Rightarrow> string \<Rightarrow> string \<Rightarrow> (string \<times> string) list \<Rightarrow> (string + unit) \<times> (string \<times> string) list" where
  "fs_write None name data t = (Inr (), table_insert name data t)"
| "fs_write (Some (WriteRefused e)) name data t = (Inl e, t)"
| "fs_write (Some (WriteTorn n e)) name data t = (Inl e, table_insert name (take n data) t)"

definition fs_read :: "string option \<Rightarrow> string \<Rightarrow> (string \<times> string) list \<Rightarrow> string + string" where
  "fs_read fault name t =
    (case fault of
       Some e \<Rightarrow> Inl e
     | None \<Rightarrow> ok_or ''No such file or directory (os error 2)'' (map_of t name))"

record ContentStore =
  st_blobs :: "(string \<times> string) list"
  st_manifests :: "(string \<times> string) list"

text \<open>The faults of one operation: by the name of the file written or read.\<close>

record io_faults =
  on_write :: "string \<Rightarrow> write_fault option"
  on_read :: "string \<Rightarrow> string option"

subsection \<open>Operations\<close>

definition has_blob :: "Digest \<Rightarrow> ContentStore \<Rightarrow> bool" where
  "has_blob d st = (map_of (st_blobs st) (digest_hex d) \<noteq> None)"

definition put_blob :: "(string \<Rightarrow> string) \<Rightarrow> io_faults \<Rightarrow> string \<Rightarrow> ContentStore \<Rightarrow> (string + Digest) \<times> ContentStore" where
  "put_blob sha f data st =
    (let d = digest_from_data sha data; name = digest_hex d in
     if has_blob d st then (Inr d, st)
     else let (r, t) = fs_write (on_write f name) name data (st_blobs st)
          in (and_then r (\<lambda>_. Inr d), st\<lparr>st_blobs := t\<rparr>))"

definition get_blob :: "io_faults \<Rightarrow> Digest \<Rightarrow> ContentStore \<Rightarrow> string + string" where
  "get_blob f d st = fs_read (on_read f (digest_hex d)) (digest_hex d) (st_blobs st)"

definition safe_name :: "string \<Rightarrow> string" where
  "safe_name reference = replace_char CHR '':'' CHR ''_'' (replace_char CHR ''/'' CHR ''_'' reference)"

definition manifest_ref_path :: "string \<Rightarrow> string" where
  "manifest_ref_path reference = safe_name reference @ ''.json''"

definition put_manifest ::
  "(string \<Rightarrow> string) \<Rightarrow> io_faults \<Rightarrow> string \<Rightarrow> string \<Rightarrow> ContentStore \<Rightarrow> (string + Digest) \<times> ContentStore" where
  "put_manifest sha f reference manifest st =
    (case put_blob sha f manifest st of
       (Inl e, st1) \<Rightarrow> (Inl e, st1)
     | (Inr d, st1) \<Rightarrow>
         let name = manifest_ref_path reference;
             (r, t) = fs_write (on_write f name) name (digest_as_str d) (st_manifests st1)
         in (and_then r (\<lambda>_. Inr d), st1\<lparr>st_manifests := t\<rparr>))"

definition get_manifest :: "io_faults \<Rightarrow> string \<Rightarrow> ContentStore \<Rightarrow> string + string option" where
  "get_manifest f reference st =
    (let name = manifest_ref_path reference in
     if map_of (st_manifests st) name = None then Inr None
     else
       and_then (fs_read (on_read f name) name (st_manifests st)) (\<lambda>digest_str.
       and_then (ok_or ''corrupt manifest reference'' (Digest_parse (trim digest_str))) (\<lambda>d.
       and_then (get_blob f d st) (\<lambda>data. Inr (Some data)))))"

subsection \<open>What a blob store promises\<close>

locale blob_store =
  fixes put :: "string \<Rightarrow> 's \<Rightarrow> (string + 'd) \<times> 's"
    and get :: "'d \<Rightarrow> 's \<Rightarrow> string option"
    and name_of :: "string \<Rightarrow> 'd"
    and valid :: "'d \<Rightarrow> bool"
    and sound :: "'s \<Rightarrow> bool"
  assumes valid_name: "valid (name_of x)"
    and sound_get: "sound s \<Longrightarrow> valid d \<Longrightarrow> get d s = Some x \<Longrightarrow> name_of x = d"
    and put_name: "put x s = (Inr d, s') \<Longrightarrow> d = name_of x \<and> get d s' \<noteq> None"
    and put_keeps: "put x s = (r, s') \<Longrightarrow> get d s = Some y \<Longrightarrow> get d s' = Some y"
    and put_sound: "sound s \<Longrightarrow> put x s = (r, s') \<Longrightarrow> sound s'"
begin

lemma put_get:
  assumes "sound s" "put x s = (Inr d, s')"
  obtains y where "get d s' = Some y" "name_of y = name_of x"
  using assms put_name put_sound sound_get valid_name by (metis option.exhaust)

lemma put_again:
  assumes "sound s" "put x s = (Inr d, s')" "put z s' = (r, s'')"
  shows "\<exists>y. get d s'' = Some y \<and> name_of y = name_of x"
  using put_get [OF assms(1,2)] put_keeps [OF assms(3)] by metis

end

definition digest_wf :: "Digest \<Rightarrow> bool" where
  "digest_wf d = starts_with (digest_as_str d) ''sha256:''"

definition blobs_ok :: "(string \<Rightarrow> string) \<Rightarrow> ContentStore \<Rightarrow> bool" where
  "blobs_ok sha st = list_all (\<lambda>(n, b). sha b = n) (st_blobs st)"

definition sha_ok :: "(string \<Rightarrow> string) \<Rightarrow> bool" where
  "sha_ok sha \<longleftrightarrow> (\<forall>x. length (sha x) = 64 \<and> list_all is_hex_digit (sha x))"

abbreviation stored :: "Digest \<Rightarrow> ContentStore \<Rightarrow> string option" where
  "stored d st \<equiv> map_of (st_blobs st) (digest_hex d)"

lemma digest_hex_from_data [simp]: "digest_hex (digest_from_data sha x) = sha x"
  by (simp add: digest_hex_def digest_from_data_def)

lemma digest_from_data_eq: "digest_wf d \<Longrightarrow> digest_from_data sha x = d \<longleftrightarrow> sha x = digest_hex d"
  by (cases d) (auto simp: digest_wf_def digest_from_data_def digest_hex_def starts_with_iff)

lemma digest_parse_wf: "Digest_parse s = Some d \<Longrightarrow> digest_wf d \<and> digest_as_str d = s"
  by (auto simp: Digest_parse_def digest_wf_def strip_prefix_def split: option.splits if_splits)

lemma digest_wf_from_data [simp]: "digest_wf (digest_from_data sha x)"
  by (simp add: digest_wf_def digest_from_data_def starts_with_def)

lemma digest_parse_from_data:
  "sha_ok sha \<Longrightarrow> Digest_parse (digest_as_str (digest_from_data sha x)) = Some (digest_from_data sha x)"
  by (simp add: Digest_parse_def digest_from_data_def sha_ok_def strip_prefix_def starts_with_def)

lemma set_table_insert: "set (table_insert k v t) \<subseteq> insert (k, v) (set t)"
  by (induction k v t rule: table_insert.induct) auto

lemma put_blob_ok:
  "put_blob sha f x st = (Inr d, st') \<Longrightarrow> d = digest_from_data sha x \<and> stored d st' \<noteq> None"
  by (cases "on_write f (sha x)" rule: option.exhaust; cases "the (on_write f (sha x))")
    (auto simp: put_blob_def Let_def has_blob_def table_simps split: if_splits)

lemma put_blob_manifests: "put_blob sha f x st = (r, st') \<Longrightarrow> st_manifests st' = st_manifests st"
  by (auto simp: put_blob_def Let_def split: if_splits prod.splits)

lemma put_blob_blobs:
  assumes "put_blob sha f x st = (r, st')"
  shows "st_blobs st' = st_blobs st \<or>
    (\<not> has_blob (digest_from_data sha x) st \<and> (\<exists>n. st_blobs st' = table_insert (sha x) (take n x) (st_blobs st)) \<and>
      ((\<forall>n e. on_write f (sha x) \<noteq> Some (WriteTorn n e)) \<longrightarrow> st_blobs st' = table_insert (sha x) x (st_blobs st)))"
proof (cases "on_write f (sha x)")
  case None
  then show ?thesis using assms
    by (auto simp: put_blob_def Let_def intro: exI [of _ "length x"] split: if_splits)
next
  case (Some w)
  then show ?thesis using assms by (cases w) (auto simp: put_blob_def Let_def split: if_splits)
qed

lemma put_blob_keeps: "put_blob sha f x st = (r, st') \<Longrightarrow> stored d st = Some y \<Longrightarrow> stored d st' = Some y"
  by (drule put_blob_blobs) (auto simp: table_simps has_blob_def split: if_splits)

lemma put_blob_sound:
  assumes "blobs_ok sha st" "put_blob sha f x st = (r, st')" "\<forall>n e. on_write f (sha x) \<noteq> Some (WriteTorn n e)"
  shows "blobs_ok sha st'"
  using put_blob_blobs [OF assms(2)] assms(1,3) set_table_insert [of "sha x" x "st_blobs st"]
  by (auto simp: blobs_ok_def list_all_iff)

definition whole_writes :: "(string \<Rightarrow> string option) \<Rightarrow> (string \<Rightarrow> string option) \<Rightarrow> io_faults" where
  "whole_writes refused rd = \<lparr>on_write = (\<lambda>n. map_option WriteRefused (refused n)), on_read = rd\<rparr>"

lemma blobs_ok_stored: "blobs_ok sha st \<Longrightarrow> stored d st = Some x \<Longrightarrow> sha x = digest_hex d"
  by (auto simp: blobs_ok_def list_all_iff dest: map_of_SomeD)

interpretation blobs: blob_store "put_blob sha (whole_writes refused rd)" "\<lambda>d st. stored d st"
  "digest_from_data sha" digest_wf "blobs_ok sha" for sha refused rd
proof
  fix st d x assume "blobs_ok sha st" "digest_wf d" "stored d st = Some x"
  then show "digest_from_data sha x = d" by (simp add: digest_from_data_eq blobs_ok_stored)
next
  fix st st' x and r :: "string + Digest"
  assume "blobs_ok sha st" "put_blob sha (whole_writes refused rd) x st = (r, st')"
  then show "blobs_ok sha st'" by (rule put_blob_sound) (simp add: whole_writes_def)
qed (simp_all add: put_blob_ok put_blob_keeps)

text \<open>A write that fails half-way leaves a blob that the store trusts from then on: storing the same
  data again succeeds without writing, and reading it gives the prefix.\<close>

lemma torn_blob_is_trusted:
  assumes "\<not> has_blob (digest_from_data sha x) st" "on_write f (sha x) = Some (WriteTorn n e)"
  shows "\<exists>st'. put_blob sha f x st = (Inl e, st') \<and>
    put_blob sha g x st' = (Inr (digest_from_data sha x), st') \<and>
    (on_read g (sha x) = None \<longrightarrow> get_blob g (digest_from_data sha x) st' = Inr (take n x))"
  using assms by (simp add: put_blob_def Let_def has_blob_def get_blob_def fs_read_def table_simps)

end
