(* ===== verification/Oci_Distribution.thy ===== *)
theory Oci_Distribution
  imports Oci_Content Evidence_Journal
begin

text \<open>
  The registry client (\<open>rauha-oci/src/distribution.rs\<close>). The HTTP service is a parameter that answers
  the \<open>n\<close>-th request of the client in any way. The JSON decoders are parameters as well. The client
  state is its token cache and the number of requests sent so far.
\<close>

record OciDescriptor =
  od_media_type :: string
  od_digest :: string
  od_size :: nat

record OciManifest =
  om_schema_version :: nat
  om_media_type :: string
  om_config :: OciDescriptor
  om_layers :: "OciDescriptor list"

record OciPlatform =
  op_architecture :: string
  op_os :: string

record OciPlatformManifest =
  pm_media_type :: string
  pm_digest :: string
  pm_size :: nat
  pm_platform :: "OciPlatform option"

record OciIndex =
  oi_schema_version :: nat
  oi_manifests :: "OciPlatformManifest list"

record OciImageConfigInner =
  ic_cmd :: "string list option"
  ic_entrypoint :: "string list option"
  ic_env :: "string list option"
  ic_working_dir :: "string option"
  ic_user :: "string option"

type_synonym OciImageConfig = "OciImageConfigInner option"

record http_request =
  rq_url :: string
  rq_accept :: "string option"
  rq_bearer :: "string option"

record http_response =
  rs_status :: nat
  rs_status_text :: string
  rs_www_authenticate :: "string option"
  rs_length :: "nat option"
  rs_body :: "string + string"
  rs_chunks :: "(string + string) list"

record DistributionClient =
  dc_tokens :: "((string \<times> string) \<times> string) list"
  dc_sent :: nat

text \<open>What the client relies on: the service, the hash, the decoders and the CPU it runs on.\<close>

record oci_env =
  oe_http :: "nat \<Rightarrow> http_request \<Rightarrow> string + http_response"
  oe_sha :: "string \<Rightarrow> string"
  oe_manifest :: "string \<Rightarrow> string + OciManifest"
  oe_index :: "string \<Rightarrow> string + OciIndex"
  oe_json :: "string \<Rightarrow> string + Value"
  oe_arch :: string

subsection \<open>Requests\<close>

text \<open>\<open>send_with_rate_limit\<close> tries four times, so that the last attempt always returns and the
  \<open>unreachable!()\<close> after its loop is one. The argument counts the attempts that are left.\<close>

fun send_attempts ::
  "oci_env \<Rightarrow> http_request \<Rightarrow> string \<Rightarrow> nat \<Rightarrow> DistributionClient \<Rightarrow> http_response rresult \<times> DistributionClient" where
  "send_attempts env rq reference left c =
    (let c1 = c\<lparr>dc_sent := Suc (dc_sent c)\<rparr> in
     case oe_http env (dc_sent c) rq of
       Inl e \<Rightarrow> (Inl (ImagePullError reference (''request failed: '' @ e)), c1)
     | Inr resp \<Rightarrow>
         if rs_status resp \<noteq> 429 \<or> left = 0 then (Inr resp, c1)
         else send_attempts env rq reference (left - 1) c1)"

declare send_attempts.simps [simp del]

definition send_with_rate_limit ::
  "oci_env \<Rightarrow> http_request \<Rightarrow> string \<Rightarrow> DistributionClient \<Rightarrow> http_response rresult \<times> DistributionClient" where
  "send_with_rate_limit env rq reference c = send_attempts env rq reference 3 c"

definition is_success :: "http_response \<Rightarrow> bool" where
  "is_success resp = (200 \<le> rs_status resp \<and> rs_status resp < 300)"

definition extract_param :: "string \<Rightarrow> string \<Rightarrow> string option" where
  "extract_param header key =
    (let needle = key @ ''='' @ [CHR 0x22] in
     case find_str header needle of
       None \<Rightarrow> None
     | Some n \<Rightarrow>
         let start = n + length needle in
         (case find_str (drop start header) [CHR 0x22] of
            None \<Rightarrow> None
          | Some m \<Rightarrow> Some (take m (drop start header))))"

text \<open>\<open>Value::get\<close> with a key, then \<open>as_str\<close>.\<close>

fun json_get :: "string \<Rightarrow> Value \<Rightarrow> Value option" where
  "json_get k (VObject members) = map_of members k"
| "json_get k _ = None"

fun json_str :: "Value \<Rightarrow> string option" where
  "json_str (VString s) = Some s"
| "json_str _ = None"

definition fetch_token ::
  "oci_env \<Rightarrow> string \<Rightarrow> string \<Rightarrow> DistributionClient \<Rightarrow> string rresult \<times> DistributionClient" where
  "fetch_token env www_authenticate scope c =
    (let realm = (case extract_param www_authenticate ''realm'' of Some r \<Rightarrow> r | None \<Rightarrow> []);
         service = (case extract_param www_authenticate ''service'' of Some r \<Rightarrow> r | None \<Rightarrow> []) in
     if realm = [] then (Inl (ImagePullError [] ''no realm in Www-Authenticate header''), c)
     else
       let url = realm @ ''?service='' @ service @ ''&scope='' @ scope;
           (r, c1) = send_with_rate_limit env \<lparr>rq_url = url, rq_accept = None, rq_bearer = None\<rparr> url c
       in (and_then r (\<lambda>resp.
           and_then (map_err (\<lambda>e. ImagePullError url (''invalid token response: '' @ e))
             (and_then (rs_body resp) (oe_json env))) (\<lambda>v.
           ok_or (ImagePullError [] ''no token in auth response'')
             (Option.bind (case json_get ''token'' v of None \<Rightarrow> json_get ''access_token'' v | t \<Rightarrow> t) json_str))), c1))"

definition get_cached_token :: "string \<Rightarrow> string \<Rightarrow> DistributionClient \<Rightarrow> string option" where
  "get_cached_token registry scope c = map_of (dc_tokens c) (registry, scope)"

definition cache_token :: "string \<Rightarrow> string \<Rightarrow> string \<Rightarrow> DistributionClient \<Rightarrow> DistributionClient" where
  "cache_token registry scope token c = c\<lparr>dc_tokens := ((registry, scope), token) # dc_tokens c\<rparr>"

text \<open>A response that is not a success is an error with the status as its message.\<close>

definition require_success :: "string \<Rightarrow> http_response \<Rightarrow> http_response rresult" where
  "require_success url resp =
    (if is_success resp then Inr resp else Inl (ImagePullError url (''HTTP '' @ rs_status_text resp)))"

text \<open>The challenge-response flow. \<open>authenticated_get\<close> and \<open>authenticated_get_response\<close> differ in the
  Accept header and in reading the body at the end.\<close>

definition authenticated_flow ::
  "oci_env \<Rightarrow> string \<Rightarrow> string \<Rightarrow> string \<Rightarrow> string option \<Rightarrow> DistributionClient \<Rightarrow>
   http_response rresult \<times> DistributionClient" where
  "authenticated_flow env url registry repository accept c =
    (let scope = ''repository:'' @ repository @ '':pull'';
         rq = (\<lambda>bearer. \<lparr>rq_url = url, rq_accept = accept, rq_bearer = bearer\<rparr>);
         (early, c1) =
           (case get_cached_token registry scope c of
              None \<Rightarrow> (Inr None, c)
            | Some token \<Rightarrow>
                let (r, c1) = send_with_rate_limit env (rq (Some token)) url c
                in (and_then r (\<lambda>resp. Inr (if is_success resp then Some resp else None)), c1))
     in case early of
          Inl e \<Rightarrow> (Inl e, c1)
        | Inr (Some resp) \<Rightarrow> (Inr resp, c1)
        | Inr None \<Rightarrow>
            (case send_with_rate_limit env (rq None) url c1 of
               (Inl e, c2) \<Rightarrow> (Inl e, c2)
             | (Inr resp, c2) \<Rightarrow>
                 if rs_status resp \<noteq> 401 then (require_success url resp, c2)
                 else
                   (case fetch_token env (case rs_www_authenticate resp of Some h \<Rightarrow> h | None \<Rightarrow> []) scope c2 of
                      (Inl e, c3) \<Rightarrow> (Inl e, c3)
                    | (Inr token, c3) \<Rightarrow>
                        let (r, c4) = send_with_rate_limit env (rq (Some token)) url (cache_token registry scope token c3)
                        in (and_then r (require_success url), c4))))"

definition authenticated_get ::
  "oci_env \<Rightarrow> string \<Rightarrow> string \<Rightarrow> string \<Rightarrow> string list \<Rightarrow> DistributionClient \<Rightarrow> string rresult \<times> DistributionClient" where
  "authenticated_get env url registry repository accept c =
    (let (r, c1) = authenticated_flow env url registry repository (Some (join '', '' accept)) c
     in (and_then r (\<lambda>resp. map_err (\<lambda>e. ImagePullError url (''read body failed: '' @ e)) (rs_body resp)), c1))"

definition authenticated_get_response ::
  "oci_env \<Rightarrow> string \<Rightarrow> string \<Rightarrow> string \<Rightarrow> DistributionClient \<Rightarrow> http_response rresult \<times> DistributionClient" where
  "authenticated_get_response env url registry repository c = authenticated_flow env url registry repository None c"

subsection \<open>Manifests\<close>

definition verify_manifest_digest :: "oci_env \<Rightarrow> string option \<Rightarrow> string \<Rightarrow> string \<Rightarrow> unit rresult" where
  "verify_manifest_digest env expected body reference =
    (case expected of
       None \<Rightarrow> Inr ()
     | Some expected \<Rightarrow>
         and_then (ok_or (ImagePullError reference (''invalid manifest digest: '' @ expected)) (Digest_parse expected)) (\<lambda>d.
         if digest_validate (oe_sha env) d body then Inr ()
         else Inl (ImagePullError reference (''manifest digest mismatch for '' @ digest_as_str d))))"

definition for_platform :: "string \<Rightarrow> string \<Rightarrow> OciPlatformManifest \<Rightarrow> bool" where
  "for_platform os arch m =
    (case pm_platform m of Some p \<Rightarrow> op_os p = os \<and> op_architecture p = arch | None \<Rightarrow> False)"

definition select_platform :: "oci_env \<Rightarrow> OciIndex \<Rightarrow> OciPlatformManifest option" where
  "select_platform env index =
    (case find (for_platform ''linux'' (oe_arch env)) (oi_manifests index) of
       Some m \<Rightarrow> Some m
     | None \<Rightarrow> find (for_platform ''linux'' ''amd64'') (oi_manifests index))"

definition MANIFEST_TYPES :: "string list" where
  "MANIFEST_TYPES = [''application/vnd.oci.image.manifest.v1+json'',
    ''application/vnd.docker.distribution.manifest.v2+json'']"

definition INDEX_TYPES :: "string list" where
  "INDEX_TYPES = [''application/vnd.oci.image.index.v1+json'',
    ''application/vnd.docker.distribution.manifest.list.v2+json'']"

type_synonym oci_state = "DistributionClient \<times> ContentStore"

definition manifest_url :: "ImageReference \<Rightarrow> string \<Rightarrow> string" where
  "manifest_url r selector =
    ''https://'' @ ir_registry r @ ''/v2/'' @ ir_repository r @ ''/manifests/'' @ selector"

definition store_manifest ::
  "oci_env \<Rightarrow> io_faults \<Rightarrow> string \<Rightarrow> string \<Rightarrow> ContentStore \<Rightarrow> unit rresult \<times> ContentStore" where
  "store_manifest env f canonical body st =
    (let (r, st1) = put_manifest (oe_sha env) f canonical body st
     in (and_then (map_err (\<lambda>e. ContentError (''failed to store manifest: '' @ e)) r) (\<lambda>_. Inr ()), st1))"

definition pull_platform_manifest ::
  "oci_env \<Rightarrow> io_faults \<Rightarrow> ImageReference \<Rightarrow> OciIndex \<Rightarrow> oci_state \<Rightarrow> OciManifest rresult \<times> oci_state" where
  "pull_platform_manifest env f r index = (\<lambda>(c, st).
    let canonical = to_string_canonical r in
    case select_platform env index of
      None \<Rightarrow> (Inl (ImagePullError canonical (''no manifest for platform linux/'' @ oe_arch env @ '' in index'')), c, st)
    | Some entry \<Rightarrow>
        (case authenticated_get env (manifest_url r (pm_digest entry)) (ir_registry r) (ir_repository r) MANIFEST_TYPES c of
           (Inl e, c1) \<Rightarrow> (Inl e, c1, st)
         | (Inr body, c1) \<Rightarrow>
             (case verify_manifest_digest env (Some (pm_digest entry)) body canonical of
                Inl e \<Rightarrow> (Inl e, c1, st)
              | Inr _ \<Rightarrow>
                  (case store_manifest env f canonical body st of
                     (Inl e, st1) \<Rightarrow> (Inl e, c1, st1)
                   | (Inr _, st1) \<Rightarrow>
                       (map_err (\<lambda>e. ImagePullError canonical (''invalid platform manifest JSON: '' @ e))
                          (oe_manifest env body), c1, st1)))))"

definition pull_manifest ::
  "oci_env \<Rightarrow> io_faults \<Rightarrow> ImageReference \<Rightarrow> oci_state \<Rightarrow> OciManifest rresult \<times> oci_state" where
  "pull_manifest env f r = (\<lambda>(c, st).
    let selector = (case ir_digest r of Some d \<Rightarrow> d | None \<Rightarrow> ir_tag r);
        canonical = to_string_canonical r in
    case authenticated_get env (manifest_url r selector) (ir_registry r) (ir_repository r)
           (MANIFEST_TYPES @ INDEX_TYPES) c of
      (Inl e, c1) \<Rightarrow> (Inl e, c1, st)
    | (Inr body, c1) \<Rightarrow>
        (case verify_manifest_digest env (ir_digest r) body canonical of
           Inl e \<Rightarrow> (Inl e, c1, st)
         | Inr _ \<Rightarrow>
             (case oe_manifest env body of
                Inr manifest \<Rightarrow>
                  let (s, st1) = store_manifest env f canonical body st
                  in (and_then s (\<lambda>_. Inr manifest), c1, st1)
              | Inl _ \<Rightarrow>
                  (case oe_index env body of
                     Inl e \<Rightarrow> (Inl (ImagePullError canonical
                       (''invalid manifest JSON (not a manifest or index): '' @ e)), c1, st)
                   | Inr index \<Rightarrow> pull_platform_manifest env f r index (c1, st)))))"

subsection \<open>Blobs\<close>

text \<open>The download loop: the body read so far, and the progress calls it made.\<close>

fun read_chunks ::
  "Digest \<Rightarrow> nat \<Rightarrow> (string + string) list \<Rightarrow> string \<Rightarrow> (nat \<times> nat) list \<Rightarrow> string rresult \<times> (nat \<times> nat) list" where
  "read_chunks d content_length [] body calls = (Inr body, calls)"
| "read_chunks d content_length (Inl e # cs) body calls =
     (Inl (ImagePullError (digest_as_str d) (''download error: '' @ e)), calls)"
| "read_chunks d content_length (Inr chunk # cs) body calls =
     (let body = body @ chunk in read_chunks d content_length cs body (calls @ [(length body, content_length)]))"

definition pull_blob ::
  "oci_env \<Rightarrow> io_faults \<Rightarrow> string \<Rightarrow> string \<Rightarrow> Digest \<Rightarrow> oci_state \<Rightarrow> unit rresult \<times> (nat \<times> nat) list \<times> oci_state" where
  "pull_blob env f registry repository d = (\<lambda>(c, st).
    if has_blob d st then (Inr (), [], c, st)
    else
      let url = ''https://'' @ registry @ ''/v2/'' @ repository @ ''/blobs/'' @ digest_as_str d in
      (case authenticated_get_response env url registry repository c of
         (Inl e, c1) \<Rightarrow> (Inl e, [], c1, st)
       | (Inr resp, c1) \<Rightarrow>
           let content_length = (case rs_length resp of Some n \<Rightarrow> n | None \<Rightarrow> 0);
               (r, calls) = read_chunks d content_length (rs_chunks resp) [] [] in
           (case r of
              Inl e \<Rightarrow> (Inl e, calls, c1, st)
            | Inr bytes \<Rightarrow>
                if \<not> digest_validate (oe_sha env) d bytes
                then (Inl (ContentError (''digest mismatch for '' @ digest_as_str d)), calls, c1, st)
                else
                  let (s, st1) = put_blob (oe_sha env) f bytes st
                  in (and_then (map_err (\<lambda>e. ContentError (''failed to store blob: '' @ e)) s) (\<lambda>_. Inr ()),
                      calls, c1, st1))))"

subsection \<open>How many requests a call makes\<close>

text \<open>A call through the rate limiter sends one to four requests and keeps the tokens.\<close>

lemma send_attempts_bound:
  "send_attempts env rq ref k c = (r, c') \<Longrightarrow>
   dc_sent c < dc_sent c' \<and> dc_sent c' \<le> dc_sent c + Suc k \<and> dc_tokens c' = dc_tokens c"
proof (induction env rq ref k c rule: send_attempts.induct)
  case (1 env rq ref k c)
  note unf = send_attempts.simps [of env rq ref k c]
  show ?case
  proof (cases "oe_http env (dc_sent c) rq")
    case (Inl e)
    then show ?thesis using 1 unf by (auto simp: Let_def)
  next
    case (Inr resp)
    then show ?thesis using 1 unf by (cases "rs_status resp \<noteq> 429 \<or> k = 0") (force simp: Let_def)+
  qed
qed

lemmas send_bound = send_attempts_bound [of _ _ _ 3, folded send_with_rate_limit_def]

lemma fetch_token_bound: "fetch_token env w s c = (r, c') \<Longrightarrow> dc_sent c' \<le> dc_sent c + 4"
  by (auto simp: fetch_token_def Let_def split: if_splits prod.splits dest!: send_bound)

lemma authenticated_flow_bound:
  assumes "authenticated_flow env url reg repo accept c = (r, c')"
  shows "dc_sent c' \<le> dc_sent c + 16"
  using assms
  by (auto simp: authenticated_flow_def Let_def cache_token_def split: option.splits prod.splits sum.splits if_splits
    dest!: send_bound fetch_token_bound)

end
