(* ===== verification/Oci_Images.thy ===== *)
theory Oci_Images
  imports Oci_Distribution
begin

text \<open>
  Pulling and inspecting images (\<open>ImageService\<close> of \<open>rauha-oci/src/image.rs\<close>) over the registry client
  and the content store. The progress callback is the list of the events it received.
\<close>

record PullProgress =
  pp_status :: string
  pp_layer :: string
  pp_current :: nat
  pp_total :: nat
  pp_done :: bool

record ImageInfo =
  ii_reference :: string
  ii_digest :: string
  ii_layers :: nat
  ii_size :: nat

record ImageInspection =
  insp_digest :: string
  insp_config :: OciImageConfig
  insp_config_json :: string
  insp_layers :: "string list"
  insp_size :: nat

definition parse_reference :: "string \<Rightarrow> ImageReference rresult" where
  "parse_reference reference_str = map_err (ImagePullError reference_str) (ImageReference_parse reference_str)"

subsection \<open>Pulling\<close>

definition blob_present :: "ContentStore \<Rightarrow> OciDescriptor \<Rightarrow> bool" where
  "blob_present st entry = (case Digest_parse (od_digest entry) of Some d \<Rightarrow> has_blob d st | None \<Rightarrow> False)"

definition manifest_blobs_present :: "OciManifest \<Rightarrow> ContentStore \<Rightarrow> bool" where
  "manifest_blobs_present m st = list_all (blob_present st) (om_config m # om_layers m)"

text \<open>The throttle of the layer downloads. Byte counts are those of a buffer in memory, far below the
  64-bit range that \<open>current * 100\<close> would leave.\<close>

fun layer_progress :: "string \<Rightarrow> string \<Rightarrow> nat \<Rightarrow> int \<Rightarrow> (nat \<times> nat) list \<Rightarrow> PullProgress list" where
  "layer_progress status layer manifest_size last_reported_pct [] = []"
| "layer_progress status layer manifest_size last_reported_pct ((current, content_length) # calls) =
     (let effective_total = (if content_length > 0 then content_length else manifest_size) in
      if effective_total = 0 then layer_progress status layer manifest_size last_reported_pct calls
      else
        let pct = int (current * 100 div effective_total) in
        if pct \<ge> last_reported_pct + 5 \<or> (pct = 100 \<and> last_reported_pct \<noteq> 100)
        then \<lparr>pp_status = status, pp_layer = layer, pp_current = current, pp_total = effective_total, pp_done = False\<rparr>
          # layer_progress status layer manifest_size pct calls
        else layer_progress status layer manifest_size last_reported_pct calls)"

definition progress_event :: "string \<Rightarrow> string \<Rightarrow> nat \<Rightarrow> bool \<Rightarrow> PullProgress" where
  "progress_event status layer bytes finished =
    \<lparr>pp_status = status, pp_layer = layer, pp_current = 0, pp_total = bytes, pp_done = finished\<rparr>"

fun pull_layers ::
  "oci_env \<Rightarrow> io_faults \<Rightarrow> string \<Rightarrow> ImageReference \<Rightarrow> nat \<Rightarrow> nat \<Rightarrow> OciDescriptor list \<Rightarrow> oci_state \<Rightarrow>
   unit rresult \<times> PullProgress list \<times> oci_state" where
  "pull_layers env f reference_str r count i [] s = (Inr (), [], s)"
| "pull_layers env f reference_str r count i (layer # layers) s =
     (case Digest_parse (od_digest layer) of
        None \<Rightarrow> (Inl (ImagePullError reference_str (''invalid layer digest: '' @ od_digest layer)), [], s)
      | Some d \<Rightarrow>
          let status = ''pulling layer '' @ dec (i + 1) @ ''/'' @ dec count;
              event = progress_event status (digest_as_str d) (od_size layer) False;
              (res, calls, s1) = pull_blob env f (ir_registry r) (ir_repository r) d s;
              events = event # layer_progress status (digest_as_str d) (od_size layer) (-1) calls in
          (case res of
             Inl e \<Rightarrow> (Inl e, events, s1)
           | Inr _ \<Rightarrow>
               let (res2, events2, s2) = pull_layers env f reference_str r count (i + 1) layers s1
               in (res2, events @ events2, s2)))"

definition pull_contents ::
  "oci_env \<Rightarrow> io_faults \<Rightarrow> string \<Rightarrow> ImageReference \<Rightarrow> OciManifest \<Rightarrow> oci_state \<Rightarrow>
   OciManifest rresult \<times> PullProgress list \<times> oci_state" where
  "pull_contents env f reference_str r manifest s =
    (case Digest_parse (od_digest (om_config manifest)) of
       None \<Rightarrow> (Inl (ImagePullError reference_str
                  (''invalid config digest: '' @ od_digest (om_config manifest))), [], s)
     | Some d \<Rightarrow>
         let event = progress_event ''pulling config'' (digest_as_str d) (od_size (om_config manifest)) False;
             (res, _, s1) = pull_blob env f (ir_registry r) (ir_repository r) d s in
         (case res of
            Inl e \<Rightarrow> (Inl e, [event], s1)
          | Inr _ \<Rightarrow>
              let (res2, events, s2) =
                    pull_layers env f reference_str r (length (om_layers manifest)) 0 (om_layers manifest) s1 in
              (case res2 of
                 Inl e \<Rightarrow> (Inl e, event # events, s2)
               | Inr _ \<Rightarrow> (Inr manifest, event # events @ [progress_event ''pull complete'' [] 0 True], s2))))"

definition cached_manifest :: "oci_env \<Rightarrow> io_faults \<Rightarrow> string \<Rightarrow> ContentStore \<Rightarrow> OciManifest option rresult" where
  "cached_manifest env f canonical st =
    and_then (map_err (\<lambda>e. ContentError (''failed to read cached manifest: '' @ e)) (get_manifest f canonical st))
      (\<lambda>bytes. Inr (case bytes of
          None \<Rightarrow> None
        | Some data \<Rightarrow>
            (case oe_manifest env data of
               Inl _ \<Rightarrow> None
             | Inr m \<Rightarrow> if manifest_blobs_present m st then Some m else None)))"

definition pull ::
  "oci_env \<Rightarrow> io_faults \<Rightarrow> string \<Rightarrow> oci_state \<Rightarrow> OciManifest rresult \<times> PullProgress list \<times> oci_state" where
  "pull env f reference_str s =
    (case parse_reference reference_str of
       Inl e \<Rightarrow> (Inl e, [], s)
     | Inr r \<Rightarrow>
         (case cached_manifest env f (to_string_canonical r) (snd s) of
            Inl e \<Rightarrow> (Inl e, [], s)
          | Inr cached \<Rightarrow>
              if ir_digest r \<noteq> None \<and> cached \<noteq> None
              then (Inr (the cached), [progress_event ''pull complete (cached)'' [] 0 True], s)
              else
                let event = progress_event ''pulling manifest'' [] 0 False in
                (case pull_manifest env f r s of
                   (Inr manifest, s1) \<Rightarrow>
                     let (res, events, s2) = pull_contents env f reference_str r manifest s1
                     in (res, event # events, s2)
                 | (Inl e, s1) \<Rightarrow>
                     (case cached of
                        None \<Rightarrow> (Inl e, [event], s1)
                      | Some manifest \<Rightarrow>
                          (Inr manifest,
                           [event, progress_event ''pull complete (cached; registry unreachable)'' [] 0 True], s1)))))"

subsection \<open>Inspecting\<close>

text \<open>Loading the stored manifest; the error for an image that was never pulled differs per caller.\<close>

definition load_manifest ::
  "oci_env \<Rightarrow> io_faults \<Rightarrow> RauhaError \<Rightarrow> string \<Rightarrow> ContentStore \<Rightarrow> (string \<times> OciManifest) rresult" where
  "load_manifest env f missing reference_str st =
    and_then (parse_reference reference_str) (\<lambda>r.
    and_then (map_err (\<lambda>e. ContentError (''failed to read manifest: '' @ e)) (get_manifest f (to_string_canonical r) st)) (\<lambda>bytes.
    and_then (ok_or missing bytes) (\<lambda>data.
    and_then (map_err (\<lambda>e. ContentError (''corrupt manifest: '' @ e)) (oe_manifest env data)) (\<lambda>m. Inr (data, m)))))"

text \<open>The declared layer sizes are summed in 64 bits, wrapping as a release build does.\<close>

definition layers_size :: "OciManifest \<Rightarrow> nat" where
  "layers_size m = sum_list (map od_size (om_layers m)) mod 2 ^ 64"

definition not_pulled :: "string \<Rightarrow> RauhaError" where
  "not_pulled reference_str =
    ImagePullError reference_str (''image not pulled '' @ em_dash @ '' run `rauha image pull` first'')"

definition layer_digests :: "oci_env \<Rightarrow> io_faults \<Rightarrow> string \<Rightarrow> string \<Rightarrow> ContentStore \<Rightarrow> (string list \<times> string) rresult" where
  "layer_digests env f root reference_str st =
    and_then (load_manifest env f (not_pulled reference_str) reference_str st) (\<lambda>(_, m).
      Inr (map od_digest (om_layers m), path_join root ''content''))"

definition image_safe_name :: "string \<Rightarrow> string rresult" where
  "image_safe_name reference_str =
    and_then (parse_reference reference_str) (\<lambda>r. Inr (safe_name (to_string_canonical r)))"

text \<open>\<open>inspect\<close> and \<open>inspect_full\<close> read the same files; the decoder of image configs is a parameter.\<close>

definition load_image_config ::
  "oci_env \<Rightarrow> (string \<Rightarrow> string + OciImageConfig) \<Rightarrow> io_faults \<Rightarrow> string \<Rightarrow> ContentStore \<Rightarrow>
   (string \<times> OciManifest \<times> string \<times> OciImageConfig) rresult" where
  "load_image_config env config_of f reference_str st =
    and_then (load_manifest env f (ImageNotFound reference_str) reference_str st) (\<lambda>(data, m).
    and_then (ok_or (ContentError (''invalid config digest: '' @ od_digest (om_config m)))
      (Digest_parse (od_digest (om_config m)))) (\<lambda>d.
    and_then (map_err (\<lambda>e. ContentError (''failed to read config blob: '' @ e)) (get_blob f d st)) (\<lambda>config_bytes.
    and_then (map_err (\<lambda>e. ContentError (''corrupt image config: '' @ e)) (config_of config_bytes)) (\<lambda>config.
      Inr (data, m, config_bytes, config)))))"

definition inspect ::
  "oci_env \<Rightarrow> (string \<Rightarrow> string + OciImageConfig) \<Rightarrow> io_faults \<Rightarrow> string \<Rightarrow> ContentStore \<Rightarrow> OciImageConfig rresult" where
  "inspect env config_of f reference_str st =
    and_then (load_image_config env config_of f reference_str st) (\<lambda>(_, _, _, config). Inr config)"

definition inspect_full ::
  "oci_env \<Rightarrow> (string \<Rightarrow> string + OciImageConfig) \<Rightarrow> (string \<Rightarrow> string) \<Rightarrow> io_faults \<Rightarrow> string \<Rightarrow> ContentStore \<Rightarrow>
   ImageInspection rresult" where
  "inspect_full env config_of utf8_lossy f reference_str st =
    and_then (load_image_config env config_of f reference_str st) (\<lambda>(data, m, config_bytes, config).
      Inr \<lparr>insp_digest = digest_as_str (digest_from_data (oe_sha env) data), insp_config = config,
           insp_config_json = utf8_lossy config_bytes, insp_layers = map od_digest (om_layers m),
           insp_size = layers_size m\<rparr>)"

definition image_info :: "oci_env \<Rightarrow> io_faults \<Rightarrow> ContentStore \<Rightarrow> string \<times> string \<Rightarrow> ImageInfo" where
  "image_info env f st = (\<lambda>(name, content).
    let digest_str = trim (case on_read f name of Some _ \<Rightarrow> [] | None \<Rightarrow> content);
        (count, bytes) =
          (case Digest_parse digest_str of
             None \<Rightarrow> (0, 0)
           | Some d \<Rightarrow>
               (case and_then (get_blob f d st) (oe_manifest env) of
                  Inl _ \<Rightarrow> (0, 0)
                | Inr m \<Rightarrow> (length (om_layers m), layers_size m)))
    in \<lparr>ii_reference = take (length name - 5) name, ii_digest = digest_str, ii_layers = count, ii_size = bytes\<rparr>)"

definition list_images :: "oci_env \<Rightarrow> io_faults \<Rightarrow> string option \<Rightarrow> ContentStore \<Rightarrow> ImageInfo list rresult" where
  "list_images env f dir_fault st =
    (case dir_fault of
       Some e \<Rightarrow> Inl (ContentError (''failed to read manifests dir: '' @ e))
     | None \<Rightarrow>
         Inr (map (image_info env f st)
           (filter (\<lambda>(name, _). strip_suffix name ''.json'' \<noteq> None \<and> name \<noteq> ''.json'') (st_manifests st))))"

definition remove_image :: "string option \<Rightarrow> string \<Rightarrow> ContentStore \<Rightarrow> unit rresult \<times> ContentStore" where
  "remove_image fault reference_str st =
    (case parse_reference reference_str of
       Inl e \<Rightarrow> (Inl e, st)
     | Inr r \<Rightarrow>
         let ref_path = safe_name (to_string_canonical r) @ ''.json'' in
         if map_of (st_manifests st) ref_path = None then (Inr (), st)
         else
           (case fault of
              Some e \<Rightarrow> (Inl (ContentError (''failed to remove manifest ref: '' @ e)), st)
            | None \<Rightarrow> (Inr (), st\<lparr>st_manifests := table_remove ref_path (st_manifests st)\<rparr>)))"

subsection \<open>What the store holds after a pull\<close>

definition whole :: "io_faults \<Rightarrow> bool" where
  "whole f \<longleftrightarrow> (\<forall>p n e. on_write f p \<noteq> Some (WriteTorn n e))"

text \<open>The manifest bytes that a digest reference stands for: bytes with that digest, or a manifest that
  an index with that digest lists.\<close>

definition pinned :: "oci_env \<Rightarrow> string \<Rightarrow> string \<Rightarrow> bool" where
  "pinned env d b \<longleftrightarrow>
    digest_as_str (digest_from_data (oe_sha env) b) = d \<or>
    (\<exists>body index entry. digest_as_str (digest_from_data (oe_sha env) body) = d \<and> oe_index env body = Inr index \<and>
       entry \<in> set (oi_manifests index) \<and> digest_as_str (digest_from_data (oe_sha env) b) = pm_digest entry)"

definition ref_holds :: "oci_env \<Rightarrow> ContentStore \<Rightarrow> string \<Rightarrow> (string \<Rightarrow> bool) \<Rightarrow> bool" where
  "ref_holds env st content P \<longleftrightarrow>
    (\<exists>d b. Digest_parse (trim content) = Some d \<and> stored d st = Some b \<and> P b)"

definition pin_name :: "string \<Rightarrow> string \<Rightarrow> bool" where
  "pin_name d name \<longleftrightarrow>
    Digest_parse d \<noteq> None \<and> (\<exists>x. CHR ''@'' \<notin> set x \<and> name = x @ ''@'' @ safe_name d @ ''.json'')"

definition store_sound :: "oci_env \<Rightarrow> ContentStore \<Rightarrow> bool" where
  "store_sound env st \<longleftrightarrow>
    blobs_ok (oe_sha env) st \<and>
    (\<forall>name content. map_of (st_manifests st) name = Some content \<longrightarrow>
       (CHR ''@'' \<in> set name \<longrightarrow> (\<exists>d. pin_name d name)) \<and>
       ref_holds env st content (\<lambda>b. \<forall>d. pin_name d name \<longrightarrow> pinned env d b))"

lemma safe_name_append [simp]: "safe_name (a @ b) = safe_name a @ safe_name b"
  by (simp add: safe_name_def replace_char_def)

lemma at_safe_name: "CHR ''@'' \<in> set (safe_name s) \<longleftrightarrow> CHR ''@'' \<in> set s"
  by (auto simp: safe_name_def replace_char_def image_iff)

lemma safe_name_id: "CHR ''/'' \<notin> set s \<Longrightarrow> CHR '':'' \<notin> set s \<Longrightarrow> safe_name s = s"
  unfolding safe_name_def replace_char_def map_map by (rule map_idI) auto

lemma hex_chars: "list_all is_hex_digit h \<Longrightarrow> CHR ''/'' \<notin> set h \<and> CHR '':'' \<notin> set h \<and> CHR ''@'' \<notin> set h"
  by (auto simp: list_all_iff is_hex_digit_def is_ascii_digit_def)

lemma digest_parse_hex:
  assumes "Digest_parse s = Some d"
  obtains h where "s = ''sha256:'' @ h" "list_all is_hex_digit h" "length h = 64" "d = Digest s"
  using assms by (auto simp: Digest_parse_def strip_prefix_Some split: option.splits if_splits)

lemma safe_digest:
  assumes "Digest_parse s = Some d"
  shows "safe_name s = ''sha256_'' @ drop 7 s" "CHR ''@'' \<notin> set s"
proof -
  obtain h where h: "s = ''sha256:'' @ h" "list_all is_hex_digit h" using digest_parse_hex [OF assms] by blast
  have "safe_name ''sha256:'' = ''sha256_''" by (simp add: safe_name_def replace_char_def)
  moreover have "safe_name s = safe_name ''sha256:'' @ safe_name h" by (simp only: h(1) safe_name_append)
  moreover have "safe_name h = h" using hex_chars [OF h(2)] by (intro safe_name_id) simp_all
  ultimately show "safe_name s = ''sha256_'' @ drop 7 s" using h(1) by simp
  show "CHR ''@'' \<notin> set s" using h hex_chars [OF h(2)] by simp
qed

lemma safe_digest_inj:
  assumes "Digest_parse s \<noteq> None" "Digest_parse t \<noteq> None" "safe_name s = safe_name t"
  shows "s = t"
proof -
  obtain d e where "Digest_parse s = Some d" "Digest_parse t = Some e" using assms by blast
  then have "drop 7 s = drop 7 t" "s = ''sha256:'' @ drop 7 s" "t = ''sha256:'' @ drop 7 t"
    using assms(3) safe_digest(1) by (auto elim!: digest_parse_hex)
  then show ?thesis by metis
qed

lemma first_split_unique:
  assumes "a @ (c::char) # b = a' @ c # b'" "c \<notin> set a" "c \<notin> set a'"
  shows "a = a' \<and> b = b'"
proof -
  have "length a = length a'" using find_char_at [OF assms(2)] find_char_at [OF assms(3)] assms(1) by (metis option.inject)
  then show ?thesis using assms(1) by simp
qed

lemma canonical_safe_digest:
  assumes "ir_digest r = Some d"
  shows "manifest_ref_path (to_string_canonical r) =
    safe_name (ir_registry r @ ''/'' @ ir_repository r) @ CHR ''@'' # safe_name d @ ''.json''"
proof -
  have at: "safe_name ''@'' = ''@''" by (simp add: safe_name_def replace_char_def)
  have "to_string_canonical r = (ir_registry r @ ''/'' @ ir_repository r) @ ''@'' @ d"
    using assms by (simp add: to_string_canonical_def)
  then have "safe_name (to_string_canonical r) =
      safe_name (ir_registry r @ ''/'' @ ir_repository r) @ safe_name ''@'' @ safe_name d"
    by (simp only: safe_name_append)
  then show ?thesis using at by (simp add: manifest_ref_path_def)
qed

lemma pin_name_canonical:
  assumes "pin_name d (manifest_ref_path (to_string_canonical r))" "ref_ok r"
    and "\<And>e. ir_digest r = Some e \<Longrightarrow> Digest_parse e \<noteq> None"
  shows "ir_digest r = Some d"
proof -
  let ?n = "ir_registry r @ ''/'' @ ir_repository r"
  obtain x where x: "CHR ''@'' \<notin> set x" "Digest_parse d \<noteq> None"
      "safe_name (to_string_canonical r) @ ''.json'' = x @ CHR ''@'' # safe_name d @ ''.json''"
    using assms(1) by (auto simp: pin_name_def manifest_ref_path_def)
  show ?thesis
  proof (cases "ir_digest r")
    case None
    then have "CHR ''@'' \<notin> set (to_string_canonical r)" using assms(2) by (simp add: to_string_canonical_def ref_ok_def)
    then have "CHR ''@'' \<notin> set (safe_name (to_string_canonical r) @ ''.json'')" by (simp add: at_safe_name)
    then show ?thesis unfolding x(3) by simp
  next
    case (Some e)
    then have "safe_name ?n @ CHR ''@'' # safe_name e @ ''.json'' = x @ CHR ''@'' # safe_name d @ ''.json''"
      using x(3) canonical_safe_digest [OF Some] by (simp add: manifest_ref_path_def)
    moreover have "CHR ''@'' \<notin> set (safe_name ?n)" using assms(2) by (simp only: at_safe_name) (simp add: ref_ok_def)
    ultimately have "safe_name e @ ''.json'' = safe_name d @ ''.json''" using first_split_unique x(1) by metis
    then have "safe_name e = safe_name d" by simp
    then show ?thesis using Some assms(3) x(2) safe_digest_inj by blast
  qed
qed

lemma canonical_pin_name:
  assumes "ref_ok r" "CHR ''@'' \<in> set (manifest_ref_path (to_string_canonical r))"
    and "\<And>d. ir_digest r = Some d \<Longrightarrow> Digest_parse d \<noteq> None \<and> P d"
  shows "\<exists>d. pin_name d (manifest_ref_path (to_string_canonical r))"
proof (cases "ir_digest r")
  case None
  then have "CHR ''@'' \<notin> set (to_string_canonical r)" using assms(1) by (simp add: to_string_canonical_def ref_ok_def)
  then show ?thesis using assms(2) by (simp add: manifest_ref_path_def at_safe_name)
next
  case (Some d)
  then have "CHR ''@'' \<notin> set (safe_name (ir_registry r @ ''/'' @ ir_repository r))"
    using assms(1) by (simp only: at_safe_name) (simp add: ref_ok_def)
  then show ?thesis using canonical_safe_digest [OF Some] assms(3) [OF Some] by (auto simp: pin_name_def)
qed

lemma ref_holds_mono:
  "ref_holds env st c P \<Longrightarrow> (\<And>d b. stored d st = Some b \<Longrightarrow> stored d st' = Some b) \<Longrightarrow> ref_holds env st' c P"
  unfolding ref_holds_def by blast

lemma pinned_same_digest: "oe_sha env b = oe_sha env m \<Longrightarrow> pinned env d m \<Longrightarrow> pinned env d b"
  by (simp add: pinned_def digest_from_data_def)

lemma hex_not_whitespace: "is_hex_digit c \<Longrightarrow> \<not> is_whitespace c"
  by (auto simp: is_hex_digit_def is_whitespace_def is_ascii_digit_def)

lemma digest_text_trim:
  assumes "sha_ok sha"
  shows "Digest_parse (trim (digest_as_str (digest_from_data sha x))) = Some (digest_from_data sha x)"
proof -
  have "list_all (\<lambda>c. \<not> is_whitespace c) (sha x)"
    using assms hex_not_whitespace by (auto simp: sha_ok_def list_all_iff)
  then have "trim (digest_as_str (digest_from_data sha x)) = digest_as_str (digest_from_data sha x)"
    by (intro trim_no_space) (simp add: digest_from_data_def is_whitespace_def)
  then show ?thesis by (simp add: digest_parse_from_data [OF assms])
qed

lemma put_manifest_cases:
  assumes "put_manifest sha f ref m st = (res, st')" "whole f"
  obtains st1 rb where "put_blob sha f m st = (rb, st1)" "st_blobs st' = st_blobs st1"
    "st_manifests st' = st_manifests st \<and> (\<forall>d. res \<noteq> Inr d) \<or>
     rb = Inr (digest_from_data sha m) \<and> res = rb \<and>
     st_manifests st' = table_insert (manifest_ref_path ref) (digest_as_str (digest_from_data sha m)) (st_manifests st)"
proof -
  obtain rb st1 where b: "put_blob sha f m st = (rb, st1)" by (cases "put_blob sha f m st")
  note keep = put_blob_manifests [OF b]
  show thesis
  proof (cases rb)
    case (Inl e)
    then show ?thesis using that b assms(1) keep by (auto simp: put_manifest_def)
  next
    case (Inr d)
    then have d: "d = digest_from_data sha m" using put_blob_ok b by blast
    show ?thesis
    proof (cases "on_write f (manifest_ref_path ref)")
      case None
      then show ?thesis using that b assms(1) keep Inr d by (auto simp: put_manifest_def Let_def)
    next
      case (Some w)
      then obtain e where "w = WriteRefused e" using assms(2) by (cases w) (auto simp: whole_def)
      then show ?thesis using that b assms(1) keep Inr Some by (auto simp: put_manifest_def Let_def)
    qed
  qed
qed

lemma store_sound_put_manifest:
  assumes "sha_ok (oe_sha env)" "whole f" "store_sound env st" "ref_ok r"
    and put: "put_manifest (oe_sha env) f (to_string_canonical r) m st = (res, st')"
    and pin: "\<And>d. ir_digest r = Some d \<Longrightarrow> Digest_parse d \<noteq> None \<and> pinned env d m"
  shows "store_sound env st'"
proof -
  let ?n = "manifest_ref_path (to_string_canonical r)" and ?d = "digest_from_data (oe_sha env) m"
  obtain st1 rb where b: "put_blob (oe_sha env) f m st = (rb, st1)" "st_blobs st' = st_blobs st1"
    and c: "st_manifests st' = st_manifests st \<or>
      rb = Inr ?d \<and> st_manifests st' = table_insert ?n (digest_as_str ?d) (st_manifests st)"
    using put_manifest_cases [OF put assms(2)] by metis
  have ok: "blobs_ok (oe_sha env) st'"
    using put_blob_sound [OF _ b(1)] assms(2,3) b(2) by (simp add: store_sound_def whole_def blobs_ok_def)
  have keep: "stored d st' = Some y" if "stored d st = Some y" for d y
    using put_blob_keeps [OF b(1) that] b(2) by simp
  have new: "ref_holds env st' (digest_as_str ?d) (\<lambda>b. \<forall>d. pin_name d ?n \<longrightarrow> pinned env d b)" if "rb = Inr ?d"
  proof -
    have "stored ?d st1 \<noteq> None" using put_blob_ok b(1) that by blast
    then obtain y where y: "stored ?d st' = Some y" using b(2) by auto
    then have sha: "oe_sha env y = oe_sha env m" using blobs_ok_stored [OF ok y] by simp
    have "pinned env d y" if "pin_name d ?n" for d
      using pin_name_canonical [OF that assms(4)] pin pinned_same_digest [OF sha] by blast
    then show ?thesis using y digest_text_trim [OF assms(1)] by (auto simp: ref_holds_def)
  qed
  have "ref_holds env st' content (\<lambda>b. \<forall>d. pin_name d name \<longrightarrow> pinned env d b)"
    if "map_of (st_manifests st') name = Some content" for name content
  proof (cases "rb = Inr ?d \<and> name = ?n \<and> st_manifests st' = table_insert ?n (digest_as_str ?d) (st_manifests st)")
    case True
    then show ?thesis using that new by (simp add: table_simps)
  next
    case False
    then have "map_of (st_manifests st) name = Some content" using that c by (auto simp: table_simps split: if_splits)
    then have "ref_holds env st content (\<lambda>b. \<forall>d. pin_name d name \<longrightarrow> pinned env d b)"
      using assms(3) by (simp add: store_sound_def)
    then show ?thesis by (rule ref_holds_mono) (rule keep)
  qed
  moreover have "\<exists>d. pin_name d name"
    if "map_of (st_manifests st') name = Some content" "CHR ''@'' \<in> set name" for name content
  proof (cases "map_of (st_manifests st) name")
    case None
    then have "name = ?n" using that(1) c by (auto simp: table_simps split: if_splits)
    then show ?thesis using that(2) pin canonical_pin_name [OF assms(4)] by blast
  qed (use assms(3) that(2) in \<open>auto simp: store_sound_def\<close>)
  ultimately show ?thesis using ok by (simp add: store_sound_def)
qed

lemma store_sound_put_blob:
  assumes "whole f" "store_sound env st" "put_blob (oe_sha env) f x st = (res, st')"
  shows "store_sound env st'"
proof -
  have "blobs_ok (oe_sha env) st'" using assms put_blob_sound [OF _ assms(3)] by (simp add: store_sound_def whole_def)
  moreover have "ref_holds env st c P \<Longrightarrow> ref_holds env st' c P" for c P
    using ref_holds_mono put_blob_keeps [OF assms(3)] by blast
  ultimately show ?thesis using assms(2) put_blob_manifests [OF assms(3)] by (simp add: store_sound_def)
qed

lemma safe_digest_only:
  assumes "Digest_parse e \<noteq> None" "starts_with d ''sha256:''" "safe_name d = safe_name e"
  shows "d = e"
proof -
  obtain h where h: "e = ''sha256:'' @ h" "list_all is_hex_digit h" using assms(1) by (auto elim!: digest_parse_hex)
  obtain t where t: "d = ''sha256:'' @ t" using assms(2) by (auto simp: starts_with_iff)
  have hh: "safe_name h = h" using hex_chars [OF h(2)] by (intro safe_name_id) simp_all
  have "safe_name ''sha256:'' @ safe_name t = safe_name ''sha256:'' @ safe_name h"
    using assms(3) unfolding h(1) t by (simp only: safe_name_append)
  then have eq: "safe_name t = h" using hh by simp
  have "CHR ''_'' \<notin> set h" using h(2) by (auto simp: list_all_iff is_hex_digit_def is_ascii_digit_def)
  then have "CHR ''/'' \<notin> set t" "CHR '':'' \<notin> set t"
    unfolding eq [symmetric] by (auto simp: safe_name_def replace_char_def)
  then have "safe_name t = t" by (rule safe_name_id)
  then show ?thesis using eq h t by simp
qed

lemma pinned_reference:
  assumes "store_sound env st" "ref_ok r" "ir_digest r = Some d"
    and "map_of (st_manifests st) (manifest_ref_path (to_string_canonical r)) = Some content"
  shows "ref_holds env st content (pinned env d)"
proof -
  let ?n = "manifest_ref_path (to_string_canonical r)" and ?p = "safe_name (ir_registry r @ ''/'' @ ir_repository r)"
  note name = canonical_safe_digest [OF assms(3)]
  have "CHR ''@'' \<in> set ?n" unfolding name by simp
  then obtain e where e: "pin_name e ?n" using assms(1,4) unfolding store_sound_def by blast
  then obtain x where x: "Digest_parse e \<noteq> None" "CHR ''@'' \<notin> set x" "?n = x @ CHR ''@'' # safe_name e @ ''.json''"
    by (auto simp: pin_name_def)
  have "CHR ''@'' \<notin> set ?p" using assms(2) by (simp only: at_safe_name) (simp add: ref_ok_def)
  then have "safe_name d @ ''.json'' = safe_name e @ ''.json''" using first_split_unique x(2,3) name by metis
  then have "safe_name d = safe_name e" by simp
  then have "d = e" using safe_digest_only [OF x(1)] assms(2,3) by (simp add: ref_ok_def)
  then have "pin_name d ?n" using e by simp
  moreover have "ref_holds env st content (\<lambda>b. \<forall>d. pin_name d ?n \<longrightarrow> pinned env d b)"
    using assms(1,4) by (simp add: store_sound_def)
  ultimately show ?thesis by (auto simp: ref_holds_def)
qed

lemma get_manifest_Some:
  assumes "get_manifest f reference st = Inr (Some b)"
  shows "\<exists>content d. map_of (st_manifests st) (manifest_ref_path reference) = Some content \<and>
    Digest_parse (trim content) = Some d \<and> stored d st = Some b"
  using assms
  by (auto simp: get_manifest_def get_blob_def fs_read_def Let_def result_simps split: option.splits if_splits)

lemma cached_manifest_spec:
  assumes "cached_manifest env f canonical st = Inr (Some m)"
  obtains content d b where "map_of (st_manifests st) (manifest_ref_path canonical) = Some content"
    "Digest_parse (trim content) = Some d" "stored d st = Some b" "oe_manifest env b = Inr m"
    "manifest_blobs_present m st"
proof -
  obtain b where b: "get_manifest f canonical st = Inr (Some b)" "oe_manifest env b = Inr m" "manifest_blobs_present m st"
  proof (cases "get_manifest f canonical st")
    case (Inr bytes)
    then show thesis using assms that by (cases bytes) (auto simp: cached_manifest_def split: sum.splits if_splits)
  qed (use assms in \<open>simp add: cached_manifest_def\<close>)
  then show thesis using that get_manifest_Some by blast
qed

lemma verify_digest_ok:
  "verify_manifest_digest env (Some d) body ref = Inr () \<Longrightarrow>
   Digest_parse d \<noteq> None \<and> digest_as_str (digest_from_data (oe_sha env) body) = d"
  by (auto simp: verify_manifest_digest_def digest_validate_def result_simps split: if_splits
    dest: digest_parse_wf)

lemma store_manifest_put:
  "store_manifest env f canonical body st = (res, st') \<Longrightarrow>
   \<exists>r. put_manifest (oe_sha env) f canonical body st = (r, st')"
  by (auto simp: store_manifest_def Let_def split: prod.splits)

lemma put_manifest_keeps:
  assumes "put_manifest sha f ref m st = (res, st')" "whole f" "stored d st = Some y"
  shows "stored d st' = Some y"
proof -
  obtain st1 rb where b: "put_blob sha f m st = (rb, st1)" "st_blobs st' = st_blobs st1"
    using put_manifest_cases [OF assms(1,2)] by metis
  then show ?thesis using put_blob_keeps [OF b(1) assms(3)] by simp
qed

definition keeps_blobs :: "ContentStore \<Rightarrow> ContentStore \<Rightarrow> bool" where
  "keeps_blobs st st' \<longleftrightarrow> (\<forall>d y. stored d st = Some y \<longrightarrow> stored d st' = Some y)"

lemma keeps_blobs_refl [simp]: "keeps_blobs st st"
  by (simp add: keeps_blobs_def)

lemma keeps_blobs_trans: "keeps_blobs a b \<Longrightarrow> keeps_blobs b c \<Longrightarrow> keeps_blobs a c"
  by (simp add: keeps_blobs_def)

lemma keeps_blobs_has: "keeps_blobs st st' \<Longrightarrow> has_blob d st \<Longrightarrow> has_blob d st'"
  by (auto simp: keeps_blobs_def has_blob_def)

lemma keeps_blobs_present: "keeps_blobs st st' \<Longrightarrow> manifest_blobs_present m st \<Longrightarrow> manifest_blobs_present m st'"
  by (auto simp: manifest_blobs_present_def blob_present_def list_all_iff keeps_blobs_has split: option.splits)

lemma select_platform_mem: "select_platform env index = Some e \<Longrightarrow> e \<in> set (oi_manifests index)"
  by (auto simp: select_platform_def find_Some_iff split: option.splits)

text \<open>Storing a manifest that the reference stands for keeps the store sound, and so do the two ways
  in which a pull comes by such a manifest.\<close>

definition good_manifest :: "oci_env \<Rightarrow> ImageReference \<Rightarrow> OciManifest \<Rightarrow> bool" where
  "good_manifest env r m \<longleftrightarrow>
    (\<exists>body. oe_manifest env body = Inr m \<and> (\<forall>d. ir_digest r = Some d \<longrightarrow> pinned env d body))"

lemma store_manifest_sound:
  assumes "sha_ok (oe_sha env)" "whole f" "store_sound env st" "ref_ok r"
    and "store_manifest env f (to_string_canonical r) m st = (res, st')"
    and "\<And>d. ir_digest r = Some d \<Longrightarrow> Digest_parse d \<noteq> None \<and> pinned env d m"
  shows "store_sound env st' \<and> keeps_blobs st st'"
proof -
  obtain q where q: "put_manifest (oe_sha env) f (to_string_canonical r) m st = (q, st')"
    using store_manifest_put [OF assms(5)] by blast
  show ?thesis using store_sound_put_manifest [OF assms(1-4) q assms(6)] put_manifest_keeps [OF q assms(2)]
    by (simp add: keeps_blobs_def)
qed

lemma pull_platform_sound:
  assumes env: "sha_ok (oe_sha env)" "whole f" "store_sound env st" "ref_ok r"
    and index: "oe_index env body0 = Inr index"
    and pin: "\<And>d. ir_digest r = Some d \<Longrightarrow> Digest_parse d \<noteq> None \<and> digest_as_str (digest_from_data (oe_sha env) body0) = d"
    and run: "pull_platform_manifest env f r index (c, st) = (res, c', st')"
  shows "store_sound env st' \<and> keeps_blobs st st' \<and> (\<forall>m. res = Inr m \<longrightarrow> good_manifest env r m)"
proof (cases "\<exists>entry c1 body. select_platform env index = Some entry \<and>
    authenticated_get env (manifest_url r (pm_digest entry)) (ir_registry r) (ir_repository r) MANIFEST_TYPES c = (Inr body, c1) \<and>
    verify_manifest_digest env (Some (pm_digest entry)) body (to_string_canonical r) = Inr ()")
  case True
  then obtain entry c1 body where b: "select_platform env index = Some entry"
      "authenticated_get env (manifest_url r (pm_digest entry)) (ir_registry r) (ir_repository r) MANIFEST_TYPES c = (Inr body, c1)"
      "verify_manifest_digest env (Some (pm_digest entry)) body (to_string_canonical r) = Inr ()" by blast
  obtain rs st1 where s: "store_manifest env f (to_string_canonical r) body st = (rs, st1)"
    by (cases "store_manifest env f (to_string_canonical r) body st")
  have p: "Digest_parse d \<noteq> None \<and> pinned env d body" if "ir_digest r = Some d" for d
    using pin [OF that] verify_digest_ok [OF b(3)] index select_platform_mem [OF b(1)] unfolding pinned_def by blast
  have st': "st' = st1" "\<forall>m. res = Inr m \<longrightarrow> oe_manifest env body = Inr m"
    using run b s by (auto simp: pull_platform_manifest_def Let_def result_simps split: sum.splits)
  then show ?thesis using store_manifest_sound [OF env s p] p unfolding good_manifest_def by blast
next
  case False
  then have "st' = st" "\<forall>m. res \<noteq> Inr m" using run
    by (auto simp: pull_platform_manifest_def Let_def split: option.splits prod.splits sum.splits)
  then show ?thesis using env(3) by simp
qed

lemma pull_manifest_sound:
  assumes env: "sha_ok (oe_sha env)" "whole f" "store_sound env st" "ref_ok r"
    and run: "pull_manifest env f r (c, st) = (res, c', st')"
  shows "store_sound env st' \<and> keeps_blobs st st' \<and> (\<forall>m. res = Inr m \<longrightarrow> good_manifest env r m)"
proof -
  let ?get = "authenticated_get env (manifest_url r (case ir_digest r of Some d \<Rightarrow> d | None \<Rightarrow> ir_tag r))
    (ir_registry r) (ir_repository r) (MANIFEST_TYPES @ INDEX_TYPES) c"
  obtain g c1 where g: "?get = (g, c1)" by (cases ?get)
  show ?thesis
  proof (cases "\<exists>body. g = Inr body \<and> verify_manifest_digest env (ir_digest r) body (to_string_canonical r) = Inr ()")
    case False
    then have "st' = st" "\<forall>m. res \<noteq> Inr m" using run g
      by (auto simp: pull_manifest_def Let_def split: sum.splits)
    then show ?thesis using env(3) by simp
  next
    case True
    then obtain body where b: "g = Inr body" "verify_manifest_digest env (ir_digest r) body (to_string_canonical r) = Inr ()"
      by blast
    have pin: "Digest_parse d \<noteq> None \<and> digest_as_str (digest_from_data (oe_sha env) body) = d"
      if "ir_digest r = Some d" for d using verify_digest_ok b(2) that by metis
    show ?thesis
    proof (cases "oe_manifest env body")
      case (Inr m)
      obtain rs st1 where s: "store_manifest env f (to_string_canonical r) body st = (rs, st1)"
        by (cases "store_manifest env f (to_string_canonical r) body st")
      have p: "Digest_parse d \<noteq> None \<and> pinned env d body" if "ir_digest r = Some d" for d
        using pin [OF that] by (simp add: pinned_def)
      have "st' = st1" "\<forall>x. res = Inr x \<longrightarrow> x = m"
        using run g b s Inr by (auto simp: pull_manifest_def Let_def result_simps)
      then show ?thesis using store_manifest_sound [OF env s p] p Inr unfolding good_manifest_def by blast
    next
      case (Inl e)
      show ?thesis
      proof (cases "oe_index env body")
        case (Inr index)
        then have "pull_platform_manifest env f r index (c1, st) = (res, c', st')"
          using run g b Inl by (simp add: pull_manifest_def Let_def)
        then show ?thesis using pull_platform_sound [OF env Inr pin] by blast
      next
        case (Inl e')
        then have "st' = st" "\<forall>m. res \<noteq> Inr m" using run g b \<open>oe_manifest env body = Inl e\<close>
          by (auto simp: pull_manifest_def Let_def)
        then show ?thesis using env(3) by simp
      qed
    qed
  qed
qed

lemma pull_blob_cases:
  assumes "pull_blob env f reg repo d (c, st) = (res, calls, c', st')"
  shows "(st' = st \<and> (res = Inr () \<longrightarrow> has_blob d st)) \<or>
    (\<exists>x rs. put_blob (oe_sha env) f x st = (rs, st') \<and> digest_from_data (oe_sha env) x = d \<and>
      (res = Inr () \<longrightarrow> (\<exists>y. rs = Inr y)))"
proof (cases "has_blob d st")
  case True
  then show ?thesis using assms by (simp add: pull_blob_def)
next
  case False
  define url where "url = ''https://'' @ reg @ ''/v2/'' @ repo @ ''/blobs/'' @ digest_as_str d"
  obtain g c1 where g: "authenticated_get_response env url reg repo c = (g, c1)" by fastforce
  note unf = assms [unfolded pull_blob_def Let_def prod.case url_def [symmetric] g if_not_P [OF False]]
  show ?thesis
  proof (cases g)
    case (Inl e)
    then have "st' = st" "res = Inl e" using unf by simp_all
    then show ?thesis by simp
  next
    case (Inr resp)
    let ?n = "case rs_length resp of Some n \<Rightarrow> n | None \<Rightarrow> 0"
    obtain rd k where rd: "read_chunks d ?n (rs_chunks resp) [] [] = (rd, k)" by fastforce
    show ?thesis
    proof (cases "\<exists>x. rd = Inr x \<and> digest_from_data (oe_sha env) x = d")
      case True
      then obtain x where x: "rd = Inr x" "digest_from_data (oe_sha env) x = d" by blast
      obtain rs st1 where p: "put_blob (oe_sha env) f x st = (rs, st1)" by fastforce
      have "st' = st1" "res = Inr () \<longrightarrow> (\<exists>y. rs = Inr y)"
        using unf Inr rd x p by (auto simp: digest_validate_def result_simps)
      then show ?thesis using p x by blast
    next
      case no: False
      then have "st' = st" "res \<noteq> Inr ()" using unf Inr rd
        by (auto simp: digest_validate_def split: sum.splits)
      then show ?thesis by simp
    qed
  qed
qed

lemma pull_blob_sound:
  assumes "whole f" "store_sound env st" "pull_blob env f reg repo d (c, st) = (res, calls, c', st')"
  shows "store_sound env st' \<and> keeps_blobs st st' \<and> (res = Inr () \<longrightarrow> has_blob d st')"
  using pull_blob_cases [OF assms(3)]
proof (elim disjE exE conjE)
  fix x rs
  assume p: "put_blob (oe_sha env) f x st = (rs, st')" "digest_from_data (oe_sha env) x = d"
    "res = Inr () \<longrightarrow> (\<exists>y. rs = Inr y)"
  have "has_blob d st'" if "res = Inr ()" using that p put_blob_ok by (auto simp: has_blob_def)
  then show ?thesis
    using store_sound_put_blob [OF assms(1,2) p(1)] put_blob_keeps [OF p(1)] by (simp add: keeps_blobs_def)
qed (simp add: assms(2))

lemma pull_layers_sound:
  "whole f \<Longrightarrow> store_sound env st \<Longrightarrow> pull_layers env f str r n i ls (c, st) = (res, ev, c', st') \<Longrightarrow>
   store_sound env st' \<and> keeps_blobs st st' \<and> (res = Inr () \<longrightarrow> list_all (blob_present st') ls)"
proof (induction ls arbitrary: i c st res ev c' st')
  case (Cons l ls)
  show ?case
  proof (cases "Digest_parse (od_digest l)")
    case (Some d)
    obtain r1 calls c1 st1 where b: "pull_blob env f (ir_registry r) (ir_repository r) d (c, st) = (r1, calls, c1, st1)"
      by (metis prod.exhaust)
    note S = pull_blob_sound [OF Cons.prems(1,2) b]
    show ?thesis
    proof (cases r1)
      case (Inl e)
      then show ?thesis using Cons.prems(3) Some b S by (auto simp: Let_def)
    next
      case (Inr u)
      obtain r2 ev2 c2 st2 where t: "pull_layers env f str r n (i + 1) ls (c1, st1) = (r2, ev2, c2, st2)"
        by (metis prod.exhaust)
      have "st' = st2" "res = r2" using Cons.prems(3) Some b Inr t by (auto simp: Let_def)
      moreover have "store_sound env st2 \<and> keeps_blobs st1 st2 \<and> (r2 = Inr () \<longrightarrow> list_all (blob_present st2) ls)"
        using Cons.IH [OF Cons.prems(1) _ t] S by blast
      moreover have "blob_present st2 l" if "keeps_blobs st1 st2"
        using that S Inr Some keeps_blobs_has by (simp add: blob_present_def)
      ultimately show ?thesis using S keeps_blobs_trans by (metis list.pred_inject(2))
    qed
  qed (use Cons.prems in auto)
qed simp

definition intact :: "oci_env \<Rightarrow> ContentStore \<Rightarrow> OciDescriptor \<Rightarrow> bool" where
  "intact env st entry \<longleftrightarrow>
    (\<exists>d b. Digest_parse (od_digest entry) = Some d \<and> stored d st = Some b \<and> digest_from_data (oe_sha env) b = d)"

lemma present_intact: "store_sound env st \<Longrightarrow> blob_present st entry \<Longrightarrow> intact env st entry"
  by (auto simp: blob_present_def intact_def has_blob_def store_sound_def digest_from_data_eq
    dest!: digest_parse_wf intro: blobs_ok_stored split: option.splits)

lemma present_all_intact:
  "store_sound env st \<Longrightarrow> manifest_blobs_present m st \<Longrightarrow> list_all (intact env st) (om_config m # om_layers m)"
  unfolding manifest_blobs_present_def using present_intact by (simp add: list_all_iff)

lemma pull_contents_sound:
  assumes "whole f" "store_sound env st" "pull_contents env f str r m (c, st) = (res, ev, c', st')"
  shows "store_sound env st' \<and> keeps_blobs st st' \<and> (\<forall>x. res = Inr x \<longrightarrow> x = m \<and> manifest_blobs_present m st')"
proof (cases "Digest_parse (od_digest (om_config m))")
  case None
  then show ?thesis using assms by (auto simp: pull_contents_def)
next
  case (Some d)
  obtain r1 calls c1 st1 where b: "pull_blob env f (ir_registry r) (ir_repository r) d (c, st) = (r1, calls, c1, st1)"
    by (metis prod.exhaust)
  note S = pull_blob_sound [OF assms(1,2) b]
  show ?thesis
  proof (cases r1)
    case (Inl e)
    then show ?thesis using assms(3) Some b S by (auto simp: pull_contents_def Let_def)
  next
    case (Inr u)
    obtain r2 ev2 c2 st2 where t:
        "pull_layers env f str r (length (om_layers m)) 0 (om_layers m) (c1, st1) = (r2, ev2, c2, st2)"
      by (metis prod.exhaust)
    have "store_sound env st2 \<and> keeps_blobs st1 st2 \<and> (r2 = Inr () \<longrightarrow> list_all (blob_present st2) (om_layers m))"
      using pull_layers_sound [OF assms(1) _ t] S by blast
    moreover have "st' = st2" "\<forall>x. res = Inr x \<longrightarrow> x = m \<and> r2 = Inr ()"
      using assms(3) Some b Inr t by (auto simp: pull_contents_def Let_def split: sum.splits)
    moreover have "blob_present st2 (om_config m)" if "keeps_blobs st1 st2"
      using that S Inr Some keeps_blobs_has by (simp add: blob_present_def)
    ultimately show ?thesis using S keeps_blobs_trans unfolding manifest_blobs_present_def by (metis list.pred_inject(2))
  qed
qed

lemma cached_good:
  assumes "store_sound env st" "ref_ok r" "cached_manifest env f (to_string_canonical r) st = Inr (Some m)"
  shows "good_manifest env r m \<and> manifest_blobs_present m st"
proof -
  obtain content d b where b: "map_of (st_manifests st) (manifest_ref_path (to_string_canonical r)) = Some content"
      "Digest_parse (trim content) = Some d" "stored d st = Some b" "oe_manifest env b = Inr m" "manifest_blobs_present m st"
    using cached_manifest_spec [OF assms(3)] by blast
  have "pinned env h b" if "ir_digest r = Some h" for h
    using pinned_reference [OF assms(1,2) that b(1)] b(2,3) by (auto simp: ref_holds_def)
  then show ?thesis using b(4,5) unfolding good_manifest_def by blast
qed

lemma pull_sound:
  assumes "sha_ok (oe_sha env)" "whole f" "store_sound env st" "pull env f str (c, st) = (res, ev, c', st')"
  shows "store_sound env st' \<and>
    (\<forall>m. res = Inr m \<longrightarrow> (\<exists>r. ImageReference_parse str = Inr r \<and> good_manifest env r m \<and> manifest_blobs_present m st'))"
proof (cases "ImageReference_parse str")
  case (Inl e)
  then show ?thesis using assms(3,4) by (auto simp: pull_def parse_reference_def)
next
  case (Inr r)
  have ok: "ref_ok r" by (rule parse_ref_ok [OF Inr])
  note run = assms(4) [unfolded pull_def parse_reference_def Inr map_err.simps sum.case snd_conv]
  show ?thesis
  proof (cases "cached_manifest env f (to_string_canonical r) st")
    case (Inl e)
    then show ?thesis using run assms(3) by auto
  next
    case c: (Inr cached)
    show ?thesis
    proof (cases "ir_digest r \<noteq> None \<and> cached \<noteq> None")
      case True
      then obtain m where "cached = Some m" "st' = st" "res = Inr m" using run c by auto
      then show ?thesis using cached_good [OF assms(3) ok] c Inr assms(3) by auto
    next
      case False
      obtain pm c1 st1 where pm: "pull_manifest env f r (c, st) = (pm, c1, st1)" by (metis prod.exhaust)
      note P = pull_manifest_sound [OF assms(1-3) ok pm]
      show ?thesis
      proof (cases pm)
        case m: (Inr m)
        obtain rs ev2 c2 st2 where t: "pull_contents env f str r m (c1, st1) = (rs, ev2, c2, st2)" by (metis prod.exhaust)
        have st': "st' = st2" "res = rs" using run c False pm m t by (auto simp: Let_def)
        note C = pull_contents_sound [OF assms(2) _ t]
        show ?thesis using st' C P m Inr by auto
      next
        case (Inl e)
        then have st': "st' = st1" "\<forall>m. res = Inr m \<longrightarrow> cached = Some m"
          using run c False pm by (auto simp: Let_def split: option.splits)
        show ?thesis using st' P cached_good [OF assms(3) ok] c Inr keeps_blobs_present by auto
      qed
    qed
  qed
qed


definition demo_manifest :: OciManifest where
  "demo_manifest = \<lparr>om_schema_version = 2, om_media_type = [],
    om_config = \<lparr>od_media_type = [], od_digest = ''sha256:'' @ replicate 64 CHR ''a'', od_size = 1\<rparr>, om_layers = []\<rparr>"

definition demo_env :: oci_env where
  "demo_env = \<lparr>oe_http = (\<lambda>n rq. Inr \<lparr>rs_status = 200, rs_status_text = ''200 OK'', rs_www_authenticate = None,
      rs_length = None, rs_body = Inr ''{}'', rs_chunks = [Inr ''{}'']\<rparr>),
    oe_sha = (\<lambda>_. replicate 64 CHR ''a''), oe_manifest = (\<lambda>_. Inr demo_manifest),
    oe_index = (\<lambda>_. Inl ''not an index''), oe_json = (\<lambda>_. Inl ''no json''), oe_arch = ''amd64''\<rparr>"

definition no_faults :: io_faults where "no_faults = \<lparr>on_write = (\<lambda>_. None), on_read = (\<lambda>_. None)\<rparr>"

definition demo_client :: DistributionClient where "demo_client = \<lparr>dc_tokens = [], dc_sent = 0\<rparr>"

definition empty_store :: ContentStore where "empty_store = \<lparr>st_blobs = [], st_manifests = []\<rparr>"


text \<open>Two tags share a reference file when they differ only in \<open>/\<close>, \<open>:\<close> and \<open>_\<close>: the manifest stored
  for one is what the store returns for the other.\<close>

lemma tag_names_collide:
  assumes "sha_ok sha" "safe_name a = safe_name b" "put_manifest sha no_faults a m st = (Inr d, st')"
  shows "\<exists>x. get_manifest no_faults b st' = Inr (Some x) \<and> stored d st' = Some x"
proof -
  have w: "whole no_faults" by (simp add: whole_def no_faults_def)
  obtain st1 where p: "put_blob sha no_faults m st = (Inr d, st1)" "st_blobs st' = st_blobs st1"
      "d = digest_from_data sha m"
      "st_manifests st' = table_insert (manifest_ref_path a) (digest_as_str d) (st_manifests st)"
    using put_manifest_cases [OF assms(3) w] by (metis sum.inject(2))
  obtain x where x: "stored d st' = Some x" using put_blob_ok [OF p(1)] p(2) by auto
  then show ?thesis using p assms(2) digest_text_trim [OF assms(1)]
    by (auto simp: get_manifest_def get_blob_def fs_read_def no_faults_def manifest_ref_path_def table_simps)
qed

lemma tags_that_collide:
  "\<exists>r1 r2. ImageReference_parse ''x/y_z:1'' = Inr r1 \<and> ImageReference_parse ''x/y/z:1'' = Inr r2 \<and>
     ir_repository r1 \<noteq> ir_repository r2 \<and>
     safe_name (to_string_canonical r1) = safe_name (to_string_canonical r2)"
proof -
  have "ImageReference_parse ''x/y_z:1'' = Inr \<lparr>ir_registry = ''registry-1.docker.io'', ir_repository = ''x/y_z'',
      ir_tag = ''1'', ir_digest = None\<rparr>" by code_simp
  moreover have "ImageReference_parse ''x/y/z:1'' = Inr \<lparr>ir_registry = ''registry-1.docker.io'', ir_repository = ''x/y/z'',
      ir_tag = ''1'', ir_digest = None\<rparr>" by code_simp
  ultimately show ?thesis by (auto simp: to_string_canonical_def safe_name_def replace_char_def)
qed

text \<open>The cache stands in for every failure of the manifest request, a refusal or a digest mismatch
  included, not only for a registry that cannot be reached.\<close>

lemma cache_hides_any_error:
  assumes "ImageReference_parse str = Inr r" "ir_digest r = None"
    and "cached_manifest env f (to_string_canonical r) st = Inr (Some m)"
    and "pull_manifest env f r (c, st) = (Inl e, c', st')"
  shows "fst (pull env f str (c, st)) = Inr m"
  using assms by (simp add: pull_def parse_reference_def Let_def)

end
