(* ===== verification/Oci_Layers.thy ===== *)
theory Oci_Layers
  imports Oci_Images "HOL-Library.Sublist"
begin

text \<open>
  Unpacking image layers (\<open>unpack_layer\<close> of \<open>rauha-oci/src/image.rs\<close>). The file system is a table from
  absolute paths, as lists of names, to directories, files and symbolic links, with the path walk of
  the kernel: links are followed in every component but the last of \<open>symlink_metadata\<close>,
  \<open>remove_file\<close> and \<open>remove_dir_all\<close>. Every system call may fail. The tar library is a parameter.
\<close>

subsection \<open>The file system\<close>

type_synonym fpath = "string list"

datatype node = NDir | NFile string | NSymlink string

type_synonym file_system = "(fpath \<times> node) list"

datatype fs_error = NotFound | OsError string

text \<open>The kernel follows at most 40 links; the first argument counts those left.\<close>

fun walk :: "nat \<Rightarrow> file_system \<Rightarrow> fpath \<Rightarrow> string list \<Rightarrow> fs_error + fpath" where
  "walk hops fs cur [] = Inr cur"
| "walk hops fs cur (c # cs) =
     (if c = [] \<or> c = ''.'' then walk hops fs cur cs
      else if c = ''..'' then walk hops fs (butlast cur) cs
      else
        (case map_of fs (cur @ [c]) of
           None \<Rightarrow> Inl NotFound
         | Some NDir \<Rightarrow> walk hops fs (cur @ [c]) cs
         | Some (NFile _) \<Rightarrow> if cs = [] then Inr (cur @ [c]) else Inl (OsError ''Not a directory (os error 20)'')
         | Some (NSymlink t) \<Rightarrow>
             (case hops of
                0 \<Rightarrow> Inl (OsError ''Too many levels of symbolic links (os error 40)'')
              | Suc n \<Rightarrow> walk n fs (if starts_with t ''/'' then [] else cur) (split_on CHR ''/'' t @ cs))))"

definition canonicalize :: "file_system \<Rightarrow> fpath \<Rightarrow> fs_error + fpath" where
  "canonicalize fs p = walk 40 fs [] p"

text \<open>The entry that an operation on the last component of a path acts on.\<close>

definition last_entry :: "file_system \<Rightarrow> fpath \<Rightarrow> fs_error + fpath" where
  "last_entry fs p = and_then (walk 40 fs [] (butlast p)) (\<lambda>parent. Inr (parent @ [last p]))"

record fs_faults =
  ff_canonicalize :: "fpath \<Rightarrow> string option"
  ff_stat :: "fpath \<Rightarrow> string option"
  ff_read_dir :: "fpath \<Rightarrow> string option"
  ff_entry :: "fpath \<Rightarrow> string option"
  ff_remove :: "fpath \<Rightarrow> (string \<times> fpath list) option"

definition symlink_metadata :: "fs_faults \<Rightarrow> file_system \<Rightarrow> fpath \<Rightarrow> fs_error + node" where
  "symlink_metadata ff fs p =
    (case ff_stat ff p of
       Some e \<Rightarrow> Inl (OsError e)
     | None \<Rightarrow> and_then (last_entry fs p) (\<lambda>q. ok_or NotFound (map_of fs q)))"

text \<open>\<open>remove_dir_all\<close> and \<open>remove_file\<close>: a failing removal may leave any part of the tree behind.\<close>

definition remove_tree :: "fs_faults \<Rightarrow> fpath \<Rightarrow> file_system \<Rightarrow> (fs_error + unit) \<times> file_system" where
  "remove_tree ff p fs =
    (case last_entry fs p of
       Inl e \<Rightarrow> (Inl e, fs)
     | Inr q \<Rightarrow>
         (case ff_remove ff p of
            Some (e, left) \<Rightarrow> (Inl (OsError e), filter (\<lambda>(x, _). prefix q x \<longrightarrow> x \<in> set left) fs)
          | None \<Rightarrow> (Inr (), filter (\<lambda>(x, _). \<not> prefix q x) fs)))"

definition children :: "file_system \<Rightarrow> fpath \<Rightarrow> string list" where
  "children fs p = map (\<lambda>(x, _). last x) (filter (\<lambda>(x, _). x \<noteq> [] \<and> butlast x = p) fs)"

fun show_fs_error :: "fs_error \<Rightarrow> string" where
  "show_fs_error NotFound = ''No such file or directory (os error 2)''"
| "show_fs_error (OsError e) = e"

definition show_path :: "fpath \<Rightarrow> string" where
  "show_path p = ''/'' @ join ''/'' p"

subsection \<open>Layer paths\<close>

datatype Component = RootDir | CurDir | ParentDir | Normal string

definition path_components :: "string \<Rightarrow> Component list" where
  "path_components p =
    (let segments = split_on CHR ''/'' p in
     (if starts_with p ''/'' then [RootDir] else if hd segments = ''.'' then [CurDir] else []) @
     map (\<lambda>s. if s = ''..'' then ParentDir else Normal s) (filter (\<lambda>s. s \<noteq> [] \<and> s \<noteq> ''.'') segments))"

definition invalid_layer_path :: "string \<Rightarrow> string \<Rightarrow> RauhaError" where
  "invalid_layer_path path reason = RootfsError (''unsafe layer path '' @ path @ '': '' @ reason)"

fun clean_components :: "string \<Rightarrow> Component list \<Rightarrow> string list \<Rightarrow> string list rresult" where
  "clean_components path [] clean =
     (if clean = [] then Inl (invalid_layer_path path ''path is empty'') else Inr clean)"
| "clean_components path (Normal part # cs) clean = clean_components path cs (clean @ [part])"
| "clean_components path (CurDir # cs) clean = clean_components path cs clean"
| "clean_components path (_ # cs) clean = Inl (invalid_layer_path path ''path escapes the rootfs'')"

definition clean_layer_path :: "string \<Rightarrow> string list rresult" where
  "clean_layer_path path = clean_components path (path_components path) []"

subsection \<open>Whiteouts\<close>

text \<open>The relative path is a cleaned one, so that each component is a plain name and the branch for
  other components is never taken.\<close>

fun whiteout_walk :: "fs_faults \<Rightarrow> file_system \<Rightarrow> string list \<Rightarrow> fpath \<Rightarrow> string list \<Rightarrow> fpath option rresult" where
  "whiteout_walk ff fs relative current [] = Inr (Some current)"
| "whiteout_walk ff fs relative current (part # parts) =
     (let current = current @ [part] in
      case symlink_metadata ff fs current of
        Inr (NSymlink _) \<Rightarrow> Inl (invalid_layer_path (join ''/'' relative) ''whiteout parent is a symlink'')
      | Inr (NFile _) \<Rightarrow> Inl (invalid_layer_path (join ''/'' relative) ''whiteout parent is not a directory'')
      | Inr NDir \<Rightarrow> whiteout_walk ff fs relative current parts
      | Inl NotFound \<Rightarrow> Inr None
      | Inl (OsError e) \<Rightarrow>
          Inl (RootfsError (''failed to inspect whiteout parent '' @ show_path current @ '': '' @ e)))"

definition whiteout_parent :: "fs_faults \<Rightarrow> file_system \<Rightarrow> fpath \<Rightarrow> string list \<Rightarrow> fpath option rresult" where
  "whiteout_parent ff fs target relative =
    (case (case ff_canonicalize ff target of Some e \<Rightarrow> Inl (OsError e) | None \<Rightarrow> canonicalize fs target) of
       Inl e \<Rightarrow> Inl (RootfsError (''failed to resolve rootfs '' @ show_path target @ '': '' @ show_fs_error e))
     | Inr current \<Rightarrow> whiteout_walk ff fs relative current relative)"

definition remove_path :: "fs_faults \<Rightarrow> fpath \<Rightarrow> file_system \<Rightarrow> unit rresult \<times> file_system" where
  "remove_path ff path fs =
    (case symlink_metadata ff fs path of
       Inl NotFound \<Rightarrow> (Inr (), fs)
     | Inl (OsError e) \<Rightarrow> (Inl (RootfsError (''failed to inspect whiteout target '' @ show_path path @ '': '' @ e)), fs)
     | Inr _ \<Rightarrow>
         let (r, fs1) = remove_tree ff path fs
         in (map_err (\<lambda>e. RootfsError (''failed to apply whiteout to '' @ show_path path @ '': '' @ show_fs_error e)) r, fs1))"

fun remove_entries :: "fs_faults \<Rightarrow> fpath \<Rightarrow> string list \<Rightarrow> file_system \<Rightarrow> unit rresult \<times> file_system" where
  "remove_entries ff path [] fs = (Inr (), fs)"
| "remove_entries ff path (name # names) fs =
     (case ff_entry ff (path @ [name]) of
        Some e \<Rightarrow> (Inl (RootfsError (''failed to read opaque whiteout entry: '' @ e)), fs)
      | None \<Rightarrow>
          (case remove_path ff (path @ [name]) fs of
             (Inl e, fs1) \<Rightarrow> (Inl e, fs1)
           | (Inr _, fs1) \<Rightarrow> remove_entries ff path names fs1))"

definition clear_directory :: "fs_faults \<Rightarrow> fpath \<Rightarrow> file_system \<Rightarrow> unit rresult \<times> file_system" where
  "clear_directory ff path fs =
    (case ff_read_dir ff path of
       Some e \<Rightarrow> (Inl (RootfsError (''failed to read opaque whiteout directory '' @ show_path path @ '': '' @ e)), fs)
     | None \<Rightarrow> remove_entries ff path (children fs path) fs)"

subsection \<open>Unpacking\<close>

text \<open>An archive is its list of entries, each an error or a path with the rest of the entry; the
  library's \<open>unpack_in\<close> writes one entry below a directory, and \<open>to_str\<close> tells UTF-8 names.\<close>

record 'e tar_env =
  te_unpack_in :: "'e \<Rightarrow> fpath \<Rightarrow> file_system \<Rightarrow> (string + bool) \<times> file_system"
  te_utf8 :: "string \<Rightarrow> bool"
  te_faults :: fs_faults

type_synonym 'e tar_entry = "string + (string + string) \<times> 'e"

definition whiteout_at ::
  "fs_faults \<Rightarrow> fpath \<Rightarrow> string list \<Rightarrow> (fpath \<Rightarrow> file_system \<Rightarrow> unit rresult \<times> file_system) \<Rightarrow> file_system \<Rightarrow>
   unit rresult \<times> file_system" where
  "whiteout_at ff target parent act fs =
    (case whiteout_parent ff fs target parent of
       Inl e \<Rightarrow> (Inl e, fs)
     | Inr None \<Rightarrow> (Inr (), fs)
     | Inr (Some full_parent) \<Rightarrow> act full_parent fs)"

definition unpack_entry :: "'e tar_env \<Rightarrow> fpath \<Rightarrow> string list \<Rightarrow> 'e \<Rightarrow> file_system \<Rightarrow> unit rresult \<times> file_system" where
  "unpack_entry env target path entry fs =
    (let name = last path; ff = te_faults env in
     if te_utf8 env name \<and> name = ''.wh..wh..opq'' then
       whiteout_at ff target (butlast path) (clear_directory ff) fs
     else if te_utf8 env name \<and> starts_with name ''.wh.'' then
       let original = drop 4 name in
       if original = [] \<or> original = ''.'' \<or> original = ''..'' \<or> CHR ''/'' \<in> set original
       then (Inl (invalid_layer_path (join ''/'' path) ''invalid whiteout target''), fs)
       else whiteout_at ff target (butlast path) (\<lambda>parent. remove_path ff (parent @ [original])) fs
     else
       let (r, fs1) = te_unpack_in env entry target fs
       in (and_then (map_err (\<lambda>e. RootfsError (''failed to unpack '' @ join ''/'' path @ '': '' @ e)) r) (\<lambda>_. Inr ()), fs1))"

fun unpack_entries :: "'e tar_env \<Rightarrow> fpath \<Rightarrow> 'e tar_entry list \<Rightarrow> file_system \<Rightarrow> unit rresult \<times> file_system" where
  "unpack_entries env target [] fs = (Inr (), fs)"
| "unpack_entries env target (Inl e # es) fs = (Inl (RootfsError (''corrupt tar entry: '' @ e)), fs)"
| "unpack_entries env target (Inr (Inl e, entry) # es) fs = (Inl (RootfsError (''invalid tar entry path: '' @ e)), fs)"
| "unpack_entries env target (Inr (Inr raw, entry) # es) fs =
     (case clean_layer_path raw of
        Inl e \<Rightarrow> (Inl e, fs)
      | Inr path \<Rightarrow>
          (case unpack_entry env target path entry fs of
             (Inl e, fs1) \<Rightarrow> (Inl e, fs1)
           | (Inr _, fs1) \<Rightarrow> unpack_entries env target es fs1))"

definition unpack_layer ::
  "'e tar_env \<Rightarrow> string + 'e tar_entry list \<Rightarrow> fpath \<Rightarrow> file_system \<Rightarrow> unit rresult \<times> file_system" where
  "unpack_layer env archive target fs =
    (case archive of
       Inl e \<Rightarrow> (Inl (RootfsError (''failed to read tar entries: '' @ e)), fs)
     | Inr entries \<Rightarrow> unpack_entries env target entries fs)"

subsection \<open>Directories reached without links\<close>

definition plain :: "string \<Rightarrow> bool" where
  "plain c \<longleftrightarrow> c \<noteq> [] \<and> c \<noteq> ''.'' \<and> c \<noteq> ''..''"

definition real_dir :: "file_system \<Rightarrow> fpath \<Rightarrow> bool" where
  "real_dir fs p \<longleftrightarrow> list_all plain p \<and> list_all (\<lambda>n. map_of fs (take n p) = Some NDir) [1..<Suc (length p)]"

definition outside_same :: "fpath \<Rightarrow> file_system \<Rightarrow> file_system \<Rightarrow> bool" where
  "outside_same t fs fs' \<longleftrightarrow> (\<forall>p. \<not> strict_prefix t p \<longrightarrow> map_of fs' p = map_of fs p)"

lemma outside_same_refl [simp]: "outside_same t fs fs"
  by (simp add: outside_same_def)

lemma outside_same_trans: "outside_same t a b \<Longrightarrow> outside_same t b c \<Longrightarrow> outside_same t a c"
  by (simp add: outside_same_def)

lemma real_dir_snoc: "real_dir fs (p @ [c]) \<longleftrightarrow> real_dir fs p \<and> plain c \<and> map_of fs (p @ [c]) = Some NDir"
  by (auto simp: real_dir_def list_all_iff)

lemma real_dir_prefix: "real_dir fs (p @ q) \<Longrightarrow> real_dir fs p"
  by (auto simp: real_dir_def list_all_iff)

lemma real_dir_outside:
  assumes "real_dir fs t" "outside_same t fs fs'"
  shows "real_dir fs' t"
proof -
  have "map_of fs' (take n t) = map_of fs (take n t)" for n
    using assms(2) by (simp add: outside_same_def strict_prefix_def) (metis prefix_order.antisym take_is_prefix)
  then show ?thesis using assms(1) by (simp add: real_dir_def)
qed

lemma walk_real: "real_dir fs (cur @ cs) \<Longrightarrow> walk n fs cur cs = Inr (cur @ cs)"
proof (induction cs arbitrary: cur)
  case (Cons c cs)
  have "real_dir fs (cur @ [c])" using Cons.prems real_dir_prefix [of fs "cur @ [c]" cs] by simp
  then show ?case using Cons.IH [of "cur @ [c]"] Cons.prems by (simp add: real_dir_snoc plain_def)
qed simp

lemma last_entry_real: "real_dir fs p \<Longrightarrow> last_entry fs (p @ [c]) = Inr (p @ [c])"
  by (simp add: last_entry_def walk_real [of _ "[]", simplified])

lemma canonicalize_real: "real_dir fs p \<Longrightarrow> canonicalize fs p = Inr p"
  by (simp add: canonicalize_def walk_real [of _ "[]", simplified])

lemma stat_real:
  "real_dir fs p \<Longrightarrow> symlink_metadata ff fs (p @ [c]) = Inr k \<Longrightarrow> map_of fs (p @ [c]) = Some k"
  by (auto simp: symlink_metadata_def last_entry_real result_simps split: option.splits)

lemma map_of_filter_keys: "map_of (filter (\<lambda>(x, _). P x) t) k = (if P k then map_of t k else None)"
  by (induction t) auto

lemma clean_components_plain:
  "list_all (\<lambda>c. case c of Normal s \<Rightarrow> plain s | _ \<Rightarrow> True) cs \<Longrightarrow> list_all plain acc \<Longrightarrow>
   clean_components path cs acc = Inr p \<Longrightarrow> list_all plain p \<and> p \<noteq> []"
  by (induction path cs acc rule: clean_components.induct) (auto split: if_splits)

lemma clean_layer_path_plain: "clean_layer_path raw = Inr p \<Longrightarrow> list_all plain p \<and> p \<noteq> []"
  unfolding clean_layer_path_def
  by (rule clean_components_plain [where acc = "[]"])
    (auto simp: path_components_def Let_def list_all_iff plain_def)

subsection \<open>Whiteouts stay below the target\<close>

lemma whiteout_walk_real:
  "real_dir fs cur \<Longrightarrow> list_all plain parts \<Longrightarrow> whiteout_walk ff fs rel cur parts = Inr (Some p) \<Longrightarrow>
   p = cur @ parts \<and> real_dir fs p"
proof (induction parts arbitrary: cur)
  case (Cons c cs)
  obtain k where k: "symlink_metadata ff fs (cur @ [c]) = Inr k"
    using Cons.prems(3) by (auto simp: Let_def split: sum.splits fs_error.splits)
  then have kd: "k = NDir" using Cons.prems(3) by (cases k) (auto simp: Let_def)
  then have "map_of fs (cur @ [c]) = Some NDir" using stat_real [OF Cons.prems(1) k] by simp
  then have "real_dir fs (cur @ [c])" using Cons.prems(1,2) by (simp add: real_dir_snoc)
  moreover have "whiteout_walk ff fs rel (cur @ [c]) cs = Inr (Some p)" using Cons.prems(3) k kd by (simp add: Let_def)
  ultimately have "p = (cur @ [c]) @ cs \<and> real_dir fs p" using Cons.prems(2) by (intro Cons.IH) simp_all
  then show ?case by auto
qed simp

lemma whiteout_parent_real:
  assumes "real_dir fs t" "list_all plain rel" "whiteout_parent ff fs t rel = Inr (Some p)"
  shows "p = t @ rel \<and> real_dir fs p"
proof -
  have "whiteout_walk ff fs rel t rel = Inr (Some p)"
    using assms(3) canonicalize_real [OF assms(1)]
    by (auto simp: whiteout_parent_def split: option.splits)
  then show ?thesis using whiteout_walk_real [OF assms(1,2)] by blast
qed

lemma remove_path_inside:
  assumes "real_dir fs p" "prefix t p" "remove_path ff (p @ [c]) fs = (r, fs')"
  shows "outside_same t fs fs' \<and> (\<forall>q. \<not> prefix (p @ [c]) q \<longrightarrow> map_of fs' q = map_of fs q)"
proof -
  have rm: "\<forall>q. \<not> prefix (p @ [c]) q \<longrightarrow> map_of fs' q = map_of fs q"
    using assms(3) last_entry_real [OF assms(1)]
    by (auto simp: remove_path_def remove_tree_def map_of_filter_keys split: sum.splits fs_error.splits option.splits prod.splits)
  moreover have "strict_prefix t q" if "prefix (p @ [c]) q" for q
    using that assms(2) by (auto simp: strict_prefix_def prefix_def)
  ultimately show ?thesis by (auto simp: outside_same_def)
qed

lemma real_dir_keeps:
  assumes "real_dir fs p" "\<forall>q. \<not> prefix (p @ [c]) q \<longrightarrow> map_of fs' q = map_of fs q"
  shows "real_dir fs' p"
proof -
  have "\<not> prefix (p @ [c]) (take n p)" for n
    by (metis append_take_drop_id length_append_singleton not_less_eq_eq prefix_length_le prefix_def order_refl order_trans take_is_prefix)
  then show ?thesis using assms by (simp add: real_dir_def)
qed

lemma remove_entries_inside:
  "real_dir fs p \<Longrightarrow> prefix t p \<Longrightarrow> remove_entries ff p names fs = (r, fs') \<Longrightarrow> outside_same t fs fs'"
proof (induction names arbitrary: fs)
  case (Cons c cs)
  obtain r1 fs1 where r: "remove_path ff (p @ [c]) fs = (r1, fs1)" by fastforce
  note I = remove_path_inside [OF Cons.prems(1,2) r]
  show ?case
  proof (cases "ff_entry ff (p @ [c]) \<noteq> None \<or> \<not> is_ok r1")
    case True
    then show ?thesis using Cons.prems(3) r I by (auto split: option.splits sum.splits)
  next
    case False
    then have "remove_entries ff p cs fs1 = (r, fs')" using Cons.prems(3) r by (auto split: sum.splits)
    moreover have "real_dir fs1 p" using real_dir_keeps [OF Cons.prems(1)] I by blast
    ultimately show ?thesis using Cons.IH Cons.prems(2) I outside_same_trans by blast
  qed
qed simp

text \<open>What the tar library documents of \<open>unpack_in\<close>: it writes only below the directory it is given.\<close>

definition unpacks_below :: "'e tar_env \<Rightarrow> bool" where
  "unpacks_below env \<longleftrightarrow>
    (\<forall>entry t fs r fs'. real_dir fs t \<longrightarrow> te_unpack_in env entry t fs = (r, fs') \<longrightarrow> outside_same t fs fs')"

lemma unpack_entry_inside:
  assumes "unpacks_below env" "real_dir fs t" "list_all plain path" "unpack_entry env t path entry fs = (r, fs')"
  shows "outside_same t fs fs'"
proof -
  let ?ff = "te_faults env" and ?par = "butlast path"
  have par: "list_all plain ?par" using assms(3) by (auto simp: list_all_iff dest: in_set_butlastD)
  have wh: "outside_same t fs fs'"
    if "whiteout_at ?ff t ?par act fs = (r, fs')"
      and act: "\<And>p r fs'. real_dir fs p \<Longrightarrow> prefix t p \<Longrightarrow> act p fs = (r, fs') \<Longrightarrow> outside_same t fs fs'" for act
  proof (cases "\<exists>p. whiteout_parent ?ff fs t ?par = Inr (Some p)")
    case True
    then obtain p where p: "whiteout_parent ?ff fs t ?par = Inr (Some p)" by blast
    then have "act p fs = (r, fs')" using that(1) by (simp add: whiteout_at_def)
    then show ?thesis using act whiteout_parent_real [OF assms(2) par p] by (metis prefixI)
  next
    case False
    then have "fs' = fs" using that(1) by (auto simp: whiteout_at_def split: sum.splits option.splits)
    then show ?thesis by simp
  qed
  have clear: "outside_same t fs fs'" if "clear_directory ?ff p fs = (r, fs')" "real_dir fs p" "prefix t p" for p r fs'
    using that remove_entries_inside by (auto simp: clear_directory_def split: option.splits)
  let ?o = "te_utf8 env (last path) \<and> last path = ''.wh..wh..opq''"
    and ?w = "te_utf8 env (last path) \<and> starts_with (last path) ''.wh.''"
  note run = assms(4) [unfolded unpack_entry_def Let_def]
  consider (opaque) ?o | (whiteout) "\<not> ?o" ?w | (plain_entry) "\<not> ?o" "\<not> ?w" by blast
  then show ?thesis
  proof cases
    case opaque
    then show ?thesis using wh clear run [unfolded if_P [OF opaque]] by blast
  next
    case whiteout
    note run' = run [unfolded if_not_P [OF whiteout(1)] if_P [OF whiteout(2)]]
    show ?thesis
    proof (cases "drop 4 (last path) = [] \<or> drop 4 (last path) = ''.'' \<or> drop 4 (last path) = ''..'' \<or>
        CHR ''/'' \<in> set (drop 4 (last path))")
      case True
      show ?thesis using run' [unfolded if_P [OF True]] by simp
    next
      case False
      show ?thesis using run' [unfolded if_not_P [OF False]] wh remove_path_inside by blast
    qed
  next
    case plain_entry
    obtain r1 fs1 where u: "te_unpack_in env entry t fs = (r1, fs1)" by fastforce
    have "fs' = fs1" using run [unfolded if_not_P [OF plain_entry(1)] if_not_P [OF plain_entry(2)]] u by simp
    then show ?thesis using u assms(1,2) unfolding unpacks_below_def by blast
  qed
qed

lemma unpack_entries_inside:
  "unpacks_below env \<Longrightarrow> real_dir fs t \<Longrightarrow> unpack_entries env t es fs = (r, fs') \<Longrightarrow> outside_same t fs fs'"
proof (induction es arbitrary: fs)
  case (Cons e es)
  show ?case
  proof (cases "\<exists>raw entry path. e = Inr (Inr raw, entry) \<and> clean_layer_path raw = Inr path")
    case True
    then obtain raw entry path where e: "e = Inr (Inr raw, entry)" "clean_layer_path raw = Inr path" by blast
    obtain r1 fs1 where u: "unpack_entry env t path entry fs = (r1, fs1)" by fastforce
    have o: "outside_same t fs fs1"
      using unpack_entry_inside [OF Cons.prems(1,2) _ u] clean_layer_path_plain [OF e(2)] by blast
    show ?thesis
    proof (cases r1)
      case (Inl x)
      then show ?thesis using Cons.prems(3) e u o by simp
    next
      case (Inr x)
      then have "unpack_entries env t es fs1 = (r, fs')" using Cons.prems(3) e u by simp
      then show ?thesis
        using Cons.IH [OF Cons.prems(1) real_dir_outside [OF Cons.prems(2) o]] o outside_same_trans by blast
    qed
  next
    case False
    then have "fs' = fs" using Cons.prems(3)
      by (cases "(env, t, e # es, fs)" rule: unpack_entries.cases) (auto split: sum.splits)
    then show ?thesis by simp
  qed
qed simp

text \<open>C6: unpacking a layer changes nothing outside its target directory and never the target itself,
  whatever the archive holds and whatever fails on the way: absolute and parent paths are refused,
  and whiteouts delete only below real directories of the target, even where the archive has planted
  symbolic links.\<close>

theorem layers_stay_inside:
  assumes "unpacks_below env" "real_dir fs target" "unpack_layer env archive target fs = (r, fs')"
  shows "outside_same target fs fs' \<and> real_dir fs' target"
proof -
  have "outside_same target fs fs'"
  proof (cases archive)
    case (Inr es)
    then show ?thesis using assms(3) unpack_entries_inside [OF assms(1,2)] by (simp add: unpack_layer_def)
  qed (use assms(3) in \<open>simp add: unpack_layer_def\<close>)
  then show ?thesis using real_dir_outside [OF assms(2)] by blast
qed

definition quiet :: fs_faults where
  "quiet = \<lparr>ff_canonicalize = (\<lambda>_. None), ff_stat = (\<lambda>_. None), ff_read_dir = (\<lambda>_. None),
    ff_entry = (\<lambda>_. None), ff_remove = (\<lambda>_. None)\<rparr>"

text \<open>A library that creates an empty file for each entry.\<close>

definition demo_tar :: "string tar_env" where
  "demo_tar = \<lparr>te_unpack_in = (\<lambda>name t fs. (Inr True, (t @ [name], NFile []) # fs)), te_utf8 = (\<lambda>_. True), te_faults = quiet\<rparr>"

lemma demo_tar_below: "unpacks_below demo_tar"
  by (auto simp: unpacks_below_def demo_tar_def outside_same_def strict_prefix_def)

definition planted_fs :: file_system where
  "planted_fs = [([''r''], NDir), ([''r'', ''d''], NSymlink ''/etc''), ([''etc''], NDir), ([''etc'', ''passwd''], NFile ''root'')]"

theorem layers_stay_inside_witness:
  "\<exists>r fs'. unpack_layer demo_tar (Inr [Inr (Inr ''f'', ''f''), Inr (Inr ''d/.wh.passwd'', ''x'')]) [''r''] planted_fs = (r, fs') \<and>
     \<not> is_ok r \<and> map_of fs' [''r'', ''f''] = Some (NFile []) \<and> outside_same [''r''] planted_fs fs' \<and> real_dir fs' [''r'']"
proof -
  let ?u = "unpack_layer demo_tar (Inr [Inr (Inr ''f'', ''f''), Inr (Inr ''d/.wh.passwd'', ''x'')]) [''r''] planted_fs"
  have "\<not> is_ok (fst ?u)" "map_of (snd ?u) [''r'', ''f''] = Some (NFile [])" by code_simp+
  moreover have "real_dir planted_fs [''r'']" by code_simp
  moreover obtain r fs' where "?u = (r, fs')" by fastforce
  ultimately show ?thesis using layers_stay_inside [OF demo_tar_below] by auto
qed

subsection \<open>Layers below an overlay mount\<close>

text \<open>What the kernel documents of an overlay of directories, top layer first: the entry of the first
  layer that has one, where only a whiteout device would hide those below.\<close>

fun overlay_lookup :: "file_system \<Rightarrow> fpath list \<Rightarrow> string list \<Rightarrow> node option" where
  "overlay_lookup fs [] rel = None"
| "overlay_lookup fs (layer # layers) rel =
     (case map_of fs (layer @ rel) of Some n \<Rightarrow> Some n | None \<Rightarrow> overlay_lookup fs layers rel)"

lemma quiet_simps [simp]:
  "ff_canonicalize quiet p = None" "ff_stat quiet p = None" "ff_read_dir quiet p = None"
  "ff_entry quiet p = None" "ff_remove quiet p = None"
  by (simp_all add: quiet_def)

lemma stat_quiet:
  "real_dir fs p \<Longrightarrow> symlink_metadata quiet fs (p @ [c]) = ok_or NotFound (map_of fs (p @ [c]))"
  by (simp add: symlink_metadata_def last_entry_real)

lemma whiteout_walk_found:
  "real_dir fs (cur @ parts) \<Longrightarrow> whiteout_walk quiet fs rel cur parts = Inr (Some (cur @ parts))"
proof (induction parts arbitrary: cur)
  case (Cons c cs)
  have d: "real_dir fs (cur @ [c])" using Cons.prems real_dir_prefix [of fs "cur @ [c]" cs] by simp
  then have "symlink_metadata quiet fs (cur @ [c]) = Inr NDir" by (simp add: stat_quiet real_dir_snoc)
  then show ?case using Cons.IH [of "cur @ [c]"] Cons.prems by (simp add: Let_def)
qed simp

lemma whiteout_file_entry:
  assumes "clean_layer_path raw = Inr (parent @ [''.wh.'' @ name])" "plain name" "CHR ''/'' \<notin> set name"
    "name \<noteq> ''.wh..opq''" "te_utf8 env (''.wh.'' @ name)"
  shows "unpack_layer env (Inr [Inr (Inr raw, e)]) t fs =
    (let (r, fs') = whiteout_at (te_faults env) t parent (\<lambda>p. remove_path (te_faults env) (p @ [name])) fs
     in (and_then r (\<lambda>_. Inr ()), fs'))"
proof -
  have "unpack_entry env t (parent @ [''.wh.'' @ name]) e fs =
      whiteout_at (te_faults env) t parent (\<lambda>p. remove_path (te_faults env) (p @ [name])) fs"
    using assms(2-5) by (auto simp: unpack_entry_def Let_def plain_def starts_with_def)
  then show ?thesis using assms(1) by (auto simp: unpack_layer_def split: prod.splits sum.splits)
qed

lemma whiteout_on_empty_layer:
  assumes "real_dir fs upper" "\<And>x. strict_prefix upper x \<Longrightarrow> map_of fs x = None"
  shows "whiteout_at quiet upper parent (\<lambda>p. remove_path quiet (p @ [name])) fs = (Inr (), fs)"
proof (cases parent)
  case Nil
  have "map_of fs (upper @ [name]) = None" using assms(2) by (simp add: strict_prefix_def)
  then show ?thesis using Nil assms(1)
    by (simp add: whiteout_at_def whiteout_parent_def canonicalize_real remove_path_def stat_quiet)
next
  case (Cons c cs)
  have "map_of fs (upper @ [c]) = None" using assms(2) by (simp add: strict_prefix_def)
  then show ?thesis using Cons assms(1)
    by (simp add: whiteout_at_def whiteout_parent_def canonicalize_real stat_quiet Let_def)
qed

lemma whiteout_deletes:
  assumes "real_dir fs (t @ parent)" "map_of fs (t @ parent @ [name]) = Some k"
  shows "\<exists>fs'. whiteout_at quiet t parent (\<lambda>p. remove_path quiet (p @ [name])) fs = (Inr (), fs') \<and>
    (\<forall>x. map_of fs' x = (if prefix (t @ parent @ [name]) x then None else map_of fs x))"
proof -
  have "real_dir fs t" using assms(1) by (rule real_dir_prefix)
  then show ?thesis
    using assms whiteout_walk_found [OF assms(1)] last_entry_real [OF assms(1), of name] stat_quiet [OF assms(1), of name]
    by (simp add: whiteout_at_def whiteout_parent_def canonicalize_real remove_path_def remove_tree_def map_of_filter_keys)
qed

text \<open>C29: a whiteout deletes its file when the layers share one directory, as in \<open>prepare_rootfs\<close>. When
  each layer has a directory of its own, as \<open>prepare_layers\<close> does for overlay mounts, the same layer
  leaves no trace: nothing is written, and the mount shows the file of the layer below.\<close>

theorem overlay_keeps_deleted_files:
  assumes "clean_layer_path raw = Inr (parent @ [''.wh.'' @ name])" "plain name" "CHR ''/'' \<notin> set name"
    "name \<noteq> ''.wh..opq''" "te_utf8 env (''.wh.'' @ name)" "te_faults env = quiet"
    and "real_dir fs (lower @ parent)" "map_of fs (lower @ parent @ [name]) = Some k"
    and "real_dir fs upper" "\<And>x. strict_prefix upper x \<Longrightarrow> map_of fs x = None"
  shows "(\<exists>fs'. unpack_layer env (Inr [Inr (Inr raw, e)]) lower fs = (Inr (), fs') \<and>
      map_of fs' (lower @ parent @ [name]) = None) \<and>
    unpack_layer env (Inr [Inr (Inr raw, e)]) upper fs = (Inr (), fs) \<and>
    overlay_lookup fs [upper, lower] (parent @ [name]) = Some k"
proof -
  note u = whiteout_file_entry [OF assms(1-5), unfolded assms(6)]
  have "map_of fs (upper @ parent @ [name]) = None" using assms(10) by (simp add: strict_prefix_def)
  then show ?thesis
    using whiteout_deletes [OF assms(7,8)] whiteout_on_empty_layer [OF assms(9,10)] assms(8)
    by (auto simp: u Let_def)
qed

definition two_layers :: file_system where
  "two_layers = [([''0''], NDir), ([''0'', ''f''], NFile ''secret''), ([''1''], NDir)]"

theorem overlay_keeps_deleted_files_witness:
  "unpack_layer demo_tar (Inr [Inr (Inr ''.wh.f'', [])]) [''1''] two_layers = (Inr (), two_layers) \<and>
   overlay_lookup two_layers [[''1''], [''0'']] [''f''] = Some (NFile ''secret'')"
proof -
  have "clean_layer_path ''.wh.f'' = Inr ([] @ [''.wh.'' @ ''f''])" by code_simp
  moreover have "plain ''f''" "real_dir two_layers ([''0''] @ [])" "real_dir two_layers [''1'']" by code_simp+
  moreover have "map_of two_layers x = None" if "strict_prefix [''1''] x" for x
    using that by (auto simp: two_layers_def strict_prefix_def prefix_def)
  ultimately show ?thesis
    using overlay_keeps_deleted_files [of "''.wh.f''" "[]" "''f''" demo_tar two_layers "[''0'']" "NFile ''secret''" "[''1'']" "[]"]
    by (auto simp: demo_tar_def two_layers_def)
qed

end
