(* ===== verification/Oci_Rootfs.thy ===== *)
theory Oci_Rootfs
  imports Oci_Layers
begin

text \<open>
  Preparing root file systems: the per-layer directories and overlay mounts of
  \<open>rauha-oci/src/snapshotter.rs\<close>, and the shared base rootfs of \<open>rauha-oci/src/image.rs\<close> with its
  per-image lock, as a step function so that threads can be interleaved. The gzip and tar decoder of
  a blob and the mount calls are parameters.
\<close>

subsection \<open>Directory operations\<close>

record dir_faults =
  df_mkdir :: "fpath \<Rightarrow> string option"
  df_open :: "fpath \<Rightarrow> string option"
  df_write :: "fpath \<Rightarrow> string option"
  df_rename :: "fpath \<Rightarrow> string option"

record 'e rootfs_env =
  re_tar :: "'e tar_env"
  re_entries :: "string \<Rightarrow> string + 'e tar_entry list"
  re_faults :: dir_faults

definition path_exists :: "file_system \<Rightarrow> fpath \<Rightarrow> bool" where
  "path_exists fs p = is_ok (walk 40 fs [] p)"

definition fs_put :: "fpath \<Rightarrow> node \<Rightarrow> file_system \<Rightarrow> file_system" where
  "fs_put p n fs = (p, n) # filter (\<lambda>(x, _). x \<noteq> p) fs"

fun make_dirs :: "file_system \<Rightarrow> fpath \<Rightarrow> string list \<Rightarrow> (string + unit) \<times> file_system" where
  "make_dirs fs cur [] = (Inr (), fs)"
| "make_dirs fs cur (c # cs) =
     (case walk 40 fs cur [c] of
        Inr q \<Rightarrow> if q = [] \<or> map_of fs q = Some NDir then make_dirs fs q cs else (Inl ''File exists (os error 17)'', fs)
      | Inl NotFound \<Rightarrow>
          if map_of fs (cur @ [c]) = None then make_dirs (fs_put (cur @ [c]) NDir fs) (cur @ [c]) cs
          else (Inl ''File exists (os error 17)'', fs)
      | Inl (OsError e) \<Rightarrow> (Inl e, fs))"

definition create_dir_all :: "dir_faults \<Rightarrow> fpath \<Rightarrow> file_system \<Rightarrow> (string + unit) \<times> file_system" where
  "create_dir_all f p fs = (case df_mkdir f p of Some e \<Rightarrow> (Inl e, fs) | None \<Rightarrow> make_dirs fs [] p)"

definition write_marker :: "dir_faults \<Rightarrow> fpath \<Rightarrow> file_system \<Rightarrow> (string + unit) \<times> file_system" where
  "write_marker f p fs =
    (case df_write f p of
       Some e \<Rightarrow> (Inl e, fs)
     | None \<Rightarrow>
         (case (if path_exists fs p then walk 40 fs [] p else last_entry fs p) of
            Inl e \<Rightarrow> (Inl (show_fs_error e), fs)
          | Inr q \<Rightarrow> (Inr (), fs_put q (NFile []) fs)))"

text \<open>\<open>rename\<close> of a directory to a name that is free or an empty directory.\<close>

definition rename_dir :: "dir_faults \<Rightarrow> fpath \<Rightarrow> fpath \<Rightarrow> file_system \<Rightarrow> (string + unit) \<times> file_system" where
  "rename_dir f p q fs =
    (case df_rename f p of
       Some e \<Rightarrow> (Inl e, fs)
     | None \<Rightarrow>
         if map_of fs p = None then (Inl (show_fs_error NotFound), fs)
         else if map_of fs q \<noteq> None \<and> (map_of fs q \<noteq> Some NDir \<or> children fs q \<noteq> [])
         then (Inl ''Directory not empty (os error 39)'', fs)
         else (Inr (), map (\<lambda>(x, n). (if prefix p x then q @ drop (length p) x else x, n)) (filter (\<lambda>(x, _). x \<noteq> q) fs)))"

definition open_blob :: "dir_faults \<Rightarrow> fpath \<Rightarrow> Digest \<Rightarrow> ContentStore \<Rightarrow> string rresult" where
  "open_blob f content_root d st =
    map_err (\<lambda>e. RootfsError (''failed to open layer blob '' @ digest_as_str d @ '': '' @ e))
      (fs_read (df_open f (content_root @ [''blobs'', ''sha256'', digest_hex d])) (digest_hex d) (st_blobs st))"

subsection \<open>Layer directories\<close>

text \<open>A layer directory is named by the first twelve bytes of the digest; without a result the cut
  panics.\<close>

definition digest_key :: "string \<Rightarrow> string option" where
  "digest_key digest_str =
    (case strip_prefix digest_str ''sha256:'' of Some h \<Rightarrow> str_cut 12 h | None \<Rightarrow> str_cut 12 digest_str)"

definition join_key :: "fpath \<Rightarrow> string \<Rightarrow> fpath" where
  "join_key base key = (if starts_with key ''/'' then [] else base) @ split_on CHR ''/'' key"

datatype 'a outcome = Panicked | Returned "'a rresult"

definition extract_layer ::
  "'e rootfs_env \<Rightarrow> fpath \<Rightarrow> ContentStore \<Rightarrow> string \<Rightarrow> string \<Rightarrow> fpath \<Rightarrow> fpath \<Rightarrow> file_system \<Rightarrow> unit rresult \<times> file_system" where
  "extract_layer env content_root st digest_str key layer_dir marker fs =
    (let f = re_faults env in
     case Digest_parse digest_str of
       None \<Rightarrow> (Inl (RootfsError (''invalid layer digest: '' @ digest_str)), fs)
     | Some d \<Rightarrow>
         let fs1 = (if path_exists fs layer_dir then snd (remove_tree (te_faults (re_tar env)) layer_dir fs) else fs) in
         (case create_dir_all f layer_dir fs1 of
            (Inl e, fs2) \<Rightarrow> (Inl (RootfsError (''failed to create layer dir '' @ key @ '': '' @ e)), fs2)
          | (Inr _, fs2) \<Rightarrow>
              (case open_blob f content_root d st of
                 Inl e \<Rightarrow> (Inl e, fs2)
               | Inr blob \<Rightarrow>
                   (case unpack_layer (re_tar env) (re_entries env blob) layer_dir fs2 of
                      (Inl e, fs3) \<Rightarrow> (Inl e, fs3)
                    | (Inr _, fs3) \<Rightarrow>
                        let (w, fs4) = write_marker f marker fs3
                        in (map_err (\<lambda>e. RootfsError (''failed to write layer marker: '' @ e)) w, fs4)))))"

fun prepare_each ::
  "'e rootfs_env \<Rightarrow> fpath \<Rightarrow> ContentStore \<Rightarrow> fpath \<Rightarrow> string list \<Rightarrow> fpath list \<Rightarrow> file_system \<Rightarrow> fpath list outcome \<times> file_system" where
  "prepare_each env content_root st layers_dir [] paths fs = (Returned (Inr paths), fs)"
| "prepare_each env content_root st layers_dir (digest_str # ds) paths fs =
     (case digest_key digest_str of
        None \<Rightarrow> (Panicked, fs)
      | Some key \<Rightarrow>
          let layer_dir = join_key layers_dir key; marker = join_key layers_dir (key @ ''.complete'') in
          if path_exists fs marker then prepare_each env content_root st layers_dir ds (paths @ [layer_dir]) fs
          else
            (case extract_layer env content_root st digest_str key layer_dir marker fs of
               (Inl e, fs1) \<Rightarrow> (Returned (Inl e), fs1)
             | (Inr _, fs1) \<Rightarrow> prepare_each env content_root st layers_dir ds (paths @ [layer_dir]) fs1))"

definition prepare_layers ::
  "'e rootfs_env \<Rightarrow> fpath \<Rightarrow> string \<Rightarrow> string list \<Rightarrow> fpath \<Rightarrow> ContentStore \<Rightarrow> file_system \<Rightarrow> fpath list outcome \<times> file_system" where
  "prepare_layers env root image_name digests content_root st fs =
    (let layers_dir = root @ [''images'', image_name, ''layers''] in
     case create_dir_all (re_faults env) layers_dir fs of
       (Inl e, fs1) \<Rightarrow> (Returned (Inl (RootfsError (''failed to create layers dir: '' @ e))), fs1)
     | (Inr _, fs1) \<Rightarrow> prepare_each env content_root st layers_dir digests [] fs1)"

subsection \<open>Overlay mounts\<close>

record mount_api =
  ma_overlay :: "string \<Rightarrow> fpath \<Rightarrow> string + unit"
  ma_private :: "fpath \<Rightarrow> string + unit"
  ma_umount :: "fpath \<Rightarrow> string + unit"

definition mount_data :: "fpath list \<Rightarrow> fpath \<Rightarrow> fpath \<Rightarrow> string" where
  "mount_data layer_paths upper work =
    ''lowerdir='' @ join '':'' (map show_path (rev layer_paths)) @ '',upperdir='' @ show_path upper @
    '',workdir='' @ show_path work"

text \<open>The second result tells whether the overlay stays mounted.\<close>

definition do_overlay_mount :: "mount_api \<Rightarrow> fpath list \<Rightarrow> fpath \<Rightarrow> fpath \<Rightarrow> fpath \<Rightarrow> unit rresult \<times> bool" where
  "do_overlay_mount ma layer_paths upper work merged =
    (if layer_paths = [] then (Inl (RootfsError ''no layers to mount''), False)
     else
       (case ma_overlay ma (mount_data layer_paths upper work) merged of
          Inl e \<Rightarrow> (Inl (RootfsError (''overlayfs mount failed: '' @ e @ '' '' @ em_dash @
              '' try: modprobe overlay; or check that /proc/filesystems contains overlay'')), False)
        | Inr _ \<Rightarrow>
            (case ma_private ma merged of
               Inl e \<Rightarrow> (Inl (RootfsError (''failed to make overlay rootfs private: '' @ e)), \<not> is_ok (ma_umount ma merged))
             | Inr _ \<Rightarrow> (Inr (), True))))"

definition mount_overlay ::
  "mount_api \<Rightarrow> dir_faults \<Rightarrow> fpath list \<Rightarrow> fpath \<Rightarrow> file_system \<Rightarrow> fpath rresult \<times> bool \<times> file_system" where
  "mount_overlay ma f layer_paths container_root fs =
    (let upper = container_root @ [''upper'']; work = container_root @ [''work'']; merged = container_root @ [''merged''] in
     case create_dir_all f upper fs of
       (Inl e, fs1) \<Rightarrow> (Inl (RootfsError (''failed to create upper dir: '' @ e)), False, fs1)
     | (Inr _, fs1) \<Rightarrow>
         (case create_dir_all f work fs1 of
            (Inl e, fs2) \<Rightarrow> (Inl (RootfsError (''failed to create work dir: '' @ e)), False, fs2)
          | (Inr _, fs2) \<Rightarrow>
              (case create_dir_all f merged fs2 of
                 (Inl e, fs3) \<Rightarrow> (Inl (RootfsError (''failed to create merged dir: '' @ e)), False, fs3)
               | (Inr _, fs3) \<Rightarrow>
                   let (r, mounted) = do_overlay_mount ma layer_paths upper work merged
                   in (and_then r (\<lambda>_. Inr merged), mounted, fs3))))"

definition unmount_overlay :: "mount_api \<Rightarrow> fpath \<Rightarrow> file_system \<Rightarrow> unit rresult" where
  "unmount_overlay ma container_root fs =
    (let merged = container_root @ [''merged''] in
     if path_exists fs merged
     then map_err (\<lambda>e. RootfsError (''failed to unmount overlay: '' @ e)) (ma_umount ma merged)
     else Inr ())"

subsection \<open>The shared base rootfs\<close>

text \<open>
  One call of \<open>prepare_base_rootfs\<close>, in the steps at which other threads can interfere. The shared
  state is the file system and whether the image is in the set \<open>extracting\<close>. Where another thread
  holds that lock, the call keeps trying.
\<close>

datatype base_pc =
    Probe
  | Acquire
  | Clean
  | MakeTarget
  | UnpackLayers "OciDescriptor list"
  | Unlock "unit rresult"
  | RemoveOld
  | Rename
  | Mark
  | Done "fpath rresult"

record 'e base_call =
  bc_env :: "'e rootfs_env"
  bc_manifest :: "OciManifest rresult"
  bc_store :: ContentStore
  bc_content :: fpath
  bc_image_dir :: fpath

abbreviation bc_rootfs :: "'e base_call \<Rightarrow> fpath" where "bc_rootfs c \<equiv> bc_image_dir c @ [''rootfs'']"
abbreviation bc_marker :: "'e base_call \<Rightarrow> fpath" where "bc_marker c \<equiv> bc_image_dir c @ [''.complete'']"
abbreviation bc_temp :: "'e base_call \<Rightarrow> fpath" where "bc_temp c \<equiv> bc_image_dir c @ [''.rootfs-extracting'']"

definition unpack_one :: "'e base_call \<Rightarrow> OciDescriptor \<Rightarrow> file_system \<Rightarrow> unit rresult \<times> file_system" where
  "unpack_one c layer fs =
    (case Digest_parse (od_digest layer) of
       None \<Rightarrow> (Inl (RootfsError (''invalid layer digest: '' @ od_digest layer)), fs)
     | Some d \<Rightarrow>
         (case open_blob (re_faults (bc_env c)) (bc_content c) d (bc_store c) of
            Inl e \<Rightarrow> (Inl e, fs)
          | Inr blob \<Rightarrow> unpack_layer (re_tar (bc_env c)) (re_entries (bc_env c) blob) (bc_temp c) fs))"

fun base_step :: "'e base_call \<Rightarrow> base_pc \<Rightarrow> file_system \<times> bool \<Rightarrow> base_pc \<times> file_system \<times> bool" where
  "base_step c Probe (fs, locked) =
     (if path_exists fs (bc_marker c) then (Done (Inr (bc_rootfs c)), fs, locked) else (Acquire, fs, locked))"
| "base_step c Acquire (fs, locked) =
     (if locked then (Acquire, fs, locked)
      else if path_exists fs (bc_marker c) then (Done (Inr (bc_rootfs c)), fs, locked)
      else (Clean, fs, True))"
| "base_step c Clean (fs, locked) =
     (MakeTarget,
      if path_exists fs (bc_temp c) then snd (remove_tree (te_faults (re_tar (bc_env c))) (bc_temp c) fs) else fs, locked)"
| "base_step c MakeTarget (fs, locked) =
     (case bc_manifest c of
        Inl e \<Rightarrow> (Unlock (Inl e), fs, locked)
      | Inr m \<Rightarrow>
          (case create_dir_all (re_faults (bc_env c)) (bc_temp c) fs of
             (Inl e, fs1) \<Rightarrow> (Unlock (Inl (RootfsError (''failed to create rootfs dir: '' @ e))), fs1, locked)
           | (Inr _, fs1) \<Rightarrow> (UnpackLayers (om_layers m), fs1, locked)))"
| "base_step c (UnpackLayers []) (fs, locked) = (Unlock (Inr ()), fs, locked)"
| "base_step c (UnpackLayers (layer # layers)) (fs, locked) =
     (case unpack_one c layer fs of
        (Inl e, fs1) \<Rightarrow> (Unlock (Inl e), fs1, locked)
      | (Inr _, fs1) \<Rightarrow> (UnpackLayers layers, fs1, locked))"
| "base_step c (Unlock r) (fs, locked) =
     (case r of Inl e \<Rightarrow> (Done (Inl e), fs, False) | Inr _ \<Rightarrow> (RemoveOld, fs, False))"
| "base_step c RemoveOld (fs, locked) =
     (if path_exists fs (bc_rootfs c) then
        (case remove_tree (te_faults (re_tar (bc_env c))) (bc_rootfs c) fs of
           (Inl e, fs1) \<Rightarrow> (Done (Inl (RootfsError (''failed to remove stale rootfs: '' @ show_fs_error e))), fs1, locked)
         | (Inr _, fs1) \<Rightarrow> (Rename, fs1, locked))
      else (Rename, fs, locked))"
| "base_step c Rename (fs, locked) =
     (case rename_dir (re_faults (bc_env c)) (bc_temp c) (bc_rootfs c) fs of
        (Inl e, fs1) \<Rightarrow> (Done (Inl (RootfsError (''failed to rename rootfs into place: '' @ e))), fs1, locked)
      | (Inr _, fs1) \<Rightarrow> (Mark, fs1, locked))"
| "base_step c Mark (fs, locked) =
     (case write_marker (re_faults (bc_env c)) (bc_marker c) fs of
        (Inl e, fs1) \<Rightarrow> (Done (Inl (RootfsError (''failed to write completion marker: '' @ e))), fs1, locked)
      | (Inr _, fs1) \<Rightarrow> (Done (Inr (bc_rootfs c)), fs1, locked))"
| "base_step c (Done r) s = (Done r, s)"

text \<open>One thread alone, and two threads that take turns as a schedule says.\<close>

fun base_run :: "'e base_call \<Rightarrow> nat \<Rightarrow> base_pc \<times> file_system \<times> bool \<Rightarrow> base_pc \<times> file_system \<times> bool" where
  "base_run c 0 s = s"
| "base_run c (Suc n) (pc, s) = base_run c n (base_step c pc s)"

fun base_threads :: "'e base_call \<Rightarrow> bool list \<Rightarrow> base_pc \<times> base_pc \<times> file_system \<times> bool \<Rightarrow> base_pc \<times> base_pc \<times> file_system \<times> bool" where
  "base_threads c [] s = s"
| "base_threads c (True # turns) (p, q, s) = (let (p', s') = base_step c p s in base_threads c turns (p', q, s'))"
| "base_threads c (False # turns) (p, q, s) = (let (q', s') = base_step c q s in base_threads c turns (p, q', s'))"

subsection \<open>A call alone\<close>

fun rank :: "'e base_call \<Rightarrow> base_pc \<Rightarrow> nat" where
  "rank c (Done _) = 0"
| "rank c Mark = 1"
| "rank c Rename = 2"
| "rank c RemoveOld = 3"
| "rank c (Unlock _) = 4"
| "rank c (UnpackLayers ls) = 5 + length ls"
| "rank c pc = (case pc of MakeTarget \<Rightarrow> 6 | Clean \<Rightarrow> 7 | Acquire \<Rightarrow> 8 | _ \<Rightarrow> 9) +
     (case bc_manifest c of Inr m \<Rightarrow> length (om_layers m) | Inl _ \<Rightarrow> 0)"

definition waits :: "base_pc \<times> file_system \<times> bool \<Rightarrow> bool" where
  "waits = (\<lambda>(pc, fs, locked). (pc = Probe \<or> pc = Acquire) \<and> locked)"

lemma base_step_rank:
  assumes "\<not> waits (pc, fs, locked)" "base_step c pc (fs, locked) = (pc', fs', locked')"
  shows "\<not> waits (pc', fs', locked') \<and> (rank c pc' < rank c pc \<or> rank c pc = 0 \<and> pc' = pc)"
proof (cases pc)
  case (UnpackLayers ls)
  then show ?thesis using assms by (cases ls) (auto simp: waits_def split: prod.splits sum.splits)
qed (use assms in \<open>auto simp: waits_def split: if_splits prod.splits sum.splits\<close>)

lemma base_run_done:
  "\<not> waits s \<Longrightarrow> rank c (fst s) \<le> n \<Longrightarrow> \<exists>r. fst (base_run c n s) = Done r"
proof (induction c n s rule: base_run.induct)
  case (1 c s)
  then show ?case by (cases "fst s") auto
next
  case (2 c n pc s)
  obtain fs locked where s: "s = (fs, locked)" by fastforce
  obtain pc' fs' locked' where t: "base_step c pc s = (pc', fs', locked')" by (metis prod.exhaust)
  note R = base_step_rank [OF 2(2) [unfolded s] t [unfolded s]]
  then have "rank c pc' \<le> n" using 2(3) by auto
  then show ?case using 2(1) R t by simp
qed

text \<open>A call that runs alone with the lock free returns, after at most nine steps and one per layer,
  whatever the file system, the archives and the failing calls are.\<close>

lemma base_rootfs_returns:
  assumes "bc_manifest c = Inr m"
  shows "\<exists>r. fst (base_run c (9 + length (om_layers m)) (Probe, fs, False)) = Done r"
  using assms by (intro base_run_done) (simp_all add: waits_def)

definition layer_of :: "char \<Rightarrow> OciDescriptor" where
  "layer_of c = \<lparr>od_media_type = [], od_digest = ''sha256:'' @ replicate 64 c, od_size = 1\<rparr>"

definition no_dir_faults :: dir_faults where
  "no_dir_faults = \<lparr>df_mkdir = (\<lambda>_. None), df_open = (\<lambda>_. None), df_write = (\<lambda>_. None), df_rename = (\<lambda>_. None)\<rparr>"

definition demo_call :: "string base_call" where
  "demo_call =
    \<lparr>bc_env = \<lparr>re_tar = demo_tar, re_entries = (\<lambda>blob. Inr [Inr (Inr blob, blob)]), re_faults = no_dir_faults\<rparr>,
     bc_manifest = Inr \<lparr>om_schema_version = 2, om_media_type = [], om_config = layer_of CHR ''c'',
       om_layers = [layer_of CHR ''a'', layer_of CHR ''b'']\<rparr>,
     bc_store = \<lparr>st_blobs = [(replicate 64 CHR ''a'', ''first''), (replicate 64 CHR ''b'', ''second'')], st_manifests = []\<rparr>,
     bc_content = [''content''], bc_image_dir = [''img'']\<rparr>"

text \<open>Alone, a call puts every layer into place. The lock is given up before the rename, so a
  second call can start over in the same staging directory: the first call then moves the unfinished
  tree into place, marks it complete and returns it.\<close>

lemma base_rootfs_race:
  "(case base_run demo_call 11 (Probe, [], False) of
      (pc, fs, _) \<Rightarrow> pc = Done (Inr [''img'', ''rootfs'']) \<and> path_exists fs [''img'', ''.complete''] \<and>
        map_of fs [''img'', ''rootfs'', ''second''] = Some (NFile [])) \<and>
   (\<exists>turns. case base_threads demo_call turns (Probe, Probe, [], False) of
      (p, q, fs, _) \<Rightarrow> p = Done (Inr [''img'', ''rootfs'']) \<and> path_exists fs [''img'', ''.complete''] \<and>
        map_of fs [''img'', ''rootfs'', ''first''] = Some (NFile []) \<and> map_of fs [''img'', ''rootfs'', ''second''] = None)"
proof (intro conjI exI)
  let ?turns = "replicate 8 True @ replicate 5 False @ replicate 3 True"
  show "case base_run demo_call 11 (Probe, [], False) of
      (pc, fs, _) \<Rightarrow> pc = Done (Inr [''img'', ''rootfs'']) \<and> path_exists fs [''img'', ''.complete''] \<and>
        map_of fs [''img'', ''rootfs'', ''second''] = Some (NFile [])" by code_simp
  show "case base_threads demo_call ?turns (Probe, Probe, [], False) of
      (p, q, fs, _) \<Rightarrow> p = Done (Inr [''img'', ''rootfs'']) \<and> path_exists fs [''img'', ''.complete''] \<and>
        map_of fs [''img'', ''rootfs'', ''first''] = Some (NFile []) \<and> map_of fs [''img'', ''rootfs'', ''second''] = None"
    by code_simp
qed

end
