(* ===== verification/Oci_Runtime.thy ===== *)
theory Oci_Runtime
  imports Oci_Distribution Metadata_Store
begin

text \<open>
  The OCI runtime specification of a container (\<open>rauha-oci/src/runtime.rs\<close>): what \<open>generate_spec\<close> hands to
  the builders of the specification, from the image config and the container request.
\<close>

record Mount =
  mt_destination :: string
  mt_typ :: string
  mt_source :: string
  mt_options :: "string list"

datatype LinuxNamespaceType = NsPid | NsMount | NsNetwork | NsUts | NsIpc

record Spec =
  sp_version :: string
  sp_hostname :: string
  sp_args :: "string list"
  sp_env :: "string list"
  sp_cwd :: string
  sp_terminal :: bool
  sp_root_path :: string
  sp_root_readonly :: bool
  sp_mounts :: "Mount list"
  sp_namespaces :: "LinuxNamespaceType list"

definition spec_args :: "OciImageConfig \<Rightarrow> ContainerSpec \<Rightarrow> string list" where
  "spec_args img cs =
    (if cs_command cs \<noteq> [] then cs_command cs
     else
       let cmd = (case Option.bind img ic_entrypoint of Some ep \<Rightarrow> ep | None \<Rightarrow> []) @
                 (case Option.bind img ic_cmd of Some c \<Rightarrow> c | None \<Rightarrow> [])
       in if cmd = [] then [''/bin/sh''] else cmd)"

text \<open>One override: the first entry with the key is replaced, or a new entry is appended.\<close>

fun set_env :: "string \<Rightarrow> string \<Rightarrow> string list \<Rightarrow> string list" where
  "set_env k v [] = [k @ ''='' @ v]"
| "set_env k v (e # es) = (if starts_with e (k @ ''='') then (k @ ''='' @ v) # es else e # set_env k v es)"

definition DEFAULT_PATH :: string where
  "DEFAULT_PATH = ''PATH=/usr/local/sbin:/usr/local/bin:/usr/sbin:/usr/bin:/sbin:/bin''"

definition spec_env :: "OciImageConfig \<Rightarrow> ContainerSpec \<Rightarrow> string list" where
  "spec_env img cs =
    (let env = fold (\<lambda>(k, v). set_env k v) (cs_env cs) (case Option.bind img ic_env of Some e \<Rightarrow> e | None \<Rightarrow> [])
     in if list_ex (\<lambda>e. starts_with e ''PATH='') env then env else env @ [DEFAULT_PATH])"

definition standard_mounts :: "Mount list" where
  "standard_mounts =
    [\<lparr>mt_destination = ''/proc'', mt_typ = ''proc'', mt_source = ''proc'', mt_options = []\<rparr>,
     \<lparr>mt_destination = ''/sys'', mt_typ = ''sysfs'', mt_source = ''sysfs'',
      mt_options = [''nosuid'', ''noexec'', ''nodev'', ''ro'']\<rparr>,
     \<lparr>mt_destination = ''/dev'', mt_typ = ''tmpfs'', mt_source = ''tmpfs'',
      mt_options = [''nosuid'', ''strictatime'', ''mode=755'', ''size=65536k'']\<rparr>,
     \<lparr>mt_destination = ''/dev/pts'', mt_typ = ''devpts'', mt_source = ''devpts'',
      mt_options = [''nosuid'', ''noexec'', ''newinstance'', ''ptmxmode=0666'', ''mode=0620'']\<rparr>,
     \<lparr>mt_destination = ''/dev/shm'', mt_typ = ''tmpfs'', mt_source = ''shm'',
      mt_options = [''nosuid'', ''noexec'', ''nodev'', ''mode=1777'', ''size=65536k'']\<rparr>]"

definition generate_spec :: "OciImageConfig \<Rightarrow> ContainerSpec \<Rightarrow> ZonePolicy \<Rightarrow> string \<Rightarrow> Spec" where
  "generate_spec img cs policy rootfs_path =
    \<lparr>sp_version = ''1.0.2'', sp_hostname = cs_name cs, sp_args = spec_args img cs, sp_env = spec_env img cs,
     sp_cwd = (case cs_working_dir cs of
         Some d \<Rightarrow> d
       | None \<Rightarrow> (case Option.bind img ic_working_dir of Some d \<Rightarrow> d | None \<Rightarrow> ''/'')),
     sp_terminal = False, sp_root_path = rootfs_path, sp_root_readonly = False, sp_mounts = standard_mounts,
     sp_namespaces = [NsPid, NsMount, NsNetwork, NsUts, NsIpc]\<rparr>"

subsection \<open>The environment of a container\<close>

definition has_key :: "string \<Rightarrow> string \<Rightarrow> bool" where
  "has_key k e = starts_with e (k @ ''='')"

text \<open>What a process reads: the value of the first entry with the key.\<close>

fun env_value :: "string list \<Rightarrow> string \<Rightarrow> string option" where
  "env_value [] k = None"
| "env_value (e # es) k = (if has_key k e then Some (drop (Suc (length k)) e) else env_value es k)"

lemma takeWhile_key: "CHR ''='' \<notin> set k \<Longrightarrow> takeWhile (\<lambda>c. c \<noteq> CHR ''='') (k @ CHR ''='' # v) = k"
  by (induction k) auto

lemma has_key_takeWhile: "CHR ''='' \<notin> set k \<Longrightarrow> has_key k e \<Longrightarrow> takeWhile (\<lambda>c. c \<noteq> CHR ''='') e = k"
  using takeWhile_key by (auto simp: has_key_def starts_with_iff)

lemma has_key_unique:
  "CHR ''='' \<notin> set k \<Longrightarrow> CHR ''='' \<notin> set k' \<Longrightarrow> has_key k e \<Longrightarrow> has_key k' e \<Longrightarrow> k = k'"
  using has_key_takeWhile by blast

lemma has_key_own: "has_key k (k @ CHR ''='' # v)"
  by (simp add: has_key_def starts_with_def)

lemma env_value_set_same: "env_value (set_env k v es) k = Some v"
  by (induction es) (auto simp: has_key_def starts_with_def)

lemma env_value_set_other:
  assumes "CHR ''='' \<notin> set k" "CHR ''='' \<notin> set k'" "k \<noteq> k'"
  shows "env_value (set_env k v es) k' = env_value es k'"
proof -
  have u: "\<not> (has_key k e \<and> has_key k' e)" for e using has_key_unique [OF assms(1,2)] assms(3) by blast
  then have n: "\<not> has_key k' (k @ CHR ''='' # v)" using has_key_own by blast
  show ?thesis
  proof (induction es)
    case (Cons e es)
    then show ?case using u [of e] n by (simp add: has_key_def [symmetric])
  qed (simp add: n)
qed

lemma env_value_fold:
  assumes "CHR ''='' \<notin> set k" "list_all (\<lambda>(k, _). CHR ''='' \<notin> set k) kvs"
  shows "env_value (fold (\<lambda>(k, v). set_env k v) kvs es) k =
    (case map_of (rev kvs) k of Some v \<Rightarrow> Some v | None \<Rightarrow> env_value es k)"
  using assms(2)
proof (induction kvs arbitrary: es)
  case (Cons kv kvs)
  obtain k1 v1 where kv: "kv = (k1, v1)" by fastforce
  have "env_value (set_env k1 v1 es) k = (if k1 = k then Some v1 else env_value es k)"
    using Cons.prems kv assms(1) env_value_set_same env_value_set_other by auto
  then show ?case using Cons kv by (auto simp: map_add_def split: option.splits)
qed simp

lemma env_value_append: "env_value (es @ [e]) k =
    (case env_value es k of Some v \<Rightarrow> Some v | None \<Rightarrow> if has_key k e then Some (drop (Suc (length k)) e) else None)"
  by (induction es) auto

lemma no_path_entry: "\<not> list_ex (\<lambda>e. starts_with e ''PATH='') es \<Longrightarrow> env_value es ''PATH'' = None"
  by (induction es) (auto simp: has_key_def)

lemma path_entry: "list_ex (\<lambda>e. starts_with e ''PATH='') es \<Longrightarrow> env_value es ''PATH'' \<noteq> None"
  by (induction es) (auto simp: has_key_def)

text \<open>The environment of a container: for every variable the last override of the request, else the
  value of the image, and for PATH the default where neither has one.\<close>

lemma spec_environment:
  assumes "list_all (\<lambda>(k, _). CHR ''='' \<notin> set k) (cs_env cs)" "CHR ''='' \<notin> set k"
  shows "env_value (sp_env (generate_spec img cs policy root)) k =
    (case map_of (rev (cs_env cs)) k of
       Some v \<Rightarrow> Some v
     | None \<Rightarrow>
         (case env_value (case Option.bind img ic_env of Some e \<Rightarrow> e | None \<Rightarrow> []) k of
            Some v \<Rightarrow> Some v
          | None \<Rightarrow> if k = ''PATH'' then Some (drop (Suc (length k)) DEFAULT_PATH) else None))"
proof -
  let ?base = "case Option.bind img ic_env of Some e \<Rightarrow> e | None \<Rightarrow> []"
  let ?env = "fold (\<lambda>(k, v). set_env k v) (cs_env cs) ?base"
  have f: "env_value ?env k = (case map_of (rev (cs_env cs)) k of Some v \<Rightarrow> Some v | None \<Rightarrow> env_value ?base k)"
    by (rule env_value_fold [OF assms(2,1)])
  have d: "has_key k DEFAULT_PATH \<longleftrightarrow> k = ''PATH''"
  proof
    assume "has_key k DEFAULT_PATH"
    moreover have "has_key ''PATH'' DEFAULT_PATH" by (simp add: has_key_def DEFAULT_PATH_def starts_with_def)
    ultimately show "k = ''PATH''" using has_key_unique [OF assms(2)] by simp
  qed (simp add: has_key_def DEFAULT_PATH_def starts_with_def)
  have e: "sp_env (generate_spec img cs policy root) =
      (if list_ex (\<lambda>e. starts_with e ''PATH='') ?env then ?env else ?env @ [DEFAULT_PATH])"
    by (simp add: generate_spec_def spec_env_def Let_def)
  show ?thesis
  proof (cases "list_ex (\<lambda>e. starts_with e ''PATH='') ?env")
    case True
    then have "k = ''PATH'' \<Longrightarrow> env_value ?env k \<noteq> None" using path_entry by blast
    then show ?thesis unfolding e if_P [OF True] f by (auto split: option.splits)
  next
    case False
    then have "env_value ?env ''PATH'' = None" by (rule no_path_entry)
    then show ?thesis unfolding e if_not_P [OF False] env_value_append d f
      by (auto split: option.splits)
  qed
qed

definition demo_config :: OciImageConfig where
  "demo_config = Some \<lparr>ic_cmd = Some [''serve''], ic_entrypoint = Some [''app''], ic_env = Some [''FOO=image'', ''BAR=keep''],
    ic_working_dir = None, ic_user = None\<rparr>"

definition demo_request :: ContainerSpec where
  "demo_request = \<lparr>cs_name = ''c'', cs_image = ''i'', cs_command = [], cs_env = [(''FOO'', ''run'')],
    cs_working_dir = None, cs_rootfs_path = None, cs_overlay_layers = None\<rparr>"

text \<open>A container always has a command, and the request goes before the image.\<close>

lemma spec_args_nonempty: "sp_args (generate_spec img cs policy root) \<noteq> []"
  by (auto simp: generate_spec_def spec_args_def Let_def)

end
