(* ===== verification/Shim_State.thy ===== *)
theory Shim_State
  imports Shim_Wire Zone_Policy Rauha_Tables
begin

text \<open>
  The zone shim (\<open>rauha-shim/src/{state,container,main}.rs\<close>): the containers of a zone, the start of a
  container through crun, waiting for and killing its init process, the request loop, and the
  security attributes of interactive processes. What the kernel and crun answer is a parameter. Time
  is counted in the 10 ms sleeps of the wait loop.
\<close>

subsection \<open>Starting through crun\<close>

text \<open>What each call of one start returns, an error where the call can fail.\<close>

record start_env =
  se_crun :: "string + unit"
  se_subreaper :: "string + unit"
  se_has_rootfs :: bool
  se_prepare :: "string + unit"
  se_listener :: bool
  se_capture :: "string + unit"
  se_create :: "string + bool"
  se_create_log :: string
  se_pid_file :: "string + u32"
  se_pidfd_open :: "u32 \<Rightarrow> string + unit"
  se_enroll :: "string + unit"
  se_start :: "string + bool \<times> string"

text \<open>The calls that act on the container, in the order they are made.\<close>

datatype start_action = SpawnBroker | CrunCreate bool | OpenPidfd u32 | EnrollInit u32 bool | CrunStart bool | CrunDelete

record RuntimeProcess =
  rp_id :: string
  rp_pid :: u32
  rp_cleaned :: bool

definition cgroup_procs :: "string \<Rightarrow> string" where
  "cgroup_procs zone = ''/sys/fs/cgroup/rauha.slice/zone-'' @ zone @ ''/cgroup.procs''"

definition start_created ::
  "start_env \<Rightarrow> string \<Rightarrow> string \<Rightarrow> start_action list \<Rightarrow> (string + RuntimeProcess \<times> u32) \<times> start_action list" where
  "start_created env zone container trace =
    (case se_pid_file env of
       Inl e \<Rightarrow> (Inl e, trace @ [CrunDelete])
     | Inr pid \<Rightarrow>
         (case se_pidfd_open env pid of
            Inl e \<Rightarrow> (Inl e, trace @ [CrunDelete])
          | Inr _ \<Rightarrow>
              let trace = trace @ [OpenPidfd pid] in
              (case se_enroll env of
                 Inl e \<Rightarrow> (Inl (''failed to enroll OCI init in '' @ cgroup_procs zone @ '': '' @ e),
                           trace @ [EnrollInit pid False, CrunDelete])
               | Inr _ \<Rightarrow>
                   let trace = trace @ [EnrollInit pid True] in
                   (case se_start env of
                      Inl e \<Rightarrow> (Inl e, trace @ [CrunDelete])
                    | Inr (ok, stderr) \<Rightarrow>
                        if \<not> ok then (Inl (''crun start failed: '' @ trim stderr), trace @ [CrunStart False, CrunDelete])
                        else (Inr (\<lparr>rp_id = container, rp_pid = pid, rp_cleaned = False\<rparr>, pid), trace @ [CrunStart True])))))"

definition start_with_crun ::
  "start_env \<Rightarrow> string \<Rightarrow> string \<Rightarrow> (string + RuntimeProcess \<times> u32) \<times> start_action list" where
  "start_with_crun env zone container =
    (case se_crun env of
       Inl e \<Rightarrow> (Inl e, [])
     | Inr _ \<Rightarrow>
        (case se_subreaper env of
           Inl e \<Rightarrow> (Inl e, [])
         | Inr _ \<Rightarrow>
            if \<not> se_has_rootfs env then (Inl (''rootfs not found for container '' @ container), [])
            else
              (case se_prepare env of
                 Inl e \<Rightarrow> (Inl e, [])
               | Inr _ \<Rightarrow>
                   let trace = (if se_listener env then [SpawnBroker] else []) in
                   (case se_capture env of
                      Inl e \<Rightarrow> (Inl e, trace)
                    | Inr _ \<Rightarrow>
                        (case se_create env of
                           Inl e \<Rightarrow> (Inl e, trace)
                         | Inr ok \<Rightarrow>
                             if \<not> ok then (Inl (''crun create failed: '' @ trim (se_create_log env)), trace @ [CrunCreate False, CrunDelete])
                             else start_created env zone container (trace @ [CrunCreate True]))))))"

subsection \<open>Waiting for init\<close>

datatype wait_status = Exited int | Signaled int | WaitOther

text \<open>When the descriptor of a container's init reports its exit, and what a signal returns.\<close>

record proc_env =
  pe_poll :: "string \<Rightarrow> nat \<Rightarrow> wait_status option"
  pe_signal :: "string \<Rightarrow> nat \<Rightarrow> int \<Rightarrow> string + unit"

fun exit_code_of :: "wait_status \<Rightarrow> int" where
  "exit_code_of (Exited n) = n"
| "exit_code_of (Signaled n) = 128 + n"
| "exit_code_of WaitOther = 125"

definition try_wait :: "proc_env \<Rightarrow> nat \<Rightarrow> RuntimeProcess \<Rightarrow> int option \<times> RuntimeProcess" where
  "try_wait pe now rp =
    (case pe_poll pe (rp_id rp) now of
       None \<Rightarrow> (None, rp)
     | Some w \<Rightarrow> (Some (exit_code_of w), rp\<lparr>rp_cleaned := True\<rparr>))"

function wait_until :: "proc_env \<Rightarrow> nat \<Rightarrow> nat \<Rightarrow> RuntimeProcess \<Rightarrow> int option \<times> RuntimeProcess \<times> nat" where
  "wait_until pe now deadline rp =
    (case try_wait pe now rp of
       (Some code, rp1) \<Rightarrow> (Some code, rp1, now)
     | (None, rp1) \<Rightarrow> if now \<ge> deadline then (None, rp1, now) else wait_until pe (Suc now) deadline rp1)"
  by pat_completeness auto
termination by (relation "measure (\<lambda>(_, now, deadline, _). deadline - now)") auto

declare wait_until.simps [simp del]

definition wait_or_kill :: "proc_env \<Rightarrow> nat \<Rightarrow> nat \<Rightarrow> RuntimeProcess \<Rightarrow> int \<times> RuntimeProcess \<times> nat" where
  "wait_or_kill pe grace now rp =
    (case wait_until pe now (now + grace) rp of
       (Some code, rp1, now1) \<Rightarrow> (code, rp1, now1)
     | (None, rp1, now1) \<Rightarrow>
         (case wait_until pe now1 (now1 + 500) rp1 of
            (r, rp2, now2) \<Rightarrow> (case r of Some code \<Rightarrow> code | None \<Rightarrow> 128 + 9, rp2\<lparr>rp_cleaned := True\<rparr>, now2)))"

subsection \<open>Containers\<close>

datatype ContainerStatus = StCreated | StRunning | StStopped

fun show_status :: "ContainerStatus \<Rightarrow> string" where
  "show_status StCreated = ''created''"
| "show_status StRunning = ''running''"
| "show_status StStopped = ''stopped''"

record ContainerProcess =
  cp_pid :: u32
  cp_status :: ContainerStatus
  cp_exit_code :: "int option"
  cp_spec_json :: string
  cp_runtime :: "RuntimeProcess option"

record ShimState =
  ss_zone_name :: string
  ss_containers :: "(string \<times> ContainerProcess) list"
  ss_shutdown :: bool
  ss_now :: nat

definition shim_create_container :: "string \<Rightarrow> string \<Rightarrow> ShimState \<Rightarrow> (string + u32) \<times> ShimState" where
  "shim_create_container i spec_json st =
    (if map_of (ss_containers st) i \<noteq> None then (Inl (''container '' @ i @ '' already exists''), st)
     else (Inr 0, st\<lparr>ss_containers := table_insert i
       \<lparr>cp_pid = 0, cp_status = StCreated, cp_exit_code = None, cp_spec_json = spec_json, cp_runtime = None\<rparr>
       (ss_containers st)\<rparr>))"

definition shim_start_container :: "start_env \<Rightarrow> string \<Rightarrow> ShimState \<Rightarrow> (string + u32) \<times> ShimState" where
  "shim_start_container env i st =
    (case map_of (ss_containers st) i of
       None \<Rightarrow> (Inl (''container '' @ i @ '' not found''), st)
     | Some p \<Rightarrow>
         if cp_status p \<noteq> StCreated
         then (Inl (''container '' @ i @ '' is '' @ show_status (cp_status p) @ '', cannot start''), st)
         else
           (case fst (start_with_crun env (ss_zone_name st) i) of
              Inl e \<Rightarrow> (Inl e, st)
            | Inr (rt, pid) \<Rightarrow>
                (Inr pid, st\<lparr>ss_containers := table_insert i
                  (p\<lparr>cp_pid := pid, cp_status := StRunning, cp_runtime := Some rt\<rparr>) (ss_containers st)\<rparr>)))"

definition reap_one :: "proc_env \<Rightarrow> nat \<Rightarrow> ContainerProcess \<Rightarrow> ContainerProcess" where
  "reap_one pe now p =
    (if cp_status p \<noteq> StRunning \<or> cp_pid p = 0 then p
     else
       (case cp_runtime p of
          None \<Rightarrow> p
        | Some rt \<Rightarrow>
            (case try_wait pe now rt of
               (Some code, rt1) \<Rightarrow> p\<lparr>cp_status := StStopped, cp_exit_code := Some code, cp_runtime := Some rt1\<rparr>
             | (None, rt1) \<Rightarrow> p\<lparr>cp_runtime := Some rt1\<rparr>)))"

definition reap_children :: "proc_env \<Rightarrow> ShimState \<Rightarrow> ShimState" where
  "reap_children pe st = st\<lparr>ss_containers := map (\<lambda>(i, p). (i, reap_one pe (ss_now st) p)) (ss_containers st)\<rparr>"

definition signal_container :: "proc_env \<Rightarrow> string \<Rightarrow> int \<Rightarrow> ShimState \<Rightarrow> string + unit" where
  "signal_container pe i signal st =
    (case map_of (ss_containers st) i of
       None \<Rightarrow> Inl (''container '' @ i @ '' not found'')
     | Some p \<Rightarrow>
         if cp_status p \<noteq> StRunning \<or> cp_pid p = 0 then Inl (''container '' @ i @ '' is not running'')
         else
           (case cp_runtime p of
              None \<Rightarrow> Inl (''container '' @ i @ '' has no OCI runtime'')
            | Some rt \<Rightarrow> pe_signal pe (rp_id rt) (ss_now st) signal))"

definition stop_container :: "proc_env \<Rightarrow> string \<Rightarrow> int \<Rightarrow> ShimState \<Rightarrow> (string + unit) \<times> ShimState" where
  "stop_container pe i signal st =
    (let st1 = reap_children pe st in
     case signal_container pe i signal st1 of
       Inl e \<Rightarrow> (Inl e, st1)
     | Inr _ \<Rightarrow>
         (case map_of (ss_containers st1) i of
            None \<Rightarrow> (Inl (''container '' @ i @ '' not found''), st1)
          | Some p \<Rightarrow>
              (case cp_runtime p of
                 None \<Rightarrow> (Inl (''container '' @ i @ '' has no OCI runtime''), st1)
               | Some rt \<Rightarrow>
                   let (code, rt1, now1) = wait_or_kill pe 500 (ss_now st1) rt
                   in (Inr (), st1\<lparr>ss_now := now1, ss_containers := table_insert i
                       (p\<lparr>cp_status := StStopped, cp_exit_code := Some code, cp_runtime := Some rt1\<rparr>)
                       (ss_containers st1)\<rparr>))))"

definition shim_delete_container :: "proc_env \<Rightarrow> string \<Rightarrow> ShimState \<Rightarrow> (string + unit) \<times> ShimState" where
  "shim_delete_container pe i st =
    (let st1 = reap_children pe st in
     if (case map_of (ss_containers st1) i of Some p \<Rightarrow> cp_status p = StRunning | None \<Rightarrow> False)
     then (Inl (''container '' @ i @ '' is running''), st1)
     else (Inr (), st1\<lparr>ss_containers := table_remove i (ss_containers st1)\<rparr>))"

definition get_state :: "string \<Rightarrow> ShimState \<Rightarrow> (u32 \<times> string \<times> int option) option" where
  "get_state i st =
    map_option (\<lambda>p. (cp_pid p, show_status (cp_status p), cp_exit_code p)) (map_of (ss_containers st) i)"

definition container_summary :: "ShimState \<Rightarrow> u32 \<times> u32" where
  "container_summary st =
    (of_nat (length (filter (\<lambda>(_, p). cp_status p = StRunning \<and> cp_pid p > 0) (ss_containers st))),
     of_nat (length (ss_containers st)))"

fun stop_all :: "proc_env \<Rightarrow> nat \<Rightarrow> (string \<times> ContainerProcess) list \<Rightarrow> (string \<times> ContainerProcess) list \<times> nat" where
  "stop_all pe now [] = ([], now)"
| "stop_all pe now ((i, p) # ps) =
     (case cp_runtime p of
        None \<Rightarrow> (case stop_all pe now ps of (qs, now2) \<Rightarrow> ((i, p) # qs, now2))
      | Some rt \<Rightarrow>
          (case wait_or_kill pe 0 now rt of
             (_, rt1, now1) \<Rightarrow>
               (case stop_all pe now1 ps of (qs, now2) \<Rightarrow> ((i, p\<lparr>cp_runtime := Some rt1\<rparr>) # qs, now2))))"

definition request_shutdown :: "proc_env \<Rightarrow> ShimState \<Rightarrow> ShimState" where
  "request_shutdown pe st =
    (case stop_all pe (ss_now st) (ss_containers st) of
       (ps, now) \<Rightarrow> st\<lparr>ss_containers := ps, ss_now := now, ss_shutdown := True\<rparr>)"

subsection \<open>Requests\<close>

text \<open>The terminal sessions of \<open>attach.rs\<close> are parameters: what resizing, forking and serving return.\<close>

record shim_env =
  sh_start :: start_env
  sh_proc :: proc_env
  sh_resize :: "string \<Rightarrow> string + unit"
  sh_exec :: "string + unit"
  sh_session :: string
  sh_serve :: "string + string"

definition message_of :: "('a \<Rightarrow> ShimResponse) \<Rightarrow> string + 'a \<Rightarrow> ShimResponse" where
  "message_of f r = (case r of Inl e \<Rightarrow> ErrorMsg e | Inr x \<Rightarrow> f x)"

definition exec_request :: "shim_env \<Rightarrow> string \<Rightarrow> bool \<Rightarrow> ShimState \<Rightarrow> ShimResponse" where
  "exec_request env i pty st =
    (if \<not> pty then ErrorMsg ''non-PTY exec not yet supported''
     else
       (case get_state i st of
          None \<Rightarrow> ErrorMsg (''container '' @ i @ '' not found'')
        | Some (init_pid, status, _) \<Rightarrow>
            if status \<noteq> ''running'' \<or> init_pid = 0 then ErrorMsg (''container '' @ i @ '' is not running'')
            else
              (case sh_exec env of
                 Inl e \<Rightarrow> ErrorMsg (''exec failed: '' @ e)
               | Inr _ \<Rightarrow>
                   (case sh_serve env of
                      Inl e \<Rightarrow> ErrorMsg (''failed to create attach session: '' @ e)
                    | Inr socket_path \<Rightarrow> ExecReady (Some (sh_session env)) socket_path))))"

fun handle_request :: "shim_env \<Rightarrow> ShimRequest \<Rightarrow> ShimState \<Rightarrow> ShimResponse \<times> ShimState" where
  "handle_request env (CreateContainer i spec_json) st =
     (case shim_create_container i spec_json st of (r, st1) \<Rightarrow> (message_of Created r, st1))"
| "handle_request env (StartContainer i) st =
     (case shim_start_container (sh_start env) i st of (r, st1) \<Rightarrow> (message_of Created r, st1))"
| "handle_request env (StopContainer i signal) st =
     (case stop_container (sh_proc env) i signal st of (r, st1) \<Rightarrow> (message_of (\<lambda>_. ShimOk) r, st1))"
| "handle_request env (SignalContainer i signal) st =
     (message_of (\<lambda>_. ShimOk) (signal_container (sh_proc env) i signal st), st)"
| "handle_request env (GetState i) st =
     (case get_state i st of
        Some (pid, status, code) \<Rightarrow> (StateOf pid status code, st)
      | None \<Rightarrow> (ErrorMsg (''container '' @ i @ '' not found''), st))"
| "handle_request env Shutdown st = (ShimOk, request_shutdown (sh_proc env) st)"
| "handle_request env (DeleteContainer i) st =
     (case shim_delete_container (sh_proc env) i st of (r, st1) \<Rightarrow> (message_of (\<lambda>_. ShimOk) r, st1))"
| "handle_request env GetStats st =
     (case container_summary st of (pids, container_count) \<Rightarrow> (Stats 0 0 pids container_count 0 0, st))"
| "handle_request env (ResizePty i session rows cols) st =
     (case session of
        None \<Rightarrow> (ErrorMsg (''missing PTY session id for container '' @ i), st)
      | Some s \<Rightarrow> (message_of (\<lambda>_. ShimOk) (sh_resize env s), st))"
| "handle_request env (Exec i command vars pty) st = (exec_request env i pty st, st)"
| "handle_request env (Attach i pty) st =
     (ErrorMsg (''attach to non-PTY container not supported '' @ em_dash @ '' use `exec -it` instead''), st)"

text \<open>The main loop. A connection brings a request, or fails in accepting or decoding it. The result
  tells the responses and whether the shim has left its loop.\<close>

type_synonym connection = "(shim_env \<times> ShimRequest) option"

fun shim_loop :: "proc_env \<Rightarrow> connection list \<Rightarrow> ShimState \<Rightarrow> ShimResponse list \<times> bool \<times> ShimState" where
  "shim_loop pe [] st = ([], False, st)"
| "shim_loop pe (None # cs) st = shim_loop pe cs (reap_children pe st)"
| "shim_loop pe (Some (env, rq) # cs) st =
     (case handle_request env rq st of
        (resp, st1) \<Rightarrow>
          if resp = ShimOk \<and> ss_shutdown st1 then ([resp], True, st1)
          else (case shim_loop pe cs (reap_children pe st1) of (rs, left, st2) \<Rightarrow> (resp # rs, left, st2)))"

subsection \<open>Security attributes of a process\<close>

record ProcessSecurity =
  sec_bounding :: u64
  sec_effective :: u64
  sec_inheritable :: u64
  sec_permitted :: u64
  sec_ambient :: u64
  sec_no_new_privileges :: bool

definition capability_mask :: "string list option \<Rightarrow> string + u64" where
  "capability_mask caps =
    foldl (\<lambda>acc name. and_then acc (\<lambda>m.
        and_then (ok_or (''unsupported OCI capability: '' @ name) (linux_capability_bit name)) (\<lambda>b. Inr (m OR push_bit b 1))))
      (Inr 0) (case caps of None \<Rightarrow> [] | Some cs \<Rightarrow> cs)"

record oci_capabilities =
  oc_bounding :: "string list option"
  oc_effective :: "string list option"
  oc_inheritable :: "string list option"
  oc_permitted :: "string list option"
  oc_ambient :: "string list option"

definition from_process :: "oci_capabilities option \<Rightarrow> bool option \<Rightarrow> string + ProcessSecurity" where
  "from_process caps no_new_privileges =
    and_then (ok_or ''process.capabilities is required'' caps) (\<lambda>c.
    and_then (capability_mask (oc_bounding c)) (\<lambda>bounding.
    and_then (capability_mask (oc_effective c)) (\<lambda>effective.
    and_then (capability_mask (oc_inheritable c)) (\<lambda>inheritable.
    and_then (capability_mask (oc_permitted c)) (\<lambda>permitted.
    and_then (capability_mask (oc_ambient c)) (\<lambda>ambient.
      Inr \<lparr>sec_bounding = bounding, sec_effective = effective, sec_inheritable = inheritable, sec_permitted = permitted,
        sec_ambient = ambient, sec_no_new_privileges = (no_new_privileges = Some True)\<rparr>))))))"

text \<open>The attributes of the calling process, and the calls that change them.\<close>

record creds =
  cd_bounding :: u64
  cd_effective :: u64
  cd_permitted :: u64
  cd_inheritable :: u64
  cd_ambient :: u64
  cd_no_new_privs :: bool

record cred_api =
  cr_bound_drop :: "nat \<Rightarrow> creds \<Rightarrow> string + creds"
  cr_capset :: "u32 list \<Rightarrow> u32 list \<Rightarrow> u32 list \<Rightarrow> creds \<Rightarrow> string + creds"
  cr_ambient_clear :: "creds \<Rightarrow> string + creds"
  cr_ambient_raise :: "nat \<Rightarrow> creds \<Rightarrow> string + creds"
  cr_no_new_privs :: "creds \<Rightarrow> string + creds"

text \<open>A shift of a 64-bit number takes its distance modulo 64, as a release build does.\<close>

fun bound_drops :: "cred_api \<Rightarrow> u64 \<Rightarrow> nat list \<Rightarrow> creds \<Rightarrow> string + creds" where
  "bound_drops api m [] k = Inr k"
| "bound_drops api m (c # cs) k =
     (if m AND push_bit (c mod 64) 1 = 0 then and_then (cr_bound_drop api c k) (bound_drops api m cs) else bound_drops api m cs k)"

fun ambient_raises :: "cred_api \<Rightarrow> u64 \<Rightarrow> nat list \<Rightarrow> creds \<Rightarrow> string + creds" where
  "ambient_raises api m [] k = Inr k"
| "ambient_raises api m (c # cs) k =
     (if m AND push_bit (c mod 64) 1 \<noteq> 0 then and_then (cr_ambient_raise api c k) (ambient_raises api m cs) else ambient_raises api m cs k)"

definition two_words :: "u64 \<Rightarrow> u32 list" where
  "two_words m = [ucast m, ucast (drop_bit 32 m)]"

definition apply_process_security :: "cred_api \<Rightarrow> ProcessSecurity \<Rightarrow> nat \<Rightarrow> creds \<Rightarrow> string + creds" where
  "apply_process_security api sec cap_last_cap k =
    and_then (bound_drops api (sec_bounding sec) [0..<Suc cap_last_cap] k) (\<lambda>k1.
    and_then (cr_capset api (two_words (sec_effective sec)) (two_words (sec_permitted sec)) (two_words (sec_inheritable sec)) k1) (\<lambda>k2.
    and_then (cr_ambient_clear api k2) (\<lambda>k3.
    and_then (ambient_raises api (sec_ambient sec) [0..<Suc cap_last_cap] k3) (\<lambda>k4.
    if sec_no_new_privileges sec then cr_no_new_privs api k4 else Inr k4))))"

text \<open>What capabilities(7) and prctl(2) document of a call that succeeds.\<close>

definition join_words :: "u32 list \<Rightarrow> u64" where
  "join_words ws = (ucast (ws ! 0) OR push_bit 32 (ucast (ws ! 1)))"

definition documented_creds :: "cred_api \<Rightarrow> bool" where
  "documented_creds api \<longleftrightarrow>
    (\<forall>c k k'. cr_bound_drop api c k = Inr k' \<longrightarrow> k' = k\<lparr>cd_bounding := cd_bounding k AND NOT (2 ^ c)\<rparr>) \<and>
    (\<forall>e p i k k'. cr_capset api e p i k = Inr k' \<longrightarrow>
       k' = k\<lparr>cd_effective := join_words e, cd_permitted := join_words p, cd_inheritable := join_words i,
              cd_ambient := cd_ambient k AND join_words p AND join_words i\<rparr>) \<and>
    (\<forall>k k'. cr_ambient_clear api k = Inr k' \<longrightarrow> k' = k\<lparr>cd_ambient := 0\<rparr>) \<and>
    (\<forall>c k k'. cr_ambient_raise api c k = Inr k' \<longrightarrow> k' = k\<lparr>cd_ambient := cd_ambient k OR 2 ^ c\<rparr>) \<and>
    (\<forall>k k'. cr_no_new_privs api k = Inr k' \<longrightarrow> k' = k\<lparr>cd_no_new_privs := True\<rparr>)"

lemma join_two_words: "join_words (two_words m) = m"
  by (rule bit_word_eqI) (auto simp: join_words_def two_words_def bit_simps)

lemma mask_bit_zero: "m AND 2 ^ c = 0 \<longleftrightarrow> \<not> bit (m :: u64) c"
  by (simp add: and_exp_eq_0_iff_not_bit)

lemma bound_drops_spec:
  assumes "documented_creds api" "bound_drops api m cs k = Inr k'" "list_all (\<lambda>c. c < 64) cs"
  shows "k' = k\<lparr>cd_bounding := cd_bounding k'\<rparr> \<and>
    (\<forall>n < 64. bit (cd_bounding k') n \<longleftrightarrow> bit (cd_bounding k) n \<and> (n \<in> set cs \<longrightarrow> bit m n))"
  using assms(2,3)
proof (induction cs arbitrary: k)
  case (Cons c cs)
  show ?case
  proof (cases "bit m c")
    case True
    then show ?thesis using Cons.IH [of k] Cons.prems by (auto simp: mask_bit_zero)
  next
    case False
    then obtain k1 where k1: "cr_bound_drop api c k = Inr k1" "bound_drops api m cs k1 = Inr k'"
      using Cons.prems by (auto simp: mask_bit_zero result_simps)
    then have "k1 = k\<lparr>cd_bounding := cd_bounding k AND NOT (2 ^ c)\<rparr>" using assms(1) unfolding documented_creds_def by blast
    then show ?thesis using Cons.IH [OF k1(2)] Cons.prems(2) False by (auto simp: bit_simps)
  qed
qed simp

lemma ambient_raises_spec:
  assumes "documented_creds api" "ambient_raises api m cs k = Inr k'" "list_all (\<lambda>c. c < 64) cs"
  shows "k' = k\<lparr>cd_ambient := cd_ambient k'\<rparr> \<and>
    (\<forall>n < 64. bit (cd_ambient k') n \<longleftrightarrow> bit (cd_ambient k) n \<or> (n \<in> set cs \<and> bit m n))"
  using assms(2,3)
proof (induction cs arbitrary: k)
  case (Cons c cs)
  show ?case
  proof (cases "bit m c")
    case True
    then obtain k1 where k1: "cr_ambient_raise api c k = Inr k1" "ambient_raises api m cs k1 = Inr k'"
      using Cons.prems by (auto simp: mask_bit_zero result_simps)
    then have "k1 = k\<lparr>cd_ambient := cd_ambient k OR 2 ^ c\<rparr>" using assms(1) unfolding documented_creds_def by blast
    then show ?thesis using Cons.IH [OF k1(2)] Cons.prems(2) True by (auto simp: bit_simps)
  next
    case False
    then show ?thesis using Cons.IH [of k] Cons.prems by (auto simp: mask_bit_zero)
  qed
qed simp

text \<open>A process whose security attributes were applied has exactly the effective, permitted and
  inheritable capabilities of its specification, no bounding capability and no ambient capability the
  specification leaves out, up to the last capability the kernel knows, and cannot gain privileges
  where the specification says so.\<close>

lemma applied_security:
  assumes "documented_creds api" "cap_last_cap < 64" "apply_process_security api sec cap_last_cap k = Inr k'"
  shows "cd_effective k' = sec_effective sec \<and> cd_permitted k' = sec_permitted sec \<and>
    cd_inheritable k' = sec_inheritable sec \<and>
    (\<forall>n < 64. bit (cd_bounding k') n \<longleftrightarrow> bit (cd_bounding k) n \<and> (n \<le> cap_last_cap \<longrightarrow> bit (sec_bounding sec) n)) \<and>
    (\<forall>n < 64. bit (cd_ambient k') n \<longleftrightarrow> n \<le> cap_last_cap \<and> bit (sec_ambient sec) n) \<and>
    cd_no_new_privs k' = (cd_no_new_privs k \<or> sec_no_new_privileges sec)"
proof -
  obtain k1 k2 k3 k4 where r: "bound_drops api (sec_bounding sec) [0..<Suc cap_last_cap] k = Inr k1"
      "cr_capset api (two_words (sec_effective sec)) (two_words (sec_permitted sec)) (two_words (sec_inheritable sec)) k1 = Inr k2"
      "cr_ambient_clear api k2 = Inr k3" "ambient_raises api (sec_ambient sec) [0..<Suc cap_last_cap] k3 = Inr k4"
      "(if sec_no_new_privileges sec then cr_no_new_privs api k4 else Inr k4) = Inr k'"
    using assms(3) unfolding apply_process_security_def result_simps by blast
  have small: "list_all (\<lambda>c. c < 64) [0..<Suc cap_last_cap]" using assms(2) by (auto simp: list_all_iff)
  note B = bound_drops_spec [OF assms(1) r(1) small] and A = ambient_raises_spec [OF assms(1) r(4) small]
  have k2: "k2 = k1\<lparr>cd_effective := sec_effective sec, cd_permitted := sec_permitted sec, cd_inheritable := sec_inheritable sec,
      cd_ambient := cd_ambient k1 AND sec_permitted sec AND sec_inheritable sec\<rparr>"
    using r(2) assms(1) unfolding documented_creds_def by (metis join_two_words)
  have k3: "k3 = k2\<lparr>cd_ambient := 0\<rparr>" using r(3) assms(1) unfolding documented_creds_def by blast
  have k': "k' = k4\<lparr>cd_no_new_privs := cd_no_new_privs k4 \<or> sec_no_new_privileges sec\<rparr>"
    using r(5) assms(1) unfolding documented_creds_def by (auto split: if_splits)
  have k4: "k4 = k3\<lparr>cd_ambient := cd_ambient k4\<rparr>" and k1: "k1 = k\<lparr>cd_bounding := cd_bounding k1\<rparr>" using A B by blast+
  have "cd_effective k4 = sec_effective sec" "cd_permitted k4 = sec_permitted sec" "cd_inheritable k4 = sec_inheritable sec"
    "cd_bounding k4 = cd_bounding k1" "cd_no_new_privs k4 = cd_no_new_privs k"
    by (subst k4, simp add: k3 k2, (subst k1, simp)?)+
  then show ?thesis using A B k' k3 by (auto simp: less_Suc_eq_le)
qed

definition demo_creds :: cred_api where
  "demo_creds = \<lparr>cr_bound_drop = (\<lambda>c k. Inr (k\<lparr>cd_bounding := cd_bounding k AND NOT (2 ^ c)\<rparr>)),
    cr_capset = (\<lambda>e p i k. Inr (k\<lparr>cd_effective := join_words e, cd_permitted := join_words p, cd_inheritable := join_words i,
      cd_ambient := cd_ambient k AND join_words p AND join_words i\<rparr>)),
    cr_ambient_clear = (\<lambda>k. Inr (k\<lparr>cd_ambient := 0\<rparr>)),
    cr_ambient_raise = (\<lambda>c k. Inr (k\<lparr>cd_ambient := cd_ambient k OR 2 ^ c\<rparr>)),
    cr_no_new_privs = (\<lambda>k. Inr (k\<lparr>cd_no_new_privs := True\<rparr>))\<rparr>"

definition demo_security :: ProcessSecurity where
  "demo_security = \<lparr>sec_bounding = 2, sec_effective = 2, sec_inheritable = 0, sec_permitted = 2, sec_ambient = 0,
    sec_no_new_privileges = True\<rparr>"

definition root_creds :: creds where
  "root_creds = \<lparr>cd_bounding = 7, cd_effective = 7, cd_permitted = 7, cd_inheritable = 0, cd_ambient = 0, cd_no_new_privs = False\<rparr>"

subsection \<open>No workload outside its zone\<close>

text \<open>Every start of the workload comes after its init was enrolled in the cgroup of the zone.\<close>

fun starts_enrolled :: "bool \<Rightarrow> start_action list \<Rightarrow> bool" where
  "starts_enrolled seen [] = True"
| "starts_enrolled seen (EnrollInit pid ok # as) = starts_enrolled (seen \<or> ok) as"
| "starts_enrolled seen (CrunStart ok # as) = (seen \<and> starts_enrolled seen as)"
| "starts_enrolled seen (_ # as) = starts_enrolled seen as"


definition demo_start :: start_env where
  "demo_start = \<lparr>se_crun = Inr (), se_subreaper = Inr (), se_has_rootfs = True, se_prepare = Inr (), se_listener = True,
    se_capture = Inr (), se_create = Inr True, se_create_log = [], se_pid_file = Inr 42, se_pidfd_open = (\<lambda>_. Inr ()),
    se_enroll = Inr (), se_start = Inr (True, [])\<rparr>"


subsection \<open>The life of a container\<close>

lemma wait_until_spec:
  "wait_until pe now deadline rp = (r, rp', now') \<Longrightarrow>
   now \<le> now' \<and> now' \<le> max now deadline \<and> rp_id rp' = rp_id rp \<and> rp_pid rp' = rp_pid rp \<and>
   (r \<noteq> None \<longrightarrow> rp_cleaned rp')"
proof (induction pe now deadline rp rule: wait_until.induct)
  case (1 pe now deadline rp)
  note unf = wait_until.simps [of pe now deadline rp]
  show ?case
  proof (cases "pe_poll pe (rp_id rp) now")
    case None
    then show ?thesis using 1 unf by (cases "now \<ge> deadline") (auto simp: try_wait_def)
  next
    case (Some w)
    then show ?thesis using 1(2) unf by (auto simp: try_wait_def)
  qed
qed

lemma wait_or_kill_spec:
  assumes "wait_or_kill pe grace now rp = (code, rp', now')"
  shows "now' \<le> now + grace + 500 \<and> rp_id rp' = rp_id rp \<and> rp_pid rp' = rp_pid rp \<and> rp_cleaned rp'"
proof -
  obtain r rp1 now1 where a: "wait_until pe now (now + grace) rp = (r, rp1, now1)" by (metis prod.exhaust)
  obtain r2 rp2 now2 where b: "wait_until pe now1 (now1 + 500) rp1 = (r2, rp2, now2)" by (metis prod.exhaust)
  show ?thesis using assms a b wait_until_spec [OF a] wait_until_spec [OF b]
    by (cases r) (auto simp: wait_or_kill_def)
qed

definition proc_ok :: "ContainerProcess \<Rightarrow> bool" where
  "proc_ok p =
    (case cp_runtime p of
       None \<Rightarrow> cp_status p = StCreated \<and> cp_pid p = 0 \<and> cp_exit_code p = None
     | Some rt \<Rightarrow> cp_pid p = rp_pid rt \<and>
         (cp_status p = StRunning \<and> cp_exit_code p = None \<or> cp_status p = StStopped \<and> cp_exit_code p \<noteq> None \<and> rp_cleaned rt))"

definition shim_inv :: "ShimState \<Rightarrow> bool" where
  "shim_inv st \<longleftrightarrow> table_ok (ss_containers st) \<and> (\<forall>i p. map_of (ss_containers st) i = Some p \<longrightarrow> proc_ok p)"

fun stage :: "ContainerStatus \<Rightarrow> nat" where
  "stage StCreated = 0" | "stage StRunning = 1" | "stage StStopped = 2"

text \<open>What one request may do to a container: go forward, and once stopped keep pid and exit code.\<close>

definition evolves :: "ContainerProcess \<Rightarrow> ContainerProcess \<Rightarrow> bool" where
  "evolves p q \<longleftrightarrow>
    cp_spec_json q = cp_spec_json p \<and> stage (cp_status p) \<le> stage (cp_status q) \<and>
    (cp_status p \<noteq> StCreated \<longrightarrow> cp_pid q = cp_pid p) \<and>
    (cp_status p = StStopped \<longrightarrow> cp_exit_code q = cp_exit_code p)"

lemma evolves_refl [simp]: "evolves p p"
  by (simp add: evolves_def)

lemma evolves_trans:
  assumes "evolves p q" "evolves q r"
  shows "evolves p r"
  using assms by (cases "cp_status p"; cases "cp_status q"; cases "cp_status r") (auto simp: evolves_def)

lemma reap_one_ok: "proc_ok p \<Longrightarrow> proc_ok (reap_one pe now p) \<and> evolves p (reap_one pe now p)"
  by (auto simp: reap_one_def proc_ok_def evolves_def try_wait_def split: option.splits)

text \<open>A table whose entries have each made an allowed change, with none lost.\<close>

definition tables_evolve :: "(string \<times> ContainerProcess) list \<Rightarrow> (string \<times> ContainerProcess) list \<Rightarrow> bool" where
  "tables_evolve t t' \<longleftrightarrow>
    (\<forall>i p. map_of t i = Some p \<longrightarrow> (\<exists>q. map_of t' i = Some q \<and> evolves p q))"

lemma tables_evolve_refl [simp]: "tables_evolve t t"
  by (simp add: tables_evolve_def)

lemma tables_evolve_trans: "tables_evolve a b \<Longrightarrow> tables_evolve b c \<Longrightarrow> tables_evolve a c"
  unfolding tables_evolve_def using evolves_trans by metis

lemma tables_evolve_insert:
  "map_of t i = Some p \<Longrightarrow> evolves p q \<Longrightarrow> tables_evolve t (table_insert i q t)"
  by (auto simp: tables_evolve_def table_simps)

lemma shim_inv_insert:
  "shim_inv st \<Longrightarrow> proc_ok q \<Longrightarrow> shim_inv (st\<lparr>ss_containers := table_insert i q (ss_containers st)\<rparr>)"
  by (auto simp: shim_inv_def table_ok_insert table_simps)

lemma shim_inv_now [simp]: "shim_inv (st\<lparr>ss_now := n\<rparr>) = shim_inv st"
  by (simp add: shim_inv_def)

lemma map_of_map_values: "map_of (map (\<lambda>(i, p). (i, f p)) t) i = map_option f (map_of t i)"
  by (induction t) auto

lemma table_ok_map_values: "table_ok t \<Longrightarrow> table_ok (map (\<lambda>(i, p). (i, f p)) t)"
proof -
  have "map fst (map (\<lambda>(i, p). (i, f p)) t) = map fst t" by (induction t) auto
  then show "table_ok t \<Longrightarrow> table_ok (map (\<lambda>(i, p). (i, f p)) t)" by (simp only: table_ok_def)
qed

lemma reap_children_ok:
  assumes "shim_inv st"
  shows "shim_inv (reap_children pe st)" "tables_evolve (ss_containers st) (ss_containers (reap_children pe st))"
  using assms reap_one_ok
  by (auto simp: shim_inv_def reap_children_def table_ok_map_values map_of_map_values tables_evolve_def)

lemma create_ok:
  assumes "shim_inv st" "shim_create_container i spec st = (r, st')"
  shows "shim_inv st' \<and> tables_evolve (ss_containers st) (ss_containers st')"
  using assms
  by (auto simp: shim_create_container_def proc_ok_def tables_evolve_def table_simps split: if_splits
    intro!: shim_inv_insert)

lemma started_runtime: "start_with_crun env zone i = (Inr (rt, pid), trace) \<Longrightarrow> rp_pid rt = pid"
  by (auto simp: start_with_crun_def start_created_def Let_def split: sum.splits if_splits prod.splits)

lemma start_ok:
  assumes "shim_inv st" "shim_start_container env i st = (r, st')"
  shows "shim_inv st' \<and> tables_evolve (ss_containers st) (ss_containers st')"
proof (cases "\<exists>p rt pid trace. map_of (ss_containers st) i = Some p \<and> cp_status p = StCreated \<and>
    start_with_crun env (ss_zone_name st) i = (Inr (rt, pid), trace)")
  case True
  then obtain p rt pid trace where p: "map_of (ss_containers st) i = Some p" "cp_status p = StCreated"
      "start_with_crun env (ss_zone_name st) i = (Inr (rt, pid), trace)" by blast
  let ?q = "p\<lparr>cp_pid := pid, cp_status := StRunning, cp_runtime := Some rt\<rparr>"
  have "proc_ok p" using assms(1) p(1) by (auto simp: shim_inv_def)
  then have "proc_ok ?q" using p(2) started_runtime [OF p(3)] by (auto simp: proc_ok_def split: option.splits)
  moreover have "evolves p ?q" using p(2) by (simp add: evolves_def)
  moreover have "st' = st\<lparr>ss_containers := table_insert i ?q (ss_containers st)\<rparr>"
    using assms(2) p by (simp add: shim_start_container_def)
  ultimately show ?thesis using assms(1) p(1) by (simp add: shim_inv_insert tables_evolve_insert)
next
  case False
  have "st' = st"
  proof (rule ccontr)
    assume "st' \<noteq> st"
    then show False using assms(2) False
      by (auto simp: shim_start_container_def split: option.splits if_splits sum.splits prod.splits)
        (metis prod.collapse)
  qed
  then show ?thesis using assms(1) by simp
qed

lemma stop_ok:
  assumes "shim_inv st" "stop_container pe i signal st = (r, st')"
  shows "shim_inv st' \<and> tables_evolve (ss_containers st) (ss_containers st') \<and> ss_now st' \<le> ss_now st + 1000"
proof -
  let ?st1 = "reap_children pe st"
  note R = reap_children_ok [OF assms(1), of pe]
  have now: "ss_now ?st1 = ss_now st" by (simp add: reap_children_def)
  show ?thesis
  proof (cases "st' = ?st1")
    case True
    then show ?thesis using R now by simp
  next
    case False
    then obtain p rt code rt1 now1 where p: "signal_container pe i signal ?st1 = Inr ()"
        "map_of (ss_containers ?st1) i = Some p" "cp_runtime p = Some rt"
        "wait_or_kill pe 500 (ss_now ?st1) rt = (code, rt1, now1)"
      and st': "st' = ?st1\<lparr>ss_now := now1, ss_containers := table_insert i
          (p\<lparr>cp_status := StStopped, cp_exit_code := Some code, cp_runtime := Some rt1\<rparr>) (ss_containers ?st1)\<rparr>"
      using assms(2) by (auto simp: stop_container_def Let_def split: sum.splits option.splits prod.splits)
    let ?q = "p\<lparr>cp_status := StStopped, cp_exit_code := Some code, cp_runtime := Some rt1\<rparr>"
    note W = wait_or_kill_spec [OF p(4)]
    have "proc_ok p" using R(1) p(2) by (auto simp: shim_inv_def)
    then have ok: "proc_ok ?q" using W p(3) by (simp add: proc_ok_def)
    have "cp_status p = StRunning" using p(1,2) by (auto simp: signal_container_def split: if_splits)
    then have "evolves p ?q" by (simp add: evolves_def)
    then have "tables_evolve (ss_containers ?st1) (ss_containers st')" using p(2) st' by (simp add: tables_evolve_insert)
    moreover have "shim_inv st'" using shim_inv_insert [OF R(1) ok, of i] st' by (simp add: shim_inv_def)
    ultimately show ?thesis using R(2) tables_evolve_trans W now st' by auto
  qed
qed

definition entry_moves :: "string \<times> ContainerProcess \<Rightarrow> string \<times> ContainerProcess \<Rightarrow> bool" where
  "entry_moves = (\<lambda>(i, p) (j, q). i = j \<and> (proc_ok p \<longrightarrow> proc_ok q \<and> evolves p q))"

lemma stop_all_moves: "stop_all pe now t = (t', now') \<Longrightarrow> list_all2 entry_moves t t'"
proof (induction pe now t arbitrary: t' now' rule: stop_all.induct)
  case (2 pe now i p ps)
  show ?case
  proof (cases "cp_runtime p")
    case None
    then show ?thesis using 2 by (auto simp: entry_moves_def split: prod.splits)
  next
    case (Some rt)
    obtain code rt1 now1 where w: "wait_or_kill pe 0 now rt = (code, rt1, now1)" by (metis prod.exhaust)
    obtain qs now2 where q: "stop_all pe now1 ps = (qs, now2)" by fastforce
    have "entry_moves (i, p) (i, p\<lparr>cp_runtime := Some rt1\<rparr>)"
      using wait_or_kill_spec [OF w] Some by (auto simp: entry_moves_def proc_ok_def evolves_def)
    moreover have "list_all2 entry_moves ps qs" using 2(2) [OF Some w [symmetric] refl q] .
    ultimately show ?thesis using 2(3) Some w q by auto
  qed
qed simp

lemma moves_keys: "list_all2 entry_moves t t' \<Longrightarrow> map fst t' = map fst t"
  by (induction t t' rule: list_all2_induct) (auto simp: entry_moves_def)

lemma moves_lookup:
  "list_all2 entry_moves t t' \<Longrightarrow>
   (case map_of t i of
      None \<Rightarrow> map_of t' i = None
    | Some p \<Rightarrow> \<exists>q. map_of t' i = Some q \<and> (proc_ok p \<longrightarrow> proc_ok q \<and> evolves p q))"
  by (induction t t' rule: list_all2_induct) (auto simp: entry_moves_def split: option.splits)

lemma shutdown_ok:
  assumes "shim_inv st"
  shows "shim_inv (request_shutdown pe st) \<and> tables_evolve (ss_containers st) (ss_containers (request_shutdown pe st))"
proof -
  obtain t' now' where t: "stop_all pe (ss_now st) (ss_containers st) = (t', now')" by fastforce
  note M = stop_all_moves [OF t]
  have "table_ok t'" using assms moves_keys [OF M] by (simp add: shim_inv_def table_ok_def)
  moreover have "proc_ok q" if "map_of t' i = Some q" for i q
    using moves_lookup [OF M, of i] that assms by (auto simp: shim_inv_def split: option.splits)
  moreover have "tables_evolve (ss_containers st) t'" unfolding tables_evolve_def
  proof (intro allI impI)
    fix i p assume "map_of (ss_containers st) i = Some p"
    then show "\<exists>q. map_of t' i = Some q \<and> evolves p q"
      using moves_lookup [OF M, of i] assms by (auto simp: shim_inv_def)
  qed
  ultimately show ?thesis using t by (simp add: request_shutdown_def shim_inv_def)
qed

lemma delete_ok:
  assumes "shim_inv st" "shim_delete_container pe i st = (r, st')"
  shows "shim_inv st' \<and>
    (\<forall>j p. map_of (ss_containers st) j = Some p \<longrightarrow>
       (j = i \<and> map_of (ss_containers st') j = None) \<or> (\<exists>q. map_of (ss_containers st') j = Some q \<and> evolves p q))"
proof -
  let ?st1 = "reap_children pe st"
  note R = reap_children_ok [OF assms(1), of pe]
  have "st' = ?st1 \<or> st' = ?st1\<lparr>ss_containers := table_remove i (ss_containers ?st1)\<rparr>"
    using assms(2) by (auto simp: shim_delete_container_def Let_def split: if_splits)
  then show ?thesis
  proof
    assume "st' = ?st1"
    then show ?thesis using R by (simp add: tables_evolve_def)
  next
    assume st': "st' = ?st1\<lparr>ss_containers := table_remove i (ss_containers ?st1)\<rparr>"
    then have "shim_inv st'" using R(1) by (auto simp: shim_inv_def table_ok_remove table_simps)
    moreover have "map_of (ss_containers st') j = (if j = i then None else map_of (ss_containers ?st1) j)" for j
      using st' by (simp add: table_simps)
    ultimately show ?thesis using R(2) by (auto simp: tables_evolve_def)
  qed
qed

text \<open>C18: whatever crun and the kernel answer, each request keeps the table of containers well formed: a
  container without a runtime is only created, one that runs has no exit code, and one that stopped
  has its exit code and its runtime state deleted. Containers go forward only, from created over
  running to stopped, keep their pid and exit code then, and leave the table only when a request
  deletes them.\<close>

theorem containers_go_forward:
  assumes "shim_inv st" "handle_request env rq st = (resp, st')" "map_of (ss_containers st) i = Some p"
  shows "shim_inv st' \<and>
    (case map_of (ss_containers st') i of Some q \<Rightarrow> evolves p q | None \<Rightarrow> rq = DeleteContainer i \<and> resp = ShimOk)"
proof -
  have ev: ?thesis if t: "shim_inv st' \<and> tables_evolve (ss_containers st) (ss_containers st')"
  proof -
    obtain q where "map_of (ss_containers st') i = Some q" "evolves p q"
      using t assms(3) unfolding tables_evolve_def by blast
    then show ?thesis using t by simp
  qed
  have same: ?thesis if "st' = st" using that assms by simp
  show ?thesis
  proof (cases rq)
    case (CreateContainer a b)
    then show ?thesis using assms(1,2) ev create_ok by (auto split: prod.splits)
  next
    case (StartContainer a)
    then show ?thesis using assms(1,2) ev start_ok by (auto split: prod.splits)
  next
    case (StopContainer a b)
    then show ?thesis using assms(1,2) ev stop_ok by (auto split: prod.splits)
  next
    case Shutdown
    then show ?thesis using assms(1,2) ev shutdown_ok by auto
  next
    case (DeleteContainer a)
    obtain r where d: "shim_delete_container (sh_proc env) a st = (r, st')" "resp = message_of (\<lambda>_. ShimOk) r"
      using assms(2) DeleteContainer by (auto split: prod.splits)
    note D = delete_ok [OF assms(1) d(1)]
    show ?thesis
    proof (cases r)
      case (Inl e)
      then have "st' = reap_children (sh_proc env) st"
        using d(1) by (auto simp: shim_delete_container_def Let_def split: if_splits)
      then show ?thesis using ev reap_children_ok [OF assms(1)] by blast
    next
      case (Inr u)
      then have "resp = ShimOk" using d(2) by (simp add: message_of_def)
      moreover have "(i = a \<and> map_of (ss_containers st') i = None) \<or>
          (\<exists>q. map_of (ss_containers st') i = Some q \<and> evolves p q)" using D assms(3) by blast
      ultimately show ?thesis using D DeleteContainer by auto
    qed
  qed (use assms same in \<open>auto split: option.splits prod.splits\<close>)
qed

definition demo_shim :: shim_env where
  "demo_shim = \<lparr>sh_start = demo_start, sh_proc = \<lparr>pe_poll = (\<lambda>_ now. if now \<ge> 3 then Some (Exited 7) else None), pe_signal = (\<lambda>_ _ _. Inr ())\<rparr>,
    sh_resize = (\<lambda>_. Inr ()), sh_exec = Inr (), sh_session = ''s'', sh_serve = Inr ''/run/s''\<rparr>"

definition demo_proc :: ContainerProcess where
  "demo_proc = \<lparr>cp_pid = 42, cp_status = StRunning, cp_exit_code = None, cp_spec_json = ''{}'',
     cp_runtime = Some \<lparr>rp_id = ''c'', rp_pid = 42, rp_cleaned = False\<rparr>\<rparr>"

definition demo_zone_shim :: ShimState where
  "demo_zone_shim = \<lparr>ss_zone_name = ''z'', ss_containers = [(''c'', demo_proc)], ss_shutdown = False, ss_now = 0\<rparr>"

theorem containers_go_forward_witness:
  "case handle_request demo_shim (StopContainer ''c'' 15) demo_zone_shim of
     (resp, st') \<Rightarrow> resp = ShimOk \<and> shim_inv st' \<and>
       (case map_of (ss_containers st') ''c'' of
          Some q \<Rightarrow> evolves demo_proc q \<and> cp_status q = StStopped \<and> cp_exit_code q = Some 7 | None \<Rightarrow> False)"
proof -
  obtain resp st' where h: "handle_request demo_shim (StopContainer ''c'' 15) demo_zone_shim = (resp, st')" by fastforce
  have "shim_inv demo_zone_shim" "map_of (ss_containers demo_zone_shim) ''c'' = Some demo_proc"
    by (auto simp: shim_inv_def table_ok_def demo_zone_shim_def demo_proc_def proc_ok_def split: if_splits)
  note F = containers_go_forward [OF this(1) h this(2)]
  have "fst (handle_request demo_shim (StopContainer ''c'' 15) demo_zone_shim) = ShimOk"
    "map_option cp_status (map_of (ss_containers (snd (handle_request demo_shim (StopContainer ''c'' 15) demo_zone_shim))) ''c'') = Some StStopped"
    "Option.bind (map_of (ss_containers (snd (handle_request demo_shim (StopContainer ''c'' 15) demo_zone_shim))) ''c'') cp_exit_code = Some 7"
    by code_simp+
  then show ?thesis using F h by (auto split: option.splits)
qed

end
