(* ===== verification/Zone_Isolation.thy ===== *)
theory Zone_Isolation
  imports Zone_Registry
begin

text \<open>
  What the zone registry needs of an isolation backend, as a contract over the operations of \<open>IsolationBackend\<close>
  (\<open>rauha-common/src/backend.rs\<close>), and what the registry's operations then guarantee: a zone it created or
  gave a policy is enforced, and a zone it failed to delete is enforced or gone.
\<close>

locale isolation_contract =
  fixes ib :: "'b IsolationBackend" and enforced :: "ZoneHandle \<Rightarrow> ZonePolicy \<Rightarrow> 'b \<Rightarrow> bool" and gone :: "string \<Rightarrow> 'b \<Rightarrow> bool"
  assumes create_enforces: "ib_create_zone ib config b = (Inr h, b') \<Longrightarrow> enforced h (zc_policy config) b' \<and> zh_name h = zc_name config"
    and enforce_enforces: "enforced h p b \<Longrightarrow> ib_enforce_policy ib h policy b = (Inr x, b') \<Longrightarrow> enforced h policy b'"
    and reload_enforces: "enforced h p b \<Longrightarrow> ib_hot_reload_policy ib h policy b = (Inr x, b') \<Longrightarrow> enforced h policy b'"
    and stop_keeps: "enforced h p b \<Longrightarrow> enforced h p (snd (ib_stop_container ib c b))"
    and destroy_decides: "enforced h p b \<Longrightarrow> ib_destroy_zone ib h b = (r, b') \<Longrightarrow> if is_ok r then gone (zh_name h) b' else enforced h p b'"
begin

lemma created_is_enforced:
  assumes "registry_create_zone ib get_fault put_fault name t policy r = (Inr zone, r')"
  shows "\<exists>h. map_of (zr_handles r') name = Some h \<and> zh_name h = name \<and> zh_id h = zone_id zone \<and> enforced h policy (zr_backend r')"
proof -
  obtain h b b1 where c: "ib_create_zone ib \<lparr>zc_name = name, zc_zone_type = t, zc_policy = policy\<rparr> (zr_backend r) = (Inr h, b)"
      and e: "ib_enforce_policy ib h policy b = (Inr (), b1)" and r': "zr_backend r' = b1" "zr_handles r' = table_insert name h (zr_handles r)"
      and z: "zone_id zone = zh_id h"
    using assms by (auto simp: registry_create_zone_def Let_def split: sum.splits option.splits prod.splits)
  from create_enforces [OF c] have "enforced h policy b" "zh_name h = name" by simp_all
  with enforce_enforces [OF _ e] show ?thesis using r' z by (auto simp: table_simps)
qed

lemma applied_is_enforced:
  assumes "apply_policy_to ib put_fault name policy zone r = (Inr x, r')" "map_of (zr_handles r) name = Some h" "enforced h p (zr_backend r)"
  shows "enforced h policy (zr_backend r')"
  using assms(1,2) reload_enforces [OF assms(3)]
  by (auto simp: apply_policy_to_def Let_def split: prod.splits sum.splits RauhaError.splits)

lemma stop_running_keeps: "enforced h p b \<Longrightarrow> enforced h p (stop_running ib hs cs b)"
  by (induction cs arbitrary: b) (auto simp: stop_keeps split: option.splits)

lemma drop_containers_backend: "drop_containers lf df cs r = (x, r') \<Longrightarrow> zr_backend r' = zr_backend r"
  by (induction cs arbitrary: r) (fastforce split: option.splits prod.splits sum.splits)+

lemma deleting_never_unprotects:
  assumes "registry_delete_zone ib f name force r = (x, r')" "map_of (zr_handles r) name = Some h" "enforced h p (zr_backend r)"
  shows "enforced h p (zr_backend r') \<or> gone (zh_name h) (zr_backend r')"
proof -
  let ?b = "\<lambda>cs. if force then stop_running ib (zr_container_handles r) cs (zr_backend r) else zr_backend r"
  have kept: "enforced h p (?b cs)" for cs using assms(3) stop_running_keeps by simp
  have "zr_backend r' = zr_backend r \<or> (\<exists>cs y b. ib_destroy_zone ib h (?b cs) = (y, b) \<and> zr_backend r' = b)"
    using assms(1,2)
    by (auto simp: registry_delete_zone_def Let_def dest!: drop_containers_backend split: sum.splits option.splits prod.splits if_splits)
  then show ?thesis using assms(3) destroy_decides [OF kept] by (metis (full_types))
qed

end

end
