(* ===== verification/Rauha_Steps.thy ===== *)
theory Rauha_Steps
  imports Rauha_Prelude
begin

text \<open>
  Fallible code over a state: a step takes the state and returns a result and the state it leaves,
  also when it fails. The combinators are the shapes the daemon's code has (the question mark
  operator, a clean-up before an early return, a discarded result), and \<open>step_triple\<close> gives each of
  them one rule, with a postcondition for success and one for failure.
\<close>

named_theorems step_rules

type_synonym ('s, 'a) step = "'s \<Rightarrow> 'a rresult \<times> 's"

definition ret :: "'a \<Rightarrow> ('s, 'a) step" where
  "ret x s = (Inr x, s)"

definition fail :: "RauhaError \<Rightarrow> ('s, 'a) step" where
  "fail e s = (Inl e, s)"

definition bind_step :: "('s, 'a) step \<Rightarrow> ('a \<Rightarrow> ('s, 'b) step) \<Rightarrow> ('s, 'b) step" where
  "bind_step m k s = (case m s of (Inl e, t) \<Rightarrow> (Inl e, t) | (Inr x, t) \<Rightarrow> k x t)"

definition of_result :: "'a rresult \<Rightarrow> ('s, 'a) step" where
  "of_result r s = (r, s)"

text \<open>A result of the state, without changing it.\<close>

definition asks :: "('s \<Rightarrow> 'a rresult) \<Rightarrow> ('s, 'a) step" where
  "asks f s = (f s, s)"

definition modify_st :: "('s \<Rightarrow> 's) \<Rightarrow> ('s, unit) step" where
  "modify_st f s = (Inr (), f s)"

text \<open>\<open>let _ = m\<close>.\<close>

definition ignoring :: "('s, 'a) step \<Rightarrow> ('s, unit) step" where
  "ignoring m s = (Inr (), snd (m s))"

text \<open>\<open>if let Err(e) = m { cleanup; return Err(e) }\<close>.\<close>

definition on_error :: "('s, 'a) step \<Rightarrow> ('s \<Rightarrow> 's) \<Rightarrow> ('s, 'a) step" where
  "on_error m cleanup s = (case m s of (Inl e, t) \<Rightarrow> (Inl e, cleanup t) | (Inr x, t) \<Rightarrow> (Inr x, t))"

text \<open>\<open>match m { Ok(x) => .., Err(e) => handler(e) }\<close>.\<close>

definition or_else_step :: "('s, 'a) step \<Rightarrow> (RauhaError \<Rightarrow> ('s, 'a) step) \<Rightarrow> ('s, 'a) step" where
  "or_else_step m h s = (case m s of (Inl e, t) \<Rightarrow> h e t | (Inr x, t) \<Rightarrow> (Inr x, t))"

text \<open>A step of a part of the state.\<close>

definition on_part :: "('s \<Rightarrow> 'p) \<Rightarrow> ('p \<Rightarrow> 's \<Rightarrow> 's) \<Rightarrow> ('p, 'a) step \<Rightarrow> ('s, 'a) step" where
  "on_part get put m s = (case m (get s) of (r, p) \<Rightarrow> (r, put p s))"

fun each_step :: "('a \<Rightarrow> ('s, unit) step) \<Rightarrow> 'a list \<Rightarrow> ('s, unit) step" where
  "each_step f [] s = (Inr (), s)"
| "each_step f (x # xs) s = (case f x s of (Inl e, t) \<Rightarrow> (Inl e, t) | (Inr _, t) \<Rightarrow> each_step f xs t)"

subsection \<open>Reasoning about steps\<close>

definition step_triple ::
  "('s \<Rightarrow> bool) \<Rightarrow> ('s, 'a) step \<Rightarrow> ('a \<Rightarrow> 's \<Rightarrow> bool) \<Rightarrow> (RauhaError \<Rightarrow> 's \<Rightarrow> bool) \<Rightarrow> bool" where
  "step_triple P m Q E =
    (\<forall>s. P s \<longrightarrow> (case m s of (Inl e, t) \<Rightarrow> E e t | (Inr x, t) \<Rightarrow> Q x t))"

lemma step_tripleI:
  assumes "\<And>s x t. P s \<Longrightarrow> m s = (Inr x, t) \<Longrightarrow> Q x t" "\<And>s e t. P s \<Longrightarrow> m s = (Inl e, t) \<Longrightarrow> E e t"
  shows "step_triple P m Q E"
  unfolding step_triple_def by (auto split: prod.splits sum.splits intro: assms)

lemma step_triple_ok: "step_triple P m Q E \<Longrightarrow> P s \<Longrightarrow> m s = (Inr x, t) \<Longrightarrow> Q x t"
  by (fastforce simp: step_triple_def)

lemma step_triple_err: "step_triple P m Q E \<Longrightarrow> P s \<Longrightarrow> m s = (Inl e, t) \<Longrightarrow> E e t"
  by (fastforce simp: step_triple_def)

lemma step_triple_cons:
  assumes "step_triple P' m Q' E'" "\<And>s. P s \<Longrightarrow> P' s" "\<And>x s. Q' x s \<Longrightarrow> Q x s" "\<And>e s. E' e s \<Longrightarrow> E e s"
  shows "step_triple P m Q E"
  using assms by (intro step_tripleI) (meson step_triple_ok step_triple_err)+

lemma ret_triple [step_rules]: "(\<And>s. P s \<Longrightarrow> Q x s) \<Longrightarrow> step_triple P (ret x) Q E"
  by (simp add: step_triple_def ret_def)

lemma fail_triple [step_rules]: "(\<And>s. P s \<Longrightarrow> E e s) \<Longrightarrow> step_triple P (fail e) Q E"
  by (simp add: step_triple_def fail_def)

lemma bind_step_Inr:
  "bind_step m k s = (Inr y, u) \<longleftrightarrow> (\<exists>x t. m s = (Inr x, t) \<and> k x t = (Inr y, u))"
  by (auto simp: bind_step_def split: prod.splits sum.splits)

lemma bind_step_Inl:
  "bind_step m k s = (Inl e, u) \<longleftrightarrow> m s = (Inl e, u) \<or> (\<exists>x t. m s = (Inr x, t) \<and> k x t = (Inl e, u))"
  by (auto simp: bind_step_def split: prod.splits sum.splits)

lemma on_error_Inr: "on_error m c s = (Inr x, t) \<longleftrightarrow> m s = (Inr x, t)"
  by (auto simp: on_error_def split: prod.splits sum.splits)

lemma on_error_Inl: "on_error m c s = (Inl e, u) \<longleftrightarrow> (\<exists>t. m s = (Inl e, t) \<and> u = c t)"
  by (auto simp: on_error_def split: prod.splits sum.splits)

lemma or_else_step_iff:
  "or_else_step m h s = (r, u) \<longleftrightarrow>
    (\<exists>x. m s = (Inr x, u) \<and> r = Inr x) \<or> (\<exists>e t. m s = (Inl e, t) \<and> h e t = (r, u))"
  by (auto simp: or_else_step_def split: prod.splits sum.splits)

lemma ignoring_iff: "ignoring m s = (r, u) \<longleftrightarrow> r = Inr () \<and> ((\<exists>x. m s = (Inr x, u)) \<or> (\<exists>e. m s = (Inl e, u)))"
  by (cases "m s"; cases "fst (m s)") (auto simp: ignoring_def)

lemma bind_triple [step_rules]:
  assumes "step_triple P m R E" "\<And>x. step_triple (R x) (k x) Q E"
  shows "step_triple P (bind_step m k) Q E"
  by (rule step_tripleI) (auto simp: bind_step_Inr bind_step_Inl
      intro: step_triple_ok [OF assms(2)] step_triple_ok [OF assms(1)] step_triple_err [OF assms(1)]
        step_triple_err [OF assms(2)])

lemma on_error_triple [step_rules]:
  assumes "step_triple P m Q R" "\<And>e s. R e s \<Longrightarrow> E e (cleanup s)"
  shows "step_triple P (on_error m cleanup) Q E"
  by (rule step_tripleI) (auto simp: on_error_Inr on_error_Inl
      intro: step_triple_ok [OF assms(1)] assms(2) step_triple_err [OF assms(1)])

lemma or_else_triple [step_rules]:
  assumes "step_triple P m Q R" "\<And>e. step_triple (R e) (h e) Q E"
  shows "step_triple P (or_else_step m h) Q E"
  by (rule step_tripleI) (auto simp: or_else_step_iff
      intro: step_triple_ok [OF assms(1)] step_triple_ok [OF assms(2)] step_triple_err [OF assms(1)]
        step_triple_err [OF assms(2)])

lemma ignoring_triple [step_rules]:
  assumes "step_triple P m (\<lambda>_. Q ()) (\<lambda>_. Q ())"
  shows "step_triple P (ignoring m) Q E"
  by (rule step_tripleI) (auto simp: ignoring_iff intro: step_triple_ok [OF assms] step_triple_err [OF assms])

lemma asks_triple [step_rules]:
  assumes "\<And>s x. P s \<Longrightarrow> f s = Inr x \<Longrightarrow> Q x s" "\<And>s e. P s \<Longrightarrow> f s = Inl e \<Longrightarrow> E e s"
  shows "step_triple P (asks f) Q E"
  using assms by (auto simp: step_triple_def asks_def split: sum.splits)

lemma modify_triple [step_rules]: "(\<And>s. P s \<Longrightarrow> Q () (f s)) \<Longrightarrow> step_triple P (modify_st f) Q E"
  by (simp add: step_triple_def modify_st_def)

lemma each_step_triple [step_rules]:
  assumes "\<And>x. x \<in> set xs \<Longrightarrow> step_triple I (f x) (\<lambda>_. I) E" "\<And>s. P s \<Longrightarrow> I s" "\<And>s. I s \<Longrightarrow> Q () s"
  shows "step_triple P (each_step f xs) Q E"
proof -
  have "step_triple I (each_step f xs) (\<lambda>_. I) E"
    using assms(1)
  proof (induction xs)
    case (Cons x xs)
    have f: "step_triple I (f x) (\<lambda>_. I) E" and fs: "step_triple I (each_step f xs) (\<lambda>_. I) E"
      using Cons by simp_all
    have "each_step f (x # xs) = bind_step (f x) (\<lambda>_. each_step f xs)" by (simp add: fun_eq_iff bind_step_def)
    then show ?case using bind_triple [OF f fs] by simp
  qed (simp add: step_triple_def)
  then show ?thesis by (rule step_triple_cons) (auto intro: assms(2,3))
qed

end
