(* ===== verification/Linux_Cgroup.thy ===== *)
theory Linux_Cgroup
  imports Rauha_Steps Zone_Policy
begin

text \<open>
  The cgroups of zones (\<open>rauhad/src/backend/linux/cgroup.rs\<close>). The cgroup file system is the state: its
  directories by path, each with its inode, its process list and its control files. What the kernel
  decides is in the state too: which calls fail (\<open>cg_fault\<close>), the inode of the next directory, whether
  \<open>cgroup.kill\<close> exists, and after how many polls the processes that were killed are gone. A directory
  with processes cannot be removed. The CPU time, a float of seconds in the code, is the number of
  microseconds it is computed from.
\<close>

record Cgroup =
  cg_ino :: u64
  cg_procs :: string
  cg_files :: "string \<rightharpoonup> string"

datatype cg_op = CgMkdir string | CgRmdir string | CgStat string | CgRead string string | CgWrite string string string

record cgroup_fs =
  cg_controllers :: bool
  cg_dirs :: "string \<rightharpoonup> Cgroup"
  cg_next_ino :: u64
  cg_native_kill :: bool
  cg_dies :: "string \<Rightarrow> nat option"
  cg_fault :: "cg_op \<Rightarrow> string option"

definition os_missing :: string where "os_missing = ''No such file or directory (os error 2)''"

definition cg_exists :: "string \<Rightarrow> cgroup_fs \<Rightarrow> bool" where
  "cg_exists p fs = (cg_dirs fs p \<noteq> None)"

definition cg_mkdir :: "string \<Rightarrow> cgroup_fs \<Rightarrow> (string + unit) \<times> cgroup_fs" where
  "cg_mkdir p fs =
    (case cg_fault fs (CgMkdir p) of
       Some e \<Rightarrow> (Inl e, fs)
     | None \<Rightarrow>
         (Inr (), fs\<lparr>cg_dirs := (cg_dirs fs)(p \<mapsto> \<lparr>cg_ino = cg_next_ino fs, cg_procs = [], cg_files = Map.empty\<rparr>),
            cg_next_ino := cg_next_ino fs + 1\<rparr>))"

definition cg_rmdir :: "string \<Rightarrow> cgroup_fs \<Rightarrow> (string + unit) \<times> cgroup_fs" where
  "cg_rmdir p fs =
    (case cg_fault fs (CgRmdir p) of
       Some e \<Rightarrow> (Inl e, fs)
     | None \<Rightarrow>
         (case cg_dirs fs p of
            None \<Rightarrow> (Inl os_missing, fs)
          | Some c \<Rightarrow>
              if trim (cg_procs c) \<noteq> [] then (Inl ''Device or resource busy (os error 16)'', fs)
              else (Inr (), fs\<lparr>cg_dirs := (cg_dirs fs)(p := None)\<rparr>)))"

definition cg_write :: "string \<Rightarrow> string \<Rightarrow> string \<Rightarrow> cgroup_fs \<Rightarrow> (string + unit) \<times> cgroup_fs" where
  "cg_write p fname v fs =
    (case cg_fault fs (CgWrite p fname v) of
       Some e \<Rightarrow> (Inl e, fs)
     | None \<Rightarrow>
         (case cg_dirs fs p of
            None \<Rightarrow> (Inl os_missing, fs)
          | Some c \<Rightarrow> (Inr (), fs\<lparr>cg_dirs := (cg_dirs fs)(p \<mapsto> c\<lparr>cg_files := (cg_files c)(fname \<mapsto> v)\<rparr>)\<rparr>)))"

definition cg_read :: "string \<Rightarrow> string \<Rightarrow> cgroup_fs \<Rightarrow> string + string" where
  "cg_read p fname fs =
    (case cg_fault fs (CgRead p fname) of
       Some e \<Rightarrow> Inl e
     | None \<Rightarrow>
         (case cg_dirs fs p of
            None \<Rightarrow> Inl os_missing
          | Some c \<Rightarrow> if fname = ''cgroup.procs'' then Inr (cg_procs c) else ok_or os_missing (cg_files c fname)))"

subsection \<open>The cgroup manager\<close>

definition CGROUP_ROOT :: string where "CGROUP_ROOT = ''/sys/fs/cgroup''"
definition RAUHA_SLICE :: string where "RAUHA_SLICE = ''rauha.slice''"

definition slice_path :: string where "slice_path = path_join CGROUP_ROOT RAUHA_SLICE"

definition CgroupManager_new :: "(cgroup_fs, unit) step" where
  "CgroupManager_new fs =
    (if \<not> cg_controllers fs then
       (Inl (CgroupError ''cgroup v2 not available''
          ''mount cgroup2 at /sys/fs/cgroup or boot with systemd.unified_cgroup_hierarchy=1''), fs)
     else
       (case (if cg_exists slice_path fs then (Inr (), fs) else cg_mkdir slice_path fs) of
          (Inl e, fs1) \<Rightarrow> (Inl (CgroupError (''failed to create '' @ slice_path @ '': '' @ e) ''run rauhad as root''), fs1)
        | (Inr _, fs1) \<Rightarrow> (Inr (), snd (cg_write slice_path ''cgroup.subtree_control'' ''+cpu +memory +pids +io'' fs1))))"

definition cg_zone_path :: "string \<Rightarrow> string" where
  "cg_zone_path name = path_join slice_path (''zone-'' @ name)"

definition cgroup_id :: "string \<Rightarrow> cgroup_fs \<Rightarrow> u64 rresult" where
  "cgroup_id p fs =
    map_err (\<lambda>e. CgroupError (''failed to stat '' @ p @ '': '' @ e) ''check cgroup filesystem is mounted'')
      (case cg_fault fs (CgStat p) of
         Some e \<Rightarrow> Inl e
       | None \<Rightarrow> (case cg_dirs fs p of None \<Rightarrow> Inl os_missing | Some c \<Rightarrow> Inr (cg_ino c)))"

definition create_zone_cgroup :: "string \<Rightarrow> (cgroup_fs, u64) step" where
  "create_zone_cgroup name fs =
    (let p = cg_zone_path name in
     if cg_exists p fs then (Inl (CgroupError (''cgroup already exists: '' @ p) (''run: rmdir '' @ p)), fs)
     else
       (case cg_mkdir p fs of
          (Inl e, fs1) \<Rightarrow> (Inl (CgroupError (''failed to create cgroup '' @ p @ '': '' @ e) ''run rauhad as root''), fs1)
        | (Inr _, fs1) \<Rightarrow> (cgroup_id p fs1, fs1)))"

definition destroy_zone_cgroup :: "string \<Rightarrow> (cgroup_fs, unit) step" where
  "destroy_zone_cgroup name fs =
    (let p = cg_zone_path name in
     if \<not> cg_exists p fs then (Inr (), fs)
     else
       (case cg_rmdir p fs of
          (Inl e, fs1) \<Rightarrow> (Inl (CgroupError (''failed to remove cgroup '' @ p @ '': '' @ e)
              ''ensure no processes remain in the zone (check cgroup.procs)''), fs1)
        | (Inr _, fs1) \<Rightarrow> (Inr (), fs1)))"

text \<open>The product wraps in a release build.\<close>

definition shares_to_weight :: "u64 \<Rightarrow> u64" where
  "shares_to_weight shares =
    (if shares = 0 then 100
     else let weight = shares * 100 div 1024
          in if weight < 1 then 1 else if weight > 10000 then 10000 else weight)"

definition write_cgroup_file :: "string \<Rightarrow> string \<Rightarrow> string \<Rightarrow> (cgroup_fs, unit) step" where
  "write_cgroup_file p fname v fs =
    (case cg_write p fname v fs of
       (Inl e, fs1) \<Rightarrow> (Inl (CgroupError (''failed to write '' @ v @ '' to '' @ path_join p fname @ '': '' @ e)
           (''check that '' @ hd (split_on CHR ''.'' fname) @ '' controller is enabled in the parent cgroup'')), fs1)
     | (Inr _, fs1) \<Rightarrow> (Inr (), fs1))"

definition limit_str :: "u64 \<Rightarrow> string" where
  "limit_str n = (if n = 0 \<or> n = - 1 then ''max'' else dec (unat n))"

definition clamp_io_weight :: "u16 \<Rightarrow> u16" where
  "clamp_io_weight w = (if w < 1 then 1 else if w > 10000 then 10000 else w)"

definition apply_resources :: "string \<Rightarrow> ResourcePolicy \<Rightarrow> (cgroup_fs, unit) step" where
  "apply_resources name r fs =
    (let p = cg_zone_path name in
     if \<not> cg_exists p fs then (Inl (CgroupError (''cgroup does not exist: '' @ p) ''create the zone first''), fs)
     else
       bind_step (write_cgroup_file p ''cpu.weight'' (dec (unat (shares_to_weight (cpu_shares r))))) (\<lambda>_.
       bind_step (write_cgroup_file p ''memory.max'' (limit_str (memory_limit r))) (\<lambda>_.
       bind_step (write_cgroup_file p ''pids.max'' (limit_str (pids_max r))) (\<lambda>_.
       write_cgroup_file p ''io.weight'' (''default '' @ dec (unat (clamp_io_weight (io_weight r))))))) fs)"

subsection \<open>Reading a zone's cgroup\<close>

definition read_cgroup_u64 :: "string \<Rightarrow> string \<Rightarrow> cgroup_fs \<Rightarrow> u64 option" where
  "read_cgroup_u64 p fname fs =
    (case cg_read p fname fs of
       Inl e \<Rightarrow> None
     | Inr content \<Rightarrow>
         if trim content = ''max'' then Some (- 1)
         else map_option of_nat (parse_uint (2 ^ 64 - 1) (trim content)))"

fun usage_line :: "string list \<Rightarrow> u64 option" where
  "usage_line [] = Some 0"
| "usage_line (l # ls) =
     (case strip_prefix l ''usage_usec '' of
        Some v \<Rightarrow> map_option of_nat (parse_uint (2 ^ 64 - 1) (trim v))
      | None \<Rightarrow> usage_line ls)"

definition read_cpu_usage :: "string \<Rightarrow> cgroup_fs \<Rightarrow> u64 option" where
  "read_cpu_usage p fs = (case cg_read p ''cpu.stat'' fs of Inl e \<Rightarrow> None | Inr c \<Rightarrow> usage_line (lines c))"

record cgroup_stats =
  cs_zone_id :: string
  cs_container_count :: u32
  cs_cpu_usage_usec :: u64
  cs_memory_usage_bytes :: u64
  cs_memory_limit_bytes :: u64
  cs_network_rx_bytes :: u64
  cs_network_tx_bytes :: u64
  cs_pids_current :: u64

definition read_stats :: "string \<Rightarrow> string \<Rightarrow> cgroup_fs \<Rightarrow> cgroup_stats rresult" where
  "read_stats name zid fs =
    (let p = cg_zone_path name; num = (\<lambda>fname. unwrap_or (read_cgroup_u64 p fname fs) 0) in
     if \<not> cg_exists p fs then Inl (CgroupError (''cgroup does not exist: '' @ p) ''create the zone first'')
     else Inr \<lparr>cs_zone_id = zid, cs_container_count = 0, cs_cpu_usage_usec = unwrap_or (read_cpu_usage p fs) 0,
       cs_memory_usage_bytes = num ''memory.current'', cs_memory_limit_bytes = num ''memory.max'',
       cs_network_rx_bytes = 0, cs_network_tx_bytes = 0, cs_pids_current = num ''pids.current''\<rparr>)"

definition cgroup_id_for_zone :: "string \<Rightarrow> cgroup_fs \<Rightarrow> u64 rresult" where
  "cgroup_id_for_zone name fs = cgroup_id (cg_zone_path name) fs"

definition zone_cgroup_exists :: "string \<Rightarrow> cgroup_fs \<Rightarrow> bool" where
  "zone_cgroup_exists name fs = cg_exists (cg_zone_path name) fs"

definition zone_has_processes :: "string \<Rightarrow> cgroup_fs \<Rightarrow> bool rresult" where
  "zone_has_processes name fs =
    (let p = cg_zone_path name in
     case cg_read p ''cgroup.procs'' fs of
       Inl e \<Rightarrow> Inl (CgroupError (''failed to read '' @ path_join p ''cgroup.procs'' @ '': '' @ e)
         ''retain kernel membership until cgroup state is readable'')
     | Inr processes \<Rightarrow> Inr (trim processes \<noteq> []))"

subsection \<open>Draining a zone\<close>

text \<open>The effect of the kill after \<open>k\<close> waits.\<close>

definition settle :: "nat \<Rightarrow> string \<Rightarrow> cgroup_fs \<Rightarrow> cgroup_fs" where
  "settle k p fs =
    (case (cg_dies fs p, cg_dirs fs p) of
       (Some r, Some c) \<Rightarrow> if r \<le> k then fs\<lparr>cg_dirs := (cg_dirs fs)(p \<mapsto> c\<lparr>cg_procs := []\<rparr>)\<rparr> else fs
     | _ \<Rightarrow> fs)"

fun drain_poll :: "nat \<Rightarrow> nat \<Rightarrow> bool \<Rightarrow> string \<Rightarrow> (cgroup_fs, unit) step" where
  "drain_poll 0 k native name fs =
     (Inl (CgroupError (''zone '' @ name @ '' cgroup still contains live processes'')
        ''enforcement was retained; inspect cgroup.procs and retry teardown''), fs)"
| "drain_poll (Suc n) k native name fs =
     (let p = cg_zone_path name in
      case zone_has_processes name fs of
        Inl e \<Rightarrow> (Inl e, fs)
      | Inr False \<Rightarrow> (Inr (), fs)
      | Inr True \<Rightarrow>
          if native then drain_poll n (Suc k) native name (settle (Suc k) p fs)
          else
            (case cg_read p ''cgroup.procs'' fs of
               Inl e \<Rightarrow> (Inl (CgroupError (''failed to read '' @ path_join p ''cgroup.procs'' @ '': '' @ e)
                  ''retain zone enforcement and retry teardown''), fs)
             | Inr procs \<Rightarrow> drain_poll n (Suc k) native name (settle (Suc k) p fs)))"

definition drain_zone :: "string \<Rightarrow> (cgroup_fs, unit) step" where
  "drain_zone name fs =
    (let p = cg_zone_path name in
     if \<not> cg_exists p fs then (Inr (), fs)
     else
       (case zone_has_processes name fs of
          Inl e \<Rightarrow> (Inl e, fs)
        | Inr False \<Rightarrow> (Inr (), fs)
        | Inr True \<Rightarrow>
            if cg_native_kill fs then
              (case cg_fault fs (CgWrite p ''cgroup.kill'' ''1'') of
                 Some e \<Rightarrow> (Inl (CgroupError (''failed to kill processes through '' @ path_join p ''cgroup.kill'' @ '': '' @ e)
                    ''retain zone enforcement and retry teardown''), fs)
               | None \<Rightarrow> drain_poll 100 0 True name (settle 0 p fs))
            else drain_poll 100 0 False name fs))"

subsection \<open>Weights and limits\<close>

lemma shares_to_weight_range: "1 \<le> shares_to_weight s \<and> shares_to_weight s \<le> 10000"
proof -
  have "1 \<le> x" if "x \<noteq> 0" for x :: u64 using that by (simp add: word_le_nat_alt unat_gt_0 Suc_le_eq)
  then show ?thesis by (auto simp: shares_to_weight_def Let_def not_less)
qed

lemma shares_to_weight_unat:
  assumes "unat s * 100 < 2 ^ 64"
  shows "unat (shares_to_weight s) = (if s = 0 then 100 else max 1 (min 10000 (unat s * 100 div 1024)))"
proof -
  have "unat (s * 100) = unat s * 100" using assms by (simp add: unat_word_ariths)
  then have "unat (s * 100 div 1024) = unat s * 100 div 1024" by (simp add: unat_div)
  then show ?thesis by (auto simp: shares_to_weight_def Let_def word_less_nat_alt)
qed

lemma shares_to_weight_mono:
  assumes "0 < s" "s \<le> t" "unat t * 100 < 2 ^ 64"
  shows "shares_to_weight s \<le> shares_to_weight t"
proof -
  have st: "unat s \<le> unat t" using assms(2) by (simp add: word_le_nat_alt)
  then have "unat s * 100 < 2 ^ 64" using assms(3) by linarith
  moreover have "unat s * 100 div 1024 \<le> unat t * 100 div 1024" using st by (intro div_le_mono) simp
  ultimately show ?thesis
    using assms(1,2) shares_to_weight_unat [of s] shares_to_weight_unat [OF assms(3)]
    by (auto simp: word_le_nat_alt min_def max_def)
qed

text \<open>Past that bound the product wraps: a share of \<open>2 ^ 62\<close> gets the smallest weight.\<close>

lemma shares_to_weight_wraps: "shares_to_weight 1024 = 100 \<and> shares_to_weight (2 ^ 62) = 1"
  by (simp add: shares_to_weight_def Let_def)

lemma write_cgroup_file_ok:
  "write_cgroup_file p n v fs = (Inr x, fs') \<Longrightarrow>
   \<exists>c. cg_dirs fs p = Some c \<and> fs' = fs\<lparr>cg_dirs := (cg_dirs fs)(p \<mapsto> c\<lparr>cg_files := (cg_files c)(n \<mapsto> v)\<rparr>)\<rparr>"
  by (auto simp: write_cgroup_file_def cg_write_def split: prod.splits option.splits sum.splits)

lemma apply_resources_ok:
  assumes "apply_resources name r fs = (Inr x, fs')"
  shows "\<exists>c. cg_dirs fs (cg_zone_path name) = Some c \<and>
    fs' = fs\<lparr>cg_dirs := (cg_dirs fs)(cg_zone_path name \<mapsto> c\<lparr>cg_files := (cg_files c)
      (''cpu.weight'' \<mapsto> dec (unat (shares_to_weight (cpu_shares r))),
       ''memory.max'' \<mapsto> limit_str (memory_limit r), ''pids.max'' \<mapsto> limit_str (pids_max r),
       ''io.weight'' \<mapsto> ''default '' @ dec (unat (clamp_io_weight (io_weight r))))\<rparr>)\<rparr>"
  using assms by (fastforce simp: apply_resources_def Let_def bind_step_Inr split: if_splits dest!: write_cgroup_file_ok)

subsection \<open>What the operations leave unchanged\<close>

text \<open>The directories stay, with their inodes; processes can only disappear.\<close>

definition cgroups_kept :: "cgroup_fs \<Rightarrow> cgroup_fs \<Rightarrow> bool" where
  "cgroups_kept fs fs' =
    (cg_fault fs' = cg_fault fs \<and> cg_native_kill fs' = cg_native_kill fs \<and> cg_dies fs' = cg_dies fs \<and>
     cg_next_ino fs' = cg_next_ino fs \<and> cg_controllers fs' = cg_controllers fs \<and>
     (\<forall>p. rel_option (\<lambda>c c'. cg_ino c' = cg_ino c \<and> (cg_procs c' = cg_procs c \<or> cg_procs c' = []))
        (cg_dirs fs p) (cg_dirs fs' p)))"

lemma cgroups_kept_refl [simp]: "cgroups_kept fs fs"
  by (simp add: cgroups_kept_def option.rel_refl)

lemma cgroups_kept_trans: "cgroups_kept a b \<Longrightarrow> cgroups_kept b c \<Longrightarrow> cgroups_kept a c"
proof -
  assume a: "cgroups_kept a b" and b: "cgroups_kept b c"
  let ?R = "\<lambda>c c'. cg_ino c' = cg_ino c \<and> (cg_procs c' = cg_procs c \<or> cg_procs c' = [])"
  have "rel_option ?R (cg_dirs a p) (cg_dirs c p)" for p
  proof -
    have "rel_option ?R (cg_dirs a p) (cg_dirs b p)" "rel_option ?R (cg_dirs b p) (cg_dirs c p)"
      using a b by (simp_all only: cgroups_kept_def)
    then show ?thesis by (cases "cg_dirs a p"; cases "cg_dirs b p"; cases "cg_dirs c p") auto
  qed
  then show ?thesis using a b by (simp add: cgroups_kept_def)
qed

lemma cgroups_kept_update:
  "cg_dirs fs p = Some c \<Longrightarrow> cg_ino c' = cg_ino c \<Longrightarrow> cg_procs c' = cg_procs c \<or> cg_procs c' = [] \<Longrightarrow>
   cgroups_kept fs (fs\<lparr>cg_dirs := (cg_dirs fs)(p \<mapsto> c')\<rparr>)"
  by (simp add: cgroups_kept_def option.rel_refl)

lemma write_kept: "cgroups_kept fs (snd (write_cgroup_file p n v fs))"
  by (auto simp: write_cgroup_file_def cg_write_def intro!: cgroups_kept_update split: option.splits sum.splits)

lemma bind_kept:
  "(\<And>fs. cgroups_kept fs (snd (m fs))) \<Longrightarrow> (\<And>x fs. cgroups_kept fs (snd (k x fs))) \<Longrightarrow>
   cgroups_kept fs (snd (bind_step m k fs))"
  by (auto simp: bind_step_def split: prod.splits sum.splits) (metis snd_conv cgroups_kept_trans)+

lemma apply_resources_kept: "cgroups_kept fs (snd (apply_resources name r fs))"
  by (auto simp: apply_resources_def Let_def intro!: bind_kept write_kept)

lemma settle_kept: "cgroups_kept fs (settle k p fs)"
  by (auto simp: settle_def intro!: cgroups_kept_update split: option.splits)

lemma drain_poll_kept: "cgroups_kept fs (snd (drain_poll n k native name fs))"
proof (induction n arbitrary: k fs)
  case (Suc n)
  then show ?case
    using cgroups_kept_trans [OF settle_kept Suc]
    by (auto simp: Let_def split: sum.splits bool.splits)
qed simp

lemma drain_zone_kept: "cgroups_kept fs (snd (drain_zone name fs))"
  using cgroups_kept_trans [OF settle_kept drain_poll_kept] drain_poll_kept
  by (auto simp: drain_zone_def Let_def split: sum.splits bool.splits option.splits)

text \<open>The zone has no live process: its cgroup is gone or empty.\<close>

definition no_processes :: "string \<Rightarrow> cgroup_fs \<Rightarrow> bool" where
  "no_processes name fs = (\<forall>c. cg_dirs fs (cg_zone_path name) = Some c \<longrightarrow> trim (cg_procs c) = [])"

lemma has_no_processes: "zone_has_processes name fs = Inr False \<Longrightarrow> no_processes name fs"
  by (auto simp: zone_has_processes_def Let_def cg_read_def no_processes_def split: sum.splits option.splits if_splits)

lemma drain_poll_ok: "drain_poll n k native name fs = (Inr x, fs') \<Longrightarrow> no_processes name fs'"
  by (induction n arbitrary: k fs)
    (auto simp: Let_def split: sum.splits bool.splits if_splits dest: has_no_processes)

lemma drain_zone_ok: "drain_zone name fs = (Inr x, fs') \<Longrightarrow> no_processes name fs'"
  by (cases "cg_exists (cg_zone_path name) fs")
    (auto simp: drain_zone_def Let_def split: sum.splits bool.splits option.splits if_splits
      dest: has_no_processes drain_poll_ok, simp add: no_processes_def cg_exists_def)

subsection \<open>Draining returns\<close>

text \<open>The zone's process list and, where it exists, its kill file can be accessed.\<close>

definition drainable :: "string \<Rightarrow> cgroup_fs \<Rightarrow> bool" where
  "drainable name fs =
    (cg_fault fs (CgRead (cg_zone_path name) ''cgroup.procs'') = None \<and>
     cg_fault fs (CgWrite (cg_zone_path name) ''cgroup.kill'' ''1'') = None \<and>
     (\<exists>c. cg_dirs fs (cg_zone_path name) = Some c))"

lemma drainable_procs:
  "drainable name fs \<Longrightarrow> cg_dirs fs (cg_zone_path name) = Some c \<Longrightarrow>
   cg_read (cg_zone_path name) ''cgroup.procs'' fs = Inr (cg_procs c) \<and>
   zone_has_processes name fs = Inr (trim (cg_procs c) \<noteq> [])"
  by (simp add: drainable_def zone_has_processes_def cg_read_def Let_def)

lemma drainable_settle: "drainable name fs \<Longrightarrow> drainable name (settle k p fs)"
  by (auto simp: drainable_def settle_def split: option.splits)

lemma settle_cases:
  assumes "cg_dirs fs p = Some c"
  shows "if \<exists>r. cg_dies fs p = Some r \<and> r \<le> k then \<exists>c'. cg_dirs (settle k p fs) p = Some c' \<and> cg_procs c' = []
    else settle k p fs = fs"
  using assms by (auto simp: settle_def split: option.splits)

lemma drained_poll:
  assumes "drainable name fs" "cg_dirs fs (cg_zone_path name) = Some c" "cg_procs c = []"
  shows "is_ok (fst (drain_poll n k native name fs)) \<longleftrightarrow> 0 < n"
  using drainable_procs [OF assms(1,2)] assms(3) by (cases n) (simp_all add: Let_def trim_def)

lemma drain_poll_iff:
  assumes "drainable name fs" "cg_dirs fs (cg_zone_path name) = Some c" "trim (cg_procs c) \<noteq> []"
  shows "is_ok (fst (drain_poll n k native name fs)) \<longleftrightarrow>
    (\<exists>r. cg_dies fs (cg_zone_path name) = Some r \<and> max r (Suc k) < k + n)"
  using assms
proof (induction n arbitrary: k)
  case (Suc n)
  let ?p = "cg_zone_path name"
  have step: "drain_poll (Suc n) k native name fs = drain_poll n (Suc k) native name (settle (Suc k) ?p fs)"
    using drainable_procs [OF Suc.prems(1,2)] Suc.prems(3) by (simp add: Let_def)
  show ?case
  proof (cases "\<exists>r. cg_dies fs ?p = Some r \<and> r \<le> Suc k")
    case True
    then obtain c' where "cg_dirs (settle (Suc k) ?p fs) ?p = Some c'" "cg_procs c' = []"
      using settle_cases [OF Suc.prems(2), of "Suc k"] by auto
    then show ?thesis using True step drained_poll [OF drainable_settle [OF Suc.prems(1)]] by (auto simp: max_def)
  next
    case False
    then have "settle (Suc k) ?p fs = fs" using settle_cases [OF Suc.prems(2), of "Suc k"] by simp
    then show ?thesis using False step Suc.IH [OF Suc.prems] by (auto simp: max_def)
  qed
qed simp

text \<open>Draining a zone whose cgroup can be read returns success exactly when the killed processes are
  gone within a hundred polls, and success means that no process is left.\<close>

lemma drain_zone_decides:
  assumes "drainable name fs" "\<not> no_processes name fs"
  shows "(is_ok (fst (drain_zone name fs)) \<longleftrightarrow> (\<exists>r < 100. cg_dies fs (cg_zone_path name) = Some r)) \<and>
    (is_ok (fst (drain_zone name fs)) \<longrightarrow> no_processes name (snd (drain_zone name fs)))"
proof -
  let ?p = "cg_zone_path name" and ?d = "\<exists>r < 100. cg_dies fs (cg_zone_path name) = Some r"
  from assms obtain c where c: "cg_dirs fs ?p = Some c" "trim (cg_procs c) \<noteq> []" by (auto simp: no_processes_def)
  note has = drainable_procs [OF assms(1) c(1)]
  have "is_ok (fst (drain_poll 100 0 True name (settle 0 ?p fs))) \<longleftrightarrow> ?d"
  proof (cases "cg_dies fs ?p = Some 0")
    case True
    then obtain c' where "cg_dirs (settle 0 ?p fs) ?p = Some c'" "cg_procs c' = []"
      using settle_cases [OF c(1), of 0] by auto
    then show ?thesis using True drained_poll [OF drainable_settle [OF assms(1)]] by auto
  next
    case False
    then have "settle 0 ?p fs = fs" using settle_cases [OF c(1), of 0] by simp
    then show ?thesis using drain_poll_iff [OF assms(1) c] by auto
  qed
  moreover have "is_ok (fst (drain_poll 100 0 False name fs)) \<longleftrightarrow> ?d"
    using drain_poll_iff [OF assms(1) c] by auto
  moreover have "cg_fault fs (CgWrite ?p ''cgroup.kill'' ''1'') = None" using assms(1) by (simp add: drainable_def)
  ultimately have "is_ok (fst (drain_zone name fs)) \<longleftrightarrow> ?d"
    using has c by (simp add: drain_zone_def Let_def cg_exists_def)
  then show ?thesis using drain_zone_ok [of name fs] by (cases "drain_zone name fs") (auto simp: is_ok_iff)
qed

definition demo_cgroups :: "nat option \<Rightarrow> string \<Rightarrow> cgroup_fs" where
  "demo_cgroups dies procs =
    \<lparr>cg_controllers = True,
     cg_dirs = [cg_zone_path ''web'' \<mapsto> \<lparr>cg_ino = 7, cg_procs = procs, cg_files = Map.empty\<rparr>],
     cg_next_ino = 8, cg_native_kill = True, cg_dies = (\<lambda>_. dies), cg_fault = (\<lambda>_. None)\<rparr>"

end
