(* ===== verification/Linux_Net.thy ===== *)
theory Linux_Net
  imports Rauha_Steps Zone_Policy
begin

text \<open>
  The network of a zone: namespaces (\<open>namespace.rs\<close>), the bridge and the veth pair (\<open>network.rs\<close>) and the
  packet filter (\<open>nftables.rs\<close>), all under \<open>rauhad/src/backend/linux\<close>. The programs \<open>ip\<close>, \<open>nft\<close> and
  \<open>sysctl\<close>, the file system calls and SHA-256 are a parameter over a state \<open>'w\<close> of their own; the
  model is which commands are run, in which order, and what is done with their output.
\<close>

record cmd_output =
  co_success :: bool
  co_stdout :: string
  co_stderr :: string

datatype nft_failure = NftSpawn string | NftStdin | NftWrite string | NftWait string

record 'w net_tools =
  nt_ip :: "string list \<Rightarrow> 'w \<Rightarrow> (string + cmd_output) \<times> 'w"
  nt_sysctl :: "string list \<Rightarrow> 'w \<Rightarrow> (string + cmd_output) \<times> 'w"
  nt_nft :: "string list \<Rightarrow> 'w \<Rightarrow> (string + cmd_output) \<times> 'w"
  nt_nft_script :: "string \<Rightarrow> 'w \<Rightarrow> (nft_failure + cmd_output) \<times> 'w"
  nt_exists :: "string \<Rightarrow> 'w \<Rightarrow> bool"
  nt_create_dir_all :: "string \<Rightarrow> 'w \<Rightarrow> (string + unit) \<times> 'w"
  nt_sha256 :: "string \<Rightarrow> u8 list"

text \<open>A command with its error when it cannot be run; the exit status is left to the caller.\<close>

definition spawned :: "('w \<Rightarrow> (string + 'a) \<times> 'w) \<Rightarrow> (string \<Rightarrow> RauhaError) \<Rightarrow> ('w, 'a) step" where
  "spawned m err w = (case m w of (r, w1) \<Rightarrow> (map_err err r, w1))"

subsection \<open>Network namespaces\<close>

definition netns_name :: "string \<Rightarrow> string" where
  "netns_name name = ''rauha-'' @ name"

definition netns_path :: "string \<Rightarrow> string \<Rightarrow> string" where
  "netns_path name netns_dir = path_join netns_dir (netns_name name)"

definition netns_exists :: "'w net_tools \<Rightarrow> string \<Rightarrow> string \<Rightarrow> 'w \<Rightarrow> bool" where
  "netns_exists nt name netns_dir = nt_exists nt (path_join netns_dir (netns_name name))"

definition create_netns :: "'w net_tools \<Rightarrow> string \<Rightarrow> string \<Rightarrow> ('w, unit) step" where
  "create_netns nt name netns_dir =
    (let ns = netns_name name in
     bind_step (spawned (nt_create_dir_all nt netns_dir)
       (\<lambda>e. NamespaceError (''failed to create '' @ netns_dir @ '': '' @ e) ''run rauhad as root'')) (\<lambda>_.
     bind_step (spawned (nt_ip nt [''netns'', ''add'', ns])
       (\<lambda>e. NamespaceError (''failed to run `ip netns add '' @ ns @ ''`: '' @ e) ''ensure iproute2 is installed'')) (\<lambda>out.
     if \<not> co_success out \<and> \<not> str_contains (co_stderr out) ''File exists''
     then fail (NamespaceError (''ip netns add '' @ ns @ '' failed: '' @ co_stderr out) ''run rauhad as root'')
     else ret ())))"

definition destroy_netns :: "'w net_tools \<Rightarrow> string \<Rightarrow> string \<Rightarrow> ('w, unit) step" where
  "destroy_netns nt name netns_dir w =
    (let ns = netns_name name in
     if \<not> nt_exists nt (path_join netns_dir ns) w then (Inr (), w)
     else
       bind_step (spawned (nt_ip nt [''netns'', ''delete'', ns])
         (\<lambda>e. NamespaceError (''failed to run `ip netns delete '' @ ns @ ''`: '' @ e) ''ensure iproute2 is installed'')) (\<lambda>out.
       if \<not> co_success out \<and> \<not> str_contains (co_stderr out) ''No such file''
       then fail (NamespaceError (''ip netns delete '' @ ns @ '' failed: '' @ co_stderr out)
         ''check if processes are still running in the namespace'')
       else ret ()) w)"

subsection \<open>The bridge\<close>

definition run_ip :: "'w net_tools \<Rightarrow> string list \<Rightarrow> ('w, unit) step" where
  "run_ip nt args =
    bind_step (spawned (nt_ip nt args)
      (\<lambda>e. NetworkError (''failed to run `ip '' @ join '' '' args @ ''`: '' @ e)
        ''ensure iproute2 is installed and rauhad runs as root'')) (\<lambda>out.
    if \<not> co_success out
    then fail (NetworkError (''ip '' @ join '' '' args @ '' failed: '' @ co_stderr out) ''run rauhad as root'')
    else ret ())"

definition run_ip_netns :: "'w net_tools \<Rightarrow> string \<Rightarrow> string list \<Rightarrow> ('w, unit) step" where
  "run_ip_netns nt ns args =
    bind_step (spawned (nt_ip nt ([''netns'', ''exec'', ns, ''ip''] @ args))
      (\<lambda>e. NetworkError (''failed to run `ip netns exec '' @ ns @ '' ip '' @ join '' '' args @ ''`: '' @ e)
        ''ensure iproute2 is installed'')) (\<lambda>out.
    if \<not> co_success out
    then fail (NetworkError (''ip netns exec '' @ ns @ '' ip '' @ join '' '' args @ '' failed: '' @ co_stderr out)
      ''check namespace exists'')
    else ret ())"

definition bridge_has_addr :: "'w net_tools \<Rightarrow> string \<Rightarrow> string \<Rightarrow> ('w, bool) step" where
  "bridge_has_addr nt cidr bridge =
    bind_step (spawned (nt_ip nt [''addr'', ''show'', ''dev'', bridge])
      (\<lambda>e. NetworkError (''failed to check bridge addresses: '' @ e) ''ensure iproute2 is installed'')) (\<lambda>out.
    ret (str_contains (co_stdout out) cidr))"

definition enable_ip_forwarding :: "'w net_tools \<Rightarrow> ('w, unit) step" where
  "enable_ip_forwarding nt =
    bind_step (spawned (nt_sysctl nt [''-w'', ''net.ipv4.ip_forward=1''])
      (\<lambda>e. NetworkError (''failed to enable IP forwarding: '' @ e) ''ensure rauhad runs as root'')) (\<lambda>out.
    if \<not> co_success out
    then fail (NetworkError (''sysctl ip_forward failed: '' @ co_stderr out) ''run rauhad as root'')
    else ret ())"

definition ensure_bridge :: "'w net_tools \<Rightarrow> octets \<Rightarrow> nat \<Rightarrow> string \<Rightarrow> ('w, unit) step" where
  "ensure_bridge nt gateway prefix_len bridge =
    bind_step (spawned (nt_ip nt [''link'', ''show'', bridge])
      (\<lambda>e. NetworkError (''failed to check bridge: '' @ e) ''ensure iproute2 is installed'')) (\<lambda>out.
    bind_step (if \<not> co_success out
      then bind_step (run_ip nt [''link'', ''add'', ''name'', bridge, ''type'', ''bridge'']) (\<lambda>_.
           run_ip nt [''link'', ''set'', bridge, ''up''])
      else ret ()) (\<lambda>_.
    let cidr = show_ipv4 gateway @ ''/'' @ dec prefix_len in
    bind_step (bridge_has_addr nt cidr bridge) (\<lambda>has.
    bind_step (if \<not> has then run_ip nt [''addr'', ''add'', cidr, ''dev'', bridge] else ret ()) (\<lambda>_.
    enable_ip_forwarding nt))))"

definition destroy_bridge :: "'w net_tools \<Rightarrow> string \<Rightarrow> ('w, unit) step" where
  "destroy_bridge nt bridge =
    bind_step (spawned (nt_ip nt [''link'', ''show'', bridge])
      (\<lambda>e. NetworkError (''failed to check bridge: '' @ e) ''ensure iproute2 is installed'')) (\<lambda>out.
    if \<not> co_success out then ret ()
    else
      bind_step (run_ip nt [''link'', ''set'', bridge, ''down'']) (\<lambda>_.
      run_ip nt [''link'', ''delete'', bridge, ''type'', ''bridge'']))"

subsection \<open>The veth pair\<close>

text \<open>\<open>{:02x}\<close>.\<close>

definition hex_byte :: "u8 \<Rightarrow> string" where
  "hex_byte b = [hex_digit (unat b div 16), hex_digit (unat b mod 16)]"

definition veth_name :: "'w net_tools \<Rightarrow> string \<Rightarrow> string \<Rightarrow> string" where
  "veth_name nt pre name = pre @ concat (map hex_byte (take 5 (nt_sha256 nt name)))"

definition veth_host_name :: "'w net_tools \<Rightarrow> string \<Rightarrow> string" where
  "veth_host_name nt name = veth_name nt ''veth'' name"

definition veth_peer_name :: "'w net_tools \<Rightarrow> string \<Rightarrow> string" where
  "veth_peer_name nt name = veth_name nt ''peer'' name"

definition legacy_veth_host_name :: "string \<Rightarrow> string" where
  "legacy_veth_host_name name = ''veth-'' @ unwrap_or (str_cut 10 name) []"

definition interface_exists :: "'w net_tools \<Rightarrow> string \<Rightarrow> 'w \<Rightarrow> bool" where
  "interface_exists nt name w =
    (case fst (nt_ip nt [''link'', ''show'', name] w) of Inl e \<Rightarrow> False | Inr out \<Rightarrow> co_success out)"

definition resolve_veth_host_name :: "'w net_tools \<Rightarrow> string \<Rightarrow> (string \<Rightarrow> bool) \<Rightarrow> string" where
  "resolve_veth_host_name nt name iface =
    (let current = veth_host_name nt name; legacy = legacy_veth_host_name name in
     if iface current then current else if iface legacy then legacy else current)"

definition veth_host_name_for :: "'w net_tools \<Rightarrow> string \<Rightarrow> 'w \<Rightarrow> string" where
  "veth_host_name_for nt name w = resolve_veth_host_name nt name (\<lambda>n. interface_exists nt n w)"

definition veth_exists :: "'w net_tools \<Rightarrow> string \<Rightarrow> 'w \<Rightarrow> bool" where
  "veth_exists nt name w =
    (interface_exists nt (veth_host_name nt name) w \<or> interface_exists nt (legacy_veth_host_name name) w)"

definition configure_veth :: "'w net_tools \<Rightarrow> string \<Rightarrow> ZoneNetworkState option \<Rightarrow> string \<Rightarrow> ('w, unit) step" where
  "configure_veth nt name net_state bridge =
    (let host_if = veth_host_name nt name; peer_if = veth_peer_name nt name; ns = ''rauha-'' @ name in
     bind_step (run_ip nt [''link'', ''set'', peer_if, ''netns'', ns]) (\<lambda>_.
     bind_step (run_ip_netns nt ns [''link'', ''set'', peer_if, ''name'', ''eth0'']) (\<lambda>_.
     bind_step (run_ip nt [''link'', ''set'', host_if, ''master'', bridge]) (\<lambda>_.
     bind_step (run_ip nt [''link'', ''set'', host_if, ''up'']) (\<lambda>_.
     bind_step (run_ip_netns nt ns [''link'', ''set'', ''eth0'', ''up'']) (\<lambda>_.
     bind_step (run_ip_netns nt ns [''link'', ''set'', ''lo'', ''up'']) (\<lambda>_.
     case net_state of
       None \<Rightarrow> ret ()
     | Some st \<Rightarrow>
         bind_step (run_ip_netns nt ns [''addr'', ''add'', zn_cidr st, ''dev'', ''eth0'']) (\<lambda>_.
         run_ip_netns nt ns [''route'', ''add'', ''default'', ''via'', show_ipv4 (zn_gateway st)]))))))))"

definition create_veth_pair :: "'w net_tools \<Rightarrow> string \<Rightarrow> ZoneNetworkState option \<Rightarrow> string \<Rightarrow> ('w, unit) step" where
  "create_veth_pair nt name net_state bridge =
    (let host_if = veth_host_name nt name in
     bind_step (run_ip nt [''link'', ''add'', host_if, ''type'', ''veth'', ''peer'', ''name'', veth_peer_name nt name]) (\<lambda>_.
     on_error (configure_veth nt name net_state bridge) (\<lambda>w. snd (run_ip nt [''link'', ''delete'', host_if] w))))"

definition destroy_veth_pair :: "'w net_tools \<Rightarrow> string \<Rightarrow> ('w, unit) step" where
  "destroy_veth_pair nt name w =
    (let host_if = veth_host_name_for nt name w in
     bind_step (spawned (nt_ip nt [''link'', ''show'', host_if])
       (\<lambda>e. NetworkError (''failed to check veth: '' @ e) ''ensure iproute2 is installed'')) (\<lambda>out.
     if \<not> co_success out then ret () else run_ip nt [''link'', ''delete'', host_if]) w)"

subsection \<open>The packet filter\<close>

definition TABLE_NAME :: string where "TABLE_NAME = ''rauha''"
definition TABLE_FAMILY :: string where "TABLE_FAMILY = ''inet''"
definition BRIDGE_FAMILY :: string where "BRIDGE_FAMILY = ''bridge''"

definition table_exists :: "'w net_tools \<Rightarrow> string \<Rightarrow> ('w, bool) step" where
  "table_exists nt family =
    bind_step (spawned (nt_nft nt [''list'', ''table'', family, TABLE_NAME])
      (\<lambda>e. NetworkError (''failed to check nftables table: '' @ e) ''ensure nftables is installed (nft command)'')) (\<lambda>out.
    ret (co_success out))"

definition run_nft :: "'w net_tools \<Rightarrow> string list \<Rightarrow> ('w, unit) step" where
  "run_nft nt args =
    bind_step (spawned (nt_nft nt args)
      (\<lambda>e. NetworkError (''failed to run `nft '' @ join '' '' args @ ''`: '' @ e)
        ''ensure nftables is installed and rauhad runs as root'')) (\<lambda>out.
    if \<not> co_success out
    then fail (NetworkError (''nft '' @ join '' '' args @ '' failed: '' @ co_stderr out) ''run rauhad as root'')
    else ret ())"

fun nft_script_error :: "nft_failure \<Rightarrow> RauhaError" where
  "nft_script_error (NftSpawn e) =
     NetworkError (''failed to start nftables transaction: '' @ e) ''ensure nftables is installed and rauhad runs as root''"
| "nft_script_error NftStdin = NetworkError ''failed to open nftables transaction input'' ''restart rauhad''"
| "nft_script_error (NftWrite e) = NetworkError (''failed to write nftables transaction: '' @ e) ''restart rauhad''"
| "nft_script_error (NftWait e) = NetworkError (''failed to wait for nftables transaction: '' @ e) ''restart rauhad''"

definition run_nft_script :: "'w net_tools \<Rightarrow> string \<Rightarrow> ('w, unit) step" where
  "run_nft_script nt script w =
    (case nt_nft_script nt script w of
       (Inl e, w1) \<Rightarrow> (Inl (nft_script_error e), w1)
     | (Inr out, w1) \<Rightarrow>
         if \<not> co_success out
         then (Inl (NetworkError (''nftables transaction failed: '' @ co_stderr out)
           ''check nftables support and run rauhad as root''), w1)
         else (Inr (), w1))"

text \<open>A script, one command a line.\<close>

definition script :: "string list \<Rightarrow> string" where
  "script cmds = concat (map (\<lambda>c. c @ nl) cmds)"

definition braces :: "string \<Rightarrow> string" where
  "braces s = [CHR 0x7B] @ '' '' @ s @ '' '' @ [CHR 0x7D]"

definition inet_ruleset :: "string \<Rightarrow> string \<Rightarrow> bool \<Rightarrow> string" where
  "inet_ruleset subnet_cidr bridge replace =
    script ((if replace then [''delete table inet rauha''] else []) @
      [''add table inet rauha'',
       ''add chain inet rauha postrouting '' @ braces ''type nat hook postrouting priority srcnat;'',
       ''add rule inet rauha postrouting ip saddr '' @ subnet_cidr @ '' oifname != '' @ quoted bridge @ '' masquerade'',
       ''add chain inet rauha forward '' @ braces ''type filter hook forward priority filter; policy drop;'',
       ''add rule inet rauha forward ct state established,related accept'',
       ''add rule inet rauha forward iifname '' @ quoted bridge @ '' accept'',
       ''add rule inet rauha forward oifname '' @ quoted bridge @ '' accept'',
       ''add chain inet rauha input '' @ braces ''type filter hook input priority filter; policy accept;'',
       ''add rule inet rauha input ct state established,related accept'',
       ''add rule inet rauha input iifname '' @ quoted bridge @ '' drop''])"

definition bridge_ruleset :: "bool \<Rightarrow> string" where
  "bridge_ruleset replace =
    script ((if replace then [''delete table bridge rauha''] else []) @
      [''add table bridge rauha'',
       ''add chain bridge rauha forward '' @ braces ''type filter hook forward priority filter; policy drop;'',
       ''add chain bridge rauha input '' @ braces ''type filter hook input priority filter; policy drop;'',
       ''add chain bridge rauha output '' @ braces ''type filter hook output priority filter; policy drop;''])"

definition ensure_nat :: "'w net_tools \<Rightarrow> string \<Rightarrow> string \<Rightarrow> ('w, unit) step" where
  "ensure_nat nt subnet_cidr bridge =
    bind_step (table_exists nt TABLE_FAMILY) (\<lambda>replace.
    bind_step (or_else_step (run_nft_script nt (inet_ruleset subnet_cidr bridge replace)) (\<lambda>e.
      fail (BackendError (''cannot create the inet nftables table (NAT + forward filtering): '' @ show_error e @ '' '' @
        em_dash @ '' the kernel needs nf_tables and nf_nat; this is a hard requirement'')))) (\<lambda>_.
    bind_step (or_else_step (table_exists nt BRIDGE_FAMILY) (\<lambda>_. ret False)) (\<lambda>bridge_exists.
    ignoring (run_nft_script nt (bridge_ruleset bridge_exists)))))"

definition cleanup_nat :: "'w net_tools \<Rightarrow> ('w, unit) step" where
  "cleanup_nat nt =
    bind_step (table_exists nt TABLE_FAMILY) (\<lambda>inet.
    bind_step (if inet then run_nft nt [''delete'', ''table'', TABLE_FAMILY, TABLE_NAME] else ret ()) (\<lambda>_.
    bind_step (table_exists nt BRIDGE_FAMILY) (\<lambda>br.
    if br then run_nft nt [''delete'', ''table'', BRIDGE_FAMILY, TABLE_NAME] else ret ())))"

subsection \<open>The rules of a zone\<close>

definition zone_chain_name :: "string \<Rightarrow> string" where "zone_chain_name name = ''zone-'' @ name"
definition zone_input_chain_name :: "string \<Rightarrow> string" where "zone_input_chain_name name = ''input-'' @ name"
definition zone_output_chain_name :: "string \<Rightarrow> string" where "zone_output_chain_name name = ''output-'' @ name"

definition legacy_target :: "string \<Rightarrow> string" where
  "legacy_target target =
    (case strip_suffix target '':0'' of
       Some net \<Rightarrow> if is_ok (NetworkEndpoint_from_str net) then net else target
     | None \<Rightarrow> target)"

definition endpoint_rule :: "string \<Rightarrow> string \<Rightarrow> string rresult" where
  "endpoint_rule address_match given =
    (let target = legacy_target given in
     and_then (map_err (\<lambda>e. InvalidPolicy (''invalid network target '' @ debug_str target @ '': '' @ e))
       (NetworkEndpoint_from_str target)) (\<lambda>endpoint.
     Inr (nft_family endpoint @ '' '' @ address_match @ '' '' @ network endpoint @
       (case ne_port endpoint of Some port \<Rightarrow> '' tcp dport '' @ dec port | None \<Rightarrow> []) @ '' accept'')))"

definition endpoint_rules :: "string \<Rightarrow> string list \<Rightarrow> string list rresult" where
  "endpoint_rules address_match targets = collect_results (endpoint_rule address_match) targets"

definition base_accepts :: "string list" where
  "base_accepts = [''ether type arp accept'', ''meta l4proto ipv6-icmp accept'', ''ct state established,related accept'']"

definition bridge_input_chain_rules :: "NetworkPolicy \<Rightarrow> string list rresult" where
  "bridge_input_chain_rules policy =
    (if net_mode policy \<noteq> Bridged then Inr [''drop'']
     else and_then (endpoint_rules ''daddr'' (allowed_egress policy)) (\<lambda>rules. Inr (base_accepts @ rules @ [''drop''])))"

definition bridge_output_chain_rules :: "NetworkPolicy \<Rightarrow> string list rresult" where
  "bridge_output_chain_rules policy =
    (if net_mode policy \<noteq> Bridged then Inr [''drop'']
     else and_then (endpoint_rules ''saddr'' (allowed_ingress policy)) (\<lambda>rules. Inr (base_accepts @ rules @ [''drop''])))"

definition peer_rule :: "string \<Rightarrow> string \<Rightarrow> string" where
  "peer_rule src dst = ''iifname '' @ quoted src @ '' oifname '' @ quoted dst @ '' accept''"

text \<open>\<open>peer_name\<close> is \<open>veth_host_name_for\<close>.\<close>

definition bridge_zone_chain_rules :: "(string \<Rightarrow> string) \<Rightarrow> string \<Rightarrow> NetworkPolicy \<Rightarrow> string list" where
  "bridge_zone_chain_rules peer_name veth policy =
    (if net_mode policy \<noteq> Bridged then [''return'']
     else concat (map (\<lambda>zone. [peer_rule veth (peer_name zone), peer_rule (peer_name zone) veth]) (allowed_zones policy)) @
       [''return''])"

text \<open>The rules that jump to a zone's chain, by their handles.\<close>

definition jump_handles :: "string \<Rightarrow> string \<Rightarrow> string list" where
  "jump_handles chain_name stdout =
    filter (\<lambda>h. h \<noteq> []) (concat (map (\<lambda>line.
      if str_contains line ''jump'' \<and> str_contains line chain_name then
        (case find_str line ''# handle '' of Some idx \<Rightarrow> [trim (drop (idx + length ''# handle '') line)] | None \<Rightarrow> [])
      else []) (lines stdout)))"

definition remove_chain_jumps :: "'w net_tools \<Rightarrow> string \<Rightarrow> string \<Rightarrow> string \<Rightarrow> ('w, unit) step" where
  "remove_chain_jumps nt family base_chain chain_name =
    bind_step (spawned (nt_nft nt [''-a'', ''list'', ''chain'', family, TABLE_NAME, base_chain])
      (\<lambda>e. NetworkError (''failed to list nftables '' @ family @ '' '' @ base_chain @ '' chain: '' @ e)
        ''ensure nftables is installed (nft command)'')) (\<lambda>out.
    if \<not> co_success out then ret ()
    else each_step (\<lambda>handle. ignoring (run_nft nt
        [''delete'', ''rule'', family, TABLE_NAME, base_chain, ''handle'', handle]))
      (jump_handles chain_name (co_stdout out)))"

definition remove_zone_rules :: "'w net_tools \<Rightarrow> string \<Rightarrow> ('w, unit) step" where
  "remove_zone_rules nt name =
    bind_step (ignoring (remove_chain_jumps nt BRIDGE_FAMILY ''forward'' (zone_chain_name name))) (\<lambda>_.
    bind_step (ignoring (remove_chain_jumps nt BRIDGE_FAMILY ''input'' (zone_input_chain_name name))) (\<lambda>_.
    bind_step (ignoring (remove_chain_jumps nt BRIDGE_FAMILY ''output'' (zone_output_chain_name name))) (\<lambda>_.
    each_step (\<lambda>chain.
        bind_step (ignoring (run_nft nt [''flush'', ''chain'', BRIDGE_FAMILY, TABLE_NAME, chain])) (\<lambda>_.
        ignoring (run_nft nt [''delete'', ''chain'', BRIDGE_FAMILY, TABLE_NAME, chain])))
      [zone_chain_name name, zone_input_chain_name name, zone_output_chain_name name])))"

definition zone_script :: "string \<Rightarrow> string \<Rightarrow> string list \<Rightarrow> string list \<Rightarrow> string list \<Rightarrow> string" where
  "zone_script name veth rules input_rules output_rules =
    (let chain = zone_chain_name name; inp = zone_input_chain_name name; outp = zone_output_chain_name name in
     script ([''add chain bridge rauha '' @ chain, ''add chain bridge rauha '' @ inp, ''add chain bridge rauha '' @ outp] @
       map (\<lambda>r. ''add rule bridge rauha '' @ chain @ '' '' @ r) rules @
       map (\<lambda>r. ''add rule bridge rauha '' @ inp @ '' '' @ r) input_rules @
       map (\<lambda>r. ''add rule bridge rauha '' @ outp @ '' '' @ r) output_rules @
       [''add rule bridge rauha forward iifname '' @ quoted veth @ '' jump '' @ chain,
        ''add rule bridge rauha forward oifname '' @ quoted veth @ '' jump '' @ chain,
        ''add rule bridge rauha input iifname '' @ quoted veth @ '' jump '' @ inp,
        ''add rule bridge rauha output oifname '' @ quoted veth @ '' jump '' @ outp]))"

definition apply_zone_rules :: "'w net_tools \<Rightarrow> string \<Rightarrow> string \<Rightarrow> NetworkPolicy \<Rightarrow> ('w, unit) step" where
  "apply_zone_rules nt name veth policy w =
    (let rules = bridge_zone_chain_rules (\<lambda>z. veth_host_name_for nt z w) veth policy in
     bind_step (of_result (bridge_input_chain_rules policy)) (\<lambda>input_rules.
     bind_step (of_result (bridge_output_chain_rules policy)) (\<lambda>output_rules.
     bind_step (ignoring (remove_zone_rules nt name)) (\<lambda>_.
     if net_mode policy \<noteq> Host then run_nft_script nt (zone_script name veth rules input_rules output_rules)
     else ret ()))) w)"

subsection \<open>Checking the rules of a zone\<close>

fun chain_lines :: "string \<Rightarrow> bool \<Rightarrow> string list \<Rightarrow> string list" where
  "chain_lines header in_chain [] = []"
| "chain_lines header in_chain (l # ls) =
     (let line = trim l in
      if line = header then chain_lines header True ls
      else if \<not> in_chain then chain_lines header False ls
      else if line = [CHR 0x7D] then chain_lines header False ls
      else
        let rule = trim (case find_str line ''# handle '' of Some i \<Rightarrow> take i line | None \<Rightarrow> line)
        in (if rule \<noteq> [] then [join '' '' (split_whitespace rule)] else []) @ chain_lines header True ls)"

definition nft_chain_rules :: "string \<Rightarrow> string \<Rightarrow> string list" where
  "nft_chain_rules output chain_name = chain_lines (''chain '' @ chain_name @ '' '' @ [CHR 0x7B]) False (lines output)"

definition chain_has_jump :: "cmd_output \<Rightarrow> string \<Rightarrow> string \<Rightarrow> string \<Rightarrow> bool" where
  "chain_has_jump out interface_match veth chain =
    (co_success out \<and> str_contains (co_stdout out) (interface_match @ '' '' @ quoted veth @ '' jump '' @ chain))"

definition forward_has_jumps :: "cmd_output \<Rightarrow> string \<Rightarrow> string \<Rightarrow> bool" where
  "forward_has_jumps out veth chain =
    (if \<not> co_success out then False
     else str_contains (co_stdout out) (''iifname '' @ quoted veth @ '' jump '' @ chain) \<and>
          str_contains (co_stdout out) (''oifname '' @ quoted veth @ '' jump '' @ chain))"

text \<open>A listing does not change the rules; \<open>listing\<close> is None where the command cannot be run.\<close>

definition list_chain :: "'w net_tools \<Rightarrow> string \<Rightarrow> 'w \<Rightarrow> cmd_output option" where
  "list_chain nt chain w =
    (case fst (nt_nft nt [''list'', ''chain'', BRIDGE_FAMILY, TABLE_NAME, chain] w) of Inl e \<Rightarrow> None | Inr out \<Rightarrow> Some out)"

definition ok_and :: "'a option \<Rightarrow> ('a \<Rightarrow> bool) \<Rightarrow> bool" where
  "ok_and m P = (case m of None \<Rightarrow> False | Some x \<Rightarrow> P x)"

definition zone_rules_exist :: "'w net_tools \<Rightarrow> string \<Rightarrow> string \<Rightarrow> NetworkPolicy \<Rightarrow> 'w \<Rightarrow> bool" where
  "zone_rules_exist nt name veth policy w =
    (net_mode policy = Host \<or>
     (let chain = zone_chain_name name; inp = zone_input_chain_name name; outp = zone_output_chain_name name in
      ok_and (list_chain nt chain w) (\<lambda>out. co_success out \<and>
        nft_chain_rules (co_stdout out) chain = bridge_zone_chain_rules (\<lambda>z. veth_host_name_for nt z w) veth policy) \<and>
      ok_and (list_chain nt inp w) (\<lambda>out. co_success out \<and>
        (case bridge_input_chain_rules policy of Inl e \<Rightarrow> False | Inr rules \<Rightarrow> nft_chain_rules (co_stdout out) inp = rules)) \<and>
      ok_and (list_chain nt outp w) (\<lambda>out. co_success out \<and>
        (case bridge_output_chain_rules policy of Inl e \<Rightarrow> False | Inr rules \<Rightarrow> nft_chain_rules (co_stdout out) outp = rules)) \<and>
      ok_and (list_chain nt ''forward'' w) (\<lambda>out. forward_has_jumps out veth chain) \<and>
      ok_and (list_chain nt ''input'' w) (\<lambda>out. chain_has_jump out ''iifname'' veth inp) \<and>
      ok_and (list_chain nt ''output'' w) (\<lambda>out. chain_has_jump out ''oifname'' veth outp)))"

subsection \<open>What the rules decide\<close>

text \<open>The kernel walks a chain until a rule with a verdict matches. A rule is its condition and, at the
  end, its verdict; which frames a condition matches is a parameter.\<close>

datatype verdict = Accept | Drop | Return

definition rule_parts :: "string \<Rightarrow> string \<times> verdict" where
  "rule_parts r =
    (case strip_suffix r ''accept'' of
       Some c \<Rightarrow> (c, Accept)
     | None \<Rightarrow>
         (case strip_suffix r ''drop'' of
            Some c \<Rightarrow> (c, Drop)
          | None \<Rightarrow> (case strip_suffix r ''return'' of Some c \<Rightarrow> (c, Return) | None \<Rightarrow> (r, Return))))"

fun chain_verdict :: "(string \<Rightarrow> 'p \<Rightarrow> bool) \<Rightarrow> string list \<Rightarrow> 'p \<Rightarrow> verdict" where
  "chain_verdict cond [] p = Return"
| "chain_verdict cond (r # rs) p =
     (case rule_parts r of (c, v) \<Rightarrow> if cond c p then v else chain_verdict cond rs p)"

lemma rule_parts_accept [simp]: "rule_parts (c @ ''accept'') = (c, Accept)"
  using strip_suffix_Some [of "c @ ''accept''" "''accept''" c] by (simp add: rule_parts_def)

lemma rule_parts_drop [simp]: "rule_parts ''drop'' = ([], Drop)"
  by (simp add: rule_parts_def strip_suffix_def)

lemma rule_parts_return [simp]: "rule_parts ''return'' = ([], Return)"
  by (simp add: rule_parts_def strip_suffix_def)

lemma chain_verdict_accepts:
  assumes "list_all (\<lambda>r. \<exists>c. r = c @ ''accept'') rs"
  shows "chain_verdict cond (rs @ rest) p =
    (if \<exists>c. c @ ''accept'' \<in> set rs \<and> cond c p then Accept else chain_verdict cond rest p)"
  using assms by (induction rs) auto

definition base_conditions :: "string list" where
  "base_conditions = [''ether type arp '', ''meta l4proto ipv6-icmp '', ''ct state established,related '']"

lemma base_accepts_map: "base_accepts = map (\<lambda>c. c @ ''accept'') base_conditions"
  by (simp add: base_accepts_def base_conditions_def)

lemma base_accepts_form: "list_all (\<lambda>r. \<exists>c. r = c @ ''accept'') base_accepts"
  unfolding base_accepts_map by (simp only: list_all_iff set_map) blast

lemma endpoint_rule_form: "endpoint_rule m t = Inr r \<Longrightarrow> \<exists>c. r = c @ ''accept''"
  by (auto simp: endpoint_rule_def Let_def result_simps)

text \<open>The condition of the rule for a target.\<close>

definition target_matches :: "(string \<Rightarrow> 'p \<Rightarrow> bool) \<Rightarrow> string \<Rightarrow> string \<Rightarrow> 'p \<Rightarrow> bool" where
  "target_matches cond m t p = (\<exists>c. endpoint_rule m t = Inr (c @ ''accept'') \<and> cond c p)"

definition base_matches :: "(string \<Rightarrow> 'p \<Rightarrow> bool) \<Rightarrow> 'p \<Rightarrow> bool" where
  "base_matches cond p = list_ex (\<lambda>c. cond c p) base_conditions"

lemma base_accepts_match: "(\<exists>c. c @ ''accept'' \<in> set base_accepts \<and> cond c p) \<longleftrightarrow> base_matches cond p"
  unfolding base_accepts_map base_matches_def list_ex_iff set_map image_iff append_same_eq by blast

lemma endpoint_rules_match:
  assumes "endpoint_rules m ts = Inr rs"
  shows "list_all (\<lambda>r. \<exists>c. r = c @ ''accept'') rs"
    and "(\<exists>c. c @ ''accept'' \<in> set rs \<and> cond c p) \<longleftrightarrow> (\<exists>t \<in> set ts. target_matches cond m t p)"
proof -
  have all: "list_all2 (\<lambda>t r. endpoint_rule m t = Inr r) ts rs"
    using assms by (simp add: endpoint_rules_def result_simps)
  then have "\<And>r. r \<in> set rs \<longleftrightarrow> (\<exists>t \<in> set ts. endpoint_rule m t = Inr r)"
    by (induction rule: list_all2_induct) auto
  then show "list_all (\<lambda>r. \<exists>c. r = c @ ''accept'') rs"
      "(\<exists>c. c @ ''accept'' \<in> set rs \<and> cond c p) \<longleftrightarrow> (\<exists>t \<in> set ts. target_matches cond m t p)"
    using endpoint_rule_form by (auto simp: list_all_iff target_matches_def)
qed

lemma edge_chain_verdict:
  assumes "endpoint_rules m ts = Inr rs" "\<forall>p. cond [] p"
  shows "chain_verdict cond (base_accepts @ rs @ [''drop'']) p =
    (if base_matches cond p \<or> (\<exists>t \<in> set ts. target_matches cond m t p) then Accept else Drop)"
proof -
  have "chain_verdict cond [''drop''] p = Drop" using assms(2) by simp
  then show ?thesis
    unfolding chain_verdict_accepts [OF base_accepts_form] chain_verdict_accepts [OF endpoint_rules_match(1) [OF assms(1)]]
      base_accepts_match endpoint_rules_match(2) [OF assms(1)] by simp
qed


definition demo_bridged :: NetworkPolicy where
  "demo_bridged = \<lparr>net_mode = Bridged, allowed_zones = [''db''], allowed_egress = [], allowed_ingress = []\<rparr>"

lemma demo_edge_rules:
  "bridge_input_chain_rules demo_bridged = Inr (base_accepts @ [''drop''])"
  "bridge_output_chain_rules demo_bridged = Inr (base_accepts @ [''drop''])"
  by (simp_all add: bridge_input_chain_rules_def bridge_output_chain_rules_def demo_bridged_def endpoint_rules_def)


subsection \<open>Frames between zones\<close>

text \<open>The forward chain: for every zone, frames from and to its port jump to its chain; what no chain
  decides is dropped by the policy of the base chain. A zone is its port and the rules of its chain.\<close>

fun forward_verdict ::
  "(string \<Rightarrow> 'p \<Rightarrow> bool) \<Rightarrow> ('p \<Rightarrow> string) \<Rightarrow> ('p \<Rightarrow> string) \<Rightarrow> (string \<times> string list) list \<Rightarrow> 'p \<Rightarrow> verdict" where
  "forward_verdict cond iif oif [] p = Drop"
| "forward_verdict cond iif oif ((veth, rules) # zs) p =
     (if (iif p = veth \<or> oif p = veth) \<and> chain_verdict cond rules p \<noteq> Return then chain_verdict cond rules p
      else forward_verdict cond iif oif zs p)"

definition peer_condition :: "string \<Rightarrow> string \<Rightarrow> string" where
  "peer_condition src dst = ''iifname '' @ quoted src @ '' oifname '' @ quoted dst @ '' ''"

lemma peer_rule_parts: "peer_rule a b = peer_condition a b @ ''accept''"
  by (simp add: peer_rule_def peer_condition_def)

text \<open>How the kernel reads the two conditions that occur: no condition, and two interface names without
  a quote.\<close>

definition plain_name :: "string \<Rightarrow> bool" where
  "plain_name n = (CHR 0x22 \<notin> set n)"

definition reads_interfaces :: "(string \<Rightarrow> 'p \<Rightarrow> bool) \<Rightarrow> ('p \<Rightarrow> string) \<Rightarrow> ('p \<Rightarrow> string) \<Rightarrow> bool" where
  "reads_interfaces cond iif oif =
    ((\<forall>p. cond [] p) \<and>
     (\<forall>a b p. plain_name a \<longrightarrow> plain_name b \<longrightarrow> (cond (peer_condition a b) p \<longleftrightarrow> iif p = a \<and> oif p = b)))"

definition lists_peer :: "NetworkPolicy \<Rightarrow> string \<Rightarrow> bool" where
  "lists_peer policy z = (net_mode policy = Bridged \<and> z \<in> set (allowed_zones policy))"

lemma zone_chain_verdict:
  assumes "reads_interfaces cond iif oif" "plain_name veth" "\<forall>z. plain_name (peer z)"
  shows "chain_verdict cond (bridge_zone_chain_rules peer veth policy) p =
    (if \<exists>z. lists_peer policy z \<and> (iif p = veth \<and> oif p = peer z \<or> iif p = peer z \<and> oif p = veth) then Accept else Return)"
proof (cases "net_mode policy = Bridged")
  case True
  let ?rs = "concat (map (\<lambda>z. [peer_rule veth (peer z), peer_rule (peer z) veth]) (allowed_zones policy))"
  have "list_all (\<lambda>r. \<exists>c. r = c @ ''accept'') ?rs" by (auto simp: list_all_iff peer_rule_parts)
  moreover have "(\<exists>c. c @ ''accept'' \<in> set ?rs \<and> cond c p) \<longleftrightarrow>
      (\<exists>z \<in> set (allowed_zones policy). cond (peer_condition veth (peer z)) p \<or> cond (peer_condition (peer z) veth) p)"
    by (auto simp: peer_rule_parts)
  moreover have "chain_verdict cond [''return''] p = Return" by simp
  ultimately show ?thesis
    using True assms chain_verdict_accepts [of ?rs cond "[''return'']" p]
    by (simp add: bridge_zone_chain_rules_def lists_peer_def reads_interfaces_def) blast
next
  case False
  then show ?thesis by (simp add: bridge_zone_chain_rules_def lists_peer_def)
qed

lemma forward_verdict_accept:
  assumes "reads_interfaces cond iif oif" "\<forall>z. plain_name (peer z)"
  shows "forward_verdict cond iif oif (map (\<lambda>(z, pol). (peer z, bridge_zone_chain_rules peer (peer z) pol)) zs) p =
    (if \<exists>(z, pol) \<in> set zs. \<exists>y. lists_peer pol y \<and> (iif p = peer z \<and> oif p = peer y \<or> iif p = peer y \<and> oif p = peer z)
     then Accept else Drop)"
proof (induction zs)
  case (Cons zp zs)
  obtain z pol where "zp = (z, pol)" by fastforce
  then show ?case using Cons zone_chain_verdict [OF assms(1) _ assms(2), of "peer z" pol p] assms(2) by auto
qed simp

text \<open>A frame from the port of one zone to the port of another is forwarded exactly when one of the two is
  bridged and lists the other. Neither the direction nor the order in which the rules were installed
  matters, so one zone's policy opens a channel to a zone whose own policy lists nobody.\<close>

lemma zones_reach_each_other:
  assumes "reads_interfaces cond iif oif" "\<forall>z. plain_name (peer z)" "distinct (map fst zs)" "(x, px) \<in> set zs" "(y, py) \<in> set zs" "x \<noteq> y"
    "inj_on peer (fst ` set zs \<union> (\<Union>(z, pol) \<in> set zs. set (allowed_zones pol)))" "iif p = peer x" "oif p = peer y"
  shows "forward_verdict cond iif oif (map (\<lambda>(z, pol). (peer z, bridge_zone_chain_rules peer (peer z) pol)) zs) p =
    (if lists_peer px y \<or> lists_peer py x then Accept else Drop)"
proof -
  let ?N = "fst ` set zs \<union> (\<Union>(z, pol) \<in> set zs. set (allowed_zones pol))"
  have xy: "x \<in> ?N" "y \<in> ?N" using assms(4,5) by force+
  have eq: "peer u = peer v \<longleftrightarrow> u = v" if "u \<in> ?N" "v \<in> ?N" for u v using assms(7) that by (rule inj_on_eq_iff)
  have pol: "pol = px" if "(x, pol) \<in> set zs" for pol using that assms(3,4) by (meson eq_key_imp_eq_value)
  have pol': "pol = py" if "(y, pol) \<in> set zs" for pol using that assms(3,5) by (meson eq_key_imp_eq_value)
  have "(\<exists>(z, pol) \<in> set zs. \<exists>u. lists_peer pol u \<and> (peer x = peer z \<and> peer y = peer u \<or> peer x = peer u \<and> peer y = peer z))
      \<longleftrightarrow> lists_peer px y \<or> lists_peer py x" (is "?L \<longleftrightarrow> ?R")
  proof
    assume ?L
    then obtain z pol u where zu: "(z, pol) \<in> set zs" "lists_peer pol u"
      "peer x = peer z \<and> peer y = peer u \<or> peer x = peer u \<and> peer y = peer z" by blast
    then have "z \<in> ?N" "u \<in> ?N" by (force simp: lists_peer_def)+
    then have "x = z \<and> y = u \<or> x = u \<and> y = z" using zu(3) eq xy by blast
    then show ?R using zu pol pol' by blast
  next
    assume ?R
    then show ?L using assms(4,5) by blast
  qed
  then show ?thesis using forward_verdict_accept [OF assms(1,2)] assms(8,9) by simp
qed


definition demo_frame_match :: "string \<Rightarrow> string \<times> string \<Rightarrow> bool" where
  "demo_frame_match c p = (c = [] \<or> (plain_name (fst p) \<and> plain_name (snd p) \<and> c = peer_condition (fst p) (snd p)))"

lemma quoted_before: "plain_name a \<Longrightarrow> plain_name b \<Longrightarrow> a @ CHR 0x22 # x = b @ CHR 0x22 # y \<longleftrightarrow> a = b \<and> x = y"
proof (induction a arbitrary: b)
  case Nil
  then show ?case by (cases b) (auto simp: plain_name_def)
next
  case (Cons c a)
  then show ?case by (cases b) (auto simp: plain_name_def)
qed

definition demo_peer :: "string \<Rightarrow> string" where
  "demo_peer z = filter (\<lambda>c. c \<noteq> CHR 0x22) z"

definition demo_zones :: "(string \<times> NetworkPolicy) list" where
  "demo_zones = [(''web'', demo_bridged), (''db'', NetworkPolicy_default)]"

subsection \<open>A target that ends in zero\<close>

lemma legacy_target_strips:
  "is_ok (NetworkEndpoint_from_str t) \<Longrightarrow> legacy_target (t @ '':0'') = t"
  using strip_suffix_Some [of "t @ '':0''" "'':0''" t] by (simp add: legacy_target_def)

lemmas parse_v6_simps = NetworkEndpoint_from_str_def parse_network_def parse_ip_def parse_with_def read_ip_addr_def
  read_ipv4_addr_def read_octet_def read_dot_octet_def read_number_def read_ipv6_addr_def with_sep_def read_char_def radix_digit_def
  is_hex_digit_def is_ascii_digit_def radix_val_def hex_val_def digit_val_def is_ascii_lowercase_def max_prefix_of_def
  trim_def is_whitespace_def strip_prefix_def starts_with_def

lemma read_groups_numeral:
  "read_groups first (numeral k) s =
     (case (if pred_numeral k > 0 then with_sep first read_ipv4_addr s else None) of
        Some (v4, r) \<Rightarrow> (octet_groups v4, True, r)
      | None \<Rightarrow>
          (case with_sep first (read_number 16 4 True 65535) s of
             None \<Rightarrow> ([], False, s)
           | Some (g, r) \<Rightarrow>
               (case read_groups False (pred_numeral k) r of (gs, v4, r') \<Rightarrow> (of_nat g # gs, v4, r'))))"
  by (simp only: numeral_eq_Suc [of k] read_groups.simps)

lemma one_zero_parts:
  "read_groups True 8 ''::1'' = ([], False, ''::1'')" "read_groups True 7 ''1'' = ([1], False, [])"
  "read_groups True 8 ''::1:0'' = ([], False, ''::1:0'')" "read_groups True 7 ''1:0'' = ([1, 0], False, [])"
  by (simp_all add: read_groups_numeral parse_v6_simps)

text \<open>The suffix that used to mean any port is also stripped from an IPv6 address whose last group is zero:
  the rule for \<open>::1:0\<close> is the rule for \<open>::1\<close>, another host.\<close>

lemma zero_group_is_taken_for_a_port:
  "NetworkEndpoint_from_str ''::1:0'' = Inr \<lparr>ne_address = V6 [0, 0, 0, 0, 0, 0, 1, 0], ne_prefix_len = 128, ne_port = None\<rparr> \<and>
   NetworkEndpoint_from_str ''::1'' = Inr \<lparr>ne_address = V6 [0, 0, 0, 0, 0, 0, 0, 1], ne_prefix_len = 128, ne_port = None\<rparr> \<and>
   endpoint_rule m ''::1:0'' = endpoint_rule m ''::1''"
proof -
  have a: "NetworkEndpoint_from_str ''::1'' = Inr \<lparr>ne_address = V6 [0, 0, 0, 0, 0, 0, 0, 1], ne_prefix_len = 128, ne_port = None\<rparr>"
    by (simp add: parse_v6_simps one_zero_parts, simp add: eval_nat_numeral)
  have b: "NetworkEndpoint_from_str ''::1:0'' = Inr \<lparr>ne_address = V6 [0, 0, 0, 0, 0, 0, 1, 0], ne_prefix_len = 128, ne_port = None\<rparr>"
    by (simp add: parse_v6_simps one_zero_parts, simp add: eval_nat_numeral)
  have "legacy_target ''::1:0'' = ''::1''" using legacy_target_strips [of "''::1''"] a by simp
  moreover have "legacy_target ''::1'' = ''::1''" by (simp add: legacy_target_def strip_suffix_def)
  ultimately show ?thesis using a b by (simp add: endpoint_rule_def)
qed

subsection \<open>Jumps of other zones\<close>

text \<open>A line of a listing: the jump of a port to a chain, with its handle.\<close>

definition jump_line :: "string \<Rightarrow> string \<Rightarrow> string \<Rightarrow> string" where
  "jump_line veth chain handle = ''iifname '' @ quoted veth @ '' jump '' @ chain @ '' # handle '' @ handle"

lemma find_str_after:
  assumes "CHR ''#'' \<notin> set a"
  shows "find_str (a @ CHR ''#'' # b) (CHR ''#'' # c) = (if starts_with (CHR ''#'' # b) (CHR ''#'' # c) then Some (length a) else map_option (\<lambda>n. length a + n) (find_str (CHR ''#'' # b) (CHR ''#'' # c)))"
  using assms
proof (induction a)
  case (Cons x a)
  then have "\<not> starts_with (x # a @ CHR ''#'' # b) (CHR ''#'' # c)" by (auto simp: starts_with_def)
  then show ?case using Cons by (simp add: option.map_comp comp_def)
qed (simp add: option.map_comp comp_def)

lemma jump_handles_line:
  assumes "lines out = [line]" "str_contains line ''jump''" "str_contains line chain" "find_str line ''# handle '' = Some i"
    "trim (drop (i + length ''# handle '') line) = h" "h \<noteq> []"
  shows "jump_handles chain out = [h]"
  using assms by (simp add: jump_handles_def)

text \<open>Replacing the rules of a zone also deletes the jumps of every zone whose name extends its name: a listed
  jump to the chain of \<open>name @ rest\<close> is among the handles collected for \<open>name\<close>, so that reloading
  \<open>web\<close> cuts off \<open>web2\<close>.\<close>

lemma reload_cuts_off_longer_names:
  assumes "list_all (\<lambda>c. c \<noteq> CHR ''#'' \<and> c \<noteq> CHR 0x0A) (veth @ name @ rest)"
  shows "jump_handles (zone_chain_name name) (script [jump_line veth (zone_chain_name (name @ rest)) (dec n)]) = [dec n]"
proof -
  let ?pre = "''iifname '' @ quoted veth @ '' jump '' @ zone_chain_name (name @ rest) @ '' ''"
  let ?line = "?pre @ ''# handle '' @ dec n"
  have line: "jump_line veth (zone_chain_name (name @ rest)) (dec n) = ?line" by (simp add: jump_line_def)
  have pre: "CHR ''#'' \<notin> set ?pre" "CHR 0x0A \<notin> set ?pre"
    using assms by (auto simp: list_all_iff quoted_def zone_chain_name_def)
  have d: "CHR 0x0A \<notin> set (dec n)" "strip_cr ?line = ?line" "trim (dec n) = dec n"
  proof -
    have ns: "\<not> is_whitespace c" if "c \<in> set (dec n)" for c using dec_chars [OF that] by (rule digit_not_whitespace)
    then show "CHR 0x0A \<notin> set (dec n)" "trim (dec n) = dec n"
      using ns [of "CHR 0x0A"] by (auto simp: is_whitespace_def intro!: trim_no_space simp: list_all_iff)
    have "last (dec n) \<noteq> CHR 0x0D" using ns [of "last (dec n)"] by (auto simp: is_whitespace_def)
    then show "strip_cr ?line = ?line" unfolding strip_cr_def by (simp add: last_append)
  qed
  show ?thesis
    unfolding line
  proof (rule jump_handles_line [where i = "length ?pre"])
    show "lines (script [?line]) = [?line]"
      using lines_unlines [of "[?line]"] pre d(1,2) by (simp add: script_def nl_def)
    have "?line = (''iifname '' @ quoted veth @ '' '') @ ''jump'' @ ('' '' @ zone_chain_name (name @ rest) @ '' # handle '' @ dec n)"
      by simp
    then show "str_contains ?line ''jump''" unfolding str_contains_iff by blast
    have "?line = (''iifname '' @ quoted veth @ '' jump '') @ zone_chain_name name @ (rest @ '' # handle '' @ dec n)"
      by (simp add: zone_chain_name_def)
    then show "str_contains ?line (zone_chain_name name)" unfolding str_contains_iff by blast
    show "find_str ?line ''# handle '' = Some (length ?pre)"
      using find_str_after [OF pre(1), of "'' handle '' @ dec n" "'' handle ''"] by (simp add: starts_with_def)
    have "drop (length a + length b) (a @ b @ c) = c" for a b c :: string by simp
    then show "trim (drop (length ?pre + length ''# handle '') ?line) = dec n" using d(3) by (simp only:)
  qed simp
qed

end
