(* ===== verification/Host_Files.thy ===== *)
theory Host_Files
  imports Oci_Rootfs Rauha_Steps
begin

text \<open>
  Writing and copying files of the host: \<open>std::fs::write\<close>, and the two \<open>copy_dir_recursive\<close> of
  \<open>rauha-oci/src/snapshotter.rs\<close> and \<open>rauhad/src/backend/linux/mod.rs\<close>. They differ in what they do with
  an existing entry where a link is to be created, and the second one also copies permissions, which
  the file system of this development does not have. A path of 4096 bytes or more is refused by the
  kernel, which bounds the recursion.
\<close>

datatype host_op =
    HMkdir fpath | HReadDir fpath | HEntry fpath | HStat fpath | HReadLink fpath | HUnlink fpath
  | HSymlink fpath | HCopy fpath | HWrite fpath

type_synonym host_faults = "host_op \<Rightarrow> string option"

text \<open>Where a file opened with \<open>O_CREAT\<close> is: links are followed, the last one too, and the last component
  need not exist.\<close>

fun walk_create :: "nat \<Rightarrow> file_system \<Rightarrow> fpath \<Rightarrow> string list \<Rightarrow> fs_error + fpath" where
  "walk_create hops fs cur [] = Inr cur"
| "walk_create hops fs cur (c # cs) =
     (if c = [] \<or> c = ''.'' then walk_create hops fs cur cs
      else if c = ''..'' then walk_create hops fs (butlast cur) cs
      else
        (case map_of fs (cur @ [c]) of
           None \<Rightarrow> if cs = [] then Inr (cur @ [c]) else Inl NotFound
         | Some NDir \<Rightarrow> walk_create hops fs (cur @ [c]) cs
         | Some (NFile _) \<Rightarrow> if cs = [] then Inr (cur @ [c]) else Inl (OsError ''Not a directory (os error 20)'')
         | Some (NSymlink t) \<Rightarrow>
             (case hops of
                0 \<Rightarrow> Inl (OsError ''Too many levels of symbolic links (os error 40)'')
              | Suc n \<Rightarrow> walk_create n fs (if starts_with t ''/'' then [] else cur) (split_on CHR ''/'' t @ cs))))"

definition put_file :: "fpath \<Rightarrow> string \<Rightarrow> file_system \<Rightarrow> (string + unit) \<times> file_system" where
  "put_file p content fs =
    (case walk_create 40 fs [] p of
       Inl e \<Rightarrow> (Inl (show_fs_error e), fs)
     | Inr q \<Rightarrow>
         if q = [] \<or> map_of fs q = Some NDir then (Inl ''Is a directory (os error 21)'', fs)
         else (Inr (), fs_put q (NFile content) fs))"

definition fs_write :: "host_faults \<Rightarrow> fpath \<Rightarrow> string \<Rightarrow> file_system \<Rightarrow> (string + unit) \<times> file_system" where
  "fs_write hf p content fs = (case hf (HWrite p) of Some e \<Rightarrow> (Inl e, fs) | None \<Rightarrow> put_file p content fs)"

definition mk_dirs :: "host_faults \<Rightarrow> fpath \<Rightarrow> file_system \<Rightarrow> (string + unit) \<times> file_system" where
  "mk_dirs hf p fs = (case hf (HMkdir p) of Some e \<Rightarrow> (Inl e, fs) | None \<Rightarrow> make_dirs fs [] p)"

definition host_stat :: "host_faults \<Rightarrow> fpath \<Rightarrow> file_system \<Rightarrow> fs_error + node" where
  "host_stat hf p fs =
    (case hf (HStat p) of
       Some e \<Rightarrow> Inl (OsError e)
     | None \<Rightarrow> and_then (last_entry fs p) (\<lambda>q. ok_or NotFound (map_of fs q)))"

definition dir_names :: "host_faults \<Rightarrow> fpath \<Rightarrow> file_system \<Rightarrow> string + string list" where
  "dir_names hf p fs =
    (case hf (HReadDir p) of
       Some e \<Rightarrow> Inl e
     | None \<Rightarrow>
         (case walk 40 fs [] p of
            Inl e \<Rightarrow> Inl (show_fs_error e)
          | Inr q \<Rightarrow>
              if q = [] \<or> map_of fs q = Some NDir then Inr (children fs q)
              else Inl ''Not a directory (os error 20)''))"

definition make_link :: "host_faults \<Rightarrow> string \<Rightarrow> fpath \<Rightarrow> file_system \<Rightarrow> (string + unit) \<times> file_system" where
  "make_link hf target p fs =
    (case hf (HSymlink p) of
       Some e \<Rightarrow> (Inl e, fs)
     | None \<Rightarrow>
         (case last_entry fs p of
            Inl e \<Rightarrow> (Inl (show_fs_error e), fs)
          | Inr q \<Rightarrow>
              if map_of fs q \<noteq> None then (Inl ''File exists (os error 17)'', fs)
              else (Inr (), fs_put q (NSymlink target) fs)))"

definition unlink :: "host_faults \<Rightarrow> fpath \<Rightarrow> file_system \<Rightarrow> file_system" where
  "unlink hf p fs =
    (case (hf (HUnlink p), last_entry fs p) of
       (None, Inr q) \<Rightarrow> if map_of fs q = Some NDir then fs else filter (\<lambda>(x, _). x \<noteq> q) fs
     | _ \<Rightarrow> fs)"

definition copy_file :: "host_faults \<Rightarrow> fpath \<Rightarrow> fpath \<Rightarrow> file_system \<Rightarrow> (string + unit) \<times> file_system" where
  "copy_file hf src dst fs =
    (case hf (HCopy src) of
       Some e \<Rightarrow> (Inl e, fs)
     | None \<Rightarrow>
         (case walk 40 fs [] src of
            Inl e \<Rightarrow> (Inl (show_fs_error e), fs)
          | Inr q \<Rightarrow>
              (case map_of fs q of
                 Some (NFile content) \<Rightarrow> put_file dst content fs
               | _ \<Rightarrow> (Inl ''the source path is neither a regular file nor a symlink to a regular file'', fs))))"

definition path_bytes :: "fpath \<Rightarrow> nat" where
  "path_bytes p = sum_list (map (\<lambda>c. Suc (length c)) p)"

definition PATH_MAX :: nat where "PATH_MAX = 4096"

text \<open>\<open>merge\<close> is the variant of the snapshotter, which removes an existing entry before it creates a link.\<close>

function copy_tree :: "host_faults \<Rightarrow> bool \<Rightarrow> fpath \<Rightarrow> fpath \<Rightarrow> (file_system, unit) step"
  and copy_entries :: "host_faults \<Rightarrow> bool \<Rightarrow> fpath \<Rightarrow> fpath \<Rightarrow> string list \<Rightarrow> (file_system, unit) step" where
  "copy_tree hf merge src dst fs =
     (if path_bytes src \<ge> PATH_MAX then
        (Inl (RootfsError (''failed to read dir '' @ show_path src @ '': File name too long (os error 36)'')), fs)
      else
        (case mk_dirs hf dst fs of
           (Inl e, fs1) \<Rightarrow> (Inl (RootfsError (''failed to create dir '' @ show_path dst @ '': '' @ e)), fs1)
         | (Inr _, fs1) \<Rightarrow>
             (case dir_names hf src fs1 of
                Inl e \<Rightarrow> (Inl (RootfsError (''failed to read dir '' @ show_path src @ '': '' @ e)), fs1)
              | Inr names \<Rightarrow> copy_entries hf merge src dst names fs1)))"
| "copy_entries hf merge src dst [] fs = (Inr (), fs)"
| "copy_entries hf merge src dst (name # names) fs =
     (let src_path = src @ [name]; dst_path = dst @ [name] in
      case hf (HEntry src_path) of
        Some e \<Rightarrow> (Inl (RootfsError (''failed to read entry: '' @ e)), fs)
      | None \<Rightarrow>
      (case host_stat hf src_path fs of
         Inl e \<Rightarrow> (Inl (RootfsError (''failed to stat '' @ show_path src_path @ '': '' @ show_fs_error e)), fs)
       | Inr (NSymlink target) \<Rightarrow>
           (case hf (HReadLink src_path) of
              Some e \<Rightarrow> (Inl (RootfsError (''failed to read symlink '' @ show_path src_path @ '': '' @ e)), fs)
            | None \<Rightarrow>
                (case make_link hf target dst_path (if merge then unlink hf dst_path fs else fs) of
                   (Inl e, fs1) \<Rightarrow> (Inl (RootfsError (''failed to create symlink '' @ show_path dst_path @
                      (if merge then '' -> '' else '' '' @ [CHR 0xE2, CHR 0x86, CHR 0x92] @ '' '') @ target @ '': '' @ e)), fs1)
                 | (Inr _, fs1) \<Rightarrow> copy_entries hf merge src dst names fs1))
       | Inr NDir \<Rightarrow>
           (if path_bytes src \<ge> PATH_MAX then
              (Inl (RootfsError (''failed to read dir '' @ show_path src_path @ '': File name too long (os error 36)'')), fs)
            else
              (case copy_tree hf merge src_path dst_path fs of
                 (Inl e, fs1) \<Rightarrow> (Inl e, fs1)
               | (Inr _, fs1) \<Rightarrow> copy_entries hf merge src dst names fs1))
       | Inr (NFile _) \<Rightarrow>
           (case copy_file hf src_path dst_path fs of
              (Inl e, fs1) \<Rightarrow> (Inl (RootfsError (''failed to copy '' @ show_path src_path @
                 (if merge then '' -> '' else '' '' @ [CHR 0xE2, CHR 0x86, CHR 0x92] @ '' '') @ show_path dst_path @ '': '' @ e)), fs1)
            | (Inr _, fs1) \<Rightarrow> copy_entries hf merge src dst names fs1)))"
  by pat_completeness auto

termination
proof (relation "inv_image (less_than <*lex*> less_than <*lex*> less_than)
    (\<lambda>x. case x of
       Inl (hf, merge, src, dst, fs) \<Rightarrow> (PATH_MAX - path_bytes src, 1, 0 :: nat)
     | Inr (hf, merge, src, dst, names, fs) \<Rightarrow> (PATH_MAX - path_bytes src, 0, length names))")
qed (auto simp: path_bytes_def)

definition copy_dir_recursive :: "host_faults \<Rightarrow> fpath \<Rightarrow> fpath \<Rightarrow> (file_system, unit) step" where
  "copy_dir_recursive hf = copy_tree hf True"

definition copy_rootfs :: "host_faults \<Rightarrow> fpath \<Rightarrow> fpath \<Rightarrow> (file_system, unit) step" where
  "copy_rootfs hf = copy_tree hf False"

fun fallback_copy :: "host_faults \<Rightarrow> fpath list \<Rightarrow> fpath \<Rightarrow> (file_system, unit) step" where
  "fallback_copy hf [] merged fs = (Inr (), fs)"
| "fallback_copy hf (layer # layers) merged fs =
     (case (if path_exists fs layer then copy_dir_recursive hf layer merged fs else (Inr (), fs)) of
        (Inl e, fs1) \<Rightarrow> (Inl e, fs1)
      | (Inr _, fs1) \<Rightarrow> fallback_copy hf layers merged fs1)"

end
