(* ===== verification/Linux_Policy.thy ===== *)
theory Linux_Policy
  imports Host_Files Oci_Runtime
begin

text \<open>
  What the Linux backend makes of a policy (\<open>rauhad/src/backend/linux/mod.rs\<close>): which controls it can
  honour, admission, and the capabilities, the seccomp profile, the devices and the mounts of a
  container. The builders of the specification crate only assemble their arguments; its capability
  parser and its default mounts are parameters, as are the modes of directories.
\<close>

subsection \<open>Admission\<close>

definition path_starts_with :: "string \<Rightarrow> string \<Rightarrow> bool" where
  "path_starts_with p base = prefix (path_components base) (path_components p)"

definition safe_writable_path :: "string \<Rightarrow> string list \<Rightarrow> bool" where
  "safe_writable_path path roots =
    (starts_with path ''/'' \<and> path_components path \<noteq> [RootDir] \<and>
     \<not> list_ex (path_starts_with path) roots \<and>
     list_all (\<lambda>c. case c of RootDir \<Rightarrow> True | Normal _ \<Rightarrow> True | _ \<Rightarrow> False) (path_components path))"

definition device_numbers :: "string \<Rightarrow> (int \<times> int) option" where
  "device_numbers path =
    (if path = ''/dev/null'' then Some (1, 3)
     else if path = ''/dev/zero'' then Some (1, 5)
     else if path = ''/dev/full'' then Some (1, 7)
     else if path = ''/dev/random'' then Some (1, 8)
     else if path = ''/dev/urandom'' then Some (1, 9)
     else None)"

definition unsupported_linux_controls :: "ZonePolicy \<Rightarrow> string list \<Rightarrow> string list" where
  "unsupported_linux_controls policy roots =
    (if list_ex (\<lambda>p. \<not> safe_writable_path p roots) (writable_paths (zpol_filesystem policy))
     then [''filesystem.writable_paths''] else []) @
    (if list_ex (\<lambda>p. device_numbers p = None) (dp_allowed (zpol_devices policy)) then [''devices.allowed''] else [])"

definition admit_linux_policy :: "ZonePolicy \<Rightarrow> string list \<Rightarrow> string list \<Rightarrow> unit rresult" where
  "admit_linux_policy policy skipped roots =
    (let unsupported = unsupported_linux_controls policy roots @ map (\<lambda>hook. ''lsm.'' @ hook) skipped in
     if unsupported = [] then Inr ()
     else case admission policy of
       Strict \<Rightarrow> Inl (InvalidPolicy (''strict policy requests unsupported or unavailable Linux controls: '' @ join '', '' unsupported))
     | Audit \<Rightarrow> Inr ())"

subsection \<open>Capabilities, system calls and devices\<close>

record LinuxCapabilities =
  lc_bounding :: "string list"
  lc_effective :: "string list"
  lc_inheritable :: "string list"
  lc_permitted :: "string list"
  lc_ambient :: "string list"

text \<open>\<open>known\<close> is the capability parser: the names it accepts.\<close>

definition oci_capability :: "(string \<Rightarrow> bool) \<Rightarrow> string \<Rightarrow> string rresult" where
  "oci_capability known name =
    (case strip_prefix (canonical_linux_capability_name name) ''CAP_'' of
       Some c \<Rightarrow> if known c then Inr c else Inl (InvalidPolicy (''unknown capability: '' @ name))
     | None \<Rightarrow> Inl (InvalidPolicy (''unknown capability: '' @ name)))"

definition oci_capabilities :: "(string \<Rightarrow> bool) \<Rightarrow> ZonePolicy \<Rightarrow> LinuxCapabilities rresult" where
  "oci_capabilities known policy =
    and_then (collect_results (oci_capability known) (cp_allowed (zpol_capabilities policy))) (\<lambda>caps.
    Inr \<lparr>lc_bounding = caps, lc_effective = caps, lc_inheritable = caps, lc_permitted = caps, lc_ambient = caps\<rparr>)"

datatype LinuxSeccompAction = ScmpActErrno | ScmpActNotify | ScmpActAllow

record LinuxSyscall =
  ls_names :: "string list"
  ls_action :: LinuxSeccompAction
  ls_errno_ret :: "u32 option"

record LinuxSeccomp =
  sc_default_action :: LinuxSeccompAction
  sc_syscalls :: "LinuxSyscall list"
  sc_listener_path :: "string option"

definition EPERM :: u32 where "EPERM = 1"

definition denied_rules :: "ZonePolicy \<Rightarrow> LinuxSyscall list" where
  "denied_rules policy =
    (if sp_deny (zpol_syscalls policy) = [] then []
     else [\<lparr>ls_names = sp_deny (zpol_syscalls policy), ls_action = ScmpActErrno, ls_errno_ret = Some EPERM\<rparr>])"

definition brokered_rules :: "ZonePolicy \<Rightarrow> string option \<Rightarrow> LinuxSyscall list rresult" where
  "brokered_rules policy listener =
    (let deny = sp_deny (zpol_syscalls policy); broker = sp_broker (zpol_syscalls policy) in
     if broker = [] then Inr []
     else if listener = None then Inl (InvalidPolicy ''brokered syscalls require a seccomp listener path'')
     else case find (\<lambda>name. name \<in> set deny) broker of
       Some name \<Rightarrow> Inl (InvalidPolicy (''syscall '' @ name @ '' is listed in both syscalls.deny and syscalls.broker '' @ em_dash @
         '' remove it from one: deny would silently win and the broker never runs''))
     | None \<Rightarrow>
         (case find (\<lambda>name. name \<notin> set BROKERABLE_SYSCALLS) broker of
            Some name \<Rightarrow> Inl (InvalidPolicy (''brokered syscall not supported by the shim broker: '' @ name @
              '' (supported: '' @ join '', '' BROKERABLE_SYSCALLS @ '')''))
          | None \<Rightarrow> Inr [\<lparr>ls_names = broker, ls_action = ScmpActNotify, ls_errno_ret = None\<rparr>]))"

definition oci_seccomp :: "ZonePolicy \<Rightarrow> string option \<Rightarrow> LinuxSeccomp option rresult" where
  "oci_seccomp policy listener =
    (if sp_deny (zpol_syscalls policy) = [] \<and> sp_broker (zpol_syscalls policy) = [] then Inr None
     else
       and_then (brokered_rules policy listener) (\<lambda>brokered.
       Inr (Some \<lparr>sc_default_action = ScmpActAllow, sc_syscalls = denied_rules policy @ brokered, sc_listener_path = listener\<rparr>)))"

record LinuxDevice =
  ld_path :: string
  ld_major :: int
  ld_minor :: int
  ld_file_mode :: nat
  ld_uid :: nat
  ld_gid :: nat

text \<open>Every device is a character device; \<open>438\<close> is the mode \<open>0o666\<close>.\<close>

definition oci_devices :: "ZonePolicy \<Rightarrow> LinuxDevice list" where
  "oci_devices policy =
    concat (map (\<lambda>path. case device_numbers path of
        None \<Rightarrow> []
      | Some (major, minor) \<Rightarrow> [\<lparr>ld_path = path, ld_major = major, ld_minor = minor, ld_file_mode = 438, ld_uid = 0, ld_gid = 0\<rparr>])
      (dp_allowed (zpol_devices policy)))"

subsection \<open>Mounts\<close>

definition writable_copy_dir :: "fpath \<Rightarrow> string \<Rightarrow> fpath" where
  "writable_copy_dir rootfs relative = butlast rootfs @ [''writable'', replace_char CHR ''/'' CHR ''_'' relative]"

fun oct :: "nat \<Rightarrow> string" where
  "oct n = (if n < 8 then [digit_char n] else oct (n div 8) @ [digit_char (n mod 8)])"

declare oct.simps [simp del]

fun check_components :: "host_faults \<Rightarrow> string \<Rightarrow> Component list \<Rightarrow> fpath \<Rightarrow> file_system \<Rightarrow> fpath rresult" where
  "check_components hf declared [] current fs = Inr current"
| "check_components hf declared (Normal c # cs) current fs =
     (case host_stat hf (current @ [c]) fs of
        Inl e \<Rightarrow> Inl (InvalidPolicy (''writable path '' @ declared @ '' is not present in the image: '' @ show_fs_error e))
      | Inr (NSymlink _) \<Rightarrow> Inl (InvalidPolicy (''writable path crosses a symlink: '' @ declared))
      | Inr _ \<Rightarrow> check_components hf declared cs (current @ [c]) fs)"
| "check_components hf declared (_ # cs) current fs = Inl (InvalidPolicy (''unsafe writable path: '' @ declared))"

definition writable_mount ::
  "host_faults \<Rightarrow> (fpath \<Rightarrow> nat) \<Rightarrow> fpath \<Rightarrow> string \<Rightarrow> (file_system, Mount) step" where
  "writable_mount hf mode rootfs declared fs =
    (let relative = trim_start_matches CHR ''/'' declared in
     case check_components hf declared (path_components relative) rootfs fs of
       Inl e \<Rightarrow> (Inl e, fs)
     | Inr current \<Rightarrow>
         (case walk 40 fs [] current of
            Inl e \<Rightarrow> (Inl (RootfsError (''failed to inspect writable path '' @ declared @ '': '' @ show_fs_error e)), fs)
          | Inr q \<Rightarrow>
              if q \<noteq> [] \<and> map_of fs q \<noteq> Some NDir then (Inl (InvalidPolicy (''writable path is not a directory: '' @ declared)), fs)
              else
                let shadows_content = (case dir_names hf current fs of Inl e \<Rightarrow> False | Inr names \<Rightarrow> names \<noteq> []);
                    copy_dir = writable_copy_dir rootfs relative
                in if shadows_content then
                     (case copy_dir_recursive hf current copy_dir fs of
                        (Inl e, fs1) \<Rightarrow> (Inl (RootfsError (''failed to copy image content of writable path '' @ declared @ '' into '' @
                           show_path copy_dir @ '': '' @ show_error e)), fs1)
                      | (Inr _, fs1) \<Rightarrow>
                          (Inr \<lparr>mt_destination = declared, mt_typ = ''bind'', mt_source = show_path copy_dir, mt_options = [''rw'']\<rparr>, fs1))
                   else
                     (Inr \<lparr>mt_destination = declared, mt_typ = ''tmpfs'', mt_source = ''tmpfs'',
                        mt_options = [''rw'', ''nosuid'', ''nodev'', ''noexec'', ''mode='' @ oct (mode q mod 4096), ''size=65536k'']\<rparr>, fs)))"

fun writable_mounts ::
  "host_faults \<Rightarrow> (fpath \<Rightarrow> nat) \<Rightarrow> fpath \<Rightarrow> string list \<Rightarrow> Mount list \<Rightarrow> (file_system, Mount list) step" where
  "writable_mounts hf mode rootfs [] mounts fs = (Inr mounts, fs)"
| "writable_mounts hf mode rootfs (d # ds) mounts fs =
     (case writable_mount hf mode rootfs d fs of
        (Inl e, fs1) \<Rightarrow> (Inl e, fs1)
      | (Inr m, fs1) \<Rightarrow> writable_mounts hf mode rootfs ds (mounts @ [m]) fs1)"

definition oci_mounts ::
  "host_faults \<Rightarrow> (fpath \<Rightarrow> nat) \<Rightarrow> Mount list \<Rightarrow> ZonePolicy \<Rightarrow> fpath \<Rightarrow> string list \<Rightarrow> (file_system, Mount list) step" where
  "oci_mounts hf mode default_mounts policy rootfs roots =
    writable_mounts hf mode rootfs
      (filter (\<lambda>p. safe_writable_path p roots) (writable_paths (zpol_filesystem policy)))
      (filter (\<lambda>m. path_components (mt_destination m) \<noteq> path_components ''/sys/fs/cgroup'') default_mounts)"

subsection \<open>Inode ownership\<close>

datatype InodeCheckPlan = FailLive | Mismatch nat nat | DiskError string | Attest "u64 set" string

definition inode_ownership_check_plan :: "bool \<Rightarrow> string + u64 list \<Rightarrow> u64 list \<Rightarrow> InodeCheckPlan" where
  "inode_ownership_check_plan has_processes disk recorded =
    (case disk of
       Inl e \<Rightarrow> DiskError e
     | Inr disk \<Rightarrow>
         if has_processes then
           if set disk = {} then FailLive
           else if set disk \<noteq> set recorded then Mismatch (card (set recorded)) (card (set disk))
           else Attest (set disk) []
         else Attest (set recorded) ('' (zone idle '' @ em_dash @ '' attesting recorded set)''))"

subsection \<open>Admission is what it says\<close>

text \<open>A strict policy is admitted exactly when every writable path is safe, every device is known and no
  hook was skipped; an audit policy is always admitted.\<close>

lemma admission_decides:
  "admit_linux_policy policy skipped roots = Inr () \<longleftrightarrow>
    admission policy = Audit \<or>
    (list_all (\<lambda>p. safe_writable_path p roots) (writable_paths (zpol_filesystem policy)) \<and>
     list_all (\<lambda>d. device_numbers d \<noteq> None) (dp_allowed (zpol_devices policy)) \<and> skipped = [])"
  by (cases "admission policy")
    (auto simp: admit_linux_policy_def unsupported_linux_controls_def list_ex_iff list_all_iff
      simp del: not_None_eq)

text \<open>The roots of the configuration only forbid. Its documentation calls them paths that are always
  safe, and says that more of them admit more.\<close>

text \<open>A path under one of the configured safe roots is never a safe writable path, and adding roots never makes
  a path safe.\<close>

lemma safe_roots_only_forbid:
  "(r \<in> set roots \<and> path_starts_with p r \<longrightarrow> \<not> safe_writable_path p roots) \<and>
   (safe_writable_path p (roots' @ roots) \<longrightarrow> safe_writable_path p roots)"
  by (auto simp: safe_writable_path_def list_ex_iff)

subsection \<open>The seccomp profile\<close>

text \<open>The action of a profile on a system call: the first rule that names it, else the default.\<close>

fun rules_action :: "LinuxSyscall list \<Rightarrow> string \<Rightarrow> LinuxSeccompAction option" where
  "rules_action [] name = None"
| "rules_action (r # rs) name = (if name \<in> set (ls_names r) then Some (ls_action r) else rules_action rs name)"

definition seccomp_action :: "LinuxSeccomp option \<Rightarrow> string \<Rightarrow> LinuxSeccompAction" where
  "seccomp_action prof name =
    (case prof of
       None \<Rightarrow> ScmpActAllow
     | Some p \<Rightarrow> (case rules_action (sc_syscalls p) name of Some a \<Rightarrow> a | None \<Rightarrow> sc_default_action p))"

lemma brokered_rules_Inr:
  assumes "brokered_rules policy listener = Inr rs"
  shows "(\<exists>a. rules_action rs name = Some a) \<longleftrightarrow> name \<in> set (sp_broker (zpol_syscalls policy))"
    and "rules_action rs name = Some a \<Longrightarrow> a = ScmpActNotify \<and> listener \<noteq> None \<and> name \<in> set BROKERABLE_SYSCALLS \<and>
      name \<notin> set (sp_deny (zpol_syscalls policy))"
  using assms by (auto simp: brokered_rules_def Let_def find_None_iff split: if_splits option.splits)

text \<open>C38: the profile of a container denies exactly the denied calls, suspends exactly the brokered ones and allows
  the rest; a call is suspended only where there is a listener and the broker can judge it.\<close>

theorem seccomp_profile_is_exact:
  assumes "oci_seccomp policy listener = Inr prof"
  shows "seccomp_action prof name =
      (if name \<in> set (sp_deny (zpol_syscalls policy)) then ScmpActErrno
       else if name \<in> set (sp_broker (zpol_syscalls policy)) then ScmpActNotify else ScmpActAllow) \<and>
    (seccomp_action prof name = ScmpActNotify \<longrightarrow>
      name \<in> set BROKERABLE_SYSCALLS \<and> listener \<noteq> None \<and> map_option sc_listener_path prof = Some listener)"
proof (cases prof)
  case None
  then show ?thesis using assms by (auto simp: oci_seccomp_def seccomp_action_def result_simps split: if_splits)
next
  case (Some p)
  then obtain rs where rs: "brokered_rules policy listener = Inr rs"
      "p = \<lparr>sc_default_action = ScmpActAllow, sc_syscalls = denied_rules policy @ rs, sc_listener_path = listener\<rparr>"
    using assms by (auto simp: oci_seccomp_def result_simps split: if_splits)
  have "rules_action (denied_rules policy @ rs) name =
      (if name \<in> set (sp_deny (zpol_syscalls policy)) then Some ScmpActErrno else rules_action rs name)"
    by (auto simp: denied_rules_def)
  then show ?thesis
    using Some rs brokered_rules_Inr [OF rs(1), of name]
    by (auto simp: seccomp_action_def split: option.splits)
qed

definition demo_brokered :: ZonePolicy where
  "demo_brokered = ZonePolicy_default\<lparr>zpol_syscalls := \<lparr>sp_deny = [''ptrace''], sp_broker = [''openat'']\<rparr>\<rparr>"

theorem seccomp_profile_is_exact_witness:
  "\<exists>prof. oci_seccomp demo_brokered (Some ''/run/b.sock'') = Inr prof \<and> seccomp_action prof ''openat'' = ScmpActNotify \<and>
    seccomp_action prof ''ptrace'' = ScmpActErrno \<and> seccomp_action prof ''read'' = ScmpActAllow"
proof -
  obtain prof where p: "oci_seccomp demo_brokered (Some ''/run/b.sock'') = Inr prof"
    by (simp add: oci_seccomp_def brokered_rules_def demo_brokered_def ZonePolicy_default_def BROKERABLE_SYSCALLS_def)
  show ?thesis
    using p seccomp_profile_is_exact [OF p, of "''openat''"] seccomp_profile_is_exact [OF p, of "''ptrace''"]
      seccomp_profile_is_exact [OF p, of "''read''"]
    by (simp add: demo_brokered_def ZonePolicy_default_def)
qed

subsection \<open>Capabilities agree with the kernel\<close>

lemma capability_bit_bound: "linux_capability_bit c = Some b \<Longrightarrow> b < 64"
proof -
  assume "linux_capability_bit c = Some b"
  then have "b < length LINUX_CAPABILITIES" unfolding linux_capability_bit_def by (rule conjunct1 [OF position_Some])
  moreover have "length LINUX_CAPABILITIES = 41" by (simp add: LINUX_CAPABILITIES_def)
  ultimately show ?thesis by simp
qed

lemma mask_from_bits:
  "capabilities_to_mask_from m caps = Inr m' \<Longrightarrow>
   bit m' b \<longleftrightarrow> bit m b \<or> (\<exists>c \<in> set caps. linux_capability_bit c = Some b)"
proof (induction caps arbitrary: m)
  case (Cons c caps)
  then obtain i where i: "linux_capability_bit c = Some i" "capabilities_to_mask_from (m OR push_bit i 1) caps = Inr m'"
    by (auto simp: result_simps)
  have "bit (push_bit i (1 :: u64)) b \<longleftrightarrow> b = i" using capability_bit_bound [OF i(1)] by (auto simp: bit_simps)
  then show ?case using Cons.IH [OF i(2)] i(1) by (auto simp: bit_or_iff)
qed simp

text \<open>The capabilities handed to the runtime are the ones in the kernel's mask of the zone, in all five sets.\<close>

lemma container_capabilities_match_mask:
  assumes "oci_capabilities known policy = Inr caps" "capabilities_to_mask (cp_allowed (zpol_capabilities policy)) = Inr m"
  shows "(bit m b \<longleftrightarrow> (\<exists>c \<in> set (lc_permitted caps). position (''CAP_'' @ c) LINUX_CAPABILITIES = Some b)) \<and>
    {lc_bounding caps, lc_effective caps, lc_inheritable caps, lc_ambient caps} = {lc_permitted caps}"
proof -
  have all: "list_all2 (\<lambda>n c. oci_capability known n = Inr c) (cp_allowed (zpol_capabilities policy)) (lc_permitted caps)"
    and same: "{lc_bounding caps, lc_effective caps, lc_inheritable caps, lc_ambient caps} = {lc_permitted caps}"
    using assms(1) by (auto simp: oci_capabilities_def result_simps)
  have pos: "position (''CAP_'' @ c) LINUX_CAPABILITIES = linux_capability_bit n" if "oci_capability known n = Inr c" for n c
  proof -
    let ?n = "canonical_linux_capability_name n"
    have "strip_prefix ?n ''CAP_'' = Some c" using that by (auto simp: oci_capability_def split: option.splits if_splits)
    then have "''CAP_'' @ c = ?n" by (auto simp: strip_prefix_def starts_with_iff split: if_splits)
    then show ?thesis unfolding linux_capability_bit_def by (rule arg_cong)
  qed
  have "\<forall>n \<in> set (cp_allowed (zpol_capabilities policy)). \<exists>c \<in> set (lc_permitted caps). oci_capability known n = Inr c"
      "\<forall>c \<in> set (lc_permitted caps). \<exists>n \<in> set (cp_allowed (zpol_capabilities policy)). oci_capability known n = Inr c"
    using all by (induction rule: list_all2_induct) auto
  then have "(\<exists>c \<in> set (lc_permitted caps). position (''CAP_'' @ c) LINUX_CAPABILITIES = Some b) \<longleftrightarrow>
      (\<exists>n \<in> set (cp_allowed (zpol_capabilities policy)). linux_capability_bit n = Some b)"
    using pos by metis
  then show ?thesis using mask_from_bits [of 0 _ m b] assms(2) same by (simp add: capabilities_to_mask_def)
qed

subsection \<open>Inode ownership is attested from the record\<close>

text \<open>Whatever is attested is the recorded set; for a live zone it is also what is on disk, and not empty.\<close>

lemma attested_set:
  "inode_ownership_check_plan live disk recorded = Attest S note \<Longrightarrow>
   S = set recorded \<and> (live \<longrightarrow> (\<exists>d. disk = Inr d \<and> set d = S \<and> S \<noteq> {}))"
  by (auto simp: inode_ownership_check_plan_def split: sum.splits if_splits)

subsection \<open>Two writable paths, one copy\<close>

text \<open>The content of a writable path is copied to a directory named after it with slashes as underscores.\<close>

lemma copy_dirs_collide: "writable_copy_dir rootfs ''a_b'' = writable_copy_dir rootfs ''a/b''"
  by (simp add: writable_copy_dir_def replace_char_def)

definition demo_image :: file_system where
  "demo_image =
    [([''c''], NDir), ([''c'', ''r''], NDir), ([''c'', ''r'', ''a_b''], NDir), ([''c'', ''r'', ''a_b'', ''x''], NSymlink ''/etc/passwd''),
     ([''c'', ''r'', ''a''], NDir), ([''c'', ''r'', ''a'', ''b''], NDir), ([''c'', ''r'', ''a'', ''b'', ''x''], NFile ''evil''),
     ([''etc''], NDir), ([''etc'', ''passwd''], NFile ''root'')]"

definition demo_writable :: ZonePolicy where
  "demo_writable = ZonePolicy_default\<lparr>zpol_filesystem := FilesystemPolicy_default\<lparr>writable_paths := [''/a_b'', ''/a/b'']\<rparr>\<rparr>"

text \<open>With an image that has a link in one of two writable paths that share their copy, preparing the mounts
  of a container writes a file of the host.\<close>

lemma copy_up_writes_host_file:
  "map_of demo_image [''etc'', ''passwd''] = Some (NFile ''root'') \<and>
   map_of (snd (oci_mounts (\<lambda>_. None) (\<lambda>_. 0) [] demo_writable [''c'', ''r''] [''/proc'', ''/sys'', ''/dev'', ''/run''] demo_image))
     [''etc'', ''passwd''] = Some (NFile ''evil'')"
proof -
  have safe: "safe_writable_path ''/a_b'' [''/proc'', ''/sys'', ''/dev'', ''/run'']" "safe_writable_path ''/a/b'' [''/proc'', ''/sys'', ''/dev'', ''/run'']"
    by (simp_all add: safe_writable_path_def path_starts_with_def path_components_def starts_with_def)
  show ?thesis
    using safe
    by (simp add: oci_mounts_def demo_writable_def writable_mount_def demo_image_def path_components_def trim_start_matches_def
        starts_with_def host_stat_def last_entry_def dir_names_def children_def writable_copy_dir_def replace_char_def
        copy_dir_recursive_def mk_dirs_def fs_put_def path_bytes_def PATH_MAX_def make_link_def unlink_def copy_file_def
        put_file_def FilesystemPolicy_default_def Let_def)
qed

end
