(* ===== verification/Linux_Backend.thy ===== *)
theory Linux_Backend
  imports Linux_Enforcer Linux_Cgroup Linux_Net Linux_Policy Daemon_Config Zone_Registry
begin

text \<open>
  The Linux isolation backend (\<open>rauhad/src/backend/linux/mod.rs\<close>): its tables and the zone operations of
  \<open>IsolationBackend\<close>, over the enforcer, the cgroups, the network tools and the file system. Locks are
  not poisoned. The tables are association lists; the loops over them and over the set of allowed
  peers run in list order. A UUID that the code draws is an argument.
\<close>

record 'w LinuxBackend =
  lb_root :: fpath
  lb_enforcer :: LinuxEnforcer
  lb_cgroup :: cgroup_fs
  next_zone_id :: u32
  zone_id_map :: "(string \<times> u32) list"
  zone_name_map :: "(string \<times> string) list"
  registered_inodes :: "string \<rightharpoonup> u64 list"
  zone_policies :: "string \<rightharpoonup> ZonePolicy"
  zone_degradations :: "string \<rightharpoonup> string list"
  ip_allocator :: IpAllocator
  lb_config :: DaemonConfig
  lb_world :: 'w
  lb_files :: file_system

text \<open>What is outside: the network tools, the shim behind a socket (its answer and the process lists of
  the cgroups it changed), the removal of a socket file, the listings of the cgroup slice and of the namespace
  directory, where they can be read, and the inodes of the file system.\<close>

record 'w host_env =
  he_net :: "'w net_tools"
  he_shim :: "string \<Rightarrow> ShimRequest \<Rightarrow> 'w \<Rightarrow> (ShimResponse rresult \<times> (string \<Rightarrow> string option)) \<times> 'w"
  he_remove_file :: "string \<Rightarrow> 'w \<Rightarrow> 'w"
  he_slice_entries :: "cgroup_fs \<Rightarrow> string list option"
  he_netns_entries :: "'w \<Rightarrow> string list option"
  he_dirs :: "file_system \<Rightarrow> dirs"
  he_files :: host_faults

definition in_enforcer :: "(LinuxEnforcer, 'a) step \<Rightarrow> ('w LinuxBackend, 'a) step" where
  "in_enforcer = on_part lb_enforcer (\<lambda>e b. b\<lparr>lb_enforcer := e\<rparr>)"

definition in_cgroup :: "(cgroup_fs, 'a) step \<Rightarrow> ('w LinuxBackend, 'a) step" where
  "in_cgroup = on_part lb_cgroup (\<lambda>c b. b\<lparr>lb_cgroup := c\<rparr>)"

definition in_world :: "('w, 'a) step \<Rightarrow> ('w LinuxBackend, 'a) step" where
  "in_world = on_part lb_world (\<lambda>w b. b\<lparr>lb_world := w\<rparr>)"

text \<open>\<open>let _ = m\<close> as a change of the state.\<close>

definition run_step :: "('s, 'a) step \<Rightarrow> 's \<Rightarrow> 's" where
  "run_step m s = snd (m s)"

subsection \<open>Construction\<close>

definition subnet_cidr :: "IpAllocator \<Rightarrow> string" where
  "subnet_cidr al = show_ipv4 (ia_subnet al) @ ''/'' @ dec (ia_prefix_len al)"

text \<open>The enforcer and the cgroups are built from what the machine is; an allocator that cannot be
  built is a panic, which validation of the configuration excludes.\<close>

definition LinuxBackend_new ::
  "'w host_env \<Rightarrow> machine \<Rightarrow> string \<Rightarrow> string \<Rightarrow> DaemonConfig \<Rightarrow> file_system \<Rightarrow> cgroup_fs \<Rightarrow> 'w \<Rightarrow>
   ('w LinuxBackend) rresult option" where
  "LinuxBackend_new he mc project_root root config files cg w =
    (case CgroupManager_new cg of
       (Inl e, _) \<Rightarrow> Some (Inl e)
     | (Inr _, cg1) \<Rightarrow>
         (case subnet_octets config of
            Inl e \<Rightarrow> Some (Inl e)
          | Inr (net, plen) \<Rightarrow>
              (case IpAllocator_new net plen of
                 None \<Rightarrow> None
               | Some al \<Rightarrow>
                   (case LinuxEnforcer_new mc project_root root (pc_bpf_pin_dir (dc_paths config)) of
                      Inl e \<Rightarrow> Some (Inl e)
                    | Inr enforcer \<Rightarrow>
                        let bridge = nc_bridge (dc_network config);
                            w1 = run_step (ensure_bridge (he_net he) (ip_gateway al) (ia_prefix_len al) bridge) w
                        in (case ensure_nat (he_net he) (subnet_cidr al) bridge w1 of
                              (Inl e, w2) \<Rightarrow> Some (Inl e)
                            | (Inr _, w2) \<Rightarrow>
                                Some (Inr \<lparr>lb_root = split_on CHR ''/'' root, lb_enforcer = enforcer, lb_cgroup = cg1,
                                  next_zone_id = 1, zone_id_map = [], zone_name_map = [], registered_inodes = Map.empty,
                                  zone_policies = Map.empty, zone_degradations = Map.empty, ip_allocator = al,
                                  lb_config = config, lb_world = w2, lb_files = files\<rparr>))))))"

subsection \<open>Identifiers and degradations\<close>

definition allocate_zone_id :: "string \<Rightarrow> ('w LinuxBackend, u32) step" where
  "allocate_zone_id uuid b =
    (let i = next_zone_id b
     in (Inr i, b\<lparr>next_zone_id := i + 1, zone_id_map := table_insert uuid i (zone_id_map b)\<rparr>))"

definition get_zone_id :: "string \<Rightarrow> 'w LinuxBackend \<Rightarrow> u32 option" where
  "get_zone_id uuid b = map_of (zone_id_map b) uuid"

definition remove_zone_id :: "string \<Rightarrow> 'w LinuxBackend \<Rightarrow> 'w LinuxBackend" where
  "remove_zone_id uuid b = b\<lparr>zone_id_map := table_remove uuid (zone_id_map b)\<rparr>"

definition set_zone_name :: "string \<Rightarrow> string \<Rightarrow> 'w LinuxBackend \<Rightarrow> 'w LinuxBackend" where
  "set_zone_name name uuid b = b\<lparr>zone_name_map := table_insert name uuid (zone_name_map b)\<rparr>"

definition record_degradation :: "string \<Rightarrow> string \<Rightarrow> 'w LinuxBackend \<Rightarrow> 'w LinuxBackend" where
  "record_degradation name control b =
    b\<lparr>zone_degradations := (zone_degradations b)(name \<mapsto>
      insort_insert control (case zone_degradations b name of Some cs \<Rightarrow> cs | None \<Rightarrow> []))\<rparr>"

definition clear_degradation :: "string \<Rightarrow> string \<Rightarrow> 'w LinuxBackend \<Rightarrow> 'w LinuxBackend" where
  "clear_degradation name control b =
    (case zone_degradations b name of
       Some cs \<Rightarrow> b\<lparr>zone_degradations := (zone_degradations b)(name \<mapsto> filter (\<lambda>c. c \<noteq> control) cs)\<rparr>
     | None \<Rightarrow> b)"

definition admit :: "ZonePolicy \<Rightarrow> ('w LinuxBackend, unit) step" where
  "admit policy = asks (\<lambda>b. admit_linux_policy policy (le_skipped_hooks (lb_enforcer b))
     (safe_writable_roots (dc_policy (lb_config b))))"

text \<open>A control that fails is an error for a strict policy and a recorded degradation for an audited one.\<close>

definition degradable ::
  "PolicyAdmission \<Rightarrow> string \<Rightarrow> string \<Rightarrow> bool \<Rightarrow> ('w LinuxBackend, unit) step \<Rightarrow> ('w LinuxBackend, unit) step" where
  "degradable adm name control clears m b =
    (case m b of
       (Inr _, b1) \<Rightarrow> (Inr (), if clears then clear_degradation name control b1 else b1)
     | (Inl e, b1) \<Rightarrow> (case adm of Strict \<Rightarrow> (Inl e, b1) | Audit \<Rightarrow> (Inr (), record_degradation name control b1)))"

definition apply_nftables_for_zone :: "'w host_env \<Rightarrow> ZoneHandle \<Rightarrow> ZonePolicy \<Rightarrow> ('w LinuxBackend, unit) step" where
  "apply_nftables_for_zone he zone policy b =
    (let veth = veth_host_name_for (he_net he) (zh_name zone) (lb_world b)
     in degradable (admission policy) (zh_name zone) ''network:nftables'' True
          (in_world (apply_zone_rules (he_net he) (zh_name zone) veth (zpol_network policy))) b)"

subsection \<open>Cross-zone communication\<close>

definition allowed_peer_ids :: "string list \<Rightarrow> 'w LinuxBackend \<Rightarrow> u32 list" where
  "allowed_peer_ids names b =
    remdups (concat (map (\<lambda>n. case map_of (zone_name_map b) n of
        Some uuid \<Rightarrow> (case map_of (zone_id_map b) uuid of Some i \<Rightarrow> [i] | None \<Rightarrow> [])
      | None \<Rightarrow> []) names))"

definition deny_both :: "u32 \<Rightarrow> u32 \<Rightarrow> (LinuxEnforcer, unit) step" where
  "deny_both z p = bind_step (le_deny_zone_comm z p) (\<lambda>_. le_deny_zone_comm p z)"

definition allow_both :: "u32 \<Rightarrow> u32 \<Rightarrow> (LinuxEnforcer, unit) step" where
  "allow_both z p = bind_step (le_allow_zone_comm z p) (\<lambda>_. le_allow_zone_comm p z)"

definition sync_bpf_allowed_comms :: "u32 \<Rightarrow> NetworkPolicy \<Rightarrow> ('w LinuxBackend, unit) step" where
  "sync_bpf_allowed_comms z net_policy b =
    (let allowed = allowed_peer_ids (allowed_zones net_policy) b;
         revoked = filter (\<lambda>p. p \<noteq> z \<and> p \<notin> set allowed) (map snd (zone_id_map b))
     in in_enforcer (bind_step (each_step (deny_both z) revoked) (\<lambda>_. each_step (allow_both z) allowed)) b)"

subsection \<open>Creating a zone\<close>

definition release_ip :: "ZoneNetworkState option \<Rightarrow> 'w LinuxBackend \<Rightarrow> 'w LinuxBackend" where
  "release_ip net_state b =
    (case net_state of Some st \<Rightarrow> b\<lparr>ip_allocator := ip_release (zn_ip st) (ip_allocator b)\<rparr> | None \<Rightarrow> b)"

definition forget_zone :: "string \<Rightarrow> 'w LinuxBackend \<Rightarrow> 'w LinuxBackend" where
  "forget_zone name b =
    b\<lparr>zone_name_map := table_remove name (zone_name_map b), zone_degradations := (zone_degradations b)(name := None)\<rparr>"

definition destroy_network :: "'w host_env \<Rightarrow> string \<Rightarrow> 'w LinuxBackend \<Rightarrow> 'w LinuxBackend" where
  "destroy_network he name b =
    run_step (in_world (destroy_netns (he_net he) name (pc_netns_dir (dc_paths (lb_config b)))))
      (run_step (in_world (destroy_veth_pair (he_net he) name)) b)"

definition rollback_zone :: "'w host_env \<Rightarrow> string \<Rightarrow> string \<Rightarrow> ZoneNetworkState option \<Rightarrow> 'w LinuxBackend \<Rightarrow> 'w LinuxBackend" where
  "rollback_zone he name uuid net_state b =
    (let b1 = destroy_network he name (release_ip net_state b);
         b2 = run_step (in_cgroup (destroy_zone_cgroup name)) b1
     in forget_zone name (remove_zone_id uuid b2))"

definition allocate_network :: "('w LinuxBackend, ZoneNetworkState) step" where
  "allocate_network b =
    (case ip_allocate (ip_allocator b) of
       (Inl e, al) \<Rightarrow> (Inl e, b\<lparr>ip_allocator := al\<rparr>)
     | (Inr ip, al) \<Rightarrow>
         (Inr \<lparr>zn_ip = ip, zn_gateway = ip_gateway al, zn_prefix_len = of_nat (ia_prefix_len al)\<rparr>, b\<lparr>ip_allocator := al\<rparr>))"

definition create_network :: "'w host_env \<Rightarrow> string \<Rightarrow> string \<Rightarrow> ZonePolicy \<Rightarrow> ('w LinuxBackend, ZoneNetworkState option) step" where
  "create_network he name uuid policy b =
    (let netns_dir = pc_netns_dir (dc_paths (lb_config b)); bridge = nc_bridge (dc_network (lb_config b)) in
     if net_mode (zpol_network policy) = Host then (Inr None, b)
     else
       bind_step (on_error allocate_network (rollback_zone he name uuid None)) (\<lambda>st.
       on_error
         (bind_step (in_world (create_netns (he_net he) name netns_dir)) (\<lambda>_.
          bind_step (degradable (admission policy) name ''network:veth'' False
            (in_world (create_veth_pair (he_net he) name (Some st) bridge))) (\<lambda>_.
          ret (Some st))))
         (rollback_zone he name uuid (Some st))) b)"

definition remove_enforcement :: "u64 \<Rightarrow> u32 \<Rightarrow> 'w LinuxBackend \<Rightarrow> 'w LinuxBackend" where
  "remove_enforcement cgroup z b =
    run_step (in_enforcer (le_remove_zone_policy z)) (run_step (in_enforcer (le_remove_zone_member cgroup)) b)"

definition lb_create_zone :: "'w host_env \<Rightarrow> string \<Rightarrow> ZoneConfig \<Rightarrow> ('w LinuxBackend, ZoneHandle) step" where
  "lb_create_zone he uuid config =
    (let name = zc_name config; policy = zc_policy config in
     bind_step (admit policy) (\<lambda>_.
     bind_step (allocate_zone_id uuid) (\<lambda>z.
     bind_step (modify_st (set_zone_name name uuid)) (\<lambda>_.
     bind_step (on_error (in_cgroup (create_zone_cgroup name)) (remove_zone_id uuid)) (\<lambda>cgroup.
     bind_step (create_network he name uuid policy) (\<lambda>net_state.
     bind_step (on_error (in_enforcer (le_set_zone_policy z policy)) (rollback_zone he name uuid net_state)) (\<lambda>_.
     bind_step (on_error (in_enforcer (le_add_zone_member cgroup z (zc_zone_type config)))
       (\<lambda>b. rollback_zone he name uuid net_state (run_step (in_enforcer (le_remove_zone_policy z)) b))) (\<lambda>_.
     bind_step (on_error (in_cgroup (apply_resources name (zpol_resources policy)))
       (\<lambda>b. rollback_zone he name uuid net_state
         (case get_zone_id uuid b of Some z \<Rightarrow> remove_enforcement cgroup z b | None \<Rightarrow> b))) (\<lambda>_.
     ret \<lparr>zh_id = uuid, zh_name = name, zh_platform_id = cgroup, zh_network_state = net_state\<rparr>)))))))))"

subsection \<open>Destroying a zone\<close>

definition shim_socket_path :: "string \<Rightarrow> 'w LinuxBackend \<Rightarrow> string" where
  "shim_socket_path name b = path_join (pc_run_dir (dc_paths (lb_config b))) (''shim-'' @ name @ ''.sock'')"

definition set_procs :: "(string \<Rightarrow> string option) \<Rightarrow> cgroup_fs \<Rightarrow> cgroup_fs" where
  "set_procs procs fs =
    fs\<lparr>cg_dirs := (\<lambda>p. map_option (\<lambda>c. c\<lparr>cg_procs := (case procs p of Some s \<Rightarrow> s | None \<Rightarrow> cg_procs c)\<rparr>) (cg_dirs fs p))\<rparr>"

definition shim_request :: "'w host_env \<Rightarrow> string \<Rightarrow> ShimRequest \<Rightarrow> ('w LinuxBackend, ShimResponse) step" where
  "shim_request he name request b =
    (case he_shim he (shim_socket_path name b) request (lb_world b) of
       ((r, procs), w) \<Rightarrow> (r, b\<lparr>lb_world := w, lb_cgroup := set_procs procs (lb_cgroup b)\<rparr>))"

definition shutdown_shim :: "'w host_env \<Rightarrow> string \<Rightarrow> 'w LinuxBackend \<Rightarrow> 'w LinuxBackend" where
  "shutdown_shim he name b =
    (if nt_exists (he_net he) (shim_socket_path name b) (lb_world b)
     then run_step (shim_request he name Shutdown) b else b)"

definition remove_stored :: "u64 list \<Rightarrow> ZoneHandle \<Rightarrow> u32 \<Rightarrow> 'w LinuxBackend \<Rightarrow> 'w LinuxBackend" where
  "remove_stored inos zone z b =
    remove_enforcement (zh_platform_id zone) z
      (if inos \<noteq> [] then run_step (in_enforcer (le_remove_inodes inos)) b else b)"

definition lb_destroy_zone :: "'w host_env \<Rightarrow> ZoneHandle \<Rightarrow> ('w LinuxBackend, unit) step" where
  "lb_destroy_zone he zone b =
    (let name = zh_name zone in
     bind_step (in_cgroup (drain_zone name)) (\<lambda>_.
     bind_step (in_cgroup (destroy_zone_cgroup name)) (\<lambda>_.
     modify_st (\<lambda>b1.
       let b2 = (remove_zone_id (zh_id zone) b1)\<lparr>registered_inodes := (registered_inodes b1)(name := None)\<rparr>;
           inos = (case registered_inodes b1 name of Some xs \<Rightarrow> xs | None \<Rightarrow> []);
           b3 = (case get_zone_id (zh_id zone) b1 of Some z \<Rightarrow> remove_stored inos zone z b2 | None \<Rightarrow> b2);
           b4 = release_ip (zh_network_state zone) b3;
           b5 = destroy_network he name (run_step (in_world (remove_zone_rules (he_net he) name)) b4);
           b6 = (forget_zone name b5)\<lparr>zone_policies := (zone_policies b5)(name := None)\<rparr>
       in b6\<lparr>lb_world := he_remove_file he (shim_socket_path name b6) (lb_world b6)\<rparr>)))
     (shutdown_shim he name b))"

subsection \<open>Policies\<close>

definition no_kernel_id :: "string \<Rightarrow> RauhaError" where
  "no_kernel_id name = BackendError (''zone '' @ name @ '' has no kernel identifier'')"

definition store_policy :: "string \<Rightarrow> ZonePolicy \<Rightarrow> 'w LinuxBackend \<Rightarrow> 'w LinuxBackend" where
  "store_policy name policy b = b\<lparr>zone_policies := (zone_policies b)(name \<mapsto> policy)\<rparr>"

definition lb_enforce_policy :: "'w host_env \<Rightarrow> ZoneHandle \<Rightarrow> ZonePolicy \<Rightarrow> ('w LinuxBackend, unit) step" where
  "lb_enforce_policy he zone policy =
    bind_step (admit policy) (\<lambda>_.
    bind_step (asks (\<lambda>b. ok_or (no_kernel_id (zh_name zone)) (get_zone_id (zh_id zone) b))) (\<lambda>z.
    bind_step (of_result (to_enforcement policy)) (\<lambda>enf.
    bind_step (in_enforcer (apply_zone_enforcement z enf)) (\<lambda>_.
    bind_step (sync_bpf_allowed_comms z (zpol_network policy)) (\<lambda>_.
    bind_step (apply_nftables_for_zone he zone policy) (\<lambda>_.
    bind_step (in_cgroup (apply_resources (zh_name zone) (zpol_resources policy))) (\<lambda>_.
    modify_st (store_policy (zh_name zone) policy))))))))"

definition reload_update :: "'w host_env \<Rightarrow> ZoneHandle \<Rightarrow> u32 \<Rightarrow> ZonePolicy \<Rightarrow> ('w LinuxBackend, unit) step" where
  "reload_update he zone z policy =
    bind_step (in_enforcer (le_hot_reload_policy z policy)) (\<lambda>_.
    bind_step (sync_bpf_allowed_comms z (zpol_network policy)) (\<lambda>_.
    bind_step (apply_nftables_for_zone he zone policy) (\<lambda>_.
    in_cgroup (apply_resources (zh_name zone) (zpol_resources policy)))))"

definition restore_policy :: "'w host_env \<Rightarrow> ZoneHandle \<Rightarrow> u32 \<Rightarrow> ZonePolicy \<Rightarrow> 'w LinuxBackend \<Rightarrow> 'w LinuxBackend" where
  "restore_policy he zone z previous b =
    run_step (in_cgroup (apply_resources (zh_name zone) (zpol_resources previous)))
      (run_step (apply_nftables_for_zone he zone previous)
        (run_step (sync_bpf_allowed_comms z (zpol_network previous))
          (run_step (in_enforcer (le_hot_reload_policy z previous)) b)))"

definition lb_hot_reload_policy :: "'w host_env \<Rightarrow> ZoneHandle \<Rightarrow> ZonePolicy \<Rightarrow> ('w LinuxBackend, unit) step" where
  "lb_hot_reload_policy he zone policy =
    bind_step (admit policy) (\<lambda>_.
    bind_step (asks (\<lambda>b. ok_or (BackendError (''zone '' @ zh_name zone @ '' has no policy to reload'')) (zone_policies b (zh_name zone)))) (\<lambda>previous.
    bind_step (asks (\<lambda>b. ok_or (no_kernel_id (zh_name zone)) (get_zone_id (zh_id zone) b))) (\<lambda>z.
    bind_step (on_error (reload_update he zone z policy) (restore_policy he zone z previous)) (\<lambda>_.
    modify_st (store_policy (zh_name zone) policy)))))"

subsection \<open>Recovering a zone after a restart\<close>

definition is_directory :: "file_system \<Rightarrow> fpath \<Rightarrow> bool" where
  "is_directory fs p = (case walk 40 fs [] p of Inl e \<Rightarrow> False | Inr q \<Rightarrow> q = [] \<or> map_of fs q = Some NDir)"

fun collect_containers :: "host_faults \<Rightarrow> dirs \<Rightarrow> file_system \<Rightarrow> fpath \<Rightarrow> string list \<Rightarrow> u64 list \<Rightarrow> u64 list rresult" where
  "collect_containers hf dirs fs containers [] inodes = Inr inodes"
| "collect_containers hf dirs fs containers (name # names) inodes =
     (let container = containers @ [name]; merged = container @ [''merged'']; legacy = container @ [''rootfs''] in
      case hf (HEntry container) of
        Some e \<Rightarrow> Inl (RootfsError (''failed to enumerate '' @ show_path containers @ '': '' @ e))
      | None \<Rightarrow>
          (case (if is_directory fs merged then Some merged else if is_directory fs legacy then Some legacy else None) of
             None \<Rightarrow> collect_containers hf dirs fs containers names inodes
           | Some rootfs \<Rightarrow>
               if MAX_INODES - length inodes = 0 then
                 Inl (RootfsError (''zone rootfs inode count exceeds enforcement capacity of '' @ dec MAX_INODES))
               else
                 and_then (collect_rootfs_inodes dirs (show_path rootfs) (MAX_INODES - length inodes)) (\<lambda>new.
                 collect_containers hf dirs fs containers names (remdups (inodes @ new)))))"

definition collect_zone_rootfs_inodes :: "'w host_env \<Rightarrow> string \<Rightarrow> 'w LinuxBackend \<Rightarrow> u64 list rresult" where
  "collect_zone_rootfs_inodes he name b =
    (let containers = lb_root b @ [''zones'', name, ''containers'']; fs = lb_files b in
     if \<not> path_exists fs containers then Inr []
     else
       (case dir_names (he_files he) containers fs of
          Inl e \<Rightarrow> Inl (RootfsError (''failed to enumerate '' @ show_path containers @ '': '' @ e))
        | Inr names \<Rightarrow>
            and_then (collect_containers (he_files he) (he_dirs he fs) fs containers names []) (\<lambda>inodes. Inr (sort inodes))))"

definition restore_rootfs_inodes :: "'w host_env \<Rightarrow> string \<Rightarrow> u32 \<Rightarrow> ('w LinuxBackend, unit) step" where
  "restore_rootfs_inodes he name z =
    bind_step (asks (collect_zone_rootfs_inodes he name)) (\<lambda>expected.
    bind_step (asks (\<lambda>b. if expected = [] then zone_has_processes name (lb_cgroup b) else Inr False)) (\<lambda>live_without_inodes.
    if live_without_inodes then fail (BackendError ''live recovered zone has no discoverable rootfs inodes'')
    else
      bind_step (in_enforcer (le_insert_inodes expected z)) (\<lambda>inserted.
      bind_step (modify_st (\<lambda>b. b\<lparr>registered_inodes := (registered_inodes b)(name \<mapsto> inserted)\<rparr>)) (\<lambda>_.
      if length inserted \<noteq> length expected
      then fail (BackendError (''rootfs inode recovery incomplete: registered '' @ dec (length inserted) @ '' of '' @ dec (length expected)))
      else ret ()))))"

text \<open>The variables that the recovery sets for the clean-up after a failure.\<close>

record recovery =
  rv_cgroup_id :: "u64 option"
  rv_ip_marked :: bool
  rv_membership_installed :: bool

type_synonym 'w recovering = "'w LinuxBackend \<times> recovery"

definition rec_step :: "('w LinuxBackend, 'a) step \<Rightarrow> ('w recovering, 'a) step" where
  "rec_step = on_part fst (\<lambda>b s. (b, snd s))"

definition rec_note :: "(recovery \<Rightarrow> recovery) \<Rightarrow> ('w recovering, unit) step" where
  "rec_note f = modify_st (\<lambda>(b, r). (b, f r))"

definition recover_cgroup :: "string \<Rightarrow> ('w LinuxBackend, u64) step" where
  "recover_cgroup name b =
    (if zone_cgroup_exists name (lb_cgroup b) then asks (\<lambda>b. cgroup_id_for_zone name (lb_cgroup b)) b
     else in_cgroup (create_zone_cgroup name) b)"

definition out_of_subnet :: "octets \<Rightarrow> DaemonConfig \<Rightarrow> RauhaError" where
  "out_of_subnet ip config =
    BackendError (''zone IP '' @ show_ipv4 ip @ '' is outside the configured subnet '' @ nc_subnet (dc_network config) @ '' '' @
      em_dash @ '' the [network] subnet changed after this zone was created'')"

definition recover_ip :: "ZoneHandle \<Rightarrow> ZonePolicy \<Rightarrow> ('w LinuxBackend, unit) step" where
  "recover_ip zone policy b =
    (case zh_network_state zone of
       None \<Rightarrow> (Inr (), b)
     | Some st \<Rightarrow>
         if pool_contains (ip_allocator b) (zn_ip st)
         then (Inr (), b\<lparr>ip_allocator := mark_allocated (zn_ip st) (ip_allocator b)\<rparr>)
         else degradable (admission policy) (zh_name zone) ''network:ip_out_of_subnet'' False
           (fail (out_of_subnet (zn_ip st) (lb_config b))) b)"

definition recover_network :: "'w host_env \<Rightarrow> ZoneHandle \<Rightarrow> ZonePolicy \<Rightarrow> ('w LinuxBackend, unit) step" where
  "recover_network he zone policy b =
    (let name = zh_name zone; nt = he_net he; netns_dir = pc_netns_dir (dc_paths (lb_config b));
         bridge = nc_bridge (dc_network (lb_config b))
     in if net_mode (zpol_network policy) = Host then (Inr (), b)
        else
          bind_step (\<lambda>b. if netns_exists nt name netns_dir (lb_world b) then (Inr (), b)
            else degradable (admission policy) name ''netns'' True (in_world (create_netns nt name netns_dir)) b) (\<lambda>_ b.
          if netns_exists nt name netns_dir (lb_world b) \<and> \<not> veth_exists nt name (lb_world b)
          then degradable (admission policy) name ''network:veth'' True
            (in_world (create_veth_pair nt name (zh_network_state zone) bridge)) b
          else (Inr (), b)) b)"

definition recovery_body ::
  "'w host_env \<Rightarrow> u32 \<Rightarrow> ZoneHandle \<Rightarrow> ZoneType \<Rightarrow> ZonePolicy \<Rightarrow> ('w recovering, unit) step" where
  "recovery_body he z zone ztype policy =
    (let name = zh_name zone in
     bind_step (rec_step (modify_st (set_zone_name name (zh_id zone)))) (\<lambda>_.
     bind_step (rec_step (recover_cgroup name)) (\<lambda>cgroup.
     bind_step (rec_note (\<lambda>r. r\<lparr>rv_cgroup_id := Some cgroup\<rparr>)) (\<lambda>_.
     bind_step (rec_step (in_cgroup (apply_resources name (zpol_resources policy)))) (\<lambda>_.
     bind_step (rec_step (recover_ip zone policy)) (\<lambda>_.
     bind_step (rec_note (\<lambda>r. if zh_network_state zone \<noteq> None then r\<lparr>rv_ip_marked := True\<rparr> else r)) (\<lambda>_.
     bind_step (rec_step (recover_network he zone policy)) (\<lambda>_.
     bind_step (rec_step (in_enforcer (le_set_zone_policy z policy))) (\<lambda>_.
     bind_step (rec_step (in_enforcer (le_add_zone_member cgroup z ztype))) (\<lambda>_.
     bind_step (rec_note (\<lambda>r. r\<lparr>rv_membership_installed := True\<rparr>)) (\<lambda>_.
     bind_step (rec_step (degradable (admission policy) name ''filesystem:inode_ownership'' False (restore_rootfs_inodes he name z))) (\<lambda>_.
     bind_step (rec_step (sync_bpf_allowed_comms z (zpol_network policy))) (\<lambda>_.
     bind_step (rec_step (apply_nftables_for_zone he zone policy)) (\<lambda>_.
     rec_step (modify_st (store_policy name policy))))))))))))))))"

definition undo_recovery :: "'w host_env \<Rightarrow> u32 \<Rightarrow> ZoneHandle \<Rightarrow> recovery \<Rightarrow> 'w LinuxBackend \<Rightarrow> 'w LinuxBackend" where
  "undo_recovery he z zone r b =
    (let name = zh_name zone;
         b1 = (case rv_cgroup_id r of Some c \<Rightarrow> run_step (in_enforcer (le_remove_zone_member c)) b | None \<Rightarrow> b);
         b2 = (case registered_inodes b1 name of
                 Some inodes \<Rightarrow> run_step (in_enforcer (le_remove_inodes inodes)) (b1\<lparr>registered_inodes := (registered_inodes b1)(name := None)\<rparr>)
               | None \<Rightarrow> b1);
         b3 = run_step (sync_bpf_allowed_comms z NetworkPolicy_default) b2;
         b4 = run_step (in_enforcer (le_remove_zone_policy z)) b3;
         b5 = run_step (in_world (remove_zone_rules (he_net he) name)) b4;
         b6 = (if rv_ip_marked r then release_ip (zh_network_state zone) b5 else b5);
         b7 = forget_zone name (remove_zone_id (zh_id zone) b6)
     in b7\<lparr>zone_policies := (zone_policies b7)(name := None)\<rparr>)"

definition live_or_unreadable :: "string \<Rightarrow> cgroup_fs \<Rightarrow> bool" where
  "live_or_unreadable name fs = (case zone_has_processes name fs of Inl e \<Rightarrow> True | Inr live \<Rightarrow> live)"

definition lb_recover_zone :: "'w host_env \<Rightarrow> ZoneHandle \<Rightarrow> ZoneType \<Rightarrow> ZonePolicy \<Rightarrow> ('w LinuxBackend, unit) step" where
  "lb_recover_zone he zone ztype policy =
    bind_step (admit policy) (\<lambda>_.
    bind_step (allocate_zone_id (zh_id zone)) (\<lambda>z b.
    case recovery_body he z zone ztype policy (b, \<lparr>rv_cgroup_id = None, rv_ip_marked = False, rv_membership_installed = False\<rparr>) of
      (Inr _, (b1, r)) \<Rightarrow> (Inr (), b1)
    | (Inl e, (b1, r)) \<Rightarrow>
        if rv_membership_installed r \<and> live_or_unreadable (zh_name zone) (lb_cgroup b1) then
          (case in_cgroup (drain_zone (zh_name zone)) b1 of
             (Inl d, b2) \<Rightarrow> (Inl (BackendError (''zone recovery failed: '' @ show_error e @ ''; fail-closed drain failed: '' @ show_error d)), b2)
           | (Inr _, b2) \<Rightarrow> (Inl e, undo_recovery he z zone r b2))
        else (Inl e, undo_recovery he z zone r b1)))"

subsection \<open>Orphans\<close>

fun cleanup_cgroups :: "string list \<Rightarrow> string list \<Rightarrow> string list \<Rightarrow> 'w LinuxBackend \<Rightarrow> string list \<times> 'w LinuxBackend" where
  "cleanup_cgroups known [] live b = (live, b)"
| "cleanup_cgroups known (entry # entries) live b =
     (case strip_prefix entry ''zone-'' of
        None \<Rightarrow> cleanup_cgroups known entries live b
      | Some name \<Rightarrow>
          if name \<in> set known then cleanup_cgroups known entries live b
          else if live_or_unreadable name (lb_cgroup b) then cleanup_cgroups known entries (live @ [name]) b
          else
            cleanup_cgroups known entries live
              (run_step (in_cgroup (destroy_zone_cgroup name))
                (case cgroup_id_for_zone name (lb_cgroup b) of
                   Inr c \<Rightarrow> run_step (in_enforcer (le_remove_zone_member c)) b
                 | Inl e \<Rightarrow> b)))"

fun cleanup_netns :: "'w host_env \<Rightarrow> string \<Rightarrow> string list \<Rightarrow> string list \<Rightarrow> string list \<Rightarrow> 'w \<Rightarrow> 'w" where
  "cleanup_netns he netns_dir known live [] w = w"
| "cleanup_netns he netns_dir known live (entry # entries) w =
     (case strip_prefix entry ''rauha-'' of
        None \<Rightarrow> cleanup_netns he netns_dir known live entries w
      | Some name \<Rightarrow>
          if name \<in> set known \<or> name \<in> set live then cleanup_netns he netns_dir known live entries w
          else cleanup_netns he netns_dir known live entries (run_step (destroy_netns (he_net he) name netns_dir) w))"

definition lb_cleanup_orphans :: "'w host_env \<Rightarrow> ZoneHandle list \<Rightarrow> ('w LinuxBackend, unit) step" where
  "lb_cleanup_orphans he known_zones b =
    (let known = map zh_name known_zones; netns_dir = pc_netns_dir (dc_paths (lb_config b));
         (live, b1) = (case (if cg_exists slice_path (lb_cgroup b) then he_slice_entries he (lb_cgroup b) else None) of
             Some entries \<Rightarrow> cleanup_cgroups known entries [] b | None \<Rightarrow> ([], b));
         w = (case (if nt_exists (he_net he) netns_dir (lb_world b1) then he_netns_entries he (lb_world b1) else None) of
             Some entries \<Rightarrow> cleanup_netns he netns_dir known live entries (lb_world b1) | None \<Rightarrow> lb_world b1)
     in (Inr (), b1\<lparr>lb_world := w\<rparr>))"

subsection \<open>Shutdown\<close>

definition cleanup_network :: "'w net_tools \<Rightarrow> string \<Rightarrow> 'w \<Rightarrow> 'w" where
  "cleanup_network nt bridge w = run_step (destroy_bridge nt bridge) (run_step (cleanup_nat nt) w)"

end
