(* ===== verification/Linux_Zones.thy ===== *)
theory Linux_Zones
  imports Linux_Backend
begin

text \<open>
  What the zone operations of the Linux backend guarantee: a created zone is enforced, a teardown keeps
  the enforcement until the cgroup is gone, a failed recovery drains the zone or keeps it enforced, a
  reload that fails puts the old policy back, and which zones may talk after a policy is applied.
\<close>

subsection \<open>Which parts of the backend an operation touches\<close>

named_theorems part_simps

lemma in_enforcer_iff [part_simps]:
  "in_enforcer m b = (r, b') \<longleftrightarrow> (\<exists>e. m (lb_enforcer b) = (r, e) \<and> b' = b\<lparr>lb_enforcer := e\<rparr>)"
  by (auto simp: in_enforcer_def on_part_def split: prod.splits)

lemma in_cgroup_iff [part_simps]:
  "in_cgroup m b = (r, b') \<longleftrightarrow> (\<exists>c. m (lb_cgroup b) = (r, c) \<and> b' = b\<lparr>lb_cgroup := c\<rparr>)"
  by (auto simp: in_cgroup_def on_part_def split: prod.splits)

lemma in_world_iff [part_simps]:
  "in_world m b = (r, b') \<longleftrightarrow> (\<exists>w. m (lb_world b) = (r, w) \<and> b' = b\<lparr>lb_world := w\<rparr>)"
  by (auto simp: in_world_def on_part_def split: prod.splits)

lemma run_in_enforcer [part_simps]: "run_step (in_enforcer m) b = b\<lparr>lb_enforcer := snd (m (lb_enforcer b))\<rparr>"
  by (simp add: run_step_def in_enforcer_def on_part_def split: prod.split)

lemma run_in_cgroup [part_simps]: "run_step (in_cgroup m) b = b\<lparr>lb_cgroup := snd (m (lb_cgroup b))\<rparr>"
  by (simp add: run_step_def in_cgroup_def on_part_def split: prod.split)

lemma run_in_world [part_simps]: "run_step (in_world m) b = b\<lparr>lb_world := snd (m (lb_world b))\<rparr>"
  by (simp add: run_step_def in_world_def on_part_def split: prod.split)

text \<open>The enforcer, the cgroups and the identifiers are untouched.\<close>

definition same_core :: "'w LinuxBackend \<Rightarrow> 'w LinuxBackend \<Rightarrow> bool" where
  "same_core b b' =
    (lb_enforcer b' = lb_enforcer b \<and> lb_cgroup b' = lb_cgroup b \<and> zone_id_map b' = zone_id_map b \<and>
     zone_name_map b' = zone_name_map b \<and> next_zone_id b' = next_zone_id b \<and> zone_policies b' = zone_policies b \<and>
     registered_inodes b' = registered_inodes b \<and> lb_config b' = lb_config b)"

lemma same_core_refl [simp]: "same_core b b"
  by (simp add: same_core_def)

lemma same_core_trans: "same_core a b \<Longrightarrow> same_core b c \<Longrightarrow> same_core a c"
  by (simp add: same_core_def)

lemma degradation_core [simp]:
  "same_core b (record_degradation n c b')  = same_core b b'" "same_core b (clear_degradation n c b') = same_core b b'"
  by (auto simp: same_core_def record_degradation_def clear_degradation_def split: option.splits)

lemma release_ip_core [simp]: "same_core b (release_ip st b') = same_core b b'"
  by (auto simp: same_core_def release_ip_def split: option.splits)

lemma in_world_core: "in_world m b = (r, b') \<Longrightarrow> same_core b b'"
  by (auto simp: part_simps same_core_def)

lemma degradable_core:
  assumes "\<And>r b'. m b = (r, b') \<Longrightarrow> same_core b b'" "degradable adm n c cl m b = (r, b')"
  shows "same_core b b'"
  using assms by (cases "m b") (auto simp: degradable_def split: sum.splits PolicyAdmission.splits)

lemma destroy_network_core [simp]: "same_core b (destroy_network he n b)"
  by (auto simp: destroy_network_def part_simps same_core_def)

lemma nftables_core: "apply_nftables_for_zone he zone policy b = (r, b') \<Longrightarrow> same_core b b'"
  unfolding apply_nftables_for_zone_def Let_def by (rule degradable_core) (erule in_world_core)

lemma create_network_core:
  assumes "create_network he n uuid policy b = (Inr st, b')"
  shows "same_core b b'"
proof (cases "net_mode (zpol_network policy) = Host")
  case True
  then show ?thesis using assms by (simp add: create_network_def)
next
  case False
  then obtain s b1 b2 where s: "allocate_network b = (Inr s, b1)"
      "in_world (create_netns (he_net he) n (pc_netns_dir (dc_paths (lb_config b)))) b1 = (Inr (), b2)"
      "degradable (admission policy) n ''network:veth'' False
        (in_world (create_veth_pair (he_net he) n (Some s) (nc_bridge (dc_network (lb_config b))))) b2 = (Inr (), b')"
    using assms by (auto simp: create_network_def Let_def bind_step_Inr on_error_Inr ret_def)
  have "same_core b b1" using s(1) by (auto simp: allocate_network_def same_core_def split: prod.splits sum.splits)
  moreover have "same_core b1 b2" using s(2) by (rule in_world_core)
  moreover have "same_core b2 b'" by (rule degradable_core [OF in_world_core s(3)])
  ultimately show ?thesis using same_core_trans by blast
qed

subsection \<open>Teardown\<close>

lemma destroy_zone_cgroup_ok: "destroy_zone_cgroup n fs = (Inr x, fs') \<Longrightarrow> cg_dirs fs' (cg_zone_path n) = None"
  by (auto simp: destroy_zone_cgroup_def cg_rmdir_def cg_exists_def Let_def split: if_splits option.splits sum.splits)

lemma shutdown_shim_enforcer [simp]: "lb_enforcer (shutdown_shim he n b) = lb_enforcer b"
  by (simp add: shutdown_shim_def run_step_def shim_request_def split: prod.split)

lemma core_fields:
  "same_core b b' \<Longrightarrow> lb_enforcer b' = lb_enforcer b" "same_core b b' \<Longrightarrow> lb_cgroup b' = lb_cgroup b"
  "same_core b b' \<Longrightarrow> zone_id_map b' = zone_id_map b" "same_core b b' \<Longrightarrow> zone_name_map b' = zone_name_map b"
  "same_core b b' \<Longrightarrow> next_zone_id b' = next_zone_id b" "same_core b b' \<Longrightarrow> zone_policies b' = zone_policies b"
  by (simp_all add: same_core_def)

lemma destroy_network_fields [simp]:
  "lb_enforcer (destroy_network he n b) = lb_enforcer b" "lb_cgroup (destroy_network he n b) = lb_cgroup b"
  "zone_id_map (destroy_network he n b) = zone_id_map b" "zone_name_map (destroy_network he n b) = zone_name_map b"
  using core_fields [OF destroy_network_core [of b he n]] by simp_all

lemma release_ip_fields [simp]:
  "lb_enforcer (release_ip st b) = lb_enforcer b" "lb_cgroup (release_ip st b) = lb_cgroup b"
  "zone_id_map (release_ip st b) = zone_id_map b" "zone_name_map (release_ip st b) = zone_name_map b"
  by (simp_all add: release_ip_def split: option.split)

lemma forget_fields [simp]:
  "lb_enforcer (forget_zone n b) = lb_enforcer b" "lb_cgroup (forget_zone n b) = lb_cgroup b"
  "lb_enforcer (remove_zone_id u b) = lb_enforcer b" "lb_cgroup (remove_zone_id u b) = lb_cgroup b"
  "zone_id_map (forget_zone n b) = zone_id_map b"
  by (simp_all add: forget_zone_def remove_zone_id_def)

lemma remove_stored_cgroup [simp]: "lb_cgroup (remove_stored inos zone z b) = lb_cgroup b"
  by (simp add: remove_stored_def remove_enforcement_def part_simps)

text \<open>Tearing a zone down either fails and leaves every map of the enforcer as it was, or succeeds, and then the
  zone's cgroup, and with it every process of the zone, is gone.\<close>

lemma teardown_never_unprotects:
  assumes "lb_destroy_zone he zone b = (r, b')"
  shows "if is_ok r then cg_dirs (lb_cgroup b') (cg_zone_path (zh_name zone)) = None else lb_enforcer b' = lb_enforcer b"
proof (cases r)
  case (Inl e)
  then show ?thesis
    using assms by (auto simp: lb_destroy_zone_def Let_def bind_step_Inl modify_st_def part_simps)
next
  case (Inr x)
  then obtain c1 c2 b1 where "destroy_zone_cgroup (zh_name zone) c1 = (Inr (), c2)" "lb_cgroup b' = c2"
    using assms by (fastforce simp: lb_destroy_zone_def Let_def bind_step_Inr modify_st_def part_simps split: option.splits)
  then show ?thesis using Inr destroy_zone_cgroup_ok by auto
qed

subsection \<open>A created zone is enforced\<close>

lemma le_set_zone_policy_ok:
  assumes "le_set_zone_policy z policy e = (Inr x, e')"
  obtains mgr zone where "le_ebpf e = Some mgr" "to_enforcement policy = Inr zone"
    "e' = e\<lparr>le_ebpf := Some (mgr\<lparr>bpf := (bpf mgr)\<lparr>ZONE_POLICY := (ZONE_POLICY (bpf mgr))(z \<mapsto> enforcement_to_kernel zone)\<rparr>\<rparr>)\<rparr>"
proof (rule with_bpf_Inr [OF assms [unfolded le_set_zone_policy_def]])
  fix mgr m
  assume "le_ebpf e = Some mgr" "set_zone_policy (mc_faults (le_machine e)) z policy (bpf mgr) = (Inr x, m)"
    "e' = e\<lparr>le_ebpf := Some (mgr\<lparr>bpf := m\<rparr>)\<rparr>"
  then show ?thesis
    by (auto simp: set_zone_policy_def policy_to_kernel_def set_zone_policy_kernel_def result_simps
        split: sum.splits dest!: map_op_ok intro!: that)
qed

lemma le_add_zone_member_ok:
  assumes "le_add_zone_member g z t e = (Inr x, e')"
  obtains mgr where "le_ebpf e = Some mgr"
    "e' = e\<lparr>le_ebpf := Some (mgr\<lparr>bpf := (bpf mgr)\<lparr>ZONE_MEMBERSHIP :=
       (ZONE_MEMBERSHIP (bpf mgr))(g \<mapsto> \<lparr>zi_zone_id = z, zi_flags = zone_type_flags t\<rparr>)\<rparr>\<rparr>)\<rparr>"
proof (rule with_bpf_Inr [OF assms [unfolded le_add_zone_member_def]])
  fix mgr m
  assume "le_ebpf e = Some mgr" "add_zone_member (mc_faults (le_machine e)) g z t (bpf mgr) = (Inr x, m)"
    "e' = e\<lparr>le_ebpf := Some (mgr\<lparr>bpf := m\<rparr>)\<rparr>"
  then show ?thesis by (auto simp: add_zone_member_def dest!: map_op_ok intro!: that)
qed

lemma create_zone_cgroup_ok:
  assumes "create_zone_cgroup n fs = (Inr c, fs')"
  shows "c = cg_next_ino fs \<and> cg_dirs fs' =
    (cg_dirs fs)(cg_zone_path n \<mapsto> \<lparr>cg_ino = c, cg_procs = [], cg_files = Map.empty\<rparr>)"
  using assms
  by (auto simp: create_zone_cgroup_def cg_mkdir_def cgroup_id_def Let_def result_simps split: if_splits option.splits prod.splits sum.splits)

text \<open>The state of the kernel in which a zone is enforced: the cgroup of the zone exists with the inode
  of the handle, the inode is a member of the zone, and the zone has its policy.\<close>

definition zone_enforced :: "ZoneHandle \<Rightarrow> u32 \<Rightarrow> ZoneType \<Rightarrow> ZonePolicy \<Rightarrow> 'w LinuxBackend \<Rightarrow> bool" where
  "zone_enforced h z t policy b =
    (\<exists>mgr enf c. le_ebpf (lb_enforcer b) = Some mgr \<and> to_enforcement policy = Inr enf \<and>
       ZONE_POLICY (bpf mgr) z = Some (enforcement_to_kernel enf) \<and>
       ZONE_MEMBERSHIP (bpf mgr) (zh_platform_id h) = Some \<lparr>zi_zone_id = z, zi_flags = zone_type_flags t\<rparr> \<and>
       cg_dirs (lb_cgroup b) (cg_zone_path (zh_name h)) = Some c \<and> cg_ino c = zh_platform_id h)"

lemma create_zone_ok:
  assumes "lb_create_zone he uuid config b = (Inr h, b')"
  obtains b1 b2 b3 b4 b5 st where
    "b1 = set_zone_name (zc_name config) uuid
      (b\<lparr>next_zone_id := next_zone_id b + 1, zone_id_map := table_insert uuid (next_zone_id b) (zone_id_map b)\<rparr>)"
    "in_cgroup (create_zone_cgroup (zc_name config)) b1 = (Inr (zh_platform_id h), b2)"
    "create_network he (zc_name config) uuid (zc_policy config) b2 = (Inr st, b3)"
    "in_enforcer (le_set_zone_policy (next_zone_id b) (zc_policy config)) b3 = (Inr (), b4)"
    "in_enforcer (le_add_zone_member (zh_platform_id h) (next_zone_id b) (zc_zone_type config)) b4 = (Inr (), b5)"
    "in_cgroup (apply_resources (zc_name config) (zpol_resources (zc_policy config))) b5 = (Inr (), b')"
    "zh_id h = uuid" "zh_name h = zc_name config"
proof -
  from assms show ?thesis
    unfolding lb_create_zone_def Let_def bind_step_Inr on_error_Inr
    by (auto simp: admit_def asks_def allocate_zone_id_def Let_def modify_st_def ret_def intro!: that)
qed

lemma kept_dir:
  "cgroups_kept fs fs' \<Longrightarrow> cg_dirs fs p = Some c \<Longrightarrow>
   \<exists>c'. cg_dirs fs' p = Some c' \<and> cg_ino c' = cg_ino c \<and> (cg_procs c' = cg_procs c \<or> cg_procs c' = [])"
proof -
  assume k: "cgroups_kept fs fs'" and c: "cg_dirs fs p = Some c"
  have "rel_option (\<lambda>c c'. cg_ino c' = cg_ino c \<and> (cg_procs c' = cg_procs c \<or> cg_procs c' = [])) (cg_dirs fs p) (cg_dirs fs' p)"
    using k by (simp only: cgroups_kept_def)
  then show ?thesis using c by (cases "cg_dirs fs' p") auto
qed

lemma created_zone_enforced:
  assumes "lb_create_zone he uuid config b = (Inr h, b')"
  shows "zone_enforced h (next_zone_id b) (zc_zone_type config) (zc_policy config) b' \<and>
    get_zone_id uuid b' = Some (next_zone_id b) \<and> no_processes (zc_name config) (lb_cgroup b')"
proof (rule create_zone_ok [OF assms])
  fix b1 b2 b3 b4 b5 st
  let ?n = "zc_name config" and ?z = "next_zone_id b"
  assume b1: "b1 = set_zone_name ?n uuid (b\<lparr>next_zone_id := ?z + 1, zone_id_map := table_insert uuid ?z (zone_id_map b)\<rparr>)"
    and b2: "in_cgroup (create_zone_cgroup ?n) b1 = (Inr (zh_platform_id h), b2)"
    and b3: "create_network he ?n uuid (zc_policy config) b2 = (Inr st, b3)"
    and b4: "in_enforcer (le_set_zone_policy ?z (zc_policy config)) b3 = (Inr (), b4)"
    and b5: "in_enforcer (le_add_zone_member (zh_platform_id h) ?z (zc_zone_type config)) b4 = (Inr (), b5)"
    and b6: "in_cgroup (apply_resources ?n (zpol_resources (zc_policy config))) b5 = (Inr (), b')"
    and h: "zh_id h = uuid" "zh_name h = ?n"
  have ids: "map_of (zone_id_map b1) uuid = Some ?z" using b1 by (simp add: set_zone_name_def table_simps)
  have dir: "cg_dirs (lb_cgroup b2) (cg_zone_path ?n) = Some \<lparr>cg_ino = zh_platform_id h, cg_procs = [], cg_files = Map.empty\<rparr>"
    using b2 create_zone_cgroup_ok by (fastforce simp: part_simps)
  have c3: "same_core b2 b3" using b3 by (rule create_network_core)
  have "lb_cgroup b5 = lb_cgroup b2" using b4 b5 core_fields(2) [OF c3] by (auto simp: part_simps)
  moreover have "cgroups_kept (lb_cgroup b5) (lb_cgroup b')"
    using b6 apply_resources_kept [of "lb_cgroup b5"] by (auto simp: part_simps) (metis snd_conv)
  ultimately obtain c where c: "cg_dirs (lb_cgroup b') (cg_zone_path ?n) = Some c" "cg_ino c = zh_platform_id h" "cg_procs c = []"
    using dir kept_dir by fastforce
  obtain mgr enf where p: "le_ebpf (lb_enforcer b4) = Some mgr" "to_enforcement (zc_policy config) = Inr enf"
      "ZONE_POLICY (bpf mgr) ?z = Some (enforcement_to_kernel enf)"
    using b4 by (auto simp: part_simps elim!: le_set_zone_policy_ok)
  obtain mgr' where m: "le_ebpf (lb_enforcer b5) = Some mgr'" "ZONE_POLICY (bpf mgr') = ZONE_POLICY (bpf mgr)"
      "ZONE_MEMBERSHIP (bpf mgr') (zh_platform_id h) = Some \<lparr>zi_zone_id = ?z, zi_flags = zone_type_flags (zc_zone_type config)\<rparr>"
    using b5 p(1) by (auto simp: part_simps elim!: le_add_zone_member_ok)
  have "lb_enforcer b' = lb_enforcer b5" "zone_id_map b' = zone_id_map b1"
    using b2 b4 b5 b6 core_fields(3) [OF c3] by (auto simp: part_simps)
  then show ?thesis
    using p m c h ids by (auto simp: zone_enforced_def get_zone_id_def no_processes_def trim_def)
qed


definition demo_tools :: "unit net_tools" where
  "demo_tools =
    \<lparr>nt_ip = (\<lambda>_ w. (Inr \<lparr>co_success = True, co_stdout = [], co_stderr = []\<rparr>, w)),
     nt_sysctl = (\<lambda>_ w. (Inr \<lparr>co_success = True, co_stdout = [], co_stderr = []\<rparr>, w)),
     nt_nft = (\<lambda>_ w. (Inr \<lparr>co_success = True, co_stdout = [], co_stderr = []\<rparr>, w)),
     nt_nft_script = (\<lambda>_ w. (Inr \<lparr>co_success = True, co_stdout = [], co_stderr = []\<rparr>, w)),
     nt_exists = (\<lambda>_ _. False), nt_create_dir_all = (\<lambda>_ w. (Inr (), w)), nt_sha256 = (\<lambda>_. [1, 2, 3, 4, 5])\<rparr>"

definition demo_env :: "unit host_env" where
  "demo_env =
    \<lparr>he_net = demo_tools, he_shim = (\<lambda>_ _ w. ((Inr ShimOk, (\<lambda>_. None)), w)), he_remove_file = (\<lambda>_ w. w),
     he_slice_entries = (\<lambda>_. None), he_netns_entries = (\<lambda>_. None), he_dirs = (\<lambda>_ _. Inr []), he_files = (\<lambda>_. None)\<rparr>"

text \<open>A backend in which the zone \<open>web\<close> has the given processes and nothing is registered.\<close>

definition demo_lb :: "cgroup_fs \<Rightarrow> unit LinuxBackend" where
  "demo_lb cg =
    \<lparr>lb_root = [''var''], lb_enforcer = demo_enforcer\<lparr>le_ebpf := Some (demo_manager\<lparr>skipped_hooks := []\<rparr>)\<rparr>, lb_cgroup = cg, next_zone_id = 1,
     zone_id_map = [], zone_name_map = [], registered_inodes = Map.empty, zone_policies = Map.empty,
     zone_degradations = Map.empty, ip_allocator = \<lparr>ia_subnet = (10, 89, 0, 0), ia_prefix_len = 16, ia_allocated = {0, 1}\<rparr>,
     lb_config = DaemonConfig_default, lb_world = (), lb_files = []\<rparr>"

definition demo_host_policy :: ZonePolicy where
  "demo_host_policy = ZonePolicy_default\<lparr>zpol_network := NetworkPolicy_default\<lparr>net_mode := Host\<rparr>\<rparr>"

definition empty_cgroups :: cgroup_fs where
  "empty_cgroups =
    \<lparr>cg_controllers = True, cg_dirs = Map.empty, cg_next_ino = 7, cg_native_kill = True, cg_dies = (\<lambda>_. None), cg_fault = (\<lambda>_. None)\<rparr>"

definition demo_zone_config :: ZoneConfig where
  "demo_zone_config = \<lparr>zc_name = ''web'', zc_zone_type = NonGlobal, zc_policy = demo_host_policy\<rparr>"

lemma demo_to_enforcement:
  "to_enforcement demo_host_policy = Inr \<lparr>ze_caps_mask = 0, allow_ptrace = False, allow_host_net = True, ze_kind = StandardKind\<rparr>"
  by (simp add: to_enforcement_def demo_host_policy_def ZonePolicy_default_def capabilities_to_mask_def)

lemma demo_admitted: "admit_linux_policy demo_host_policy [] roots = Inr ()"
  by (simp add: admit_linux_policy_def unsupported_linux_controls_def demo_host_policy_def ZonePolicy_default_def
      FilesystemPolicy_default_def)

lemma demo_admit: "admit demo_host_policy (demo_lb cg) = (Inr (), demo_lb cg)"
  using demo_admitted by (simp add: admit_def asks_def demo_lb_def le_skipped_hooks_def)

lemma demo_lb_fields [simp]:
  "lb_cgroup (demo_lb cg) = cg" "next_zone_id (demo_lb cg) = 1" "zone_id_map (demo_lb cg) = []" "zone_name_map (demo_lb cg) = []"
  "lb_enforcer (demo_lb cg) = demo_enforcer\<lparr>le_ebpf := Some (demo_manager\<lparr>skipped_hooks := []\<rparr>)\<rparr>"
  by (simp_all add: demo_lb_def)

lemma demo_faults: "mc_faults demo_machine = (\<lambda>_. None)"
  by (simp add: demo_machine_def)

lemmas demo_enforcer_simps = le_set_zone_policy_def le_add_zone_member_def with_bpf_def set_zone_policy_def policy_to_kernel_def
  demo_to_enforcement set_zone_policy_kernel_def add_zone_member_def map_op_healthy demo_faults

lemmas demo_cgroup_simps = create_zone_cgroup_def cg_exists_def cg_mkdir_def cgroup_id_def apply_resources_def write_cgroup_file_def
  cg_write_def empty_cgroups_def

definition demo_handle :: ZoneHandle where
  "demo_handle = \<lparr>zh_id = ''u'', zh_name = ''web'', zh_platform_id = 7, zh_network_state = None\<rparr>"

lemma demo_zone_created: "\<exists>b'. lb_create_zone demo_env ''u'' demo_zone_config (demo_lb empty_cgroups) = (Inr demo_handle, b')"
proof -
  let ?b = "demo_lb empty_cgroups"
  have net: "create_network he n u demo_host_policy b = (Inr None, b)" for he :: "unit host_env" and n u b
    by (simp add: create_network_def demo_host_policy_def)
  show ?thesis
    by (simp add: lb_create_zone_def demo_zone_config_def demo_admit bind_step_def on_error_def allocate_zone_id_def modify_st_def
        set_zone_name_def in_cgroup_def in_enforcer_def on_part_def net demo_cgroup_simps demo_enforcer_simps Let_def ret_def
        demo_handle_def demo_enforcer_def)
qed


subsection \<open>Which zones may talk\<close>

definition comm_allowed :: "LinuxEnforcer \<Rightarrow> u32 \<Rightarrow> u32 \<Rightarrow> bool" where
  "comm_allowed e src dst =
    (case le_ebpf e of None \<Rightarrow> False | Some mgr \<Rightarrow> ZONE_ALLOWED_COMMS (bpf mgr) \<lparr>src_zone = src, dst_zone = dst\<rparr> \<noteq> None)"

lemma le_deny_ok:
  "le_deny_zone_comm s d e = (Inr x, e') \<Longrightarrow> comm_allowed e' a c \<longleftrightarrow> comm_allowed e a c \<and> \<not> (a = s \<and> c = d)"
  by (auto simp: le_deny_zone_comm_def deny_zone_comm_def comm_allowed_def elim!: with_bpf_Inr dest!: map_op_ok split: if_splits)

lemma le_allow_ok:
  "le_allow_zone_comm s d e = (Inr x, e') \<Longrightarrow> comm_allowed e' a c \<longleftrightarrow> comm_allowed e a c \<or> (a = s \<and> c = d)"
  by (auto simp: le_allow_zone_comm_def allow_zone_comm_def comm_allowed_def elim!: with_bpf_Inr dest!: map_op_ok split: if_splits)

lemma deny_both_ok:
  assumes "deny_both z q e = (Inr x, e')"
  shows "comm_allowed e' a c \<longleftrightarrow> comm_allowed e a c \<and> \<not> (a = z \<and> c = q \<or> a = q \<and> c = z)"
proof -
  obtain e1 where "le_deny_zone_comm z q e = (Inr (), e1)" "le_deny_zone_comm q z e1 = (Inr x, e')"
    using assms by (auto simp: deny_both_def bind_step_Inr)
  from le_deny_ok [OF this(1), of a c] le_deny_ok [OF this(2), of a c] show ?thesis by blast
qed

lemma each_deny_ok:
  "each_step (deny_both z) ps e = (Inr x, e') \<Longrightarrow>
   comm_allowed e' a c \<longleftrightarrow> comm_allowed e a c \<and> \<not> (a = z \<and> c \<in> set ps \<or> a \<in> set ps \<and> c = z)"
proof (induction ps arbitrary: e)
  case (Cons q ps)
  then obtain e1 where "deny_both z q e = (Inr (), e1)" "each_step (deny_both z) ps e1 = (Inr x, e')"
    by (auto split: prod.splits sum.splits)
  from deny_both_ok [OF this(1), of a c] Cons.IH [OF this(2)] show ?case by auto
qed simp

lemma allow_both_ok:
  assumes "allow_both z q e = (Inr x, e')"
  shows "comm_allowed e' a c \<longleftrightarrow> comm_allowed e a c \<or> (a = z \<and> c = q \<or> a = q \<and> c = z)"
proof -
  obtain e1 where "le_allow_zone_comm z q e = (Inr (), e1)" "le_allow_zone_comm q z e1 = (Inr x, e')"
    using assms by (auto simp: allow_both_def bind_step_Inr)
  from le_allow_ok [OF this(1), of a c] le_allow_ok [OF this(2), of a c] show ?thesis by blast
qed

lemma each_allow_ok:
  "each_step (allow_both z) ps e = (Inr x, e') \<Longrightarrow>
   comm_allowed e' a c \<longleftrightarrow> comm_allowed e a c \<or> (a = z \<and> c \<in> set ps \<or> a \<in> set ps \<and> c = z)"
proof (induction ps arbitrary: e)
  case (Cons q ps)
  then obtain e1 where "allow_both z q e = (Inr (), e1)" "each_step (allow_both z) ps e1 = (Inr x, e')"
    by (auto split: prod.splits sum.splits)
  from allow_both_ok [OF this(1), of a c] Cons.IH [OF this(2)] show ?case by auto
qed simp

lemma allowed_peer_ids_iff:
  "p \<in> set (allowed_peer_ids ns b) \<longleftrightarrow>
    (\<exists>n \<in> set ns. \<exists>u. map_of (zone_name_map b) n = Some u \<and> map_of (zone_id_map b) u = Some p)"
  by (auto simp: allowed_peer_ids_def split: option.splits) force+

lemma sync_comms_ok:
  assumes "sync_bpf_allowed_comms z net b = (Inr x, b')"
  shows "comm_allowed (lb_enforcer b') a c \<longleftrightarrow>
      (a = z \<and> c \<in> set (allowed_peer_ids (allowed_zones net) b)) \<or> (c = z \<and> a \<in> set (allowed_peer_ids (allowed_zones net) b)) \<or>
      comm_allowed (lb_enforcer b) a c \<and>
        \<not> (\<exists>p \<in> snd ` set (zone_id_map b). p \<noteq> z \<and> p \<notin> set (allowed_peer_ids (allowed_zones net) b) \<and> (a = z \<and> c = p \<or> a = p \<and> c = z))"
    and "zone_id_map b' = zone_id_map b" "zone_name_map b' = zone_name_map b" "lb_cgroup b' = lb_cgroup b"
proof -
  let ?al = "allowed_peer_ids (allowed_zones net) b"
  let ?rv = "filter (\<lambda>p. p \<noteq> z \<and> p \<notin> set ?al) (map snd (zone_id_map b))"
  obtain e1 e2 where e: "each_step (deny_both z) ?rv (lb_enforcer b) = (Inr (), e1)" "each_step (allow_both z) ?al e1 = (Inr x, e2)"
      "b' = b\<lparr>lb_enforcer := e2\<rparr>"
    using assms by (auto simp: sync_bpf_allowed_comms_def Let_def part_simps bind_step_Inr)
  show "comm_allowed (lb_enforcer b') a c \<longleftrightarrow>
      (a = z \<and> c \<in> set ?al) \<or> (c = z \<and> a \<in> set ?al) \<or>
      comm_allowed (lb_enforcer b) a c \<and> \<not> (\<exists>p \<in> snd ` set (zone_id_map b). p \<noteq> z \<and> p \<notin> set ?al \<and> (a = z \<and> c = p \<or> a = p \<and> c = z))"
    using each_deny_ok [OF e(1)] each_allow_ok [OF e(2)] e(3) by auto
  show "zone_id_map b' = zone_id_map b" "zone_name_map b' = zone_name_map b" "lb_cgroup b' = lb_cgroup b" using e(3) by simp_all
qed


definition healthy_enforcer :: "LinuxEnforcer \<Rightarrow> bool" where
  "healthy_enforcer e \<longleftrightarrow> le_ebpf e \<noteq> None \<and> mc_faults (le_machine e) = (\<lambda>_. None)"

lemma healthy_comm:
  assumes "healthy_enforcer e"
  shows "\<exists>e'. le_deny_zone_comm s d e = (Inr (), e') \<and> healthy_enforcer e'" "\<exists>e'. le_allow_zone_comm s d e = (Inr (), e') \<and> healthy_enforcer e'"
  using assms by (auto simp: healthy_enforcer_def le_deny_zone_comm_def le_allow_zone_comm_def deny_zone_comm_def allow_zone_comm_def
      with_bpf_def map_op_healthy)

lemma healthy_each:
  assumes "\<And>p e. healthy_enforcer e \<Longrightarrow> \<exists>e'. f p e = (Inr (), e') \<and> healthy_enforcer e'" "healthy_enforcer e"
  shows "\<exists>e'. each_step f ps e = (Inr (), e') \<and> healthy_enforcer e'"
  using assms(2)
proof (induction ps arbitrary: e)
  case (Cons p ps)
  obtain e1 where "f p e = (Inr (), e1)" "healthy_enforcer e1" using assms(1) [OF Cons.prems] by blast
  then show ?case using Cons.IH [of e1] by simp
qed simp

lemma sync_comms_total:
  assumes "healthy_enforcer (lb_enforcer b)"
  shows "\<exists>b'. sync_bpf_allowed_comms z net b = (Inr (), b') \<and> healthy_enforcer (lb_enforcer b')"
proof -
  have both: "\<exists>e'. deny_both z p e = (Inr (), e') \<and> healthy_enforcer e'" "\<exists>e'. allow_both z p e = (Inr (), e') \<and> healthy_enforcer e'"
    if "healthy_enforcer e" for p e
    using healthy_comm [OF that, of z p] healthy_comm [of _ p z] by (fastforce simp: deny_both_def allow_both_def bind_step_def)+
  obtain e1 where e1: "each_step (deny_both z) (filter (\<lambda>p. p \<noteq> z \<and> p \<notin> set (allowed_peer_ids (allowed_zones net) b)) (map snd (zone_id_map b)))
      (lb_enforcer b) = (Inr (), e1)" "healthy_enforcer e1"
    using healthy_each [of "deny_both z", OF both(1) assms] by blast
  obtain e2 where "each_step (allow_both z) (allowed_peer_ids (allowed_zones net) b) e1 = (Inr (), e2)" "healthy_enforcer e2"
    using healthy_each [of "allow_both z", OF both(2) e1(2)] by blast
  with e1 show ?thesis by (simp add: sync_bpf_allowed_comms_def Let_def part_simps bind_step_def)
qed

lemma allowed_peers_cong:
  "zone_id_map b' = zone_id_map b \<Longrightarrow> zone_name_map b' = zone_name_map b \<Longrightarrow> allowed_peer_ids ns b' = allowed_peer_ids ns b"
  unfolding allowed_peer_ids_def by (simp only:)

text \<open>C40: of two zones of which only one lists the other, the channel is open or closed by the order in which their
  policies were applied, although the packet filter forwards between them in both cases.\<close>

theorem last_policy_decides_the_channel:
  assumes "healthy_enforcer (lb_enforcer b)" "z \<noteq> p" "z \<in> snd ` set (zone_id_map b)"
    "p \<in> set (allowed_peer_ids (allowed_zones open_net) b)" "allowed_zones shut_net = []"
  shows "\<not> comm_allowed (lb_enforcer (snd (sync_bpf_allowed_comms p shut_net (snd (sync_bpf_allowed_comms z open_net b))))) z p \<and>
    comm_allowed (lb_enforcer (snd (sync_bpf_allowed_comms z open_net (snd (sync_bpf_allowed_comms p shut_net b))))) z p"
proof -
  obtain b1 c1 where s: "sync_bpf_allowed_comms z open_net b = (Inr (), b1)" "healthy_enforcer (lb_enforcer b1)"
      "sync_bpf_allowed_comms p shut_net b = (Inr (), c1)" "healthy_enforcer (lb_enforcer c1)"
    using sync_comms_total [OF assms(1)] by metis
  obtain b2 c2 where t: "sync_bpf_allowed_comms p shut_net b1 = (Inr (), b2)" "sync_bpf_allowed_comms z open_net c1 = (Inr (), c2)"
    using sync_comms_total [OF s(2)] sync_comms_total [OF s(4)] by metis
  have "allowed_peer_ids [] b1 = []" by (simp add: allowed_peer_ids_def)
  then have "\<not> comm_allowed (lb_enforcer b2) z p"
    using sync_comms_ok(1) [OF t(1), of z p] assms(2,3,5) by (auto simp: sync_comms_ok(2) [OF s(1)])
  moreover have "comm_allowed (lb_enforcer c2) z p"
    using sync_comms_ok(1) [OF t(2), of z p] assms(4) allowed_peers_cong [OF sync_comms_ok(2,3) [OF s(3)]] by simp
  ultimately show ?thesis by (simp add: s t)
qed

text \<open>Two zones \<open>a\<close> and \<open>b\<close>, numbered 1 and 2.\<close>

definition demo_pair :: "unit LinuxBackend" where
  "demo_pair = (demo_lb empty_cgroups)\<lparr>zone_id_map := [(''ua'', 1), (''ub'', 2)], zone_name_map := [(''a'', ''ua''), (''b'', ''ub'')]\<rparr>"

lemma demo_pair_facts: "healthy_enforcer (lb_enforcer demo_pair)" "zone_id_map demo_pair = [(''ua'', 1), (''ub'', 2)]"
  "allowed_peer_ids [''b''] demo_pair = [2]" "allowed_peer_ids [] demo_pair = []"
  by (simp_all add: demo_pair_def healthy_enforcer_def demo_enforcer_def demo_faults allowed_peer_ids_def)


theorem last_policy_decides_the_channel_witness:
  "\<not> comm_allowed (lb_enforcer (snd (sync_bpf_allowed_comms 2 (NetworkPolicy_default\<lparr>allowed_zones := []\<rparr>)
       (snd (sync_bpf_allowed_comms 1 (NetworkPolicy_default\<lparr>allowed_zones := [''b'']\<rparr>) demo_pair))))) 1 2"
  using last_policy_decides_the_channel [of demo_pair 1 2 "NetworkPolicy_default\<lparr>allowed_zones := [''b'']\<rparr>"
      "NetworkPolicy_default\<lparr>allowed_zones := []\<rparr>"] by (simp add: demo_pair_facts)

subsection \<open>A zone that could not be created\<close>

lemma table_remove_gone: "map_of (table_remove k t) k = None"
  by (simp add: table_simps)

lemma rollback_forgets [simp]: "get_zone_id uuid (rollback_zone he n uuid st b) = None"
  by (simp add: rollback_zone_def Let_def get_zone_id_def remove_zone_id_def table_remove_gone part_simps)

lemma remove_zone_id_forgets [simp]: "get_zone_id uuid (remove_zone_id uuid b) = None"
  by (simp add: get_zone_id_def remove_zone_id_def table_remove_gone)

lemma create_network_forgets: "create_network he n uuid policy b = (Inl e, b') \<Longrightarrow> get_zone_id uuid b' = None"
  by (auto simp: create_network_def Let_def bind_step_Inl on_error_Inl split: if_splits)

text \<open>A zone that could not be created has no kernel identifier, at whichever step the creation failed: a later operation on
  it is refused.\<close>

lemma failed_create_leaves_no_identifier:
  assumes "lb_create_zone he uuid config b = (Inl e, b')" "get_zone_id uuid b = None"
  shows "get_zone_id uuid b' = None \<and>
    lb_enforce_policy he \<lparr>zh_id = uuid, zh_name = zc_name config, zh_platform_id = c, zh_network_state = st\<rparr> policy b' =
      (Inl (case fst (admit policy b') of Inl x \<Rightarrow> x | Inr _ \<Rightarrow> no_kernel_id (zc_name config)), b')"
proof -
  have none: "get_zone_id uuid b' = None"
    using assms unfolding lb_create_zone_def Let_def
    by (auto simp: bind_step_Inl on_error_Inl ret_def modify_st_def allocate_zone_id_def admit_def asks_def Let_def
        dest: create_network_forgets split: sum.splits)
  have "snd (admit policy b') = b'" by (simp add: admit_def asks_def split: sum.split)
  then show ?thesis using none
    by (cases "admit policy b'"; cases "fst (admit policy b')") (simp_all add: lb_enforce_policy_def bind_step_def asks_def)
qed

end
