(* ===== verification/Linux_Recovery.thy ===== *)
theory Linux_Recovery
  imports Linux_Zones
begin

text \<open>
  Restarts and reloads of the Linux backend: what the kernel maps hold after a zone has been recovered,
  after a recovery has failed and after a policy reload has been rejected.
\<close>

subsection \<open>What an enforcer operation leaves alone\<close>

definition map_view :: "(maps \<Rightarrow> 'a) \<Rightarrow> LinuxEnforcer \<Rightarrow> 'a option" where
  "map_view g e = map_option (\<lambda>mgr. g (bpf mgr)) (le_ebpf e)"

named_theorems view_simps

lemma with_bpf_view:
  assumes "\<And>f m. g (snd (op f m)) = g m"
  shows "map_view g (snd (with_bpf n op e)) = map_view g e"
  using assms by (auto simp: with_bpf_def map_view_def split: option.splits prod.splits) (metis snd_conv)

lemma map_op_view: "(\<And>m. g (u m) = g m) \<Longrightarrow> g (snd (map_op f n op err u m)) = g m"
  by (simp add: map_op_def split: sum.split option.split)

lemma insert_inodes_view:
  assumes "\<And>i m. g (snd (set_inode_zone f i z m)) = g m"
  shows "g (snd (insert_inodes f inos z m)) = g m"
proof (induction inos arbitrary: m)
  case (Cons i inos)
  then show ?case using assms by (auto split: sum.splits prod.splits) (metis snd_conv)+
qed simp

lemma remove_inodes_view:
  assumes "\<And>i m. g (snd (remove_inode_zone f i m)) = g m"
  shows "g (snd (remove_inodes f inos m)) = g m"
proof (induction inos arbitrary: m)
  case (Cons i inos)
  then show ?case using assms by (auto split: sum.splits prod.splits) (metis snd_conv)+
qed simp

lemma set_zone_policy_view:
  "ZONE_MEMBERSHIP (snd (set_zone_policy f z p m)) = ZONE_MEMBERSHIP m"
  by (auto simp: set_zone_policy_def set_zone_policy_kernel_def intro!: map_op_view split: sum.split)

lemma case_snd: "snd (case p of (x, m) \<Rightarrow> (f x, m)) = snd p"
  by (cases p) simp

lemma comm_view:
  assumes "\<And>m h. g (m\<lparr>ZONE_ALLOWED_COMMS := h\<rparr>) = g m"
  shows "map_view g (snd (le_deny_zone_comm s d e)) = map_view g e" "map_view g (snd (le_allow_zone_comm s d e)) = map_view g e"
  unfolding le_deny_zone_comm_def le_allow_zone_comm_def deny_zone_comm_def allow_zone_comm_def
  by (intro with_bpf_view map_op_view assms)+

lemma inode_view:
  assumes "\<And>m h. g (m\<lparr>INODE_ZONE_MAP := h\<rparr>) = g m"
  shows "map_view g (snd (le_remove_inodes inos e)) = map_view g e" "map_view g (snd (le_insert_inodes inos z e)) = map_view g e"
proof -
  have "g (snd (set_inode_zone f i z m)) = g m" "g (snd (remove_inode_zone f i m)) = g m" for f i m
    unfolding set_inode_zone_def remove_inode_zone_def by (intro map_op_view assms)+
  note ops = insert_inodes_view [where g = g, OF this(1)] remove_inodes_view [where g = g, OF this(2)]
  show "map_view g (snd (le_remove_inodes inos e)) = map_view g e"
    unfolding le_remove_inodes_def by (intro with_bpf_view ops)
  show "map_view g (snd (le_insert_inodes inos z e)) = map_view g e"
    unfolding le_insert_inodes_def by (intro with_bpf_view) (simp add: case_snd ops)
qed

lemma member_view [view_simps]:
  "map_view ZONE_MEMBERSHIP (snd (le_remove_zone_policy z e)) = map_view ZONE_MEMBERSHIP e"
  "map_view ZONE_MEMBERSHIP (snd (le_set_zone_policy z p e)) = map_view ZONE_MEMBERSHIP e"
proof -
  show "map_view ZONE_MEMBERSHIP (snd (le_remove_zone_policy z e)) = map_view ZONE_MEMBERSHIP e"
    unfolding le_remove_zone_policy_def remove_zone_policy_def by (intro with_bpf_view map_op_view) simp_all
  show "map_view ZONE_MEMBERSHIP (snd (le_set_zone_policy z p e)) = map_view ZONE_MEMBERSHIP e"
    unfolding le_set_zone_policy_def by (intro with_bpf_view set_zone_policy_view)
qed

lemma each_view:
  assumes "\<And>p e. map_view g (snd (f p e)) = map_view g e"
  shows "map_view g (snd (each_step f ps e)) = map_view g e"
proof (induction ps arbitrary: e)
  case (Cons p ps)
  then show ?case using assms [of p e] by (auto split: prod.splits sum.splits)
qed simp

lemma bind_view:
  assumes "map_view g (snd (m e)) = map_view g e" "\<And>x e. map_view g (snd (k x e)) = map_view g e"
  shows "map_view g (snd (bind_step m k e)) = map_view g e"
  using assms by (auto simp: bind_step_def split: prod.splits sum.splits)

lemma sync_view:
  assumes "\<And>m h. g (m\<lparr>ZONE_ALLOWED_COMMS := h\<rparr>) = g m"
  shows "map_view g (lb_enforcer (snd (sync_bpf_allowed_comms z net b))) = map_view g (lb_enforcer b)"
proof -
  have "map_view g (snd (bind_step (each_step (deny_both z) ps) (\<lambda>_. each_step (allow_both z) qs) e)) = map_view g e" for ps qs e
    unfolding deny_both_def allow_both_def by (intro bind_view each_view comm_view assms)
  then show ?thesis by (simp add: sync_bpf_allowed_comms_def Let_def in_enforcer_def on_part_def case_prod_beta)
qed

lemma sync_rest:
  "sync_bpf_allowed_comms z net b = (r, b') \<Longrightarrow> \<exists>e. b' = b\<lparr>lb_enforcer := e\<rparr>"
  by (auto simp: sync_bpf_allowed_comms_def Let_def part_simps)

text \<open>The zone that a cgroup belongs to in the kernel's map.\<close>

definition member_of :: "LinuxEnforcer \<Rightarrow> u64 \<Rightarrow> ZoneInfoKernel option" where
  "member_of e c = (case map_view ZONE_MEMBERSHIP e of None \<Rightarrow> None | Some h \<Rightarrow> h c)"

lemma member_of_frame:
  "member_of (snd (le_remove_zone_policy z e)) = member_of e"
  "member_of (snd (le_remove_inodes inos e)) = member_of e"
  "member_of (lb_enforcer (snd (sync_bpf_allowed_comms z net b))) = member_of (lb_enforcer b)"
  by (simp_all add: member_of_def view_simps inode_view sync_view fun_eq_iff)

lemma remove_member_only: "member_of e c = None \<Longrightarrow> member_of (snd (le_remove_zone_member d e)) c = None"
  by (auto simp: member_of_def map_view_def le_remove_zone_member_def with_bpf_def remove_zone_member_def map_op_def
      split: option.splits prod.splits sum.splits)

lemma let_keeps: "P t \<Longrightarrow> (\<And>x. P x \<Longrightarrow> P (F x)) \<Longrightarrow> P (let x = t in F x)"
  by simp

lemma sync_cgroup: "lb_cgroup (snd (sync_bpf_allowed_comms z net b)) = lb_cgroup b"
  using sync_rest [of z net b] by (cases "sync_bpf_allowed_comms z net b") auto

lemma undo_recovery_inv:
  fixes P :: "'w LinuxBackend \<Rightarrow> bool"
  assumes "P b" "\<And>b m. P b \<Longrightarrow> m \<in> {le_remove_zone_member c, le_remove_zone_policy z} \<Longrightarrow> P (run_step (in_enforcer m) b)"
    "\<And>b i. P b \<Longrightarrow> P (run_step (in_enforcer (le_remove_inodes i)) b)" "\<And>b. P b \<Longrightarrow> P (run_step (sync_bpf_allowed_comms z NetworkPolicy_default) b)"
    "\<And>b b'. P b \<Longrightarrow> lb_enforcer b' = lb_enforcer b \<Longrightarrow> lb_cgroup b' = lb_cgroup b \<Longrightarrow> P b'"
    "rv_cgroup_id r = Some c \<or> rv_cgroup_id r = None"
  shows "P (undo_recovery he z zone r b)"
proof -
  have frame: "P b \<Longrightarrow> P (run_step (in_world m) b)" "P b \<Longrightarrow> P (release_ip st b)" "P b \<Longrightarrow> P (forget_zone n b)" "P b \<Longrightarrow> P (remove_zone_id u b)"
    "P b \<Longrightarrow> P (b\<lparr>registered_inodes := ri\<rparr>)" "P b \<Longrightarrow> P (b\<lparr>zone_policies := zp\<rparr>)" for b and m :: "('w, unit) step" and st n u ri zp
    by (erule assms(5); simp add: part_simps)+
  show ?thesis
    unfolding undo_recovery_def Let_def [of "zh_name zone"]
    by (intro let_keeps [where P = P]) (use assms(6) in \<open>auto simp: assms(1-4) frame split: option.split\<close>)
qed

text \<open>Undoing a recovery grants no membership and does not touch the cgroups.\<close>

lemma undo_recovery_cgroup: "lb_cgroup (undo_recovery he z zone r b) = lb_cgroup b"
  by (rule undo_recovery_inv [where P = "\<lambda>x. lb_cgroup x = lb_cgroup b" and c = "the (rv_cgroup_id r)"])
    (auto simp: part_simps run_step_def [of "sync_bpf_allowed_comms z NetworkPolicy_default"] sync_cgroup)

lemma undo_recovery_member:
  assumes "member_of (lb_enforcer b) c = None"
  shows "member_of (lb_enforcer (undo_recovery he z zone r b)) c = None"
  by (rule undo_recovery_inv [where P = "\<lambda>x. member_of (lb_enforcer x) c = None" and c = "the (rv_cgroup_id r)"])
    (auto simp: assms part_simps run_step_def [of "sync_bpf_allowed_comms z NetworkPolicy_default"] member_of_frame remove_member_only)

subsection \<open>A recovered zone is enforced\<close>

text \<open>The kernel's view of the zones, their cgroups and their identifiers is unchanged.\<close>

definition same_kernel :: "'w LinuxBackend \<Rightarrow> 'w LinuxBackend \<Rightarrow> bool" where
  "same_kernel b b' =
    (map_view (\<lambda>m. (ZONE_MEMBERSHIP m, ZONE_POLICY m)) (lb_enforcer b') = map_view (\<lambda>m. (ZONE_MEMBERSHIP m, ZONE_POLICY m)) (lb_enforcer b) \<and>
     lb_cgroup b' = lb_cgroup b \<and> zone_id_map b' = zone_id_map b)"

lemma same_kernel_refl [simp]: "same_kernel b b"
  by (simp add: same_kernel_def)

lemma core_same_kernel: "same_core b b' \<Longrightarrow> same_kernel b b'"
  by (simp add: same_core_def same_kernel_def)

lemma sync_same_kernel: "sync_bpf_allowed_comms z net b = (r, b') \<Longrightarrow> same_kernel b b'"
  using sync_rest [of z net b r b'] sync_view [of "\<lambda>m. (ZONE_MEMBERSHIP m, ZONE_POLICY m)" z net b]
  by (auto simp: same_kernel_def)

lemma degradation_kernel [simp]:
  "same_kernel b (record_degradation n c b') = same_kernel b b'" "same_kernel b (clear_degradation n c b') = same_kernel b b'"
  by (auto simp: same_kernel_def record_degradation_def clear_degradation_def split: option.splits)

lemma degradable_kernel:
  assumes "\<And>r b'. m b = (r, b') \<Longrightarrow> same_kernel b b'" "degradable adm n c cl m b = (r, b')"
  shows "same_kernel b b'"
  using assms by (cases "m b") (auto simp: degradable_def split: sum.splits PolicyAdmission.splits)

lemma restore_inodes_kernel: "restore_rootfs_inodes he n z b = (r, b') \<Longrightarrow> same_kernel b b'"
proof -
  assume a: "restore_rootfs_inodes he n z b = (r, b')"
  have "same_kernel b (b\<lparr>lb_enforcer := snd (le_insert_inodes i z (lb_enforcer b))\<rparr>)"
    "same_kernel b (b\<lparr>lb_enforcer := snd (le_insert_inodes i z (lb_enforcer b)), registered_inodes := ri\<rparr>)" for i ri
    using inode_view(2) [of "\<lambda>m. (ZONE_MEMBERSHIP m, ZONE_POLICY m)" i z "lb_enforcer b"] by (simp_all add: same_kernel_def)
  then show ?thesis using a
    by (auto simp: restore_rootfs_inodes_def bind_step_def asks_def in_enforcer_def on_part_def modify_st_def fail_def ret_def case_prod_beta
        split: sum.splits if_splits)
qed

lemma recover_ip_kernel: "recover_ip zone policy b = (r, b') \<Longrightarrow> same_kernel b b'"
  by (auto simp: recover_ip_def fail_def split: option.splits if_splits elim!: degradable_kernel [rotated])
    (simp_all add: same_kernel_def)

lemma recover_network_kernel: "recover_network he zone policy b = (r, b') \<Longrightarrow> same_kernel b b'"
proof -
  have world: "degradable adm n c cl (in_world m) b = (r, b') \<Longrightarrow> same_kernel b b'" for adm n c cl m r and b b' :: "'a LinuxBackend"
    by (rule degradable_kernel [OF core_same_kernel [OF in_world_core]])
  have trans: "same_kernel a b \<Longrightarrow> same_kernel b c \<Longrightarrow> same_kernel a c" for a b c :: "'a LinuxBackend"
    by (simp add: same_kernel_def)
  assume "recover_network he zone policy b = (r, b')"
  then show ?thesis
    by (auto simp: recover_network_def Let_def bind_step_def split: if_splits prod.splits sum.splits dest!: world intro: trans)
qed

lemma zone_enforced_kernel: "zone_enforced h z t policy b \<Longrightarrow> same_kernel b b' \<Longrightarrow> zone_enforced h z t policy b'"
  by (auto simp: zone_enforced_def same_kernel_def map_view_def)

definition zone_dir :: "string \<Rightarrow> u64 \<Rightarrow> 'w LinuxBackend \<Rightarrow> bool" where
  "zone_dir n c b \<longleftrightarrow> map_option cg_ino (cg_dirs (lb_cgroup b) (cg_zone_path n)) = Some c"

lemma recover_cgroup_ok: "recover_cgroup n b = (Inr c, b') \<Longrightarrow> zone_dir n c b' \<and> zone_id_map b' = zone_id_map b"
  by (auto simp: recover_cgroup_def zone_dir_def asks_def cgroup_id_for_zone_def cgroup_id_def result_simps part_simps
      dest!: create_zone_cgroup_ok split: if_splits option.splits)

lemma apply_resources_dir:
  "zone_dir n c b \<Longrightarrow> in_cgroup (apply_resources m res) b = (r, b') \<Longrightarrow> zone_dir n c b' \<and> zone_id_map b' = zone_id_map b"
  using apply_resources_kept [of "lb_cgroup b" m res] by (auto simp: zone_dir_def part_simps dest!: kept_dir)

lemma zone_dir_kernel: "same_kernel b b' \<Longrightarrow> zone_dir n c b' = zone_dir n c b"
  by (simp add: same_kernel_def zone_dir_def)

lemma rec_step_triple:
  assumes "\<And>b r x b'. P (b, r) \<Longrightarrow> m b = (Inr x, b') \<Longrightarrow> Q x (b', r)" "\<And>b r e b'. P (b, r) \<Longrightarrow> m b = (Inl e, b') \<Longrightarrow> E e (b', r)"
  shows "step_triple P (rec_step m) Q E"
  using assms by (intro step_tripleI) (auto simp: rec_step_def on_part_def split: prod.splits)

lemma rec_note_triple: "(\<And>b r. P (b, r) \<Longrightarrow> Q () (b, f r)) \<Longrightarrow> step_triple P (rec_note f) Q E"
  by (intro step_tripleI) (auto simp: rec_note_def modify_st_def)

text \<open>Once the membership is installed the zone is enforced, whatever fails afterwards.\<close>

definition recovered :: "ZoneHandle \<Rightarrow> u32 \<Rightarrow> ZoneType \<Rightarrow> ZonePolicy \<Rightarrow> 'w LinuxBackend \<Rightarrow> bool" where
  "recovered zone z t policy b \<longleftrightarrow>
    get_zone_id (zh_id zone) b = Some z \<and> (\<exists>c. zone_enforced (zone\<lparr>zh_platform_id := c\<rparr>) z t policy b)"

lemma recovered_kernel: "recovered zone z t policy b \<Longrightarrow> same_kernel b b' \<Longrightarrow> recovered zone z t policy b'"
proof -
  assume "recovered zone z t policy b" and k: "same_kernel b b'"
  moreover have "zone_id_map b' = zone_id_map b" using k by (simp add: same_kernel_def)
  ultimately show ?thesis unfolding recovered_def get_zone_id_def using zone_enforced_kernel [OF _ k] by (metis (no_types, lifting))
qed

lemma recovery_body_triple:
  "step_triple (\<lambda>(b, r). get_zone_id (zh_id zone) b = Some z \<and> \<not> rv_membership_installed r) (recovery_body he z zone t policy)
    (\<lambda>_ (b, r). recovered zone z t policy b \<and> zone_policies b (zh_name zone) = Some policy)
    (\<lambda>_ (b, r). rv_membership_installed r \<longrightarrow> recovered zone z t policy b)"
  (is "step_triple _ _ ?Q ?E")
proof -
  let ?id = "\<lambda>b :: 'a LinuxBackend. map_of (zone_id_map b) (zh_id zone) = Some z" and ?n = "zh_name zone"
  let ?N = "\<lambda>(b :: 'a LinuxBackend, r). ?id b \<and> \<not> rv_membership_installed r"
  let ?D = "\<lambda>c (b, r). ?id b \<and> \<not> rv_membership_installed r \<and> zone_dir ?n c b"
  let ?P = "\<lambda>c (b, r). ?id b \<and> \<not> rv_membership_installed r \<and> zone_dir ?n c b \<and>
    (\<exists>mgr enf. le_ebpf (lb_enforcer b) = Some mgr \<and> to_enforcement policy = Inr enf \<and>
       ZONE_POLICY (bpf mgr) z = Some (enforcement_to_kernel enf))"
  let ?R = "\<lambda>(b, r :: recovery). recovered zone z t policy b"
  have kernel: "same_kernel b b' \<Longrightarrow> ?id b' = ?id b" for b b' by (simp add: same_kernel_def)
  have after: "step_triple ?R (rec_step m) (\<lambda>_. ?R) ?E" if "\<And>b r b'. m b = (r, b') \<Longrightarrow> same_kernel b b'" for m
    using that recovered_kernel by (intro rec_step_triple) fastforce+
  have before: "step_triple (?D c) (rec_step m) (\<lambda>_. ?D c) ?E" if "\<And>b r b'. m b = (r, b') \<Longrightarrow> same_kernel b b'" for m c
    using that kernel zone_dir_kernel by (intro rec_step_triple) fastforce+
  have note_cg: "step_triple (?D c) (rec_note (\<lambda>r. r\<lparr>rv_cgroup_id := Some c\<rparr>)) (\<lambda>_. ?D c) ?E" for c
    by (rule rec_note_triple) simp
  have cg: "step_triple ?N (rec_step (recover_cgroup ?n)) ?D ?E"
    by (intro rec_step_triple) (auto dest!: recover_cgroup_ok)
  have res: "step_triple (?D c) (rec_step (in_cgroup (apply_resources ?n (zpol_resources policy)))) (\<lambda>_. ?D c) ?E" for c
    by (intro rec_step_triple) (auto dest: apply_resources_dir)
  have pol: "step_triple (?D c) (rec_step (in_enforcer (le_set_zone_policy z policy))) (\<lambda>_. ?P c) ?E" for c
    by (intro rec_step_triple) (auto simp: part_simps zone_dir_def elim!: le_set_zone_policy_ok)
  have mem: "step_triple (?P c) (rec_step (in_enforcer (le_add_zone_member c z t))) (\<lambda>_. ?R) ?E" for c
    by (intro rec_step_triple)
      (auto simp: part_simps zone_dir_def recovered_def get_zone_id_def zone_enforced_def elim!: le_add_zone_member_ok intro!: exI [of _ c])
  have ip: "step_triple (?D c) (rec_note (\<lambda>r. if zh_network_state zone \<noteq> None then r\<lparr>rv_ip_marked := True\<rparr> else r)) (\<lambda>_. ?D c) ?E" for c
    by (rule rec_note_triple) auto
  have inst: "step_triple ?R (rec_note (\<lambda>r. r\<lparr>rv_membership_installed := True\<rparr>)) (\<lambda>_. ?R) ?E"
    by (rule rec_note_triple) auto
  have name: "step_triple ?N (rec_step (modify_st (set_zone_name ?n (zh_id zone)))) (\<lambda>_. ?N) ?E"
    by (intro rec_step_triple) (auto simp: modify_st_def set_zone_name_def)
  have store: "step_triple ?R (rec_step (modify_st (store_policy ?n policy))) ?Q ?E"
    by (intro rec_step_triple)
      (auto simp: modify_st_def store_policy_def recovered_def get_zone_id_def zone_enforced_def)
  show ?thesis unfolding recovery_body_def Let_def get_zone_id_def
    by (intro bind_triple [OF name] bind_triple [OF cg] bind_triple [OF note_cg] bind_triple [OF res] bind_triple [OF before [OF recover_ip_kernel]]
        bind_triple [OF ip] bind_triple [OF before [OF recover_network_kernel]] bind_triple [OF pol] bind_triple [OF mem] bind_triple [OF inst]
        bind_triple [OF after [OF degradable_kernel [OF restore_inodes_kernel]]] bind_triple [OF after [OF sync_same_kernel]]
        bind_triple [OF after [OF core_same_kernel [OF nftables_core]]] store; assumption)
qed

definition recovery_start :: recovery where
  "recovery_start = \<lparr>rv_cgroup_id = None, rv_ip_marked = False, rv_membership_installed = False\<rparr>"

definition with_new_id :: "string \<Rightarrow> 'w LinuxBackend \<Rightarrow> 'w LinuxBackend" where
  "with_new_id uuid b = snd (allocate_zone_id uuid b)"

lemma with_new_id_fields [simp]:
  "get_zone_id uuid (with_new_id uuid b) = Some (next_zone_id b)" "lb_enforcer (with_new_id uuid b) = lb_enforcer b"
  "lb_cgroup (with_new_id uuid b) = lb_cgroup b"
  by (simp_all add: with_new_id_def allocate_zone_id_def get_zone_id_def Let_def table_simps)

lemma recover_zone_unfold:
  assumes "admit policy b = (Inr (), b)"
  shows "lb_recover_zone he zone t policy b =
    (case recovery_body he (next_zone_id b) zone t policy (with_new_id (zh_id zone) b, recovery_start) of
      (Inr _, (b1, r)) \<Rightarrow> (Inr (), b1)
    | (Inl e, (b1, r)) \<Rightarrow>
        if rv_membership_installed r \<and> live_or_unreadable (zh_name zone) (lb_cgroup b1) then
          (case in_cgroup (drain_zone (zh_name zone)) b1 of
             (Inl d, b2) \<Rightarrow> (Inl (BackendError (''zone recovery failed: '' @ show_error e @ ''; fail-closed drain failed: '' @ show_error d)), b2)
           | (Inr _, b2) \<Rightarrow> (Inl e, undo_recovery he (next_zone_id b) zone r b2))
        else (Inl e, undo_recovery he (next_zone_id b) zone r b1))"
  using assms by (simp add: lb_recover_zone_def bind_step_def allocate_zone_id_def with_new_id_def recovery_start_def Let_def)

lemma admit_state: "admit policy b = (r, b') \<Longrightarrow> b' = b"
  by (auto simp: admit_def asks_def split: sum.splits)

text \<open>C27: a zone whose recovery succeeds is enforced again: under a fresh identifier the kernel has its policy and the
  membership of the cgroup that carries the zone's name, and the backend holds the policy for later reloads.\<close>

theorem recovered_zone_is_enforced:
  assumes "lb_recover_zone he zone t policy b = (Inr (), b')"
  shows "recovered zone (next_zone_id b) t policy b' \<and> zone_policies b' (zh_name zone) = Some policy"
proof -
  have admitted: "admit policy b = (Inr (), b)"
    using assms by (cases "admit policy b") (auto simp: lb_recover_zone_def bind_step_def dest: admit_state split: sum.splits)
  then obtain r where "recovery_body he (next_zone_id b) zone t policy (with_new_id (zh_id zone) b, recovery_start) = (Inr (), (b', r))"
    using assms by (auto simp: recover_zone_unfold [OF admitted] split: prod.splits sum.splits if_splits)
  from step_triple_ok [OF recovery_body_triple _ this] show ?thesis by (simp add: recovery_start_def)
qed

lemma drain_recovered:
  assumes "in_cgroup (drain_zone n) b = (r, b')" "recovered zone z t policy b"
  shows "recovered zone z t policy b'"
proof -
  obtain fs where fs: "b' = b\<lparr>lb_cgroup := fs\<rparr>" "cgroups_kept (lb_cgroup b) fs"
    using assms(1) drain_zone_kept [of "lb_cgroup b" n] by (auto simp: part_simps)
  then show ?thesis using assms(2)
    by (auto simp: recovered_def get_zone_id_def zone_enforced_def dest: kept_dir)
qed

lemma not_live: "\<not> live_or_unreadable n fs \<Longrightarrow> no_processes n fs"
  by (auto simp: live_or_unreadable_def split: sum.splits intro: has_no_processes)

text \<open>C9: a recovery that fails after the kernel knows the zone's cgroup never sets a live process free: either the zone has
  no process left, or the cgroup is still a member of the zone under its policy.\<close>

theorem failed_recovery_is_fail_closed:
  assumes "admit policy b = (Inr (), b)"
    "recovery_body he (next_zone_id b) zone t policy (with_new_id (zh_id zone) b, recovery_start) = (Inl e, (b1, r))"
    "rv_membership_installed r" "lb_recover_zone he zone t policy b = (res, b')"
  shows "\<not> is_ok res \<and> (no_processes (zh_name zone) (lb_cgroup b') \<or> recovered zone (next_zone_id b) t policy b')"
proof -
  have rec: "recovered zone (next_zone_id b) t policy b1"
    using step_triple_err [OF recovery_body_triple _ assms(2)] assms(3) by (simp add: recovery_start_def)
  note result = assms(4) [unfolded recover_zone_unfold [OF assms(1)] assms(2)]
  show ?thesis
  proof (cases "live_or_unreadable (zh_name zone) (lb_cgroup b1)")
    case True
    then show ?thesis using result assms(3) drain_recovered [OF _ rec]
      by (cases "in_cgroup (drain_zone (zh_name zone)) b1")
        (auto simp: undo_recovery_cgroup part_simps dest: drain_zone_ok split: sum.splits)
  next
    case False
    then show ?thesis using result not_live by (auto simp: undo_recovery_cgroup)
  qed
qed

subsection \<open>A recovery that fails early\<close>

lemma write_procs:
  "map_option cg_procs (cg_dirs (snd (write_cgroup_file p n v fs)) q) = map_option cg_procs (cg_dirs fs q)"
  by (auto simp: write_cgroup_file_def cg_write_def split: option.splits sum.splits)

lemma bind_procs:
  "(\<And>fs. map_option cg_procs (cg_dirs (snd (m fs)) q) = map_option cg_procs (cg_dirs fs q)) \<Longrightarrow>
   (\<And>x fs. map_option cg_procs (cg_dirs (snd (k x fs)) q) = map_option cg_procs (cg_dirs fs q)) \<Longrightarrow>
   map_option cg_procs (cg_dirs (snd (bind_step m k fs)) q) = map_option cg_procs (cg_dirs fs q)"
  by (auto simp: bind_step_def split: prod.splits sum.splits) (metis snd_conv)+

lemma apply_resources_procs:
  "map_option cg_procs (cg_dirs (snd (apply_resources n r fs)) q) = map_option cg_procs (cg_dirs fs q)"
  by (auto simp: apply_resources_def Let_def intro!: bind_procs write_procs)

text \<open>C37: a recovery that fails because a resource limit cannot be written returns without draining the zone: the processes
  that survived the restart keep running in a cgroup that no kernel map knows.\<close>

theorem early_recovery_failure_leaves_the_zone_running:
  assumes "admit policy b = (Inr (), b)" "zone_cgroup_exists (zh_name zone) (lb_cgroup b)"
    "cgroup_id_for_zone (zh_name zone) (lb_cgroup b) = Inr c" "member_of (lb_enforcer b) c = None"
    "apply_resources (zh_name zone) (zpol_resources policy) (lb_cgroup b) = (Inl e, fs)"
  shows "\<exists>b'. lb_recover_zone he zone t policy b = (Inl e, b') \<and> member_of (lb_enforcer b') c = None \<and>
    map_option cg_procs (cg_dirs (lb_cgroup b') (cg_zone_path (zh_name zone))) =
    map_option cg_procs (cg_dirs (lb_cgroup b) (cg_zone_path (zh_name zone)))"
proof -
  let ?b = "set_zone_name (zh_name zone) (zh_id zone) (with_new_id (zh_id zone) b)"
  have [simp]: "lb_enforcer ?b = lb_enforcer b" "lb_cgroup ?b = lb_cgroup b" by (simp_all add: set_zone_name_def)
  have body: "recovery_body he (next_zone_id b) zone t policy (with_new_id (zh_id zone) b, recovery_start) =
      (Inl e, (?b\<lparr>lb_cgroup := fs\<rparr>, recovery_start\<lparr>rv_cgroup_id := Some c\<rparr>))"
    using assms(2,3,5)
    by (simp add: recovery_body_def Let_def bind_step_def rec_step_def rec_note_def on_part_def modify_st_def recover_cgroup_def asks_def in_cgroup_def)
  have "\<not> rv_membership_installed (recovery_start\<lparr>rv_cgroup_id := Some c\<rparr>)" by (simp add: recovery_start_def)
  then show ?thesis
    using assms(4,5) apply_resources_procs [of "zh_name zone" "zpol_resources policy" "lb_cgroup b" "cg_zone_path (zh_name zone)"]
    by (simp add: recover_zone_unfold [OF assms(1)] body undo_recovery_cgroup undo_recovery_member)
qed

lemma demo_handle_fields [simp]: "zh_id demo_handle = ''u''" "zh_name demo_handle = ''web''" "zh_network_state demo_handle = None"
  by (simp_all add: demo_handle_def)

definition demo_no_io :: cgroup_fs where
  "demo_no_io = (demo_cgroups None ''42'')\<lparr>cg_fault := \<lambda>op. case op of CgWrite p f v \<Rightarrow> if f = ''io.weight'' then Some os_missing else None | _ \<Rightarrow> None\<rparr>"

lemma demo_no_io_fails: "\<exists>e fs. apply_resources ''web'' r demo_no_io = (Inl e, fs)"
  by (simp add: apply_resources_def cg_exists_def demo_cgroups_def Let_def bind_step_def write_cgroup_file_def cg_write_def demo_no_io_def)

theorem early_recovery_failure_leaves_the_zone_running_witness:
  "\<exists>e b'. lb_recover_zone demo_env demo_handle NonGlobal demo_host_policy (demo_lb demo_no_io) = (Inl e, b') \<and>
    member_of (lb_enforcer b') 7 = None \<and> map_option cg_procs (cg_dirs (lb_cgroup b') (cg_zone_path ''web'')) = Some ''42''"
proof -
  have fields: "cg_dirs demo_no_io = [cg_zone_path ''web'' \<mapsto> \<lparr>cg_ino = 7, cg_procs = ''42'', cg_files = Map.empty\<rparr>]"
    by (simp add: demo_no_io_def demo_cgroups_def)
  have demo_member: "member_of (lb_enforcer (demo_lb demo_no_io)) 7 = None"
    by (simp add: member_of_def map_view_def demo_manager_def demo_machine_def)
  have cg: "zone_cgroup_exists ''web'' demo_no_io" "cgroup_id_for_zone ''web'' demo_no_io = Inr 7"
    by (simp_all add: zone_cgroup_exists_def cg_exists_def cgroup_id_for_zone_def cgroup_id_def demo_cgroups_def demo_no_io_def result_simps)
  obtain e fs where "apply_resources ''web'' (zpol_resources demo_host_policy) demo_no_io = (Inl e, fs)" using demo_no_io_fails by blast
  with early_recovery_failure_leaves_the_zone_running [where b = "demo_lb demo_no_io" and zone = demo_handle and he = demo_env and t = NonGlobal and c = 7, OF demo_admit _ _ demo_member]
  show ?thesis using cg by (intro exI [of _ e]) (simp add: fields)
qed

text \<open>The zone \<open>web\<close> has a live process that does not die and no root filesystem: the recovery installs the membership and
  then stops, and the drain fails.\<close>

lemma demo_stuck_body:
  "\<exists>e b1 r. recovery_body demo_env 1 demo_handle NonGlobal demo_host_policy
      (with_new_id ''u'' (demo_lb (demo_cgroups None ''42'')), recovery_start) = (Inl e, (b1, r)) \<and> rv_membership_installed r"
proof -
  have cg: "recover_cgroup ''web'' b = (Inr 7, b)" if "lb_cgroup b = demo_cgroups None ''42''" for b :: "unit LinuxBackend"
    using that by (simp add: recover_cgroup_def zone_cgroup_exists_def cg_exists_def cgroup_id_for_zone_def cgroup_id_def demo_cgroups_def
        asks_def result_simps)
  have ip: "recover_ip demo_handle p b = (Inr (), b)" "recover_network demo_env demo_handle demo_host_policy b = (Inr (), b)" for p b
    by (simp_all add: recover_ip_def recover_network_def demo_host_policy_def)
  have strict: "admission demo_host_policy = Strict" by (simp add: demo_host_policy_def ZonePolicy_default_def)
  have res: "\<exists>fs. apply_resources ''web'' r (demo_cgroups None ''42'') = (Inr (), fs) \<and> zone_has_processes ''web'' fs = Inr True" for r
    by (simp add: apply_resources_def cg_exists_def demo_cgroups_def Let_def bind_step_def write_cgroup_file_def cg_write_def
        zone_has_processes_def cg_read_def trim_def is_whitespace_def)
  then obtain fs where fs: "apply_resources ''web'' (zpol_resources demo_host_policy) (demo_cgroups None ''42'') = (Inr (), fs)"
      "zone_has_processes ''web'' fs = Inr True" by blast
  have none: "collect_zone_rootfs_inodes demo_env ''web'' b = Inr []" if "lb_files b = []" "lb_root b = [''var'']" for b
    using that by (simp add: collect_zone_rootfs_inodes_def path_exists_def eval_nat_numeral)
  show ?thesis
    by (simp add: recovery_body_def Let_def bind_step_def rec_step_def rec_note_def on_part_def modify_st_def cg ip fs strict
        in_cgroup_def in_enforcer_def demo_enforcer_simps with_new_id_def allocate_zone_id_def set_zone_name_def demo_enforcer_def
        degradable_def restore_rootfs_inodes_def asks_def none fail_def recovery_start_def demo_lb_def)
qed

theorem failed_recovery_is_fail_closed_witness:
  "\<exists>res b'. lb_recover_zone demo_env demo_handle NonGlobal demo_host_policy (demo_lb (demo_cgroups None ''42'')) = (res, b') \<and>
    \<not> is_ok res \<and> (no_processes ''web'' (lb_cgroup b') \<or> recovered demo_handle 1 NonGlobal demo_host_policy b')"
proof -
  obtain e b1 r where "recovery_body demo_env 1 demo_handle NonGlobal demo_host_policy
      (with_new_id ''u'' (demo_lb (demo_cgroups None ''42'')), recovery_start) = (Inl e, (b1, r))" "rv_membership_installed r"
    using demo_stuck_body by blast
  with failed_recovery_is_fail_closed [where b = "demo_lb (demo_cgroups None ''42'')" and zone = demo_handle, OF demo_admit _ _ prod.collapse [symmetric]]
  show ?thesis by (metis demo_handle_fields(1,2) demo_lb_fields(2) prod.collapse)
qed

subsection \<open>A healthy host recovers its zones\<close>

text \<open>The maps and the cgroup files accept every operation, and the zone's cgroup exists.\<close>

definition healthy_host :: "string \<Rightarrow> 'w LinuxBackend \<Rightarrow> bool" where
  "healthy_host n b \<longleftrightarrow> healthy_enforcer (lb_enforcer b) \<and> cg_fault (lb_cgroup b) = (\<lambda>_. None) \<and> cg_dirs (lb_cgroup b) (cg_zone_path n) \<noteq> None"

lemma write_total:
  "cg_fault fs = (\<lambda>_. None) \<Longrightarrow> cg_dirs fs p \<noteq> None \<Longrightarrow>
   \<exists>fs'. write_cgroup_file p n v fs = (Inr (), fs') \<and> cg_fault fs' = (\<lambda>_. None) \<and> cg_dirs fs' p \<noteq> None"
  by (auto simp: write_cgroup_file_def cg_write_def)

lemma apply_resources_total:
  assumes "cg_fault fs = (\<lambda>_. None)" "cg_dirs fs (cg_zone_path n) \<noteq> None"
  shows "\<exists>fs'. apply_resources n r fs = (Inr (), fs') \<and> cg_fault fs' = (\<lambda>_. None) \<and> cg_dirs fs' (cg_zone_path n) \<noteq> None"
proof -
  let ?H = "\<lambda>fs. cg_fault fs = (\<lambda>_. None) \<and> cg_dirs fs (cg_zone_path n) \<noteq> None"
  have "step_triple ?H (write_cgroup_file (cg_zone_path n) f v) (\<lambda>_. ?H) (\<lambda>_ _. False)" for f v
    using write_total [of _ "cg_zone_path n" f v] by (intro step_tripleI) (metis Pair_inject sum.distinct(1))+
  then have "step_triple ?H (\<lambda>fs. bind_step (write_cgroup_file (cg_zone_path n) ''cpu.weight'' a) (\<lambda>_.
       bind_step (write_cgroup_file (cg_zone_path n) ''memory.max'' b) (\<lambda>_.
       bind_step (write_cgroup_file (cg_zone_path n) ''pids.max'' c) (\<lambda>_.
       write_cgroup_file (cg_zone_path n) ''io.weight'' d))) fs) (\<lambda>_. ?H) (\<lambda>_ _. False)" for a b c d
    by (intro bind_triple)
  then show ?thesis using assms unfolding apply_resources_def Let_def step_triple_def cg_exists_def
    by (fastforce split: prod.splits sum.splits)
qed

lemma recover_cgroup_total:
  assumes "healthy_enforcer (lb_enforcer b)" "cg_fault (lb_cgroup b) = (\<lambda>_. None)"
  shows "\<exists>c b'. recover_cgroup n b = (Inr c, b') \<and> healthy_host n b'"
  using assms
  by (auto simp: recover_cgroup_def zone_cgroup_exists_def asks_def cgroup_id_for_zone_def cgroup_id_def in_cgroup_def on_part_def
      create_zone_cgroup_def cg_exists_def cg_mkdir_def Let_def result_simps healthy_host_def)

lemma kernel_op_total:
  assumes "healthy_enforcer e"
  shows "to_enforcement policy = Inr enf \<Longrightarrow> \<exists>e'. le_set_zone_policy z policy e = (Inr (), e') \<and> healthy_enforcer e'"
    "\<exists>e'. le_add_zone_member c z t e = (Inr (), e') \<and> healthy_enforcer e'"
    "\<exists>x e'. le_insert_inodes inos z e = (Inr x, e') \<and> healthy_enforcer e'"
  using assms
  by (auto simp: healthy_enforcer_def le_set_zone_policy_def le_add_zone_member_def le_insert_inodes_def with_bpf_def set_zone_policy_def
      policy_to_kernel_def result_simps set_zone_policy_kernel_def add_zone_member_def map_op_healthy split: prod.split)

lemma in_enforcer_host:
  assumes "healthy_host n b" "\<And>e. healthy_enforcer e \<Longrightarrow> \<exists>e'. m e = (Inr (), e') \<and> healthy_enforcer e'"
  shows "\<exists>b'. in_enforcer m b = (Inr (), b') \<and> healthy_host n b'"
proof -
  obtain e' where "m (lb_enforcer b) = (Inr (), e')" "healthy_enforcer e'" using assms unfolding healthy_host_def by blast
  then show ?thesis using assms(1) by (simp add: in_enforcer_def on_part_def healthy_host_def)
qed

lemma apply_resources_host:
  assumes "healthy_host n b"
  shows "\<exists>b'. in_cgroup (apply_resources n r) b = (Inr (), b') \<and> healthy_host n b'"
proof -
  obtain fs where "apply_resources n r (lb_cgroup b) = (Inr (), fs)" "cg_fault fs = (\<lambda>_. None)" "cg_dirs fs (cg_zone_path n) \<noteq> None"
    using apply_resources_total [of "lb_cgroup b" n r] assms by (auto simp: healthy_host_def)
  then show ?thesis using assms by (simp add: in_cgroup_def on_part_def healthy_host_def)
qed

lemma degradation_host [simp]:
  "healthy_host n (record_degradation k c b) = healthy_host n b" "healthy_host n (clear_degradation k c b) = healthy_host n b"
  by (simp_all add: healthy_host_def record_degradation_def clear_degradation_def split: option.split)

lemma audit_host:
  assumes "healthy_host n (snd (m b))"
  shows "\<exists>b'. degradable Audit k c cl m b = (Inr (), b') \<and> healthy_host n b'"
  using assms by (cases "m b"; cases "fst (m b)") (simp_all add: degradable_def)

lemma restore_inodes_host:
  assumes "healthy_host n b"
  shows "healthy_host n (snd (restore_rootfs_inodes he k z b))"
proof -
  have "healthy_enforcer (snd (le_insert_inodes i z (lb_enforcer b)))" for i
    using kernel_op_total(3) [of "lb_enforcer b" i z] assms by (auto simp: healthy_host_def)
  then show ?thesis using assms
    by (auto simp: restore_rootfs_inodes_def bind_step_def asks_def in_enforcer_def on_part_def modify_st_def fail_def ret_def case_prod_beta
        healthy_host_def split: sum.split)
qed

lemma nftables_host: "healthy_host n b \<Longrightarrow> \<exists>b'. degradable Audit k c cl (in_world m) b = (Inr (), b') \<and> healthy_host n b'"
  by (rule audit_host) (simp add: in_world_def on_part_def healthy_host_def split: prod.split)

lemma sync_host: "healthy_host n b \<Longrightarrow> \<exists>b'. sync_bpf_allowed_comms z net b = (Inr (), b') \<and> healthy_host n b'"
  using sync_comms_total [of b z net] sync_cgroup [of z net b] by (fastforce simp: healthy_host_def)

text \<open>On a host whose maps and cgroup files accept every operation, an admitted zone with host networking whose policy
  audits missing controls is always recovered.\<close>

lemma audit_recovery_total:
  assumes "admit policy b = (Inr (), b)" "healthy_enforcer (lb_enforcer b)" "cg_fault (lb_cgroup b) = (\<lambda>_. None)"
    "to_enforcement policy = Inr enf" "admission policy = Audit" "net_mode (zpol_network policy) = Host" "zh_network_state zone = None"
  shows "is_ok (fst (lb_recover_zone he zone t policy b))"
proof -
  let ?n = "zh_name zone" and ?z = "next_zone_id b"
  let ?F = "\<lambda>(_ :: RauhaError) (_ :: 'a recovering). False" and ?H = "\<lambda>s :: 'a recovering. healthy_host ?n (fst s)"
  let ?S = "\<lambda>s :: 'a recovering. healthy_enforcer (lb_enforcer (fst s)) \<and> cg_fault (lb_cgroup (fst s)) = (\<lambda>_. None)"
  have tot: "step_triple P (rec_step m) (\<lambda>_. Q) ?F"
    if "\<And>b r. P (b, r) \<Longrightarrow> \<exists>b'. m b = (Inr (), b') \<and> Q (b', r)" for P Q :: "'a recovering \<Rightarrow> bool" and m :: "('a LinuxBackend, unit) step"
    using that by (intro rec_step_triple) (metis Pair_inject sum.distinct(1) sum.inject(2))+
  have noted: "step_triple ?H (rec_note f) (\<lambda>_. ?H) ?F" for f by (rule rec_note_triple) simp
  have name: "step_triple ?S (rec_step (modify_st (set_zone_name ?n (zh_id zone)))) (\<lambda>_. ?S) ?F"
    by (rule tot) (simp add: modify_st_def set_zone_name_def)
  have cg: "step_triple ?S (rec_step (recover_cgroup ?n)) (\<lambda>_. ?H) ?F"
    by (rule rec_step_triple) (use recover_cgroup_total [of _ ?n] in fastforce)+
  have res: "step_triple ?H (rec_step (in_cgroup (apply_resources ?n r))) (\<lambda>_. ?H) ?F" for r
    by (rule tot) (simp add: apply_resources_host)
  have ip: "step_triple ?H (rec_step (recover_ip zone policy)) (\<lambda>_. ?H) ?F"
    by (rule tot) (simp add: recover_ip_def assms(7))
  have net: "step_triple ?H (rec_step (recover_network he zone policy)) (\<lambda>_. ?H) ?F"
    by (rule tot) (simp add: recover_network_def assms(6))
  have pol: "step_triple ?H (rec_step (in_enforcer (le_set_zone_policy ?z policy))) (\<lambda>_. ?H) ?F"
    by (rule tot) (simp add: in_enforcer_host kernel_op_total(1) [OF _ assms(4)])
  have mem: "step_triple ?H (rec_step (in_enforcer (le_add_zone_member c ?z t))) (\<lambda>_. ?H) ?F" for c
    by (rule tot) (simp add: in_enforcer_host kernel_op_total(2))
  have ino: "step_triple ?H (rec_step (degradable (admission policy) ?n k False (restore_rootfs_inodes he ?n ?z))) (\<lambda>_. ?H) ?F" for k
    unfolding assms(5) by (rule tot) (simp add: audit_host restore_inodes_host)
  have sync: "step_triple ?H (rec_step (sync_bpf_allowed_comms ?z (zpol_network policy))) (\<lambda>_. ?H) ?F"
    by (rule tot) (simp add: sync_host)
  have nft: "step_triple ?H (rec_step (apply_nftables_for_zone he zone policy)) (\<lambda>_. ?H) ?F"
    by (rule tot) (simp add: apply_nftables_for_zone_def Let_def assms(5) nftables_host)
  have store: "step_triple ?H (rec_step (modify_st (store_policy ?n policy))) (\<lambda>_. ?H) ?F"
    by (rule tot) (simp add: modify_st_def store_policy_def healthy_host_def)
  have body: "step_triple ?S (recovery_body he ?z zone t policy) (\<lambda>_. ?H) ?F"
    unfolding recovery_body_def Let_def
    by (intro bind_triple [OF name] bind_triple [OF cg] bind_triple [OF noted] bind_triple [OF res] bind_triple [OF ip] bind_triple [OF net]
        bind_triple [OF pol] bind_triple [OF mem] bind_triple [OF ino] bind_triple [OF sync] bind_triple [OF nft] store)
  obtain x s where s: "recovery_body he ?z zone t policy (with_new_id (zh_id zone) b, recovery_start) = (x, s)" by (metis surj_pair)
  have "x = Inr ()" using step_triple_err [OF body, of "(with_new_id (zh_id zone) b, recovery_start)"] assms(2,3) s by (cases x) simp_all
  then show ?thesis using s by (cases s) (simp add: recover_zone_unfold [OF assms(1)])
qed

definition demo_audit_policy :: ZonePolicy where
  "demo_audit_policy = demo_host_policy\<lparr>admission := Audit\<rparr>"

lemma demo_audit_facts:
  "admit demo_audit_policy (demo_lb empty_cgroups) = (Inr (), demo_lb empty_cgroups)" "healthy_enforcer (lb_enforcer (demo_lb empty_cgroups))"
  "cg_fault (lb_cgroup (demo_lb empty_cgroups)) = (\<lambda>_. None)"
  "to_enforcement demo_audit_policy = Inr \<lparr>ze_caps_mask = 0, allow_ptrace = False, allow_host_net = True, ze_kind = StandardKind\<rparr>"
  "admission demo_audit_policy = Audit" "net_mode (zpol_network demo_audit_policy) = Host"
  by (simp_all add: demo_audit_policy_def admit_def asks_def admit_linux_policy_def unsupported_linux_controls_def demo_host_policy_def
      ZonePolicy_default_def FilesystemPolicy_default_def to_enforcement_def capabilities_to_mask_def healthy_enforcer_def demo_enforcer_def
      demo_faults empty_cgroups_def)

theorem recovered_zone_is_enforced_witness:
  "\<exists>b'. lb_recover_zone demo_env demo_handle NonGlobal demo_audit_policy (demo_lb empty_cgroups) = (Inr (), b') \<and>
     recovered demo_handle 1 NonGlobal demo_audit_policy b'"
proof -
  obtain b' where "lb_recover_zone demo_env demo_handle NonGlobal demo_audit_policy (demo_lb empty_cgroups) = (Inr (), b')"
    using audit_recovery_total [OF demo_audit_facts demo_handle_fields(3)] by (metis (full_types) is_ok_iff old.unit.exhaust prod.collapse)
  with recovered_zone_is_enforced [OF this] show ?thesis by simp
qed

subsection \<open>A rejected reload\<close>

definition kernel_policy :: "'w LinuxBackend \<Rightarrow> u32 \<Rightarrow> ZonePolicyKernel option" where
  "kernel_policy b z = (case map_view ZONE_POLICY (lb_enforcer b) of None \<Rightarrow> None | Some h \<Rightarrow> h z)"

lemma with_bpf_healthy: "healthy_enforcer e \<Longrightarrow> healthy_enforcer (snd (with_bpf n f e))"
  by (auto simp: healthy_enforcer_def with_bpf_def split: prod.split)

lemma kernel_policy_same: "same_kernel b b' \<Longrightarrow> kernel_policy b' z = kernel_policy b z"
  by (auto simp: same_kernel_def kernel_policy_def map_view_def split: option.splits)

definition policies_kept :: "'w LinuxBackend \<Rightarrow> 'w LinuxBackend \<Rightarrow> bool" where
  "policies_kept b b' \<longleftrightarrow> zone_policies b' = zone_policies b \<and> (healthy_enforcer (lb_enforcer b) \<longrightarrow> healthy_enforcer (lb_enforcer b'))"

lemma reload_policies_kept: "policies_kept b (snd (in_enforcer (le_hot_reload_policy z p) b))"
  by (auto simp: in_enforcer_def on_part_def policies_kept_def le_hot_reload_policy_def with_bpf_healthy case_prod_beta)

lemma sync_policies_kept: "policies_kept b (snd (sync_bpf_allowed_comms z net b))"
  using sync_comms_total [of b z net] sync_rest [of z net b] by (cases "sync_bpf_allowed_comms z net b") (auto simp: policies_kept_def)

lemma nft_policies_kept: "policies_kept b (snd (apply_nftables_for_zone he zone p b))"
  using nftables_core [of he zone p b] by (cases "apply_nftables_for_zone he zone p b") (simp add: policies_kept_def same_core_def)

lemma cgroup_policies_kept: "policies_kept b (snd (in_cgroup m b))"
  by (simp add: in_cgroup_def on_part_def policies_kept_def split: prod.split)

lemma bind_policies_kept:
  "(\<And>b. policies_kept b (snd (m b))) \<Longrightarrow> (\<And>x b. policies_kept b (snd (k x b))) \<Longrightarrow> policies_kept b (snd (bind_step m k b))"
  by (auto simp: bind_step_def policies_kept_def split: prod.splits sum.splits) (metis snd_conv)+

lemma reload_update_kept: "policies_kept b (snd (reload_update he zone z p b))"
  unfolding reload_update_def
  by (intro bind_policies_kept reload_policies_kept sync_policies_kept nft_policies_kept cgroup_policies_kept)

lemma restore_policy_kernel:
  assumes "healthy_enforcer (lb_enforcer b)" "to_enforcement previous = Inr enf"
  shows "kernel_policy (restore_policy he zone z previous b) z = Some (enforcement_to_kernel enf) \<and>
    zone_policies (restore_policy he zone z previous b) = zone_policies b"
proof -
  let ?b1 = "run_step (in_enforcer (le_hot_reload_policy z previous)) b"
  let ?b2 = "run_step (sync_bpf_allowed_comms z (zpol_network previous)) ?b1"
  let ?b3 = "run_step (apply_nftables_for_zone he zone previous) ?b2"
  have "kernel_policy ?b1 z = Some (enforcement_to_kernel enf)"
    using assms by (auto simp: kernel_policy_def map_view_def part_simps le_hot_reload_policy_def hot_reload_policy_def set_zone_policy_def
        policy_to_kernel_def result_simps set_zone_policy_kernel_def with_bpf_def map_op_healthy healthy_enforcer_def)
  moreover have "same_kernel ?b1 ?b2" using sync_same_kernel [OF prod.collapse [symmetric]] by (simp add: run_step_def)
  moreover have "same_kernel ?b2 ?b3" using core_same_kernel [OF nftables_core [OF prod.collapse [symmetric]]] by (simp add: run_step_def)
  moreover have "kernel_policy (restore_policy he zone z previous b) = kernel_policy ?b3"
    by (simp add: restore_policy_def part_simps kernel_policy_def fun_eq_iff)
  moreover have "zone_policies (restore_policy he zone z previous b) = zone_policies b"
    using reload_policies_kept sync_policies_kept nft_policies_kept cgroup_policies_kept
    by (metis restore_policy_def run_step_def policies_kept_def)
  ultimately show ?thesis by (simp add: kernel_policy_same)
qed


text \<open>The zone \<open>web\<close> under a policy, on a host that rejects I/O weights.\<close>

definition demo_reload :: "unit LinuxBackend" where
  "demo_reload = (run_step (in_enforcer (le_set_zone_policy 1 demo_host_policy)) (demo_lb demo_no_io))
    \<lparr>zone_id_map := [(''u'', 1)], zone_policies := [''web'' \<mapsto> demo_host_policy]\<rparr>"

lemma demo_reload_rejected: "\<exists>e b'. lb_hot_reload_policy demo_env demo_handle demo_audit_policy demo_reload = (Inl e, b')"
proof -
  let ?P = "\<lambda>b :: unit LinuxBackend. lb_cgroup b = demo_no_io" and ?E = "\<lambda>(_ :: RauhaError) (_ :: unit LinuxBackend). True"
  have "step_triple ?P (in_enforcer m) (\<lambda>_. ?P) ?E" for m :: "(LinuxEnforcer, unit) step"
    by (rule step_tripleI) (auto simp: part_simps)
  moreover have "step_triple ?P (sync_bpf_allowed_comms z net) (\<lambda>_. ?P) ?E" for z net
    by (rule step_tripleI) (auto dest!: sync_rest)
  moreover have "step_triple ?P (apply_nftables_for_zone he zone p) (\<lambda>_. ?P) ?E" for he zone p
    by (rule step_tripleI) (auto dest!: nftables_core simp: same_core_def)
  moreover have "step_triple ?P (in_cgroup (apply_resources ''web'' r)) (\<lambda>_ _. False) ?E" for r
    using demo_no_io_fails [of r] by (intro step_tripleI) (auto simp: part_simps)
  ultimately have "step_triple ?P (reload_update demo_env demo_handle 1 demo_audit_policy) (\<lambda>_ _. False) ?E"
    unfolding reload_update_def demo_handle_fields by (intro bind_triple)
  moreover have "?P demo_reload" by (simp add: demo_reload_def part_simps)
  ultimately obtain e b1 where "reload_update demo_env demo_handle 1 demo_audit_policy demo_reload = (Inl e, b1)"
    by (cases "reload_update demo_env demo_handle 1 demo_audit_policy demo_reload"; cases "fst (reload_update demo_env demo_handle 1 demo_audit_policy demo_reload)")
      (auto dest: step_triple_ok)
  moreover have "admit demo_audit_policy demo_reload = (Inr (), demo_reload)"
    by (simp add: demo_reload_def admit_def asks_def admit_linux_policy_def unsupported_linux_controls_def demo_audit_policy_def
        demo_host_policy_def ZonePolicy_default_def FilesystemPolicy_default_def part_simps le_set_zone_policy_def with_bpf_def
        demo_enforcer_def le_skipped_hooks_def case_prod_beta)
  ultimately show ?thesis
    by (simp add: lb_hot_reload_policy_def bind_step_def asks_def on_error_def get_zone_id_def demo_reload_def)
qed


end
