(* ===== verification/Linux_Containers.thy ===== *)
theory Linux_Containers
  imports Linux_Recovery
begin

text \<open>
  Containers of the Linux backend (\<open>rauhad/src/backend/linux/mod.rs\<close>): starting a zone's shim, building
  the root filesystem and the runtime specification of a container, registering its inodes, starting
  and stopping it, and the isolation report. The serialisation of the specification, the overlay mount and
  the shim's process are outside. File contents are text, and permissions are not modelled.
\<close>

text \<open>The namespaces of a container; the network namespace is joined by its path.\<close>

datatype OciNamespace = OnMount | OnUts | OnIpc | OnPid | OnCgroup | OnNetwork string

record RuntimeSpec =
  rs_annotations :: "(string \<times> string) list"
  rs_mounts :: "Mount list"
  rs_version :: string
  rs_root_path :: string
  rs_root_readonly :: bool
  rs_args :: "string list"
  rs_env :: "string list"
  rs_cwd :: string
  rs_terminal :: bool
  rs_capabilities :: LinuxCapabilities
  rs_no_new_privileges :: bool
  rs_namespaces :: "OciNamespace list"
  rs_devices :: "LinuxDevice list"
  rs_seccomp :: "LinuxSeccomp option"
  rs_hostname :: string

text \<open>\<open>ce_union\<close> gives the files once the layers are mounted at the path, \<open>ce_spawn\<close> starts a program with an
  environment and its arguments, \<open>ce_tick\<close> is a wait of 100 ms.\<close>

record 'w container_env =
  ce_host :: "'w host_env"
  ce_mount :: mount_api
  ce_union :: "fpath list \<Rightarrow> fpath \<Rightarrow> file_system \<Rightarrow> file_system"
  ce_dir_faults :: dir_faults
  ce_known_cap :: "string \<Rightarrow> bool"
  ce_mode :: "fpath \<Rightarrow> nat"
  ce_default_mounts :: "Mount list"
  ce_spec_json :: "RuntimeSpec \<Rightarrow> string rresult"
  ce_exe_dir :: "string option"
  ce_project_root :: string
  ce_spawn :: "string \<Rightarrow> (string \<times> string) list \<Rightarrow> string list \<Rightarrow> 'w \<Rightarrow> (string + unit) \<times> 'w"
  ce_tick :: "'w \<Rightarrow> 'w"

definition in_files :: "(file_system, 'a) step \<Rightarrow> ('w LinuxBackend, 'a) step" where
  "in_files = on_part lb_files (\<lambda>fs b. b\<lparr>lb_files := fs\<rparr>)"

subsection \<open>The shim of a zone\<close>

definition shim_candidates :: "'w container_env \<Rightarrow> string list" where
  "shim_candidates ce =
    (case ce_exe_dir ce of Some d \<Rightarrow> [path_join d ''rauha-shim''] | None \<Rightarrow> []) @
    [path_join (ce_project_root ce) ''target/debug/rauha-shim'', path_join (ce_project_root ce) ''target/release/rauha-shim'',
     ''/usr/local/bin/rauha-shim'', ''/usr/bin/rauha-shim'']"

definition find_shim_binary :: "'w container_env \<Rightarrow> 'w \<Rightarrow> string rresult" where
  "find_shim_binary ce w =
    ok_or (ShimError [] ''rauha-shim binary not found'') (List.find (\<lambda>c. nt_exists (he_net (ce_host ce)) c w) (shim_candidates ce))"

fun wait_for_socket :: "'w container_env \<Rightarrow> string \<Rightarrow> nat \<Rightarrow> 'w \<Rightarrow> 'w" where
  "wait_for_socket ce socket 0 w = w"
| "wait_for_socket ce socket (Suc n) w =
     (if nt_exists (he_net (ce_host ce)) socket w then w else wait_for_socket ce socket n (ce_tick ce w))"

definition shim_environment :: "DaemonConfig \<Rightarrow> (string \<times> string) list" where
  "shim_environment config =
    [(''RAUHA_RUN_DIR'', pc_run_dir (dc_paths config)), (''RAUHA_CRUN'', xc_crun (dc_executor config)),
     (''RAUHA_LOG_MAX_BYTES'', dec (ec_container_log_max_bytes (dc_evidence config))),
     (''RAUHA_BROKER_CACHE_MAX'', dec (bc_cache_max_tasks (dc_broker config))),
     (''RAUHA_BROKER_JUDGE_THREADS'', dec (bc_judge_threads (dc_broker config))),
     (''RAUHA_BROKER_HANDOFF_TIMEOUT_MS'', dec (bc_handoff_timeout_ms (dc_broker config)))]"

definition spawn_shim :: "'w container_env \<Rightarrow> string \<Rightarrow> ('w LinuxBackend, unit) step" where
  "spawn_shim ce name b =
    (let he = ce_host ce; socket = shim_socket_path name b; root = lb_root b @ [''zones'', name];
         run_dir = split_on CHR ''/'' (pc_run_dir (dc_paths (lb_config b)));
         b0 = (if nt_exists (he_net he) socket (lb_world b) then b\<lparr>lb_world := he_remove_file he socket (lb_world b)\<rparr> else b)
     in case mk_dirs (he_files he) root (lb_files b0) of
          (Inl e, fs1) \<Rightarrow> (Inl (ShimError name (''failed to create zone dir: '' @ e)), b0\<lparr>lb_files := fs1\<rparr>)
        | (Inr _, fs1) \<Rightarrow>
            let b1 = b0\<lparr>lb_files := snd (mk_dirs (he_files he) run_dir fs1)\<rparr> in
            (case find_shim_binary ce (lb_world b1) of
               Inl e \<Rightarrow> (Inl e, b1)
             | Inr shim_bin \<Rightarrow>
                 (case ce_spawn ce shim_bin (shim_environment (lb_config b1))
                     [''--zone-name'', name, ''--socket'', socket, ''--rootfs-root'', show_path root] (lb_world b1) of
                    (Inl e, w1) \<Rightarrow> (Inl (ShimError name (''failed to spawn shim: '' @ e)), b1\<lparr>lb_world := w1\<rparr>)
                  | (Inr _, w1) \<Rightarrow>
                      let w2 = wait_for_socket ce socket 50 w1
                      in (if nt_exists (he_net he) socket w2 then Inr () else Inl (ShimError name ''shim socket did not appear after spawn''),
                          b1\<lparr>lb_world := w2\<rparr>))))"

definition ensure_shim :: "'w container_env \<Rightarrow> string \<Rightarrow> ('w LinuxBackend, unit) step" where
  "ensure_shim ce name b =
    (let he = ce_host ce in
     if nt_exists (he_net he) (shim_socket_path name b) (lb_world b) then
       (case shim_request he name GetStats b of
          (Inr _, b1) \<Rightarrow> (Inr (), b1)
        | (Inl e, b1) \<Rightarrow> spawn_shim ce name b1)
     else spawn_shim ce name b)"

subsection \<open>Creating a container\<close>

definition prepare_rootfs :: "'w container_env \<Rightarrow> fpath \<Rightarrow> ContainerSpec \<Rightarrow> (file_system, fpath) step" where
  "prepare_rootfs ce container_dir spec fs =
    (case cs_overlay_layers spec of
       Some layers \<Rightarrow>
         (let paths = map (split_on CHR ''/'') layers in
          case mount_overlay (ce_mount ce) (ce_dir_faults ce) paths container_dir fs of
            (r, mounted, fs1) \<Rightarrow> (r, if mounted then ce_union ce paths (container_dir @ [''merged'']) fs1 else fs1))
     | None \<Rightarrow>
         (let rootfs = container_dir @ [''rootfs''] in
          case cs_rootfs_path spec of
            Some base \<Rightarrow> bind_step (copy_rootfs (he_files (ce_host ce)) (split_on CHR ''/'' base) rootfs) (\<lambda>_. ret rootfs) fs
          | None \<Rightarrow>
              (case mk_dirs (he_files (ce_host ce)) rootfs fs of
                 (Inl e, fs1) \<Rightarrow> (Inl (RootfsError (''failed to create rootfs dir: '' @ e)), fs1)
               | (Inr _, fs1) \<Rightarrow> (Inr rootfs, fs1))))"

definition host_resolv :: "file_system \<Rightarrow> string option" where
  "host_resolv fs =
    (case walk 40 fs [] [''etc'', ''resolv.conf''] of
       Inl e \<Rightarrow> None
     | Inr q \<Rightarrow> (case map_of fs q of Some (NFile content) \<Rightarrow> Some content | _ \<Rightarrow> None))"

definition write_resolv_conf :: "'w container_env \<Rightarrow> string list \<Rightarrow> fpath \<Rightarrow> file_system \<Rightarrow> file_system" where
  "write_resolv_conf ce dns_fallback rootfs fs =
    (let hf = he_files (ce_host ce);
         fs1 = snd (mk_dirs hf (rootfs @ [''etc'']) fs)
     in snd (fs_write hf (rootfs @ [''etc'', ''resolv.conf'']) (generate_resolv_conf_with_fallback (host_resolv fs1) dns_fallback) fs1))"

definition container_namespaces :: "ZonePolicy \<Rightarrow> string \<Rightarrow> string \<Rightarrow> OciNamespace list" where
  "container_namespaces policy name netns_dir =
    [OnMount, OnUts, OnIpc, OnPid, OnCgroup] @
    (if net_mode (zpol_network policy) \<noteq> Host then [OnNetwork (netns_path name netns_dir)] else [])"

definition container_spec ::
  "ZonePolicy \<Rightarrow> ContainerSpec \<Rightarrow> fpath \<Rightarrow> LinuxCapabilities \<Rightarrow> OciNamespace list \<Rightarrow> LinuxSeccomp option \<Rightarrow> Mount list \<Rightarrow> RuntimeSpec" where
  "container_spec policy spec rootfs caps namespaces seccomp mounts =
    \<lparr>rs_annotations = [(''run.oci.seccomp_fail_unknown_syscall'', ''1'')], rs_mounts = mounts, rs_version = ''1.0.2'',
     rs_root_path = show_path rootfs, rs_root_readonly = True,
     rs_args = (if cs_command spec = [] then [''/bin/sh''] else cs_command spec),
     rs_env = map (\<lambda>(k, v). k @ ''='' @ v) (cs_env spec) @ [DEFAULT_PATH],
     rs_cwd = (case cs_working_dir spec of Some d \<Rightarrow> d | None \<Rightarrow> ''/''), rs_terminal = False, rs_capabilities = caps,
     rs_no_new_privileges = True, rs_namespaces = namespaces, rs_devices = oci_devices policy, rs_seccomp = seccomp,
     rs_hostname = cs_name spec\<rparr>"

definition add_inodes :: "string \<Rightarrow> u64 list \<Rightarrow> 'w LinuxBackend \<Rightarrow> 'w LinuxBackend" where
  "add_inodes name inos b =
    b\<lparr>registered_inodes := (registered_inodes b)(name \<mapsto> (case registered_inodes b name of Some xs \<Rightarrow> xs | None \<Rightarrow> []) @ inos)\<rparr>"

definition register_rootfs :: "'w host_env \<Rightarrow> ZoneHandle \<Rightarrow> u32 \<Rightarrow> fpath \<Rightarrow> ('w LinuxBackend, unit) step" where
  "register_rootfs he zone z rootfs =
    bind_step (asks (\<lambda>b. collect_rootfs_inodes (he_dirs he (lb_files b)) (show_path rootfs) MAX_INODES)) (\<lambda>inodes.
    bind_step (in_enforcer (le_insert_inodes inodes z)) (\<lambda>inserted.
    bind_step (modify_st (add_inodes (zh_name zone) inserted)) (\<lambda>_.
    if length inserted \<noteq> length inodes
    then fail (BackendError (''rootfs inode enforcement incomplete: registered '' @ dec (length inserted) @ '' of '' @ dec (length inodes)))
    else ret ())))"

fun created_handle :: "string \<Rightarrow> ZoneHandle \<Rightarrow> ShimResponse \<Rightarrow> ContainerHandle rresult" where
  "created_handle cid zone (Created pid) = Inr \<lparr>ch_id = cid, ch_zone_id = zh_id zone, ch_pid = pid, ch_platform_id = 0\<rparr>"
| "created_handle cid zone ShimOk = Inr \<lparr>ch_id = cid, ch_zone_id = zh_id zone, ch_pid = 0, ch_platform_id = 0\<rparr>"
| "created_handle cid zone (ErrorMsg message) = Inl (ShimError (zh_name zone) message)"
| "created_handle cid zone _ = Inl (ShimError (zh_name zone) ''unexpected shim response'')"

text \<open>The part after the policy and its capabilities are known, under the backend's root directory and configuration.\<close>

definition build_container ::
  "'w container_env \<Rightarrow> string \<Rightarrow> ZoneHandle \<Rightarrow> ContainerSpec \<Rightarrow> ZonePolicy \<Rightarrow> LinuxCapabilities \<Rightarrow> fpath \<Rightarrow> DaemonConfig \<Rightarrow>
   ('w LinuxBackend, ContainerHandle) step" where
  "build_container ce cid zone spec policy caps root config =
    (let name = zh_name zone; he = ce_host ce; paths = dc_paths config in
     bind_step (in_files (prepare_rootfs ce (root @ [''zones'', name, ''containers'', cid]) spec)) (\<lambda>rootfs.
     bind_step (modify_st (\<lambda>b. b\<lparr>lb_files := write_resolv_conf ce (nc_dns_fallback (dc_network config)) rootfs (lb_files b)\<rparr>)) (\<lambda>_.
     bind_step (of_result (oci_seccomp policy
       (if sp_broker (zpol_syscalls policy) = [] then None else Some (path_join (pc_run_dir paths) (''broker-'' @ cid @ ''.sock''))))) (\<lambda>seccomp.
     bind_step (in_files (oci_mounts (he_files he) (ce_mode ce) (ce_default_mounts ce) policy rootfs
       (safe_writable_roots (dc_policy config)))) (\<lambda>mounts.
     bind_step (of_result (ce_spec_json ce (container_spec policy spec rootfs caps
       (container_namespaces policy name (pc_netns_dir paths)) seccomp mounts))) (\<lambda>spec_json.
     bind_step (asks (\<lambda>b. ok_or (BackendError (''zone '' @ name @ '' has no kernel identifier; refusing container creation''))
       (get_zone_id (zh_id zone) b))) (\<lambda>z.
     bind_step (degradable (admission policy) name ''filesystem:inode_ownership'' False (register_rootfs he zone z rootfs)) (\<lambda>_.
     bind_step (shim_request he name (CreateContainer cid spec_json)) (\<lambda>response.
     of_result (created_handle cid zone response))))))))))"

definition lb_create_container ::
  "'w container_env \<Rightarrow> string \<Rightarrow> ZoneHandle \<Rightarrow> ContainerSpec \<Rightarrow> ('w LinuxBackend, ContainerHandle) step" where
  "lb_create_container ce cid zone spec =
    (let name = zh_name zone in
     bind_step (ensure_shim ce name) (\<lambda>_.
     bind_step (asks (\<lambda>b. ok_or (BackendError (''zone '' @ name @ '' has no admitted policy; refusing container creation''))
       (zone_policies b name))) (\<lambda>policy.
     bind_step (of_result (oci_capabilities (ce_known_cap ce) policy)) (\<lambda>caps b.
     build_container ce cid zone spec policy caps (lb_root b) (lb_config b) b))))"

subsection \<open>Starting and stopping\<close>

definition zone_of_container :: "ContainerHandle \<Rightarrow> 'w LinuxBackend \<Rightarrow> string rresult" where
  "zone_of_container container b =
    ok_or (ShimError (ch_zone_id container) ''zone not found for container'')
      (map_option fst (List.find (\<lambda>(_, uuid). uuid = ch_zone_id container) (zone_name_map b)))"

text \<open>\<open>show_response\<close> is the debug rendering of a response.\<close>

definition lb_start_container :: "(ShimResponse \<Rightarrow> string) \<Rightarrow> 'w host_env \<Rightarrow> ContainerHandle \<Rightarrow> ('w LinuxBackend, u32) step" where
  "lb_start_container show_response he container =
    bind_step (asks (zone_of_container container)) (\<lambda>name.
    bind_step (shim_request he name (StartContainer (ch_id container))) (\<lambda>response.
    case response of
      Created pid \<Rightarrow> ret pid
    | ErrorMsg message \<Rightarrow> fail (ContainerExecError (ch_id container) message)
    | other \<Rightarrow> fail (ShimError name (''unexpected response to StartContainer: '' @ show_response other))))"

definition lb_stop_container :: "(ShimResponse \<Rightarrow> string) \<Rightarrow> 'w host_env \<Rightarrow> ContainerHandle \<Rightarrow> ('w LinuxBackend, unit) step" where
  "lb_stop_container show_response he container =
    bind_step (asks (zone_of_container container)) (\<lambda>name.
    bind_step (shim_request he name (StopContainer (ch_id container) 15)) (\<lambda>response.
    case response of
      ShimOk \<Rightarrow> ret ()
    | ErrorMsg message \<Rightarrow> fail (ContainerExecError (ch_id container) message)
    | other \<Rightarrow> fail (ShimError name (''unexpected response to StopContainer: '' @ show_response other))))"

definition lb_zone_stats :: "ZoneHandle \<Rightarrow> 'w LinuxBackend \<Rightarrow> cgroup_stats rresult" where
  "lb_zone_stats zone b = read_stats (zh_name zone) (zh_id zone) (lb_cgroup b)"

subsection \<open>The isolation report\<close>

record IsolationCheck =
  chk_name :: string
  chk_passed :: bool
  chk_detail :: string

record IsolationReport =
  rep_zone_id :: string
  rep_is_isolated :: bool
  rep_checks :: "IsolationCheck list"

abbreviation check :: "string \<Rightarrow> bool \<Rightarrow> string \<Rightarrow> IsolationCheck" where
  "check name passed detail \<equiv> \<lparr>chk_name = name, chk_passed = passed, chk_detail = detail\<rparr>"

definition policy_checks :: "ZonePolicy option \<Rightarrow> string list \<Rightarrow> IsolationCheck list" where
  "policy_checks admitted roots =
    (case admitted of
       None \<Rightarrow> [check ''policy:admitted'' False ''zone has no admitted backend policy'']
     | Some policy \<Rightarrow>
         map (\<lambda>control. check (''policy:'' @ control) False ''requested control is unsupported by the Linux backend'')
           (unsupported_linux_controls policy roots))"

definition program_check :: "ProgramStatus \<Rightarrow> IsolationCheck" where
  "program_check status =
    check (''ebpf:'' @ ps_name status) (ps_loaded status \<and> ps_attached status)
      (if ps_loaded status \<and> ps_attached status then ''program loaded and attached''
       else if ps_loaded status then ''program loaded but detached from hook '' @ em_dash @ '' restart rauhad to re-attach''
       else ''program not loaded '' @ em_dash @ '' zone boundary not enforced'')"

definition ebpf_checks :: "LinuxEnforcer \<Rightarrow> bool \<times> IsolationCheck list" where
  "ebpf_checks e =
    (case le_health_check e of
       Inl err \<Rightarrow> (False, [check ''ebpf:health'' False (''health check failed: '' @ show_error err)])
     | Inr statuses \<Rightarrow>
         (list_all (\<lambda>s. ps_loaded s \<and> ps_attached s) statuses \<and> le_skipped_hooks e = [],
          map program_check statuses @
          map (\<lambda>hook. check (''ebpf:'' @ hook) False ''kernel does not expose this required BPF-LSM hook'') (le_skipped_hooks e)))"

definition membership_check :: "ZoneHandle \<Rightarrow> 'w LinuxBackend \<Rightarrow> IsolationCheck" where
  "membership_check zone b =
    (let (passed, detail) =
       (case get_zone_id (zh_id zone) b of
          None \<Rightarrow> (False, ''zone has no userspace kernel identifier'')
        | Some z \<Rightarrow>
            (case zone_member_matches (zh_platform_id zone) z (lb_enforcer b) of
               Inr True \<Rightarrow> (True, ''zone cgroup is registered in the BPF membership map'')
             | Inr False \<Rightarrow> (False, ''zone cgroup is missing or mismatched in the BPF membership map'')
             | Inl e \<Rightarrow> (False, ''failed to read BPF membership map: '' @ show_error e)))
     in check ''bpf_membership'' passed detail)"

definition inode_check :: "'w host_env \<Rightarrow> ZoneHandle \<Rightarrow> 'w LinuxBackend \<Rightarrow> IsolationCheck" where
  "inode_check he zone b =
    (let (passed, detail) =
       (case get_zone_id (zh_id zone) b of
          None \<Rightarrow> (False, ''zone has no userspace kernel identifier'')
        | Some z \<Rightarrow>
            (case inode_ownership_check_plan (live_or_unreadable (zh_name zone) (lb_cgroup b))
                (map_err show_error (collect_zone_rootfs_inodes he (zh_name zone) b))
                (case registered_inodes b (zh_name zone) of Some xs \<Rightarrow> xs | None \<Rightarrow> []) of
               FailLive \<Rightarrow> (False, ''live zone has no discoverable rootfs inode ownership'')
             | Mismatch recorded expected \<Rightarrow>
                 (False, ''userspace inode ownership differs from rootfs: recorded '' @ dec recorded @ '', expected '' @ dec expected)
             | DiskError e \<Rightarrow> (False, ''failed to enumerate zone rootfs: '' @ e)
             | Attest S n \<Rightarrow>
                 (case fst (inodes_match (sorted_list_of_set S) z (lb_enforcer b)) of
                    Inr True \<Rightarrow> (True, dec (card S) @ '' rootfs inodes registered'' @ n)
                  | Inr False \<Rightarrow> (False, ''kernel inode ownership map is incomplete or mismatched'')
                  | Inl e \<Rightarrow> (False, ''failed to verify inode ownership map: '' @ show_error e))))
     in check ''filesystem:inode_ownership'' passed detail)"

definition network_checks :: "'w host_env \<Rightarrow> ZoneHandle \<Rightarrow> NetworkPolicy option \<Rightarrow> 'w LinuxBackend \<Rightarrow> IsolationCheck list" where
  "network_checks he zone net b =
    (let nt = he_net he; name = zh_name zone; w = lb_world b;
         requires_netns = ((case net of Some p \<Rightarrow> net_mode p | None \<Rightarrow> Isolated) \<noteq> Host);
         netns_ok = (\<not> requires_netns \<or> netns_exists nt name (pc_netns_dir (dc_paths (lb_config b))) w);
         veth_ok = (\<not> requires_netns \<or> veth_exists nt name w);
         nft_ok = zone_rules_exist nt name (veth_host_name_for nt name w) (case net of Some p \<Rightarrow> p | None \<Rightarrow> NetworkPolicy_default) w
     in [check ''netns'' netns_ok
           (if \<not> requires_netns then ''host network mode intentionally shares the host namespace''
            else if netns_ok then ''network namespace exists''
            else ''network namespace missing '' @ em_dash @ '' network not isolated''),
         check ''network:veth'' veth_ok
           (if \<not> requires_netns then ''host network mode does not require a veth''
            else if veth_ok then ''zone veth exists''
            else ''zone veth missing '' @ em_dash @ '' network namespace is disconnected''),
         check ''network:nftables'' nft_ok
           (if nft_ok then ''zone network policy rules are installed''
            else ''zone nftables rules missing '' @ em_dash @ '' network policy is not enforced'')])"

fun counter_check :: "string \<times> EnforcementCounters \<Rightarrow> IsolationCheck list" where
  "counter_check (name, c) =
    (if cnt_error c > 0 \<and> cnt_deny c = 0 then
       [check (''enforcement:'' @ name) False (''hook has '' @ dec (unat (cnt_error c)) @ '' errors and 0 denials '' @ em_dash @
         '' enforcement may be silently failing'')]
     else if cnt_allow c > 0 \<or> cnt_deny c > 0 then
       [check (''enforcement:'' @ name) True (''allow='' @ dec (unat (cnt_allow c)) @ '', deny='' @ dec (unat (cnt_deny c)) @
         '', error='' @ dec (unat (cnt_error c)))]
     else [])"

definition counter_checks :: "LinuxEnforcer \<Rightarrow> IsolationCheck list" where
  "counter_checks e =
    (case le_read_enforcement_counters e of Inl _ \<Rightarrow> [] | Inr counters \<Rightarrow> concat (map counter_check counters))"

definition lb_verify_isolation :: "'w host_env \<Rightarrow> ZoneHandle \<Rightarrow> 'w LinuxBackend \<Rightarrow> IsolationReport" where
  "lb_verify_isolation he zone b =
    (let name = zh_name zone; admitted = zone_policies b name; roots = safe_writable_roots (dc_policy (lb_config b));
         policy_controls_ok = (case admitted of None \<Rightarrow> False | Some policy \<Rightarrow> unsupported_linux_controls policy roots = []);
         degradations = (case zone_degradations b name of Some ds \<Rightarrow> ds | None \<Rightarrow> []);
         cgroup_ok = zone_cgroup_exists name (lb_cgroup b);
         (ebpf_ok, ebpf) = ebpf_checks (lb_enforcer b);
         membership = membership_check zone b;
         inode = inode_check he zone b;
         network = network_checks he zone (map_option zpol_network admitted) b
     in \<lparr>rep_zone_id = zh_id zone,
         rep_is_isolated = (policy_controls_ok \<and> degradations = [] \<and> cgroup_ok \<and> ebpf_ok \<and> chk_passed membership \<and> chk_passed inode \<and>
           list_all chk_passed network),
         rep_checks =
           policy_checks admitted roots @
           map (\<lambda>control. check control False ''control degraded during runtime setup'') degradations @
           [check ''cgroup'' cgroup_ok
             (if cgroup_ok then ''zone cgroup exists'' else ''zone cgroup missing '' @ em_dash @ '' zone is not resource-limited'')] @
           ebpf @ [membership, inode] @ network @ counter_checks (lb_enforcer b)\<rparr>)"

definition enforcement_degraded_reason :: "'w LinuxBackend \<Rightarrow> string option" where
  "enforcement_degraded_reason b =
    (let skipped = le_skipped_hooks (lb_enforcer b)
     in if skipped = [] then None else Some (''lsm_hooks_unavailable:'' @ join '','' skipped))"

definition kernel_zone_id :: "ZoneHandle \<Rightarrow> 'w LinuxBackend \<Rightarrow> u32 option" where
  "kernel_zone_id zone b = get_zone_id (zh_id zone) b"

end
