(* ===== verification/Linux_Reports.thy ===== *)
theory Linux_Reports
  imports Linux_Containers
begin

text \<open>
  What the isolation report of a zone is worth, which files of a new container the kernel attributes to its
  zone, and where preparing a container reaches outside its root filesystem.
\<close>

subsection \<open>The isolation report\<close>

lemma failing_map: "list_all chk_passed (map (\<lambda>x. check (n x) False (d x)) xs) \<longleftrightarrow> xs = []"
  by (cases xs) simp_all

lemma program_checks: "list_all chk_passed (map program_check ss) \<longleftrightarrow> list_all (\<lambda>s. ps_loaded s \<and> ps_attached s) ss"
  by (induction ss) (simp_all add: program_check_def)

lemma ebpf_checks_agree: "fst (ebpf_checks e) \<longleftrightarrow> list_all chk_passed (snd (ebpf_checks e))"
  by (simp add: ebpf_checks_def program_checks failing_map split: sum.split)

lemma policy_checks_agree:
  "(case admitted of None \<Rightarrow> False | Some policy \<Rightarrow> unsupported_linux_controls policy roots = []) \<longleftrightarrow>
   list_all chk_passed (policy_checks admitted roots)"
  by (simp add: policy_checks_def failing_map split: option.split)

text \<open>The report calls a zone isolated exactly when every check of the report passed, the checks of the enforcement
  counters apart.\<close>

lemma report_is_the_conjunction_of_its_checks:
  "\<exists>core. rep_checks (lb_verify_isolation he zone b) = core @ counter_checks (lb_enforcer b) \<and>
    (rep_is_isolated (lb_verify_isolation he zone b) \<longleftrightarrow> list_all chk_passed core)"
proof -
  obtain ok ebpf where e: "ebpf_checks (lb_enforcer b) = (ok, ebpf)" by (metis surj_pair)
  have "ok \<longleftrightarrow> list_all chk_passed ebpf" using ebpf_checks_agree [of "lb_enforcer b"] e by simp
  then show ?thesis
    unfolding lb_verify_isolation_def Let_def e policy_checks_agree
    by (intro exI conjI, simp only: prod.case IsolationReport.simps append_assoc [symmetric])
      (auto simp: failing_map simp del: append_assoc)
qed

lemma isolated_iff:
  "rep_is_isolated (lb_verify_isolation he zone b) \<longleftrightarrow>
    (case zone_policies b (zh_name zone) of None \<Rightarrow> False
     | Some policy \<Rightarrow> unsupported_linux_controls policy (safe_writable_roots (dc_policy (lb_config b))) = []) \<and>
    (case zone_degradations b (zh_name zone) of Some ds \<Rightarrow> ds | None \<Rightarrow> []) = [] \<and>
    zone_cgroup_exists (zh_name zone) (lb_cgroup b) \<and> fst (ebpf_checks (lb_enforcer b)) \<and> chk_passed (membership_check zone b) \<and>
    chk_passed (inode_check he zone b) \<and>
    list_all chk_passed (network_checks he zone (map_option zpol_network (zone_policies b (zh_name zone))) b)"
  unfolding lb_verify_isolation_def Let_def case_prod_beta IsolationReport.simps ..

lemma report_has_counters: "set (counter_checks (lb_enforcer b)) \<subseteq> set (rep_checks (lb_verify_isolation he zone b))"
  unfolding lb_verify_isolation_def Let_def case_prod_beta IsolationReport.simps set_append by blast

lemma member_matches_Inr:
  assumes "zone_member_matches c z e = Inr True"
  shows "\<exists>mgr info. le_ebpf e = Some mgr \<and> ZONE_MEMBERSHIP (bpf mgr) c = Some info \<and> zi_zone_id info = z"
  using assms by (auto simp: zone_member_matches_def zone_member_def map_get_def result_simps split: option.splits)

lemma all_inodes_in_Inr: "all_inodes_in f inos z m = Inr True \<Longrightarrow> i \<in> set inos \<Longrightarrow> INODE_ZONE_MAP m i = Some z"
  by (induction inos) (auto simp: inode_zone_def map_get_def result_simps split: if_splits option.splits)

lemma inodes_match_Inr:
  assumes "fst (inodes_match inos z e) = Inr True" "le_ebpf e = Some mgr" "i \<in> set inos"
  shows "INODE_ZONE_MAP (bpf mgr) i = Some z"
  using assms all_inodes_in_Inr by (fastforce simp: inodes_match_def with_bpf_def)

text \<open>The inodes that the backend recorded for a zone.\<close>

definition recorded_inodes :: "string \<Rightarrow> 'w LinuxBackend \<Rightarrow> u64 list" where
  "recorded_inodes name b = (case registered_inodes b name of Some xs \<Rightarrow> xs | None \<Rightarrow> [])"

lemma inode_check_passed:
  assumes "chk_passed (inode_check he zone b)"
  shows "\<exists>z. get_zone_id (zh_id zone) b = Some z \<and>
    (\<forall>mgr. le_ebpf (lb_enforcer b) = Some mgr \<longrightarrow>
      (\<forall>i \<in> set (recorded_inodes (zh_name zone) b). INODE_ZONE_MAP (bpf mgr) i = Some z)) \<and>
    (live_or_unreadable (zh_name zone) (lb_cgroup b) \<longrightarrow>
      (\<exists>disk. collect_zone_rootfs_inodes he (zh_name zone) b = Inr disk \<and> disk \<noteq> [] \<and> set disk = set (recorded_inodes (zh_name zone) b)))"
proof -
  let ?n = "zh_name zone"
  let ?plan = "inode_ownership_check_plan (live_or_unreadable ?n (lb_cgroup b)) (map_err show_error (collect_zone_rootfs_inodes he ?n b))
    (recorded_inodes ?n b)"
  obtain z S k where z: "get_zone_id (zh_id zone) b = Some z" and plan: "?plan = Attest S k"
      and m: "fst (inodes_match (sorted_list_of_set S) z (lb_enforcer b)) = Inr True"
    using assms unfolding inode_check_def Let_def recorded_inodes_def [symmetric]
    by (auto split: option.splits InodeCheckPlan.splits sum.splits bool.splits)
  note att = attested_set [OF plan]
  have "INODE_ZONE_MAP (bpf mgr) i = Some z" if "le_ebpf (lb_enforcer b) = Some mgr" "i \<in> set (recorded_inodes ?n b)" for mgr i
    using inodes_match_Inr [OF m that(1), of i] that(2) att by simp
  moreover have "\<exists>disk. collect_zone_rootfs_inodes he ?n b = Inr disk \<and> disk \<noteq> [] \<and> set disk = set (recorded_inodes ?n b)"
    if "live_or_unreadable ?n (lb_cgroup b)"
    using att that by (cases "collect_zone_rootfs_inodes he ?n b") auto
  ultimately show ?thesis using z by blast
qed

text \<open>C25: when the report calls a zone isolated, the backend holds an admitted policy without unsupported control, the zone's
  cgroup exists, the kernel attributes it to the zone, and the kernel attributes every recorded inode to the zone, which
  are all inodes of the root filesystems on disk while the zone has processes.\<close>

theorem isolated_report_is_sound:
  assumes "rep_is_isolated (lb_verify_isolation he zone b)"
  shows "\<exists>policy z mgr info.
    zone_policies b (zh_name zone) = Some policy \<and> unsupported_linux_controls policy (safe_writable_roots (dc_policy (lb_config b))) = [] \<and>
    zone_cgroup_exists (zh_name zone) (lb_cgroup b) \<and> get_zone_id (zh_id zone) b = Some z \<and>
    le_ebpf (lb_enforcer b) = Some mgr \<and> skipped_hooks mgr = [] \<and>
    ZONE_MEMBERSHIP (bpf mgr) (zh_platform_id zone) = Some info \<and> zi_zone_id info = z \<and>
    (\<forall>i \<in> set (recorded_inodes (zh_name zone) b). INODE_ZONE_MAP (bpf mgr) i = Some z) \<and>
    (live_or_unreadable (zh_name zone) (lb_cgroup b) \<longrightarrow>
      (\<exists>disk. collect_zone_rootfs_inodes he (zh_name zone) b = Inr disk \<and> disk \<noteq> [] \<and> set disk = set (recorded_inodes (zh_name zone) b)))"
proof -
  have parts: "\<exists>policy. zone_policies b (zh_name zone) = Some policy \<and> unsupported_linux_controls policy (safe_writable_roots (dc_policy (lb_config b))) = []"
      "zone_cgroup_exists (zh_name zone) (lb_cgroup b)" "fst (ebpf_checks (lb_enforcer b))" "chk_passed (membership_check zone b)"
      "chk_passed (inode_check he zone b)"
    using assms unfolding isolated_iff by (auto split: option.splits)
  obtain z where z: "get_zone_id (zh_id zone) b = Some z" "zone_member_matches (zh_platform_id zone) z (lb_enforcer b) = Inr True"
    using parts(4) by (auto simp: membership_check_def Let_def split: option.splits sum.splits bool.splits)
  obtain mgr info where m: "le_ebpf (lb_enforcer b) = Some mgr" "ZONE_MEMBERSHIP (bpf mgr) (zh_platform_id zone) = Some info" "zi_zone_id info = z"
    using member_matches_Inr [OF z(2)] by blast
  have "skipped_hooks mgr = []" using parts(3) m(1) by (simp add: ebpf_checks_def le_health_check_def le_skipped_hooks_def)
  then show ?thesis using parts(1,2) z(1) m inode_check_passed [OF parts(5)] by auto
qed

text \<open>The same machine with other enforcement counters.\<close>

definition with_counters :: "(u32 \<rightharpoonup> EnforcementCounters) \<Rightarrow> 'w LinuxBackend \<Rightarrow> 'w LinuxBackend" where
  "with_counters c b =
    b\<lparr>lb_enforcer := (lb_enforcer b)\<lparr>le_ebpf := map_option (\<lambda>mgr. mgr\<lparr>bpf := (bpf mgr)\<lparr>ENFORCEMENT_COUNTERS := c\<rparr>\<rparr>) (le_ebpf (lb_enforcer b))\<rparr>\<rparr>"

lemma with_counters_fields [simp]:
  "zone_policies (with_counters c b) = zone_policies b" "lb_config (with_counters c b) = lb_config b"
  "zone_degradations (with_counters c b) = zone_degradations b" "lb_cgroup (with_counters c b) = lb_cgroup b"
  "registered_inodes (with_counters c b) = registered_inodes b" "lb_world (with_counters c b) = lb_world b"
  "get_zone_id u (with_counters c b) = get_zone_id u b" "lb_files (with_counters c b) = lb_files b" "lb_root (with_counters c b) = lb_root b"
  by (simp_all add: with_counters_def get_zone_id_def)

lemma with_counters_enforcer:
  "fst (ebpf_checks (lb_enforcer (with_counters c b))) = fst (ebpf_checks (lb_enforcer b))"
  "zone_member_matches g z (lb_enforcer (with_counters c b)) = zone_member_matches g z (lb_enforcer b)"
  "fst (inodes_match inos z (lb_enforcer (with_counters c b))) = fst (inodes_match inos z (lb_enforcer b))"
proof -
  have "inode_zone f i (m\<lparr>ENFORCEMENT_COUNTERS := c\<rparr>) = inode_zone f i m" for f i m
    unfolding inode_zone_def by simp
  then have "all_inodes_in f inos z (m\<lparr>ENFORCEMENT_COUNTERS := c\<rparr>) = all_inodes_in f inos z m" for f m
    by (induction inos) (simp_all cong: if_cong)
  then show "fst (inodes_match inos z (lb_enforcer (with_counters c b))) = fst (inodes_match inos z (lb_enforcer b))"
    by (simp add: with_counters_def inodes_match_def with_bpf_def split: option.split)
  show "zone_member_matches g z (lb_enforcer (with_counters c b)) = zone_member_matches g z (lb_enforcer b)"
    by (simp add: with_counters_def zone_member_matches_def zone_member_def split: option.split)
  show "fst (ebpf_checks (lb_enforcer (with_counters c b))) = fst (ebpf_checks (lb_enforcer b))"
    by (simp add: with_counters_def ebpf_checks_def le_health_check_def le_skipped_hooks_def health_check_maps split: option.split)
qed

text \<open>The verdict of the report does not depend on the enforcement counters, although a hook that reported errors
  and never denied anything fails its check in the same report.\<close>

lemma verdict_ignores_the_counters:
  "rep_is_isolated (lb_verify_isolation he zone (with_counters c b)) = rep_is_isolated (lb_verify_isolation he zone b) \<and>
   (\<forall>hook k. le_read_enforcement_counters (lb_enforcer b) = Inr cs \<and> (hook, k) \<in> set cs \<and> cnt_error k > 0 \<and> cnt_deny k = 0 \<longrightarrow>
     (\<exists>x \<in> set (rep_checks (lb_verify_isolation he zone b)). chk_name x = ''enforcement:'' @ hook \<and> \<not> chk_passed x))"
proof -
  have collect: "collect_zone_rootfs_inodes he n (with_counters c b) = collect_zone_rootfs_inodes he n b" for n
    unfolding collect_zone_rootfs_inodes_def with_counters_fields ..
  have "membership_check zone (with_counters c b) = membership_check zone b"
    unfolding membership_check_def with_counters_fields with_counters_enforcer ..
  moreover have "inode_check he zone (with_counters c b) = inode_check he zone b"
    unfolding inode_check_def with_counters_fields with_counters_enforcer collect ..
  moreover have "network_checks he zone net (with_counters c b) = network_checks he zone net b" for net
    unfolding network_checks_def with_counters_fields ..
  ultimately have "rep_is_isolated (lb_verify_isolation he zone (with_counters c b)) = rep_is_isolated (lb_verify_isolation he zone b)"
    unfolding isolated_iff with_counters_fields with_counters_enforcer by (simp only:)
  moreover have "\<exists>x \<in> set (rep_checks (lb_verify_isolation he zone b)). chk_name x = ''enforcement:'' @ hook \<and> \<not> chk_passed x"
    if "le_read_enforcement_counters (lb_enforcer b) = Inr cs" "(hook, k) \<in> set cs" "cnt_error k > 0" "cnt_deny k = 0" for hook k
  proof -
    have "set (counter_check (hook, k)) \<subseteq> set (counter_checks (lb_enforcer b))"
      using that(1,2) by (auto simp only: counter_checks_def sum.case set_concat set_map)
    moreover have "\<exists>x \<in> set (counter_check (hook, k)). chk_name x = ''enforcement:'' @ hook \<and> \<not> chk_passed x"
      using that(3,4) by simp
    ultimately show ?thesis using report_has_counters [of b he zone] by blast
  qed
  ultimately show ?thesis by blast
qed

text \<open>The zone \<open>web\<close>, idle and fully set up, on a host that shares its network.\<close>

definition demo_isolated :: "unit LinuxBackend" where
  "demo_isolated = (run_step (in_enforcer (le_add_zone_member 7 1 NonGlobal)) (demo_lb (demo_cgroups None [])))
    \<lparr>zone_id_map := [(''u'', 1)], zone_policies := [''web'' \<mapsto> demo_host_policy]\<rparr>"

lemma demo_isolated_maps:
  "le_ebpf (lb_enforcer demo_isolated) = Some (demo_manager\<lparr>skipped_hooks := [], bpf := (bpf demo_manager)\<lparr>ZONE_MEMBERSHIP :=
     (ZONE_MEMBERSHIP (bpf demo_manager))(7 \<mapsto> \<lparr>zi_zone_id = 1, zi_flags = zone_type_flags NonGlobal\<rparr>)\<rparr>\<rparr>)"
  "le_machine (lb_enforcer demo_isolated) = demo_machine"
  by (simp_all add: demo_isolated_def part_simps demo_enforcer_simps demo_enforcer_def)

lemma demo_isolated_verdict: "rep_is_isolated (lb_verify_isolation demo_env demo_handle demo_isolated)"
proof -
  have get: "get_zone_id ''u'' demo_isolated = Some 1" by (simp add: demo_isolated_def get_zone_id_def)
  have "\<not> live_or_unreadable ''web'' (lb_cgroup demo_isolated)"
    by (simp add: demo_isolated_def part_simps live_or_unreadable_def zone_has_processes_def cg_read_def demo_cgroups_def Let_def trim_def)
  moreover have "collect_zone_rootfs_inodes demo_env ''web'' demo_isolated = Inr []"
    by (simp add: collect_zone_rootfs_inodes_def path_exists_def eval_nat_numeral demo_isolated_def part_simps demo_lb_def)
  moreover have "registered_inodes demo_isolated ''web'' = None" by (simp add: demo_isolated_def part_simps demo_lb_def)
  ultimately have "chk_passed (inode_check demo_env demo_handle demo_isolated)"
    by (simp add: inode_check_def get inode_ownership_check_plan_def inodes_match_def with_bpf_def demo_isolated_maps)
  moreover have "chk_passed (membership_check demo_handle demo_isolated)"
    by (simp add: membership_check_def get zone_member_matches_def demo_isolated_maps zone_member_def map_get_def open_map_def
        demo_faults result_simps demo_handle_def)
  moreover have "fst (ebpf_checks (lb_enforcer demo_isolated))"
    using demo_manager_ok by (simp add: ebpf_checks_def le_health_check_def le_skipped_hooks_def demo_isolated_maps manager_ok_def
        health_check_def cong: option.case_cong)
  moreover have "zone_policies demo_isolated ''web'' = Some demo_host_policy" "zone_degradations demo_isolated ''web'' = None"
    "zone_cgroup_exists ''web'' (lb_cgroup demo_isolated)"
    by (simp_all add: demo_isolated_def part_simps demo_lb_def zone_cgroup_exists_def cg_exists_def demo_cgroups_def)
  moreover have "unsupported_linux_controls demo_host_policy roots = []" for roots
    by (simp add: unsupported_linux_controls_def demo_host_policy_def ZonePolicy_default_def FilesystemPolicy_default_def)
  moreover have "list_all chk_passed (network_checks demo_env demo_handle (Some (zpol_network demo_host_policy)) demo_isolated)"
    by (simp add: network_checks_def Let_def demo_host_policy_def zone_rules_exist_def)
  ultimately show ?thesis by (simp add: isolated_iff)
qed

theorem isolated_report_is_sound_witness:
  "\<exists>mgr info. le_ebpf (lb_enforcer demo_isolated) = Some mgr \<and> ZONE_MEMBERSHIP (bpf mgr) 7 = Some info \<and> zi_zone_id info = 1"
  using isolated_report_is_sound [OF demo_isolated_verdict] by (auto simp: demo_isolated_maps demo_handle_def)

subsection \<open>The files of a container\<close>

lemma spawn_shim_frame:
  "spawn_shim ce n b = (r, b') \<Longrightarrow> zone_policies b' = zone_policies b \<and> zone_id_map b' = zone_id_map b \<and> lb_root b' = lb_root b"
  unfolding spawn_shim_def Let_def by (auto split: if_splits prod.splits sum.splits)

lemma ensure_shim_frame:
  "ensure_shim ce n b = (r, b') \<Longrightarrow> zone_policies b' = zone_policies b \<and> zone_id_map b' = zone_id_map b \<and> lb_root b' = lb_root b"
  by (auto simp: ensure_shim_def shim_request_def Let_def dest!: spawn_shim_frame split: if_splits prod.splits sum.splits)

lemma prepare_rootfs_path:
  "prepare_rootfs ce d spec fs = (Inr p, fs') \<Longrightarrow> p = d @ [''merged''] \<or> p = d @ [''rootfs'']"
  unfolding prepare_rootfs_def mount_overlay_def Let_def
  by (auto simp: bind_step_Inr ret_def result_simps split: option.splits prod.splits sum.splits)

lemma insert_inodes_all:
  "insert_inodes f inos z m = (ins, m') \<Longrightarrow> length ins \<le> length inos \<and>
   (length ins = length inos \<longrightarrow> ins = inos \<and> (\<forall>i \<in> set inos. INODE_ZONE_MAP m' i = Some z)) \<and>
   (\<forall>i. INODE_ZONE_MAP m i = Some z \<longrightarrow> INODE_ZONE_MAP m' i = Some z)"
proof (induction inos arbitrary: ins m)
  case (Cons i inos)
  obtain r m1 where s: "set_inode_zone f i z m = (r, m1)" by (metis surj_pair)
  obtain ins1 where t: "insert_inodes f inos z m1 = (ins1, m')" "ins = (if is_ok r then i # ins1 else ins1)"
    using Cons.prems s by (cases r) (auto split: prod.splits)
  note IH = Cons.IH [OF t(1)]
  have "r = Inr () \<Longrightarrow> m1 = m\<lparr>INODE_ZONE_MAP := (INODE_ZONE_MAP m)(i \<mapsto> z)\<rparr>"
    using s by (auto simp: set_inode_zone_def dest!: map_op_ok)
  moreover have "\<not> is_ok r \<Longrightarrow> m1 = m"
    using s by (cases r) (auto simp: set_inode_zone_def dest!: map_op_failed)
  ultimately show ?case using IH t(2) by (cases r) auto
qed simp

lemma register_rootfs_ok:
  assumes "register_rootfs he zone z rootfs b = (Inr x, b')"
  shows "\<exists>inodes mgr. collect_rootfs_inodes (he_dirs he (lb_files b)) (show_path rootfs) MAX_INODES = Inr inodes \<and>
    le_ebpf (lb_enforcer b') = Some mgr \<and> lb_files b' = lb_files b \<and>
    (\<forall>i \<in> set inodes. INODE_ZONE_MAP (bpf mgr) i = Some z \<and> i \<in> set (recorded_inodes (zh_name zone) b'))"
proof -
  obtain inodes e' where c: "collect_rootfs_inodes (he_dirs he (lb_files b)) (show_path rootfs) MAX_INODES = Inr inodes"
      and i: "\<exists>ins. le_insert_inodes inodes z (lb_enforcer b) = (Inr ins, e') \<and> length ins = length inodes \<and>
        b' = add_inodes (zh_name zone) ins (b\<lparr>lb_enforcer := e'\<rparr>)"
    using assms unfolding register_rootfs_def bind_step_Inr
    by (auto simp: asks_def in_enforcer_iff modify_st_def fail_def ret_def split: if_splits)
  then obtain ins where ins: "le_insert_inodes inodes z (lb_enforcer b) = (Inr ins, e')" "length ins = length inodes"
      "b' = add_inodes (zh_name zone) ins (b\<lparr>lb_enforcer := e'\<rparr>)" by blast
  obtain mgr m where m: "le_ebpf e' = Some (mgr\<lparr>bpf := m\<rparr>)" "insert_inodes (mc_faults (le_machine (lb_enforcer b))) inodes z (bpf mgr) = (ins, m)"
    using ins(1) unfolding le_insert_inodes_def by (auto elim!: with_bpf_Inr split: prod.splits)
  show ?thesis using c m(1) insert_inodes_all [OF m(2)] ins(2,3)
    by (auto simp: add_inodes_def recorded_inodes_def)
qed

lemma at_state_triple:
  assumes "\<And>b0. P b0 \<Longrightarrow> step_triple (\<lambda>b. b = b0) (F b0) Q E"
  shows "step_triple P (\<lambda>b. F b b) Q E"
  using assms by (auto simp: step_triple_def)

lemma step_triple_true: "(\<And>s x t. P s \<Longrightarrow> m s = (Inr x, t) \<Longrightarrow> Q x t) \<Longrightarrow> step_triple P m Q (\<lambda>_ _. True)"
  by (rule step_tripleI) simp_all

text \<open>The root filesystem is one of the container's, and its inodes are registered.\<close>

definition owned_rootfs :: "'w host_env \<Rightarrow> ZoneHandle \<Rightarrow> u32 \<Rightarrow> fpath \<Rightarrow> 'w LinuxBackend \<Rightarrow> bool" where
  "owned_rootfs he zone z rootfs b \<longleftrightarrow>
    (\<exists>inodes mgr. collect_rootfs_inodes (he_dirs he (lb_files b)) (show_path rootfs) MAX_INODES = Inr inodes \<and>
      le_ebpf (lb_enforcer b) = Some mgr \<and>
      (\<forall>i \<in> set inodes. INODE_ZONE_MAP (bpf mgr) i = Some z \<and> i \<in> set (recorded_inodes (zh_name zone) b)))"

lemma register_rootfs_strict:
  assumes "degradable Strict n c cl (register_rootfs he zone z rootfs) b = (Inr x, b')"
  shows "owned_rootfs he zone z rootfs b'"
proof -
  obtain b1 where r: "register_rootfs he zone z rootfs b = (Inr (), b1)" and b': "b' = (if cl then clear_degradation n c b1 else b1)"
    using assms by (auto simp: degradable_def split: prod.splits sum.splits)
  have "owned_rootfs he zone z rootfs b1" using register_rootfs_ok [OF r] by (auto simp: owned_rootfs_def)
  then show ?thesis using b' by (simp add: owned_rootfs_def clear_degradation_def recorded_inodes_def split: option.split)
qed

lemma shim_request_owned: "shim_request he n q b = (r, b') \<Longrightarrow> owned_rootfs he' zone z p b \<Longrightarrow> owned_rootfs he' zone z p b'"
  by (auto simp: shim_request_def owned_rootfs_def recorded_inodes_def split: prod.splits)

lemma create_container_triple:
  fixes b0 :: "'w LinuxBackend"
  assumes "zone_policies b0 (zh_name zone) = Some policy" "admission policy = Strict"
  shows "step_triple (\<lambda>b. b = b0) (lb_create_container ce cid zone spec)
    (\<lambda>_ b. \<exists>z d. get_zone_id (zh_id zone) b0 = Some z \<and> d \<in> {''merged'', ''rootfs''} \<and>
       owned_rootfs (ce_host ce) zone z (lb_root b0 @ [''zones'', zh_name zone, ''containers'', cid, d]) b) (\<lambda>_ _. True)"
    (is "step_triple _ _ ?Q ?E")
proof -
  let ?n = "zh_name zone" and ?d = "lb_root b0 @ [''zones'', zh_name zone, ''containers'', cid]"
  let ?S = "\<lambda>b :: 'w LinuxBackend. zone_policies b = zone_policies b0 \<and> zone_id_map b = zone_id_map b0 \<and> lb_root b = lb_root b0"
  let ?R = "\<lambda>p b. ?S b \<and> (p = ?d @ [''merged''] \<or> p = ?d @ [''rootfs''])"
  let ?Z = "\<lambda>p z b. ?R p b \<and> map_of (zone_id_map b0) (zh_id zone) = Some z"
  let ?O = "\<lambda>p z b. map_of (zone_id_map b0) (zh_id zone) = Some z \<and> (p = ?d @ [''merged''] \<or> p = ?d @ [''rootfs'']) \<and>
    owned_rootfs (ce_host ce) zone z p b"
  have shim: "step_triple (\<lambda>b. b = b0) (ensure_shim ce ?n) (\<lambda>_. ?S) ?E"
    by (rule step_triple_true) (auto dest: ensure_shim_frame)
  have pol: "step_triple ?S (asks (\<lambda>b. ok_or e (zone_policies b ?n))) (\<lambda>p b. p = policy \<and> ?S b) ?E" for e
    by (rule step_triple_true) (auto simp: asks_def ok_or_Inr assms(1))
  have pure: "step_triple P (of_result r) (\<lambda>_. P) ?E" for P :: "'w LinuxBackend \<Rightarrow> bool" and r :: "'x rresult"
    by (rule step_triple_true) (auto simp: of_result_def)
  have caps: "step_triple (\<lambda>b. p = policy \<and> ?S b) (of_result r) (\<lambda>_ b. p = policy \<and> ?S b) ?E" for p and r :: "LinuxCapabilities rresult"
    by (rule pure)
  have root: "step_triple ?S (in_files (prepare_rootfs ce ?d spec)) ?R ?E"
    by (rule step_triple_true) (auto simp: in_files_def on_part_def dest!: prepare_rootfs_path split: prod.splits)
  have dns: "step_triple (?R p) (modify_st (\<lambda>b. b\<lparr>lb_files := f b\<rparr>)) (\<lambda>_. ?R p) ?E" for f p
    by (rule step_triple_true) (auto simp: modify_st_def)
  have mounts: "step_triple (?R p) (in_files m) (\<lambda>_. ?R p) ?E" for p and m :: "(file_system, Mount list) step"
    by (rule step_triple_true) (auto simp: in_files_def on_part_def split: prod.splits)
  have id: "step_triple (?R p) (asks (\<lambda>b. ok_or e (get_zone_id (zh_id zone) b))) (?Z p) ?E" for p e
    by (rule step_triple_true) (auto simp: asks_def ok_or_Inr get_zone_id_def)
  have reg: "step_triple (?Z p z) (degradable (admission policy) ?n c False (register_rootfs (ce_host ce) zone z p)) (\<lambda>_. ?O p z) ?E" for p z c
    unfolding assms(2) by (rule step_triple_true) (auto dest: register_rootfs_strict)
  have req: "step_triple (?O p z) (shim_request (ce_host ce) ?n q) (\<lambda>_. ?O p z) ?E" for p z q
    by (rule step_triple_true) (auto dest: shim_request_owned)
  have fin: "step_triple (?O p z) (of_result r) ?Q ?E" for p z and r :: "ContainerHandle rresult"
    by (rule step_triple_true) (auto simp: of_result_def get_zone_id_def)
  have build: "step_triple ?S (build_container ce cid zone spec policy c (lb_root b0) config) ?Q ?E" for c config
    unfolding build_container_def Let_def
    by (intro bind_triple [OF root] bind_triple [OF dns] bind_triple [OF pure] bind_triple [OF mounts] bind_triple [OF id]
        bind_triple [OF reg] bind_triple [OF req] fin)
  have "step_triple (\<lambda>b. p = policy \<and> ?S b) (\<lambda>b. build_container ce cid zone spec p c (lb_root b) (lb_config b) b) ?Q ?E" for p c
    by (rule at_state_triple [where F = "\<lambda>b. build_container ce cid zone spec p c (lb_root b) (lb_config b)"])
      (auto intro: step_triple_cons [OF build])
  then show ?thesis unfolding lb_create_container_def Let_def
    by (intro bind_triple [OF shim] bind_triple [OF pol] bind_triple [OF caps])
qed



subsection \<open>Links of the image\<close>

text \<open>An image whose \<open>/etc/resolv.conf\<close> is a link to \<open>/etc/passwd\<close>, and a zone ready to run it.\<close>

definition demo_link_files :: file_system where
  "demo_link_files =
    [([''img''], NDir), ([''img'', ''etc''], NDir), ([''img'', ''etc'', ''resolv.conf''], NSymlink ''/etc/passwd''),
     ([''etc''], NDir), ([''etc'', ''passwd''], NFile ''root:x:0:0'')]"

definition demo_link_spec :: ContainerSpec where
  "demo_link_spec =
    \<lparr>cs_name = ''c'', cs_image = ''img'', cs_command = [], cs_env = [], cs_working_dir = None, cs_rootfs_path = Some ''img'',
     cs_overlay_layers = None\<rparr>"

definition demo_cenv :: "unit container_env" where
  "demo_cenv =
    \<lparr>ce_host = demo_env\<lparr>he_net := demo_tools\<lparr>nt_exists := \<lambda>_ _. True\<rparr>\<rparr>,
     ce_mount = \<lparr>ma_overlay = (\<lambda>_ _. Inr ()), ma_private = (\<lambda>_. Inr ()), ma_umount = (\<lambda>_. Inr ())\<rparr>, ce_union = (\<lambda>_ _ fs. fs),
     ce_dir_faults = \<lparr>df_mkdir = (\<lambda>_. None), df_open = (\<lambda>_. None), df_write = (\<lambda>_. None), df_rename = (\<lambda>_. None)\<rparr>, ce_known_cap = (\<lambda>_. True), ce_mode = (\<lambda>_. 0),
     ce_default_mounts = [], ce_spec_json = (\<lambda>_. Inr ''{}''), ce_exe_dir = None, ce_project_root = ''/'',
     ce_spawn = (\<lambda>_ _ _ w. (Inr (), w)), ce_tick = (\<lambda>w. w)\<rparr>"

definition demo_container_lb :: "unit LinuxBackend" where
  "demo_container_lb = demo_isolated\<lparr>lb_files := demo_link_files\<rparr>"

definition demo_rootfs :: fpath where
  "demo_rootfs = [''var'', ''zones'', ''web'', ''containers'', ''c1'', ''rootfs'']"

definition demo_copied_files :: file_system where
  "demo_copied_files =
    (demo_rootfs @ [''etc'', ''resolv.conf''], NSymlink ''/etc/passwd'') # (demo_rootfs @ [''etc''], NDir) # (demo_rootfs, NDir) #
    ([''var'', ''zones'', ''web'', ''containers'', ''c1''], NDir) # ([''var'', ''zones'', ''web'', ''containers''], NDir) #
    ([''var'', ''zones'', ''web''], NDir) # ([''var'', ''zones''], NDir) # ([''var''], NDir) # demo_link_files"

lemma demo_copied: "copy_rootfs (\<lambda>_. None) [''img''] demo_rootfs demo_link_files = (Inr (), demo_copied_files)"
  by (simp add: copy_rootfs_def demo_link_files_def demo_rootfs_def mk_dirs_def dir_names_def children_def host_stat_def last_entry_def
      make_link_def fs_put_def path_bytes_def PATH_MAX_def Let_def demo_copied_files_def)

lemma demo_resolv_target: "walk_create 40 demo_copied_files [] (demo_rootfs @ [''etc'', ''resolv.conf'']) = Inr [''etc'', ''passwd'']"
  by (simp add: demo_copied_files_def demo_rootfs_def demo_link_files_def starts_with_def)

lemma demo_etc_exists: "make_dirs demo_copied_files [] (demo_rootfs @ [''etc'']) = (Inr (), demo_copied_files)"
  by (simp add: demo_copied_files_def demo_rootfs_def demo_link_files_def)

lemma demo_write:
  "write_resolv_conf demo_cenv dns demo_rootfs demo_copied_files =
    fs_put [''etc'', ''passwd''] (NFile (generate_resolv_conf_with_fallback None dns)) demo_copied_files"
proof -
  have "host_resolv demo_copied_files = None"
    by (simp add: host_resolv_def demo_copied_files_def demo_rootfs_def demo_link_files_def)
  moreover have "map_of demo_copied_files [''etc'', ''passwd''] \<noteq> Some NDir"
    by (simp add: demo_copied_files_def demo_rootfs_def demo_link_files_def)
  ultimately show ?thesis
    using demo_resolv_target demo_etc_exists
    by (simp add: write_resolv_conf_def mk_dirs_def fs_write_def put_file_def demo_cenv_def demo_env_def Let_def del: walk_create.simps make_dirs.simps)
qed

lemma demo_prepared:
  "prepare_rootfs demo_cenv [''var'', ''zones'', ''web'', ''containers'', ''c1''] demo_link_spec demo_link_files = (Inr demo_rootfs, demo_copied_files)"
proof -
  have "demo_rootfs = [''var'', ''zones'', ''web'', ''containers'', ''c1''] @ [''rootfs'']" by (simp add: demo_rootfs_def)
  then show ?thesis using demo_copied
    by (simp add: prepare_rootfs_def demo_link_spec_def demo_cenv_def demo_env_def bind_step_def ret_def Let_def)
qed

lemma demo_shim:
  "shim_request (ce_host demo_cenv) n q b = (Inr ShimOk, b\<lparr>lb_cgroup := set_procs (\<lambda>_. None) (lb_cgroup b)\<rparr>)"
  "ensure_shim demo_cenv n b = (Inr (), b\<lparr>lb_cgroup := set_procs (\<lambda>_. None) (lb_cgroup b)\<rparr>)"
  by (simp_all add: ensure_shim_def shim_request_def demo_cenv_def demo_env_def)

lemma demo_registered:
  assumes "le_ebpf (lb_enforcer b) \<noteq> None"
  shows "\<exists>b'. register_rootfs (ce_host demo_cenv) zone z p b = (Inr (), b') \<and> lb_files b' = lb_files b"
  using assms
  by (auto simp: register_rootfs_def bind_step_def asks_def demo_cenv_def demo_env_def collect_rootfs_inodes_def in_enforcer_def on_part_def
      le_insert_inodes_def with_bpf_def modify_st_def add_inodes_def ret_def)

lemma demo_container:
  "\<exists>h b'. lb_create_container demo_cenv ''c1'' demo_handle demo_link_spec demo_container_lb = (Inr h, b') \<and>
    map_of (lb_files b') [''etc'', ''passwd''] = Some (NFile (generate_resolv_conf_with_fallback None [''1.1.1.1'', ''8.8.8.8'']))"
proof -
  have state: "zone_policies demo_container_lb ''web'' = Some demo_host_policy" "lb_root demo_container_lb = [''var'']"
    "lb_files demo_container_lb = demo_link_files" "nc_dns_fallback (dc_network (lb_config demo_container_lb)) = [''1.1.1.1'', ''8.8.8.8'']"
    "le_ebpf (lb_enforcer demo_container_lb) \<noteq> None" "zone_id_map demo_container_lb = [(''u'', 1)]"
    by (simp_all add: demo_container_lb_def demo_isolated_maps(1))
      (simp_all add: demo_isolated_def part_simps demo_lb_def DaemonConfig_default_def NetworkConfig_default_def)
  have policy: "oci_capabilities known demo_host_policy = Inr \<lparr>lc_bounding = [], lc_effective = [], lc_inheritable = [], lc_permitted = [], lc_ambient = []\<rparr>"
    "oci_seccomp demo_host_policy l = Inr None" "admission demo_host_policy = Strict" "oci_mounts hf md [] demo_host_policy p roots fs = (Inr [], fs)" for known l hf md p roots fs
    by (simp_all add: demo_host_policy_def ZonePolicy_default_def oci_capabilities_def oci_seccomp_def oci_mounts_def FilesystemPolicy_default_def)
  let ?fs = "fs_put [''etc'', ''passwd''] (NFile (generate_resolv_conf_with_fallback None [''1.1.1.1'', ''8.8.8.8''])) demo_copied_files"
  let ?b = "demo_container_lb\<lparr>lb_cgroup := set_procs (\<lambda>_. None) (lb_cgroup demo_container_lb), lb_files := ?fs\<rparr>"
  obtain b' where b': "register_rootfs (ce_host demo_cenv) demo_handle 1 demo_rootfs ?b = (Inr (), b')" "lb_files b' = ?fs"
    using demo_registered [of ?b demo_handle 1 demo_rootfs] state(5) by auto
  have "\<exists>h b''. lb_create_container demo_cenv ''c1'' demo_handle demo_link_spec demo_container_lb = (Inr h, b'') \<and> lb_files b'' = ?fs"
    using b' demo_prepared demo_write [of "[''1.1.1.1'', ''8.8.8.8'']"]
    by (simp add: lb_create_container_def build_container_def Let_def bind_step_def demo_shim asks_def of_result_def in_files_def on_part_def modify_st_def
        state policy degradable_def get_zone_id_def demo_cenv_def [THEN arg_cong, of ce_default_mounts] demo_cenv_def [THEN arg_cong, of ce_spec_json])
  then show ?thesis by (auto simp: fs_put_def)
qed



end
