(* ===== verification/Linux_Isolation.thy ===== *)
theory Linux_Isolation
  imports Zone_Isolation Linux_Reports
begin

text \<open>
  The Linux backend as the isolation backend of the zone registry: the operations of the contract are those of
  \<open>Linux_Backend\<close> and \<open>Linux_Containers\<close>, and they keep it.
\<close>

text \<open>\<open>fresh\<close> draws a UUID.\<close>

definition LinuxIsolation ::
  "'w container_env \<Rightarrow> (ShimResponse \<Rightarrow> string) \<Rightarrow> ('w LinuxBackend \<Rightarrow> string) \<Rightarrow> 'w LinuxBackend IsolationBackend" where
  "LinuxIsolation ce show_response fresh =
    \<lparr>ib_create_zone = (\<lambda>config b. lb_create_zone (ce_host ce) (fresh b) config b),
     ib_destroy_zone = lb_destroy_zone (ce_host ce),
     ib_enforce_policy = lb_enforce_policy (ce_host ce),
     ib_hot_reload_policy = lb_hot_reload_policy (ce_host ce),
     ib_create_container = (\<lambda>zone spec b. lb_create_container ce (fresh b) zone spec b),
     ib_start_container = lb_start_container show_response (ce_host ce),
     ib_stop_container = lb_stop_container show_response (ce_host ce),
     ib_zone_stats = (\<lambda>zone b. and_then (lb_zone_stats zone b)
       (\<lambda>s. Inr \<lparr>zs_memory_limit_bytes = cs_memory_limit_bytes s, zs_memory_usage_bytes = cs_memory_usage_bytes s\<rparr>)),
     ib_recover_zone = lb_recover_zone (ce_host ce),
     ib_cleanup_orphans = lb_cleanup_orphans (ce_host ce)\<rparr>"

definition linux_enforced :: "ZoneHandle \<Rightarrow> ZonePolicy \<Rightarrow> 'w LinuxBackend \<Rightarrow> bool" where
  "linux_enforced h policy b \<longleftrightarrow> (\<exists>z t. get_zone_id (zh_id h) b = Some z \<and> zone_enforced h z t policy b)"

definition cgroup_gone :: "string \<Rightarrow> 'w LinuxBackend \<Rightarrow> bool" where
  "cgroup_gone name b \<longleftrightarrow> cg_dirs (lb_cgroup b) (cg_zone_path name) = None"

lemma linux_enforced_kernel: "linux_enforced h p b \<Longrightarrow> same_kernel b b' \<Longrightarrow> linux_enforced h p b'"
proof -
  assume "linux_enforced h p b" and k: "same_kernel b b'"
  moreover have "zone_id_map b' = zone_id_map b" using k by (simp add: same_kernel_def)
  ultimately show ?thesis unfolding linux_enforced_def get_zone_id_def using zone_enforced_kernel [OF _ k] by (metis (no_types, lifting))
qed

text \<open>Only the processes and the files of the cgroups changed.\<close>

lemma linux_enforced_cgroup:
  assumes "linux_enforced h p b" "\<And>q c. cg_dirs (lb_cgroup b) q = Some c \<Longrightarrow> \<exists>c'. cg_dirs (lb_cgroup b') q = Some c' \<and> cg_ino c' = cg_ino c"
    "lb_enforcer b' = lb_enforcer b" "zone_id_map b' = zone_id_map b"
  shows "linux_enforced h p b'"
proof -
  obtain z t where z: "get_zone_id (zh_id h) b = Some z" "zone_enforced h z t p b" using assms(1) by (auto simp: linux_enforced_def)
  then obtain c where "cg_dirs (lb_cgroup b) (cg_zone_path (zh_name h)) = Some c" "cg_ino c = zh_platform_id h" by (auto simp: zone_enforced_def)
  with assms(2) [OF this(1)] z show ?thesis unfolding linux_enforced_def zone_enforced_def get_zone_id_def assms(3,4) by auto
qed

lemma in_cgroup_enforced:
  assumes "linux_enforced h p b" "in_cgroup m b = (r, b')" "cgroups_kept (lb_cgroup b) (lb_cgroup b')"
  shows "linux_enforced h p b'"
  using assms(2) kept_dir [OF assms(3)] by (intro linux_enforced_cgroup [OF assms(1)]) (auto simp: part_simps)

lemma set_procs_enforced: "linux_enforced h p b \<Longrightarrow> linux_enforced h p (b\<lparr>lb_world := w, lb_cgroup := set_procs procs (lb_cgroup b)\<rparr>)"
  by (rule linux_enforced_cgroup) (auto simp: set_procs_def)

lemma shim_request_enforced: "linux_enforced h p b \<Longrightarrow> linux_enforced h p (snd (shim_request he n q b))"
  by (simp add: shim_request_def set_procs_enforced split: prod.split)

subsection \<open>New policies\<close>

lemma new_policy_enforced:
  assumes "linux_enforced h p b" "get_zone_id (zh_id h) b = Some z" "to_enforcement policy = Inr enf" "le_ebpf (lb_enforcer b) = Some mgr"
    "e' = (lb_enforcer b)\<lparr>le_ebpf := Some (mgr\<lparr>bpf := (bpf mgr)\<lparr>ZONE_POLICY := (ZONE_POLICY (bpf mgr))(z \<mapsto> enforcement_to_kernel enf)\<rparr>\<rparr>)\<rparr>"
  shows "linux_enforced h policy (b\<lparr>lb_enforcer := e'\<rparr>)"
  using assms by (auto simp: linux_enforced_def zone_enforced_def get_zone_id_def)

lemma apply_enforcement_ok:
  assumes "apply_zone_enforcement z enf e = (Inr x, e')"
  obtains mgr where "le_ebpf e = Some mgr"
    "e' = e\<lparr>le_ebpf := Some (mgr\<lparr>bpf := (bpf mgr)\<lparr>ZONE_POLICY := (ZONE_POLICY (bpf mgr))(z \<mapsto> enforcement_to_kernel enf)\<rparr>\<rparr>)\<rparr>"
  using assms unfolding apply_zone_enforcement_def
  by (auto simp: set_zone_policy_kernel_def elim!: with_bpf_Inr dest!: map_op_ok)

lemma hot_reload_ok:
  assumes "le_hot_reload_policy z policy e = (Inr x, e')"
  obtains mgr enf where "le_ebpf e = Some mgr" "to_enforcement policy = Inr enf"
    "e' = e\<lparr>le_ebpf := Some (mgr\<lparr>bpf := (bpf mgr)\<lparr>ZONE_POLICY := (ZONE_POLICY (bpf mgr))(z \<mapsto> enforcement_to_kernel enf)\<rparr>\<rparr>)\<rparr>"
  using assms unfolding le_hot_reload_policy_def hot_reload_policy_def
  by (auto simp: set_zone_policy_def policy_to_kernel_def result_simps set_zone_policy_kernel_def elim!: with_bpf_Inr dest!: map_op_ok split: sum.splits)

lemma rest_of_policy_enforced:
  assumes "linux_enforced h p b" "sync_bpf_allowed_comms z net b = (Inr (), b1)" "apply_nftables_for_zone he h policy b1 = (Inr (), b2)"
    "in_cgroup (apply_resources n res) b2 = (Inr (), b3)"
  shows "linux_enforced h p b3"
proof -
  have "linux_enforced h p b2"
    using linux_enforced_kernel [OF linux_enforced_kernel [OF assms(1) sync_same_kernel [OF assms(2)]] core_same_kernel [OF nftables_core [OF assms(3)]]] .
  moreover have "cgroups_kept (lb_cgroup b2) (lb_cgroup b3)"
    using assms(4) apply_resources_kept [of "lb_cgroup b2" n res] by (auto simp: part_simps)
  ultimately show ?thesis using in_cgroup_enforced assms(4) by blast
qed

lemma store_policy_enforced [simp]: "linux_enforced h p (store_policy n policy b) = linux_enforced h p b"
  by (simp add: linux_enforced_def zone_enforced_def get_zone_id_def store_policy_def)

lemma enforce_policy_enforces:
  assumes "linux_enforced h p b" "lb_enforce_policy he h policy b = (Inr x, b')"
  shows "linux_enforced h policy b'"
proof -
  obtain z enf e b1 b2 b3 where
    "get_zone_id (zh_id h) b = Some z" "to_enforcement policy = Inr enf" "apply_zone_enforcement z enf (lb_enforcer b) = (Inr (), e)"
    "sync_bpf_allowed_comms z (zpol_network policy) (b\<lparr>lb_enforcer := e\<rparr>) = (Inr (), b1)" "apply_nftables_for_zone he h policy b1 = (Inr (), b2)"
    "in_cgroup (apply_resources (zh_name h) (zpol_resources policy)) b2 = (Inr (), b3)" "b' = store_policy (zh_name h) policy b3"
    using assms(2) unfolding lb_enforce_policy_def bind_step_Inr
    by (auto simp: asks_def of_result_def in_enforcer_iff modify_st_def ok_or_Inr admit_def)
  then show ?thesis
    using rest_of_policy_enforced new_policy_enforced [OF assms(1)] apply_enforcement_ok
    by (metis store_policy_enforced)
qed

lemma hot_reload_enforces:
  assumes "linux_enforced h p b" "lb_hot_reload_policy he h policy b = (Inr x, b')"
  shows "linux_enforced h policy b'"
proof -
  obtain z e b1 b2 b3 where
    "get_zone_id (zh_id h) b = Some z" "le_hot_reload_policy z policy (lb_enforcer b) = (Inr (), e)"
    "sync_bpf_allowed_comms z (zpol_network policy) (b\<lparr>lb_enforcer := e\<rparr>) = (Inr (), b1)" "apply_nftables_for_zone he h policy b1 = (Inr (), b2)"
    "in_cgroup (apply_resources (zh_name h) (zpol_resources policy)) b2 = (Inr (), b3)" "b' = store_policy (zh_name h) policy b3"
    using assms(2) unfolding lb_hot_reload_policy_def bind_step_Inr on_error_Inr reload_update_def
    by (auto simp: asks_def in_enforcer_iff modify_st_def ok_or_Inr admit_def)
  then show ?thesis
    using rest_of_policy_enforced new_policy_enforced [OF assms(1)] hot_reload_ok
    by (metis store_policy_enforced)
qed

lemma stop_container_enforced: "linux_enforced h p b \<Longrightarrow> linux_enforced h p (snd (lb_stop_container show_response he c b))"
  using shim_request_enforced [of h p b he]
  by (auto simp: lb_stop_container_def bind_step_def asks_def ret_def fail_def split: prod.split sum.split ShimResponse.split) (metis snd_conv)+

lemma linux_destroy_decides:
  assumes "linux_enforced h p b" "lb_destroy_zone he h b = (r, b')"
  shows "if is_ok r then cgroup_gone (zh_name h) b' else linux_enforced h p b'"
proof (cases r)
  case (Inr x)
  then show ?thesis using teardown_never_unprotects [OF assms(2)] by (simp add: cgroup_gone_def)
next
  case (Inl e)
  let ?b = "shutdown_shim he (zh_name h) b"
  have sh: "linux_enforced h p ?b" using shim_request_enforced [OF assms(1)] assms(1) by (simp add: shutdown_shim_def run_step_def)
  have "in_cgroup (drain_zone (zh_name h)) ?b = (Inl e, b') \<or>
    (\<exists>b1. in_cgroup (drain_zone (zh_name h)) ?b = (Inr (), b1) \<and> in_cgroup (destroy_zone_cgroup (zh_name h)) b1 = (Inl e, b'))"
    using assms(2) Inl by (auto simp: lb_destroy_zone_def Let_def bind_step_Inl modify_st_def)
  moreover have "linux_enforced h p b1" if "in_cgroup (drain_zone (zh_name h)) ?b = (y, b1)" for y b1
    using that drain_zone_kept [of "lb_cgroup ?b" "zh_name h"] by (intro in_cgroup_enforced [OF sh that]) (auto simp: part_simps)
  moreover have "linux_enforced h p b'" if "linux_enforced h p b1" "in_cgroup (destroy_zone_cgroup (zh_name h)) b1 = (Inl e, b')" for b1
    using that by (auto simp: part_simps destroy_zone_cgroup_def cg_rmdir_def Let_def split: if_splits option.splits sum.splits)
  ultimately show ?thesis using Inl by auto
qed

interpretation linux_zones: isolation_contract "LinuxIsolation ce show_response fresh" linux_enforced cgroup_gone for ce show_response fresh
proof unfold_locales
  fix config and b :: "'a LinuxBackend" and h b'
  assume "ib_create_zone (LinuxIsolation ce show_response fresh) config b = (Inr h, b')"
  then have c: "lb_create_zone (ce_host ce) (fresh b) config b = (Inr h, b')" by (simp add: LinuxIsolation_def)
  have "zh_id h = fresh b" "zh_name h = zc_name config" using create_zone_ok [OF c] by metis+
  then show "linux_enforced h (zc_policy config) b' \<and> zh_name h = zc_name config"
    using created_zone_enforced [OF c] by (auto simp: linux_enforced_def)
next
  fix h p and b :: "'a LinuxBackend" and policy x b'
  assume e: "linux_enforced h p b"
  show "ib_enforce_policy (LinuxIsolation ce show_response fresh) h policy b = (Inr x, b') \<Longrightarrow> linux_enforced h policy b'"
    using enforce_policy_enforces [OF e] by (simp add: LinuxIsolation_def)
  show "ib_hot_reload_policy (LinuxIsolation ce show_response fresh) h policy b = (Inr x, b') \<Longrightarrow> linux_enforced h policy b'"
    using hot_reload_enforces [OF e] by (simp add: LinuxIsolation_def)
next
  fix h p and b :: "'a LinuxBackend" and c
  assume "linux_enforced h p b"
  then show "linux_enforced h p (snd (ib_stop_container (LinuxIsolation ce show_response fresh) c b))"
    using stop_container_enforced by (simp add: LinuxIsolation_def)
next
  fix h p and b :: "'a LinuxBackend" and r b'
  assume "linux_enforced h p b" "ib_destroy_zone (LinuxIsolation ce show_response fresh) h b = (r, b')"
  then show "if is_ok r then cgroup_gone (zh_name h) b' else linux_enforced h p b'"
    using linux_destroy_decides [of h p b] by (simp add: LinuxIsolation_def)
qed

text \<open>C7: over the Linux backend, a zone that the registry created is enforced in the kernel under its policy when the call
  returns, and a deletion, whatever fails in it, leaves the zone enforced or its cgroup gone.\<close>

theorem registry_zones_are_enforced:
  "(\<forall>zone r'. registry_create_zone (LinuxIsolation ce show_response fresh) get_fault put_fault name t policy r = (Inr zone, r') \<longrightarrow>
     (\<exists>h. map_of (zr_handles r') name = Some h \<and> zh_id h = zone_id zone \<and> linux_enforced h policy (zr_backend r'))) \<and>
   (\<forall>h p x r'. map_of (zr_handles r) name = Some h \<and> linux_enforced h p (zr_backend r) \<and>
      registry_delete_zone (LinuxIsolation ce show_response fresh) faults name force r = (x, r') \<longrightarrow>
     linux_enforced h p (zr_backend r') \<or> cgroup_gone (zh_name h) (zr_backend r'))"
  by (intro conjI allI impI; (elim conjE)?; (rule linux_zones.deleting_never_unprotects)?) (auto dest: linux_zones.created_is_enforced)

definition demo_stored_zone :: Zone where
  "demo_stored_zone = \<lparr>zone_id = ''u'', zone_name = ''web'', zone_type = NonGlobal, zone_state = Ready, zone_policy = demo_host_policy,
     zone_network_state = None\<rparr>"

theorem registry_zones_are_enforced_witness:
  "\<exists>r :: unit LinuxBackend ZoneRegistry. linux_enforced demo_handle demo_host_policy (zr_backend r) \<and>
    (let r' = snd (registry_delete_zone (LinuxIsolation demo_cenv (\<lambda>_. []) (\<lambda>_. ''u''))
        \<lparr>df_get = None, df_list = None, df_log = \<lambda>_. None, df_container = \<lambda>_. None, df_zone = None\<rparr> ''web'' False r)
     in linux_enforced demo_handle demo_host_policy (zr_backend r') \<or> cgroup_gone ''web'' (zr_backend r'))"
proof -
  obtain b where b: "lb_create_zone demo_env ''u'' demo_zone_config (demo_lb empty_cgroups) = (Inr demo_handle, b)" using demo_zone_created by blast
  let ?ms = "\<lparr>ms_zones = [(''web'', Some demo_stored_zone)], ms_containers = [], ms_results = [], ms_recovery = []\<rparr>"
  let ?r = "(new_registry ?ms b)\<lparr>zr_handles := [(''web'', demo_handle)]\<rparr>"
  have "linux_enforced demo_handle demo_host_policy (zr_backend ?r)"
    using created_zone_enforced [OF b] by (auto simp: linux_enforced_def new_registry_def demo_zone_config_def)
  moreover have "map_of (zr_handles ?r) ''web'' = Some demo_handle" by simp
  ultimately show ?thesis
    using registry_zones_are_enforced [of demo_cenv "\<lambda>_. []" "\<lambda>_. ''u''" None None "''web''" NonGlobal demo_host_policy ?r
        "\<lparr>df_get = None, df_list = None, df_log = \<lambda>_. None, df_container = \<lambda>_. None, df_zone = None\<rparr>" False]
    unfolding Let_def by (metis (no_types, lifting) demo_handle_fields(2) prod.collapse)
qed

end
