(* ===== verification/Spec2Isabelle.thy ===== *)
theory Spec2Isabelle
  imports Run_Protocol Linux_Enforcer Daemon_Config Broker_Judge Evidence_Journal Evidence_Receipt Zone_Registry Oci_Rootfs Oci_Runtime Shim_State
    Linux_Isolation
begin

text \<open>
  Rauha: a verification development of the sandbox runtime under \<open>src/\<close>.
\<close>

end
